(* ===== verification/Prelude.thy ===== *)
theory Prelude
  imports Main "HOL-Library.Sublist" "HOL-Library.List_Lexorder" "HOL-Library.Char_ord" "HOL-Library.Product_Lexorder"
begin

text \<open>
  What the component theories share: the model of JavaScript strings and of the string
  methods the source calls, generic facts on lists, and the collections of hints.

  A JavaScript string is a list of 8-bit code units here (\<open>string\<close>); the operations below
  are those of the ECMAScript string methods restricted to code units under 256. Strings are
  ordered by \<open>HOL-Library.List_Lexorder\<close> over \<open>Char_ord\<close>, which is the code-unit order of
  the operator \<open><\<close> on strings. A JavaScript number that the code only ever uses as an
  integer (an instant in milliseconds, a counter, a row id) is an \<open>int\<close> or a \<open>nat\<close>.
\<close>

named_theorems js_defs "unfolding rules of the string helpers"

section \<open>String helpers\<close>

text \<open>\<open>s.startsWith(p)\<close> and \<open>s.endsWith(p)\<close>.\<close>

abbreviation starts_with :: "string \<Rightarrow> string \<Rightarrow> bool" where
  "starts_with s p \<equiv> prefix p s"

abbreviation ends_with :: "string \<Rightarrow> string \<Rightarrow> bool" where
  "ends_with s p \<equiv> suffix p s"

text \<open>\<open>s.split(c)\<close> for a one-character separator: never the empty list.\<close>

fun split_on :: "'a \<Rightarrow> 'a list \<Rightarrow> 'a list list" where
  "split_on c [] = [[]]"
| "split_on c (x # xs) =
     (if x = c then [] # split_on c xs
      else (case split_on c xs of [] \<Rightarrow> [[x]] | y # ys \<Rightarrow> (x # y) # ys))"

text \<open>\<open>parts.join(c)\<close> for a one-character separator.\<close>

fun join_with :: "'a \<Rightarrow> 'a list list \<Rightarrow> 'a list" where
  "join_with c [] = []"
| "join_with c [x] = x"
| "join_with c (x # y # zs) = x @ c # join_with c (y # zs)"

text \<open>\<open>s.lastIndexOf(c)\<close>: \<open>None\<close> stands for \<open>-1\<close>.\<close>

fun last_index_of :: "'a \<Rightarrow> 'a list \<Rightarrow> nat option" where
  "last_index_of c [] = None"
| "last_index_of c (x # xs) =
     (case last_index_of c xs of
        Some i \<Rightarrow> Some (Suc i)
      | None \<Rightarrow> if x = c then Some 0 else None)"

text \<open>\<open>const at = s.indexOf(c); s.slice(0, at), s.slice(at + 1)\<close>; \<open>None\<close> where \<open>at < 0\<close>.\<close>

definition cut_at :: "'a \<Rightarrow> 'a list \<Rightarrow> ('a list \<times> 'a list) option" where
  "cut_at c s = (if c \<in> set s then Some (takeWhile (\<lambda>x. x \<noteq> c) s, tl (dropWhile (\<lambda>x. x \<noteq> c) s)) else None)"

text \<open>One character of a lower-case hexadecimal word, and a decimal digit.\<close>

definition hex_char :: "char \<Rightarrow> bool" where
  "hex_char c \<longleftrightarrow> (CHR ''0'' \<le> c \<and> c \<le> CHR ''9'') \<or> (CHR ''a'' \<le> c \<and> c \<le> CHR ''f'')"

definition digit_char :: "char \<Rightarrow> bool" where
  "digit_char c \<longleftrightarrow> CHR ''0'' \<le> c \<and> c \<le> CHR ''9''"

text \<open>\<open>String(n)\<close> of a natural number below \<open>10^21\<close>, and \<open>Number(s)\<close> of a word of digits.\<close>

definition digit :: "nat \<Rightarrow> char" where "digit n = char_of (48 + n)"

fun dec :: "nat \<Rightarrow> string" where
  "dec n = (if n < 10 then [digit n] else dec (n div 10) @ [digit (n mod 10)])"

declare dec.simps [simp del]

definition undec :: "string \<Rightarrow> nat" where
  "undec s = foldl (\<lambda>a c. a * 10 + (of_char c - 48)) 0 s"

text \<open>The shape \<open>/^(?:0|[1-9][0-9]*)$/\<close>.\<close>

definition canonical_dec :: "string \<Rightarrow> bool" where
  "canonical_dec s \<longleftrightarrow> s \<noteq> [] \<and> list_all digit_char s \<and> (hd s = CHR ''0'' \<longrightarrow> length s = 1)"

section \<open>Facts about the helpers\<close>

lemma split_on_not_Nil [simp]: "split_on c xs \<noteq> []"
  by (cases xs) (auto split: list.split)

lemma join_with_Cons_char: "join_with c ((x # y) # ys) = x # join_with c (y # ys)"
  by (cases ys) auto

lemma join_with_Nil_Cons: "ys \<noteq> [] \<Longrightarrow> join_with c ([] # ys) = c # join_with c ys"
  by (cases ys) auto

lemma join_split_on [simp]: "join_with c (split_on c xs) = xs"
proof (induction xs)
  case Nil
  then show ?case by simp
next
  case (Cons x xs)
  then show ?case
    by (cases "split_on c xs") (simp_all add: join_with_Cons_char join_with_Nil_Cons)
qed

lemma split_on_inject [simp]: "split_on c xs = split_on c ys \<longleftrightarrow> xs = ys"
  by (metis join_split_on)

lemma split_on_no_sep: "c \<notin> set xs \<Longrightarrow> split_on c xs = [xs]"
  by (induction xs) auto

lemma set_split_on: "y \<in> set (split_on c xs) \<Longrightarrow> c \<notin> set y"
  by (induction xs arbitrary: y) (auto split: if_splits list.splits)

lemma split_on_append_sep: "split_on c (xs @ c # ys) = split_on c xs @ split_on c ys"
  by (induction xs) (auto split: list.split simp: neq_Nil_conv)

lemma join_with_append:
  "xs \<noteq> [] \<Longrightarrow> ys \<noteq> [] \<Longrightarrow> join_with c (xs @ ys) = join_with c xs @ c # join_with c ys"
  by (induction c xs rule: join_with.induct) (auto simp: neq_Nil_conv)

text \<open>
  One path is a directory above another exactly when its segments are a proper prefix of the
  other's: the fact that makes string-prefix arithmetic containment.
\<close>

lemma prefix_sep_split:
  "prefix (a @ [c]) b \<longleftrightarrow> strict_prefix (split_on c a) (split_on c b)"
proof
  assume "prefix (a @ [c]) b"
  then obtain z where "b = a @ c # z" by (auto simp: prefix_def)
  then have "split_on c b = split_on c a @ split_on c z"
    by (simp add: split_on_append_sep)
  then show "strict_prefix (split_on c a) (split_on c b)"
    by (simp add: strict_prefix_def prefix_def)
next
  assume "strict_prefix (split_on c a) (split_on c b)"
  then obtain z where z: "split_on c b = split_on c a @ z" "z \<noteq> []"
    by (metis strict_prefix_def prefix_def append_Nil2)
  then have "b = join_with c (split_on c a @ z)"
    by (metis join_split_on)
  with z(2) have "b = a @ c # join_with c z"
    by (simp add: join_with_append)
  then show "prefix (a @ [c]) b" by (simp add: prefix_def)
qed

lemma last_index_of_None [simp]: "last_index_of c xs = None \<longleftrightarrow> c \<notin> set xs"
  by (induction xs) (auto split: option.splits)

lemma last_index_of_Some:
  "last_index_of c xs = Some i \<Longrightarrow>
     i < length xs \<and> xs ! i = c \<and> c \<notin> set (drop (Suc i) xs)"
proof (induction xs arbitrary: i)
  case Nil
  then show ?case by simp
next
  case (Cons x xs)
  show ?case
  proof (cases "last_index_of c xs")
    case None
    with Cons.prems show ?thesis by (auto split: if_splits)
  next
    case (Some j)
    with Cons.prems Cons.IH[of j] show ?thesis by auto
  qed
qed

lemma cut_at_append: "c \<notin> set a \<Longrightarrow> cut_at c (a @ c # b) = Some (a, b)"
  by (induction a) (auto simp: cut_at_def)

lemma cut_at_Some: "cut_at c s = Some (a, b) \<longleftrightarrow> s = a @ c # b \<and> c \<notin> set a"
proof
  assume s: "cut_at c s = Some (a, b)"
  then have "c \<in> set s" "a = takeWhile (\<lambda>x. x \<noteq> c) s" "b = tl (dropWhile (\<lambda>x. x \<noteq> c) s)"
    by (auto simp: cut_at_def split: if_splits)
  then show "s = a @ c # b \<and> c \<notin> set a"
    by (induction s arbitrary: a) auto
qed (simp add: cut_at_append)

lemma cut_at_None [simp]: "cut_at c s = None \<longleftrightarrow> c \<notin> set s"
  by (simp add: cut_at_def)

lemma digit_sel [simp]:
  "n < 10 \<Longrightarrow> of_char (digit n) = 48 + n" "n < 10 \<Longrightarrow> digit_char (digit n)"
  "n < 10 \<Longrightarrow> digit n = CHR ''0'' \<longleftrightarrow> n = 0"
proof -
  assume n: "n < 10"
  show s: "of_char (digit n) = 48 + n" using n by (simp add: digit_def)
  show "digit_char (digit n)" using s n by (simp add: digit_char_def less_eq_char_def)
  have "digit n = CHR ''0'' \<longleftrightarrow> of_char (digit n) = (of_char (CHR ''0'') :: nat)" by (simp only: of_char_eq_iff)
  then show "digit n = CHR ''0'' \<longleftrightarrow> n = 0" using s by simp
qed

lemma digit_of_char: "digit_char c \<Longrightarrow> digit (of_char c - 48) = c \<and> of_char c - 48 < (10::nat)"
  by (auto simp: digit_char_def digit_def less_eq_char_def)

lemma undec_snoc [simp]: "undec (s @ [c]) = undec s * 10 + (of_char c - 48)"
  by (simp add: undec_def)

lemma undec_dec [simp]: "undec (dec n) = n"
  by (induction n rule: dec.induct) (subst dec.simps, simp add: undec_def)

lemma dec_not_Nil [simp]: "dec n \<noteq> []"
  by (subst dec.simps) simp

lemma dec_digits: "list_all digit_char (dec n)"
  by (induction n rule: dec.induct) (subst dec.simps, simp)

lemma hd_dec: "n > 0 \<Longrightarrow> hd (dec n) \<noteq> CHR ''0''"
proof (induction n rule: dec.induct)
  case (1 n)
  show ?case
  proof (cases "n < 10")
    case True
    with 1(2) show ?thesis by (subst dec.simps) simp
  next
    case False
    with 1(1) show ?thesis by (subst dec.simps) simp
  qed
qed

lemma canonical_dec_dec [simp]: "canonical_dec (dec n)"
  by (cases "n = 0") (auto simp: canonical_dec_def dec_digits hd_dec, simp add: dec.simps)

lemma dec_undec: "canonical_dec s \<Longrightarrow> dec (undec s) = s"
proof (induction s rule: rev_induct)
  case Nil
  then show ?case by (simp add: canonical_dec_def)
next
  case (snoc c s)
  have c: "digit (of_char c - 48) = c" "of_char c - 48 < (10::nat)"
    using snoc.prems digit_of_char[of c] by (auto simp: canonical_dec_def)
  show ?case
  proof (cases "s = []")
    case True
    with c show ?thesis by (simp add: undec_def, subst dec.simps) simp
  next
    case False
    then have cs: "canonical_dec s" and h: "hd s \<noteq> CHR ''0''" using snoc.prems by (auto simp: canonical_dec_def)
    from snoc.IH[OF cs] h have pos: "undec s > 0"
      by (cases "undec s = 0") (auto simp: dec.simps)
    from snoc.IH[OF cs] c pos show ?thesis by (subst dec.simps) simp
  qed
qed

lemma digit_not_in_dec: "\<not> digit_char c \<Longrightarrow> c \<notin> set (dec n)"
  using dec_digits[of n] by (auto simp: list_all_iff)

section \<open>Facts about lists\<close>

lemma sum_list_filter_le:
  fixes f :: "'a \<Rightarrow> nat"
  shows "sum_list (map f (filter P xs)) \<le> sum_list (map f xs)"
  by (induction xs) auto

lemma map_of_map_key: "map_of (map (\<lambda>x. (f x, x)) xs) k = find (\<lambda>x. f x = k) xs"
  by (induction xs) auto

lemma find_Some_set: "find P xs = Some x \<Longrightarrow> x \<in> set xs \<and> P x"
  by (induction xs) (auto split: if_splits)

lemma find_None_iff_ball: "find P xs = None \<longleftrightarrow> (\<forall>x \<in> set xs. \<not> P x)"
  by (induction xs) auto

lemma find_append: "find P (xs @ ys) = (case find P xs of Some x \<Rightarrow> Some x | None \<Rightarrow> find P ys)"
  by (induction xs) auto

text \<open>
  \<open>if (!xs.includes(x)) xs.push(x)\<close> over a list: first occurrences, in order.
\<close>

definition push_new :: "'a list \<Rightarrow> 'a \<Rightarrow> 'a list" where
  "push_new xs x = (if x \<in> set xs then xs else xs @ [x])"

lemma set_push_new [simp]: "set (push_new xs x) = insert x (set xs)"
  by (auto simp: push_new_def)

lemma distinct_push_new [simp]: "distinct (push_new xs x) = distinct xs"
  by (auto simp: push_new_def)

lemma set_foldl_push_new [simp]: "set (foldl push_new acc xs) = set acc \<union> set xs"
  by (induction xs arbitrary: acc) auto

lemma distinct_foldl_push_new [simp]: "distinct (foldl push_new acc xs) = distinct acc"
  by (induction xs arbitrary: acc) auto

section \<open>Machines with an invariant\<close>

text \<open>
  The contract several components share: a set of start states, a step relation and an
  invariant that the start states have and every step keeps. What a component proves about
  its reachable states it proves once, here. \<open>inv_machine_frame\<close> adds a reflexive and
  transitive relation every step respects (what a run can only grow, or never changes).
\<close>

lemma two_steps: "r a b \<Longrightarrow> r b c \<Longrightarrow> r\<^sup>*\<^sup>* a c"
  by (rule rtranclp.rtrancl_into_rtrancl [OF r_into_rtranclp])

locale inv_machine =
  fixes start :: "'s \<Rightarrow> bool"
    and step :: "'s \<Rightarrow> 's \<Rightarrow> bool"
    and inv :: "'s \<Rightarrow> bool"
  assumes inv_start: "start s \<Longrightarrow> inv s"
    and inv_step: "inv s \<Longrightarrow> step s t \<Longrightarrow> inv t"
begin

lemma inv_steps: "step\<^sup>*\<^sup>* s t \<Longrightarrow> inv s \<Longrightarrow> inv t"
  by (induction rule: rtranclp_induct) (auto intro: inv_step)

lemma inv_reach: "start s \<Longrightarrow> step\<^sup>*\<^sup>* s t \<Longrightarrow> inv t"
  using inv_start inv_steps by blast

end

locale inv_machine_frame = inv_machine start step inv
  for start :: "'s \<Rightarrow> bool" and step and inv +
  fixes grows :: "'s \<Rightarrow> 's \<Rightarrow> bool"
  assumes grows_refl: "grows s s"
    and grows_trans: "grows s t \<Longrightarrow> grows t u \<Longrightarrow> grows s u"
    and grows_step: "inv s \<Longrightarrow> step s t \<Longrightarrow> grows s t"
begin

lemma grows_steps: "step\<^sup>*\<^sup>* s t \<Longrightarrow> inv s \<Longrightarrow> grows s t"
proof (induction rule: rtranclp_induct)
  case base
  show ?case by (rule grows_refl)
next
  case (step t u)
  then show ?case using inv_steps grows_step grows_trans by blast
qed

end

end
