(* ===== verification/Claims.thy ===== *)
theory Claims
  imports Prelude
begin

text \<open>
  The claim decisions of \<open>server/src/coord/claims.ts\<close>: the path grammar, the conflict rule,
  the all-or-nothing decision on one request and the table that ends or extends one claim's
  lease. All of it is pure: the store (theory \<open>ClaimStore\<close>) runs it inside a transaction.
\<close>

section \<open>Data\<close>

text \<open>\<open>PeerDeliverable\<close>: \<open>'yes'\<close>, \<open>'unknown'\<close> or \<open>`no:${reason}`\<close>.\<close>

datatype peer_deliverable = DYes | DUnknown | DNo string

record mail_hint =
  mh_toId :: string
  mh_subject :: string

record claim_row =
  c_id :: nat
  c_project :: string
  c_paths :: "string list"
  c_heldBy :: string
  c_heldByUuid :: string
  c_intent :: string
  c_runId :: "nat option"
  c_expiresAt :: int
  c_holderDeliverable :: peer_deliverable

record claim_request =
  q_project :: string
  q_paths :: "string list"
  q_sessionId :: string

record claim_conflict =
  x_path :: string
  x_claimedPath :: string
  x_claimId :: nat
  x_heldBy :: string
  x_heldByUuid :: string
  x_intent :: string
  x_runId :: "nat option"
  x_expiresAt :: int
  x_deliverable :: peer_deliverable
  x_mailHint :: "mail_hint option"

datatype claim_decision =
    Granted "string list"
  | BadPath "string list"
  | Conflict "claim_conflict list"

section \<open>Paths\<close>

text \<open>\<open>while (p.startsWith('./')) p = p.slice(2)\<close>.\<close>

fun strip_dot_slash :: "string \<Rightarrow> string" where
  "strip_dot_slash (a # b # xs) =
     (if a = CHR ''.'' \<and> b = CHR ''/'' then strip_dot_slash xs else a # b # xs)"
| "strip_dot_slash xs = xs"

text \<open>\<open>while (p.endsWith('/')) p = p.slice(0, -1)\<close>.\<close>

definition strip_trailing_slash :: "string \<Rightarrow> string" where
  "strip_trailing_slash p = rev (dropWhile (\<lambda>c. c = CHR ''/'') (rev p))"

definition bad_segment :: "string \<Rightarrow> bool" where
  "bad_segment s \<longleftrightarrow> s = [] \<or> s = ''.'' \<or> s = ''..''"

definition normalizeClaimPath :: "string \<Rightarrow> string option" where
  "normalizeClaimPath raw =
     (let p = strip_trailing_slash (strip_dot_slash raw) in
      if p = [] \<or> p = ''.'' then None
      else if starts_with p ''/'' then None
      else let segs = split_on (CHR ''/'') p in
           if list_ex bad_segment segs then None else Some p)"

definition pathsOverlap :: "string \<Rightarrow> string \<Rightarrow> bool" where
  "pathsOverlap a b \<longleftrightarrow>
     a = b \<or> starts_with b (a @ ''/'') \<or> starts_with a (b @ ''/'')"

section \<open>The decision on one request\<close>

definition claimMailHint :: "string \<Rightarrow> string \<Rightarrow> peer_deliverable \<Rightarrow> mail_hint option" where
  "claimMailHint path heldBy deliverable =
     (case deliverable of
        DNo _ \<Rightarrow> None
      | _ \<Rightarrow> Some \<lparr>mh_toId = heldBy, mh_subject = ''claim conflict: '' @ path\<rparr>)"

definition conflict_of :: "string \<Rightarrow> claim_row \<Rightarrow> string \<Rightarrow> claim_conflict" where
  "conflict_of path c claimedPath =
     \<lparr>x_path = path, x_claimedPath = claimedPath, x_claimId = c_id c, x_heldBy = c_heldBy c,
      x_heldByUuid = c_heldByUuid c, x_intent = c_intent c, x_runId = c_runId c,
      x_expiresAt = c_expiresAt c, x_deliverable = c_holderDeliverable c,
      x_mailHint = claimMailHint path (c_heldBy c) (c_holderDeliverable c)\<rparr>"

text \<open>
  The three nested loops of \<open>decideClaim\<close>, threading the set \<open>seen\<close> of
  \<open>(path, claim id)\<close> keys and the list of conflicts. The source's key is the string
  \<open>`${path}\x00${c.id}`\<close>; a decimal id holds no NUL, so that string and the pair
  determine each other.
\<close>

type_synonym conflict_acc = "(string \<times> nat) list \<times> claim_conflict list"

fun scan_claimed :: "string \<Rightarrow> claim_row \<Rightarrow> string list \<Rightarrow> conflict_acc \<Rightarrow> conflict_acc" where
  "scan_claimed path c [] acc = acc"
| "scan_claimed path c (claimedPath # rest) (seen, conflicts) =
     (if \<not> pathsOverlap path claimedPath then scan_claimed path c rest (seen, conflicts)
      else if (path, c_id c) \<in> set seen then scan_claimed path c rest (seen, conflicts)
      else scan_claimed path c rest
             ((path, c_id c) # seen, conflicts @ [conflict_of path c claimedPath]))"

fun scan_rows :: "claim_request \<Rightarrow> string \<Rightarrow> claim_row list \<Rightarrow> conflict_acc \<Rightarrow> conflict_acc" where
  "scan_rows req path [] acc = acc"
| "scan_rows req path (c # rest) acc =
     (if c_project c \<noteq> q_project req then scan_rows req path rest acc
      else if c_heldBy c = q_sessionId req then scan_rows req path rest acc
      else scan_rows req path rest (scan_claimed path c (c_paths c) acc))"

fun scan_paths :: "claim_request \<Rightarrow> claim_row list \<Rightarrow> string list \<Rightarrow> conflict_acc \<Rightarrow> conflict_acc" where
  "scan_paths req existing [] acc = acc"
| "scan_paths req existing (path # rest) acc =
     scan_paths req existing rest (scan_rows req path existing acc)"

text \<open>The normalized, deduplicated path set, in first-seen order.\<close>

definition request_paths :: "string list \<Rightarrow> string list" where
  "request_paths ps = foldl push_new [] (List.map_filter normalizeClaimPath ps)"

definition decideClaim :: "claim_row list \<Rightarrow> claim_request \<Rightarrow> claim_decision" where
  "decideClaim existing req =
     (let bad = filter (\<lambda>p. normalizeClaimPath p = None) (q_paths req) in
      if bad \<noteq> [] then BadPath bad
      else let paths = request_paths (q_paths req);
               conflicts = snd (scan_paths req existing paths ([], [])) in
           if conflicts \<noteq> [] then Conflict conflicts else Granted paths)"

section \<open>The lease of one claim\<close>

datatype liveness_verdict = Running | Gone | Unmeasurable

datatype row_standing = Here | Doubt | Asleep | StandGone

fun claimVerdictOf :: "row_standing \<Rightarrow> liveness_verdict" where
  "claimVerdictOf Here = Running"
| "claimVerdictOf Doubt = Unmeasurable"
| "claimVerdictOf Asleep = Gone"
| "claimVerdictOf StandGone = Gone"

datatype claim_expiry_decision =
    Renew int
  | Lapse string
  | Hold

text \<open>\<open>CLAIM_LEASE_MS\<close> and \<open>CLAIM_HARD_CAP_MS\<close> of \<open>shared/api.ts\<close>: 45 minutes, 8 hours.\<close>

definition CLAIM_LEASE_MS :: int where "CLAIM_LEASE_MS = 45 * 60000"
definition CLAIM_HARD_CAP_MS :: int where "CLAIM_HARD_CAP_MS = 8 * 60 * 60000"

definition claimExpiry :: "int \<Rightarrow> int \<Rightarrow> int \<Rightarrow> liveness_verdict \<Rightarrow> claim_expiry_decision" where
  "claimExpiry expiresAt hardExpiresAt now verdict =
     (if now \<ge> hardExpiresAt then Lapse ''hard-cap''
      else case verdict of
        Running \<Rightarrow>
          (let nxt = min (now + CLAIM_LEASE_MS) hardExpiresAt in
           if nxt > expiresAt then Renew nxt else Hold)
      | Gone \<Rightarrow> if now \<ge> expiresAt then Lapse ''session-gone'' else Hold
      | Unmeasurable \<Rightarrow> Hold)"

section \<open>What the path grammar promises\<close>

text \<open>A path set claims accept: the fixed points of \<open>normalizeClaimPath\<close>.\<close>

definition normal_path :: "string \<Rightarrow> bool" where
  "normal_path p \<longleftrightarrow> p \<noteq> [] \<and> (\<forall>s \<in> set (split_on (CHR ''/'') p). \<not> bad_segment s)"

lemma bad_segment_simps [simp]:
  "bad_segment []" "bad_segment ''.''" "bad_segment ''..''"
  by (simp_all add: bad_segment_def)

lemma normal_path_no_lead:
  assumes "normal_path p"
  shows "\<not> prefix ''/'' p" "\<not> prefix ''./'' p" "\<not> suffix ''/'' p" "p \<noteq> ''.''"
proof -
  from assms have ok: "s \<in> set (split_on (CHR ''/'') p) \<Longrightarrow> \<not> bad_segment s" for s
    by (simp add: normal_path_def)
  show "\<not> prefix ''/'' p"
  proof
    assume "prefix ''/'' p"
    then obtain z where "p = [] @ CHR ''/'' # z" by (auto simp: prefix_def)
    then have "[] \<in> set (split_on (CHR ''/'') p)"
      by (simp only: split_on_append_sep) simp
    then show False using ok by fastforce
  qed
  show "\<not> prefix ''./'' p"
  proof
    assume "prefix ''./'' p"
    then obtain z where "p = ''.'' @ CHR ''/'' # z" by (auto simp: prefix_def)
    then have "''.'' \<in> set (split_on (CHR ''/'') p)"
      by (simp only: split_on_append_sep) simp
    then show False using ok by fastforce
  qed
  show "\<not> suffix ''/'' p"
  proof
    assume "suffix ''/'' p"
    then obtain z where "p = z @ CHR ''/'' # []" by (auto simp: suffix_def)
    then have "[] \<in> set (split_on (CHR ''/'') p)"
      by (simp only: split_on_append_sep) simp
    then show False using ok by fastforce
  qed
  show "p \<noteq> ''.''" using ok by fastforce
qed

lemma strip_dot_slash_id: "\<not> prefix ''./'' p \<Longrightarrow> strip_dot_slash p = p"
  by (cases p rule: strip_dot_slash.cases) auto

lemma strip_trailing_slash_id: "\<not> suffix ''/'' p \<Longrightarrow> strip_trailing_slash p = p"
  unfolding strip_trailing_slash_def suffix_to_prefix
  by (cases "rev p") (auto simp: rev_swap)

lemma normalizeClaimPath_Some:
  "normalizeClaimPath raw = Some p \<Longrightarrow> normal_path p"
  by (auto simp: normalizeClaimPath_def normal_path_def Let_def list_ex_iff split: if_splits)

lemma normalizeClaimPath_normal: "normal_path p \<Longrightarrow> normalizeClaimPath p = Some p"
  using normal_path_no_lead[of p]
  by (auto simp: normalizeClaimPath_def strip_dot_slash_id strip_trailing_slash_id
      normal_path_def Let_def list_ex_iff)

lemma normal_path_iff: "normal_path p \<longleftrightarrow> normalizeClaimPath p = Some p"
  using normalizeClaimPath_Some normalizeClaimPath_normal by blast

text \<open>
  Overlap is containment of directories: one path's segments are a prefix of the other's.
\<close>

lemma pathsOverlap_segments:
  "pathsOverlap a b \<longleftrightarrow>
     prefix (split_on (CHR ''/'') a) (split_on (CHR ''/'') b) \<or>
     prefix (split_on (CHR ''/'') b) (split_on (CHR ''/'') a)"
  unfolding pathsOverlap_def prefix_sep_split
  by (metis prefix_order.dual_order.order_iff_strict split_on_inject)

lemma pathsOverlap_refl [simp]: "pathsOverlap a a"
  by (simp add: pathsOverlap_def)

lemma pathsOverlap_sym: "pathsOverlap a b = pathsOverlap b a"
  by (auto simp: pathsOverlap_def)

section \<open>What the decision promises\<close>

text \<open>The relation the conflict scan decides: a row of another holder covers the path.\<close>

definition blocks :: "claim_request \<Rightarrow> string \<Rightarrow> claim_row \<Rightarrow> bool" where
  "blocks req path c \<longleftrightarrow>
     c_project c = q_project req \<and> c_heldBy c \<noteq> q_sessionId req \<and>
     list_ex (pathsOverlap path) (c_paths c)"

definition acc_keys :: "conflict_acc \<Rightarrow> (string \<times> nat) set" where
  "acc_keys acc = (\<lambda>x. (x_path x, x_claimId x)) ` set (snd acc)"

definition acc_ok :: "conflict_acc \<Rightarrow> bool" where
  "acc_ok acc \<longleftrightarrow> set (fst acc) = acc_keys acc \<and>
     distinct (map (\<lambda>x. (x_path x, x_claimId x)) (snd acc))"

lemma conflict_of_sel [simp]:
  "x_path (conflict_of p c q) = p" "x_claimId (conflict_of p c q) = c_id c"
  "x_heldBy (conflict_of p c q) = c_heldBy c" "x_claimedPath (conflict_of p c q) = q"
  by (simp_all add: conflict_of_def)

lemma scan_claimed_ok:
  "acc_ok acc \<Longrightarrow> acc_ok (scan_claimed path c qs acc) \<and>
     acc_keys (scan_claimed path c qs acc) =
       acc_keys acc \<union> (if list_ex (pathsOverlap path) qs then {(path, c_id c)} else {})"
proof (induction path c qs acc rule: scan_claimed.induct)
  case (1 path c acc)
  then show ?case by simp
next
  case (2 path c q rest seen conflicts)
  show ?case
  proof (cases "pathsOverlap path q \<and> (path, c_id c) \<notin> set seen")
    case True
    have "acc_ok ((path, c_id c) # seen, conflicts @ [conflict_of path c q])"
      using 2(4) True by (auto simp: acc_ok_def acc_keys_def)
    with 2(3) True show ?thesis by (auto simp: acc_keys_def)
  next
    case False
    with 2 show ?thesis by (auto simp: acc_ok_def)
  qed
qed

lemma scan_rows_ok:
  "acc_ok acc \<Longrightarrow> acc_ok (scan_rows req path cs acc) \<and>
     acc_keys (scan_rows req path cs acc) =
       acc_keys acc \<union> {(path, c_id c) |c. c \<in> set cs \<and> blocks req path c}"
proof (induction req path cs acc rule: scan_rows.induct)
  case (1 req path acc)
  then show ?case by simp
next
  case (2 req path c rest acc)
  then show ?case
    using scan_claimed_ok[of acc path c "c_paths c"] by (auto simp: blocks_def)
qed

lemma scan_paths_ok:
  "acc_ok acc \<Longrightarrow> acc_ok (scan_paths req cs ps acc) \<and>
     acc_keys (scan_paths req cs ps acc) =
       acc_keys acc \<union> {(p, c_id c) |p c. p \<in> set ps \<and> c \<in> set cs \<and> blocks req p c}"
proof (induction ps arbitrary: acc)
  case Nil
  then show ?case by simp
next
  case (Cons p ps)
  note row = scan_rows_ok[OF Cons.prems, of req p cs]
  from Cons.IH[OF row[THEN conjunct1]] row show ?case by auto
qed

lemma set_request_paths:
  "set (request_paths ps) = {p. \<exists>r \<in> set ps. normalizeClaimPath r = Some p}"
  unfolding request_paths_def by (force simp: List.map_filter_def)

lemma distinct_request_paths [simp]: "distinct (request_paths ps)"
  by (simp add: request_paths_def)

lemma scan_paths_start:
  "acc_ok (scan_paths req cs ps ([], []))"
  "(\<lambda>x. (x_path x, x_claimId x)) ` set (snd (scan_paths req cs ps ([], []))) =
     {(p, c_id c) |p c. p \<in> set ps \<and> c \<in> set cs \<and> blocks req p c}"
  using scan_paths_ok[of "([], [])" req cs ps] by (auto simp: acc_ok_def acc_keys_def)

lemma decideClaim_Granted:
  "decideClaim cs req = Granted ps \<longleftrightarrow>
     (\<forall>r \<in> set (q_paths req). normalizeClaimPath r \<noteq> None) \<and>
     ps = request_paths (q_paths req) \<and>
     (\<forall>p \<in> set ps. \<forall>c \<in> set cs. \<not> blocks req p c)"
  (is "?L \<longleftrightarrow> ?R")
proof -
  let ?ps = "request_paths (q_paths req)"
  let ?xs = "snd (scan_paths req cs ?ps ([], []))"
  have "?xs = [] \<longleftrightarrow> (\<lambda>x. (x_path x, x_claimId x)) ` set ?xs = {}" by simp
  also have "\<dots> \<longleftrightarrow> (\<forall>p \<in> set ?ps. \<forall>c \<in> set cs. \<not> blocks req p c)"
    unfolding scan_paths_start(2) by auto
  finally have *: "?xs = [] \<longleftrightarrow> (\<forall>p \<in> set ?ps. \<forall>c \<in> set cs. \<not> blocks req p c)" .
  show ?thesis
    unfolding decideClaim_def Let_def using * by (auto simp: filter_empty_conv)
qed

section \<open>The decision as a contract\<close>

text \<open>C1: A claim request is decided all or nothing. It is granted exactly when every path is
  well formed and no live row of another session in the same project overlaps one of them;
  the granted set holds the normal forms of the requested paths, each once; and a refusal
  for conflict names every pair of a requested path and a blocking claim exactly once.\<close>

theorem decideClaim_contract:
  "case decideClaim existing req of
     Granted ps \<Rightarrow>
       distinct ps \<and> (\<forall>p \<in> set ps. normal_path p) \<and>
       set ps = {p. \<exists>r \<in> set (q_paths req). normalizeClaimPath r = Some p} \<and>
       (\<forall>p \<in> set ps. \<forall>c \<in> set existing. \<not> blocks req p c)
   | BadPath bad \<Rightarrow>
       bad \<noteq> [] \<and> bad = filter (\<lambda>r. normalizeClaimPath r = None) (q_paths req)
   | Conflict xs \<Rightarrow>
       xs \<noteq> [] \<and> distinct (map (\<lambda>x. (x_path x, x_claimId x)) xs) \<and>
       (\<lambda>x. (x_path x, x_claimId x)) ` set xs =
         {(p, c_id c) |p c. p \<in> set (request_paths (q_paths req)) \<and> c \<in> set existing \<and> blocks req p c}"
proof (cases "decideClaim existing req")
  case (Granted ps)
  moreover from this have "set ps = {p. \<exists>r \<in> set (q_paths req). normalizeClaimPath r = Some p}"
    and "distinct ps" and "\<forall>p \<in> set ps. \<forall>c \<in> set existing. \<not> blocks req p c"
    by (simp_all add: decideClaim_Granted set_request_paths)
  ultimately show ?thesis by (auto dest: normalizeClaimPath_Some)
next
  case (BadPath bad)
  then show ?thesis by (auto simp: decideClaim_def Let_def split: if_splits)
next
  case (Conflict xs)
  then have "xs \<noteq> []" "xs = snd (scan_paths req existing (request_paths (q_paths req)) ([], []))"
    by (auto simp: decideClaim_def Let_def split: if_splits)
  with Conflict scan_paths_start[of req existing "request_paths (q_paths req)"]
  show ?thesis by (simp add: acc_ok_def)
qed

theorem decideClaim_contract_witness:
  "\<exists>c xs. decideClaim [c] \<lparr>q_project = ''demo'', q_paths = [''shared/api.ts''], q_sessionId = ''me''\<rparr> = Conflict xs \<and>
     (\<lambda>x. (x_path x, x_claimId x)) ` set xs = {(''shared/api.ts'', 3)}"
proof -
  let ?c = "\<lparr>c_id = 3, c_project = ''demo'', c_paths = [''shared''], c_heldBy = ''other'', c_heldByUuid = ''u'',
    c_intent = ''refactor'', c_runId = None, c_expiresAt = 0, c_holderDeliverable = DUnknown\<rparr>"
  let ?r = "\<lparr>q_project = ''demo'', q_paths = [''shared/api.ts''], q_sessionId = ''me''\<rparr>"
  obtain xs where xs: "decideClaim [?c] ?r = Conflict xs"
    by (simp add: decideClaim_def Let_def normalizeClaimPath_def strip_trailing_slash_def bad_segment_def
        request_paths_def List.map_filter_def push_new_def pathsOverlap_def)
  have p: "request_paths [''shared/api.ts''] = [''shared/api.ts'']"
    by (simp add: normalizeClaimPath_def strip_trailing_slash_def bad_segment_def request_paths_def
        List.map_filter_def push_new_def)
  have b: "blocks ?r ''shared/api.ts'' ?c"
    by (simp add: blocks_def pathsOverlap_def)
  from decideClaim_contract[where existing = "[?c]" and req = ?r] b
  have "(\<lambda>x. (x_path x, x_claimId x)) ` set xs = {(''shared/api.ts'', 3)}"
    unfolding xs by (auto simp: p)
  with xs show ?thesis by blast
qed

text \<open>C2: On the paths the normaliser accepts, the overlap test is containment of directories:
  two paths overlap exactly when the segments of one are a prefix of the segments of the
  other. Normalising is idempotent, so a stored path normalises to itself.\<close>

theorem normalized_overlap_is_containment:
  assumes "normalizeClaimPath r = Some a" and "normalizeClaimPath s = Some b"
  shows "normalizeClaimPath a = Some a \<and>
    (pathsOverlap a b \<longleftrightarrow>
      (\<exists>zs. split_on (CHR ''/'') b = split_on (CHR ''/'') a @ zs) \<or>
      (\<exists>zs. split_on (CHR ''/'') a = split_on (CHR ''/'') b @ zs))"
proof
  show "normalizeClaimPath a = Some a"
    by (rule normalizeClaimPath_normal [OF normalizeClaimPath_Some [OF assms(1)]])
  show "pathsOverlap a b \<longleftrightarrow>
      (\<exists>zs. split_on (CHR ''/'') b = split_on (CHR ''/'') a @ zs) \<or>
      (\<exists>zs. split_on (CHR ''/'') a = split_on (CHR ''/'') b @ zs)"
    unfolding pathsOverlap_segments prefix_def by auto
qed

theorem normalized_overlap_is_containment_witness:
  "normalizeClaimPath ''./shared/'' = Some ''shared'' \<and>
   normalizeClaimPath ''shared/api.ts'' = Some ''shared/api.ts'' \<and>
   normalizeClaimPath ''shared'' = Some ''shared'' \<and> pathsOverlap ''shared'' ''shared/api.ts''"
proof -
  have a: "normalizeClaimPath ''./shared/'' = Some ''shared''" by code_simp
  have b: "normalizeClaimPath ''shared/api.ts'' = Some ''shared/api.ts''" by code_simp
  have "split_on (CHR ''/'') ''shared/api.ts'' = split_on (CHR ''/'') ''shared'' @ [''api.ts'']"
    by simp
  then have "pathsOverlap ''shared'' ''shared/api.ts''"
    using normalized_overlap_is_containment [OF a b] by blast
  then show ?thesis using a b normalized_overlap_is_containment [OF a b] by blast
qed

text \<open>The lease table. At or past the hard cap a claim lapses whatever was measured;
  before it, only a measured absence past the standing lease ends a claim; doubt never
  changes it; and a renewal moves the lease forward, never past the hard cap and never
  further than one lease from now.\<close>

theorem claimExpiry_table:
  "(now \<ge> hard \<longrightarrow> claimExpiry lease hard now v = Lapse ''hard-cap'') \<and>
   (now < hard \<longrightarrow>
      (claimExpiry lease hard now v = Lapse w \<longleftrightarrow> v = Gone \<and> lease \<le> now \<and> w = ''session-gone'') \<and>
      (claimExpiry lease hard now v = Renew e \<longrightarrow>
         v = Running \<and> lease < e \<and> e \<le> hard \<and> e \<le> now + CLAIM_LEASE_MS) \<and>
      claimExpiry lease hard now Unmeasurable = Hold)"
  by (cases v) (auto simp: claimExpiry_def Let_def)

theorem claimExpiry_table_witness:
  "claimExpiry 10 100 200 Running = Lapse ''hard-cap'' \<and>
   claimExpiry 10 100 20 Gone = Lapse ''session-gone'' \<and>
   claimExpiry 10 100 20 Running = Renew 100 \<and> claimExpiry 10 100 20 Unmeasurable = Hold"
  using claimExpiry_table[of 100 200 10 Running "''hard-cap''" 0]
    claimExpiry_table[of 100 20 10 Gone "''session-gone''" 0]
    claimExpiry_table[of 100 20 10 Running "''x''" 100]
  by (simp add: claimExpiry_def CLAIM_LEASE_MS_def)

end
