(* ===== verification/ClaimStore.thy ===== *)
theory ClaimStore
  imports Claims
begin

text \<open>
  The claim tables of \<open>server/src/coord/store.ts\<close> and the two lease sweeps of
  \<open>server/src/watch.ts\<close>. A database state holds the rows of \<open>claims\<close> and
  \<open>claim_paths\<close> in rowid order (rows are only ever appended, so \<open>ORDER BY id\<close> and
  \<open>ORDER BY rowid\<close> are the list order) and the AUTOINCREMENT counter. Each SQL statement is
  one definition; an operation composes them in the code's order, inside one transaction: a
  thrown error (a row that cannot be read back, the unique index refusing an insert) is the
  answer \<open>AttemptThrew\<close> with the state the transaction began with, as \<open>tx\<close> rolls back.
\<close>

section \<open>State\<close>

text \<open>The stored state word; \<open>Foreign\<close> is a token outside \<open>CLAIM_STATES\<close>.\<close>

datatype claim_state = Live | Released | Lapsed | Broken | Foreign string

record claim_rec =
  k_id :: nat
  k_project :: string
  k_heldBy :: string
  k_heldByUuid :: string
  k_intent :: string
  k_runId :: "nat option"
  k_state :: claim_state
  k_createdAt :: int
  k_renewedAt :: int
  k_expiresAt :: int
  k_hardExpiresAt :: int
  k_endedAt :: "int option"
  k_endedBy :: "string option"

record claim_path =
  p_claimId :: nat
  p_project :: string
  p_path :: string
  p_live :: bool

record claim_db =
  db_claims :: "claim_rec list"
  db_paths :: "claim_path list"
  db_seq :: nat

type_synonym claim_summary = "claim_rec \<times> string list"

datatype attempt_result =
    AttemptOk "claim_summary list"
  | AttemptBadPath "string list"
  | AttemptConflict "claim_conflict list"
  | AttemptThrew

datatype claim_end_result =
    EndOk claim_state
  | EndUnknown
  | EndNotLive "claim_state option"

section \<open>Statements\<close>

text \<open>\<open>UPDATE claim_paths SET live = 0 WHERE claimId \<dots>\<close>.\<close>

definition sql_paths_dead :: "(nat \<Rightarrow> bool) \<Rightarrow> claim_db \<Rightarrow> claim_db" where
  "sql_paths_dead P db =
     db\<lparr>db_paths := map (\<lambda>p. if P (p_claimId p) then p\<lparr>p_live := False\<rparr> else p) (db_paths db)\<rparr>"

text \<open>\<open>UPDATE claims SET state, endedAt, endedBy WHERE state = 'live' AND \<dots>\<close>.\<close>

definition end_rec :: "claim_state \<Rightarrow> string \<Rightarrow> int \<Rightarrow> claim_rec \<Rightarrow> claim_rec" where
  "end_rec st endedBy now k =
     k\<lparr>k_state := st, k_endedAt := Some now, k_endedBy := Some endedBy\<rparr>"

definition sql_end_claims ::
  "(claim_rec \<Rightarrow> bool) \<Rightarrow> claim_state \<Rightarrow> string \<Rightarrow> int \<Rightarrow> claim_db \<Rightarrow> claim_db" where
  "sql_end_claims P st endedBy now db =
     db\<lparr>db_claims := map (\<lambda>k. if k_state k = Live \<and> P k then end_rec st endedBy now k else k)
                      (db_claims db)\<rparr>"

text \<open>\<open>SELECT id FROM claims WHERE state = 'live' AND \<dots>\<close> as the subquery of the path update.\<close>

definition live_ids :: "(claim_rec \<Rightarrow> bool) \<Rightarrow> claim_db \<Rightarrow> nat list" where
  "live_ids P db = map k_id (filter (\<lambda>k. k_state k = Live \<and> P k) (db_claims db))"

text \<open>The pair of statements every bulk end writes: the mirror bit first, then the rows.\<close>

definition end_live :: "(claim_rec \<Rightarrow> bool) \<Rightarrow> claim_state \<Rightarrow> string \<Rightarrow> int \<Rightarrow> claim_db \<Rightarrow> claim_db" where
  "end_live P st endedBy now db =
     sql_end_claims P st endedBy now (sql_paths_dead (\<lambda>i. i \<in> set (live_ids P db)) db)"

definition claimPaths :: "nat \<Rightarrow> claim_db \<Rightarrow> string list" where
  "claimPaths i db = map p_path (filter (\<lambda>p. p_claimId p = i) (db_paths db))"

definition hydrateClaim :: "claim_rec \<Rightarrow> string list \<Rightarrow> claim_summary option" where
  "hydrateClaim r paths = (case k_state r of Foreign _ \<Rightarrow> None | _ \<Rightarrow> Some (r, paths))"

definition claimRow :: "nat \<Rightarrow> claim_db \<Rightarrow> claim_summary option" where
  "claimRow i db =
     (case find (\<lambda>k. k_id k = i) (db_claims db) of
        None \<Rightarrow> None
      | Some r \<Rightarrow> hydrateClaim r (claimPaths i db))"

section \<open>Operations\<close>

definition expireLapsedInner :: "int \<Rightarrow> claim_db \<Rightarrow> claim_db" where
  "expireLapsedInner now db =
     end_live (\<lambda>k. k_expiresAt k \<le> now) Lapsed ''expired'' now
       (end_live (\<lambda>k. k_hardExpiresAt k \<le> now) Lapsed ''hard-cap'' now db)"

text \<open>The rows \<open>decideClaim\<close> reads: the project's live claims, with their live paths.\<close>

definition row_of :: "string \<Rightarrow> (string \<Rightarrow> peer_deliverable) \<Rightarrow> claim_db \<Rightarrow> claim_rec \<Rightarrow> claim_row" where
  "row_of project deliverable db k =
     \<lparr>c_id = k_id k, c_project = project,
      c_paths = map p_path (filter (\<lambda>p. p_project p = project \<and> p_live p \<and>
                                        p_claimId p = k_id k) (db_paths db)),
      c_heldBy = k_heldBy k, c_heldByUuid = k_heldByUuid k, c_intent = k_intent k,
      c_runId = k_runId k, c_expiresAt = k_expiresAt k,
      c_holderDeliverable = deliverable (k_heldBy k)\<rparr>"

definition live_rows :: "string \<Rightarrow> (string \<Rightarrow> peer_deliverable) \<Rightarrow> claim_db \<Rightarrow> claim_row list" where
  "live_rows project deliverable db =
     map (row_of project deliverable db)
       (filter (\<lambda>k. k_project k = project \<and> k_state k = Live) (db_claims db))"

record claim_input =
  i_project :: string
  i_paths :: "string list"
  i_sessionId :: string
  i_uuid :: string
  i_runId :: "nat option"
  i_intent :: string

text \<open>Split the granted paths: the ids of own claims to renew, and the paths no own claim holds.\<close>

fun split_paths :: "string \<Rightarrow> claim_row list \<Rightarrow> string list \<Rightarrow> nat list \<times> string list \<Rightarrow> nat list \<times> string list" where
  "split_paths sid live [] acc = acc"
| "split_paths sid live (p # ps) (renewIds, fresh) =
     (case find (\<lambda>c. c_heldBy c = sid \<and> p \<in> set (c_paths c)) live of
        Some own \<Rightarrow> split_paths sid live ps (push_new renewIds (c_id own), fresh)
      | None \<Rightarrow> split_paths sid live ps (renewIds, fresh @ [p]))"

definition sql_renew_own :: "claim_input \<Rightarrow> int \<Rightarrow> nat \<Rightarrow> claim_db \<Rightarrow> claim_db" where
  "sql_renew_own inp now i db =
     db\<lparr>db_claims := map (\<lambda>k. if k_id k = i \<and> k_state k = Live
          then k\<lparr>k_heldByUuid := i_uuid inp, k_runId := i_runId inp, k_intent := i_intent inp,
                 k_renewedAt := now, k_expiresAt := min (now + CLAIM_LEASE_MS) (k_hardExpiresAt k)\<rparr>
          else k) (db_claims db)\<rparr>"

fun renew_all :: "claim_input \<Rightarrow> int \<Rightarrow> nat list \<Rightarrow> claim_db \<Rightarrow> claim_summary list \<Rightarrow>
    (claim_db \<times> claim_summary list) option" where
  "renew_all inp now [] db out = Some (db, out)"
| "renew_all inp now (i # is) db out =
     (let db' = sql_renew_own inp now i db in
      case claimRow i db' of
        None \<Rightarrow> None
      | Some s \<Rightarrow> renew_all inp now is db' (out @ [s]))"

text \<open>\<open>INSERT INTO claims\<close>: the new row takes the next AUTOINCREMENT id.\<close>

definition new_claim :: "claim_input \<Rightarrow> int \<Rightarrow> nat \<Rightarrow> claim_rec" where
  "new_claim inp now i =
     \<lparr>k_id = i, k_project = i_project inp, k_heldBy = i_sessionId inp, k_heldByUuid = i_uuid inp,
      k_intent = i_intent inp, k_runId = i_runId inp, k_state = Live, k_createdAt = now,
      k_renewedAt = now, k_expiresAt = now + CLAIM_LEASE_MS,
      k_hardExpiresAt = now + CLAIM_HARD_CAP_MS, k_endedAt = None, k_endedBy = None\<rparr>"

definition sql_insert_claim :: "claim_input \<Rightarrow> int \<Rightarrow> claim_db \<Rightarrow> claim_db" where
  "sql_insert_claim inp now db =
     db\<lparr>db_claims := db_claims db @ [new_claim inp now (Suc (db_seq db))], db_seq := Suc (db_seq db)\<rparr>"

text \<open>
  \<open>INSERT INTO claim_paths\<close>, one row at a time, under the partial unique index
  \<open>claim_one_owner ON claim_paths(project, path) WHERE live = 1\<close>: \<open>None\<close> is the
  constraint violation.
\<close>

fun sql_insert_paths :: "nat \<Rightarrow> string \<Rightarrow> string list \<Rightarrow> claim_path list \<Rightarrow> claim_path list option" where
  "sql_insert_paths i project [] rows = Some rows"
| "sql_insert_paths i project (p # ps) rows =
     (if list_ex (\<lambda>r. p_live r \<and> p_project r = project \<and> p_path r = p) rows then None
      else sql_insert_paths i project ps
             (rows @ [\<lparr>p_claimId = i, p_project = project, p_path = p, p_live = True\<rparr>]))"

definition insert_fresh :: "claim_input \<Rightarrow> int \<Rightarrow> string list \<Rightarrow> claim_db \<Rightarrow> claim_summary list \<Rightarrow>
    (claim_db \<times> claim_summary list) option" where
  "insert_fresh inp now fresh db out =
     (if fresh = [] then Some (db, out)
      else let db1 = sql_insert_claim inp now db; i = db_seq db1 in
           case sql_insert_paths i (i_project inp) fresh (db_paths db1) of
             None \<Rightarrow> None
           | Some rows \<Rightarrow>
               (let db2 = db1\<lparr>db_paths := rows\<rparr> in
                case claimRow i db2 of None \<Rightarrow> None | Some s \<Rightarrow> Some (db2, out @ [s])))"

definition claimAttempt ::
  "claim_input \<Rightarrow> int \<Rightarrow> (string \<Rightarrow> peer_deliverable) \<Rightarrow> claim_db \<Rightarrow> attempt_result \<times> claim_db" where
  "claimAttempt inp now deliverable db0 =
     (let db = expireLapsedInner now db0;
          live = live_rows (i_project inp) deliverable db in
      case decideClaim live \<lparr>q_project = i_project inp, q_paths = i_paths inp, q_sessionId = i_sessionId inp\<rparr> of
        BadPath ps \<Rightarrow> (AttemptBadPath ps, db)
      | Conflict xs \<Rightarrow> (AttemptConflict xs, db)
      | Granted paths \<Rightarrow>
          (let (renewIds, fresh) = split_paths (i_sessionId inp) live paths ([], []) in
           case renew_all inp now renewIds db [] of
             None \<Rightarrow> (AttemptThrew, db0)
           | Some (db1, out) \<Rightarrow>
               (case insert_fresh inp now fresh db1 out of
                  None \<Rightarrow> (AttemptThrew, db0)
                | Some (db2, out2) \<Rightarrow> (AttemptOk out2, db2))))"

definition state_word :: "claim_state \<Rightarrow> claim_state option" where
  "state_word st = (case st of Foreign _ \<Rightarrow> None | _ \<Rightarrow> Some st)"

definition endClaim :: "nat \<Rightarrow> claim_state \<Rightarrow> string \<Rightarrow> int \<Rightarrow> claim_db \<Rightarrow> claim_end_result \<times> claim_db" where
  "endClaim i st by now db =
     (case find (\<lambda>k. k_id k = i) (db_claims db) of
        None \<Rightarrow> (EndUnknown, db)
      | Some row \<Rightarrow>
          if live_ids (\<lambda>k. k_id k = i) db = [] then (EndNotLive (state_word (k_state row)), db)
          else (EndOk st, sql_paths_dead (\<lambda>j. j = i) (sql_end_claims (\<lambda>k. k_id k = i) st by now db)))"

definition claimRelease :: "nat \<Rightarrow> string \<Rightarrow> int \<Rightarrow> claim_db \<Rightarrow> claim_end_result \<times> claim_db" where
  "claimRelease i by now db = endClaim i Released by now db"

definition claimBreak :: "nat \<Rightarrow> string \<Rightarrow> int \<Rightarrow> claim_db \<Rightarrow> claim_end_result \<times> claim_db" where
  "claimBreak i by now db = endClaim i Broken by now db"

definition activeClaims :: "claim_db \<Rightarrow> claim_summary list" where
  "activeClaims db =
     List.map_filter (\<lambda>r. hydrateClaim r (claimPaths (k_id r) db))
       (filter (\<lambda>k. k_state k = Live) (db_claims db))"

definition claimsForProject :: "string \<Rightarrow> bool \<Rightarrow> claim_db \<Rightarrow> claim_summary list" where
  "claimsForProject project every db =
     List.map_filter (\<lambda>r. hydrateClaim r (claimPaths (k_id r) db))
       (filter (\<lambda>k. k_project k = project \<and> (every \<or> k_state k = Live)) (db_claims db))"

definition allClaims :: "claim_db \<Rightarrow> claim_summary list" where
  "allClaims db = List.map_filter (\<lambda>r. hydrateClaim r (claimPaths (k_id r) db)) (db_claims db)"

definition renewClaimRow :: "nat \<Rightarrow> int \<Rightarrow> int \<Rightarrow> claim_db \<Rightarrow> claim_db" where
  "renewClaimRow i expiresAt at db =
     db\<lparr>db_claims := map (\<lambda>k. if k_id k = i \<and> k_state k = Live
          then k\<lparr>k_renewedAt := at, k_expiresAt := min expiresAt (k_hardExpiresAt k)\<rparr> else k)
          (db_claims db)\<rparr>"

definition lapseClaimRow :: "nat \<Rightarrow> string \<Rightarrow> int \<Rightarrow> claim_db \<Rightarrow> claim_db" where
  "lapseClaimRow i endedBy at db =
     (let db' = sql_end_claims (\<lambda>k. k_id k = i) Lapsed endedBy at db in
      if live_ids (\<lambda>k. k_id k = i) db \<noteq> [] then sql_paths_dead (\<lambda>j. j = i) db' else db')"

definition releaseClaimsForRun :: "nat \<Rightarrow> int \<Rightarrow> claim_db \<Rightarrow> claim_db" where
  "releaseClaimsForRun r at db =
     end_live (\<lambda>k. k_runId k = Some r) Released ''run-closed'' at db"

section \<open>The lease sweeps\<close>

text \<open>
  What one tick knows of a session (\<open>RowStandingFacts\<close>): the identity fields it could not
  measure, the presence word and the lifecycle word.
\<close>

datatype presence = PAlive | PAsleep | PDead | PUnknown

record probe_row =
  s_id :: string
  s_unmeasured :: "string list"
  s_presence :: "presence option"
  s_lifecycle :: "string option"

definition rowStanding :: "probe_row \<Rightarrow> row_standing" where
  "rowStanding row =
     (if length (s_unmeasured row) > 0 then Doubt
      else case s_presence row of
        Some PAlive \<Rightarrow> if s_lifecycle row = Some ''restarting'' then Doubt else Here
      | Some PAsleep \<Rightarrow> Asleep
      | Some PDead \<Rightarrow> StandGone
      | Some PUnknown \<Rightarrow> if s_lifecycle row = Some ''unmeasurable'' then StandGone else Doubt
      | None \<Rightarrow> Doubt)"

text \<open>\<open>new Map(sessions.map(\<dots>))\<close> keeps the last row of an id.\<close>

definition claimProbe :: "probe_row list \<Rightarrow> string set \<Rightarrow> string \<Rightarrow> liveness_verdict" where
  "claimProbe sessions refused i =
     (if i \<in> refused then Unmeasurable
      else case find (\<lambda>s. s_id s = i) (rev sessions) of
        None \<Rightarrow> Gone
      | Some s \<Rightarrow> claimVerdictOf (rowStanding s))"

definition renewing_verdict :: "liveness_verdict \<Rightarrow> liveness_verdict" where
  "renewing_verdict v = (if v = Unmeasurable then Running else v)"

definition renew_one :: "(string \<Rightarrow> liveness_verdict) \<Rightarrow> int \<Rightarrow> claim_rec \<Rightarrow> claim_db \<Rightarrow> claim_db" where
  "renew_one probe now c db =
     (case claimExpiry (k_expiresAt c) (k_hardExpiresAt c) now (renewing_verdict (probe (k_heldBy c))) of
        Renew e \<Rightarrow> renewClaimRow (k_id c) e now db
      | _ \<Rightarrow> db)"

definition renewClaims :: "(string \<Rightarrow> liveness_verdict) \<Rightarrow> int \<Rightarrow> claim_db \<Rightarrow> claim_db" where
  "renewClaims probe now db = foldl (\<lambda>d c. renew_one probe now (fst c) d) db (activeClaims db)"

definition lapse_one :: "(string \<Rightarrow> liveness_verdict) \<Rightarrow> int \<Rightarrow> claim_rec \<Rightarrow> claim_db \<Rightarrow> claim_db" where
  "lapse_one probe now c db =
     (case claimExpiry (k_expiresAt c) (k_hardExpiresAt c) now (probe (k_heldBy c)) of
        Lapse endedBy \<Rightarrow> lapseClaimRow (k_id c) endedBy now db
      | _ \<Rightarrow> db)"

definition lapseClaims :: "(string \<Rightarrow> liveness_verdict) \<Rightarrow> int \<Rightarrow> claim_db \<Rightarrow> claim_db" where
  "lapseClaims probe now db = foldl (\<lambda>d c. lapse_one probe now (fst c) d) db (activeClaims db)"

end
