(* ===== verification/ClaimInv.thy ===== *)
theory ClaimInv
  imports ClaimStore
begin

text \<open>
  What the claim tables keep: the invariant of the two tables, that every statement and every
  operation of \<open>ClaimStore\<close> preserves it, and what follows for the sessions that rely on a
  claim: two sessions never hold overlapping paths, the unique index never fires, an ended
  claim keeps its row.
\<close>

section \<open>The invariant\<close>

definition holds :: "claim_db \<Rightarrow> claim_rec \<Rightarrow> claim_path \<Rightarrow> bool" where
  "holds db k p \<longleftrightarrow> k \<in> set (db_claims db) \<and> k_state k = Live \<and>
     p \<in> set (db_paths db) \<and> p_claimId p = k_id k"

definition ids_ok :: "claim_db \<Rightarrow> bool" where
  "ids_ok db \<longleftrightarrow> distinct (map k_id (db_claims db)) \<and> (\<forall>k \<in> set (db_claims db). k_id k \<le> db_seq db)"

definition mirror_ok :: "claim_db \<Rightarrow> bool" where
  "mirror_ok db \<longleftrightarrow> (\<forall>p \<in> set (db_paths db). \<exists>k \<in> set (db_claims db).
     k_id k = p_claimId p \<and> k_project k = p_project p \<and> (p_live p \<longleftrightarrow> k_state k = Live))"

definition index_ok :: "claim_db \<Rightarrow> bool" where
  "index_ok db \<longleftrightarrow> distinct (map (\<lambda>p. (p_project p, p_path p)) (filter p_live (db_paths db)))"

definition excl_ok :: "claim_db \<Rightarrow> bool" where
  "excl_ok db \<longleftrightarrow> (\<forall>k l p q. holds db k p \<longrightarrow> holds db l q \<longrightarrow> k_project k = k_project l \<longrightarrow>
     k_heldBy k \<noteq> k_heldBy l \<longrightarrow> \<not> pathsOverlap (p_path p) (p_path q))"

definition cap_ok :: "claim_db \<Rightarrow> bool" where
  "cap_ok db \<longleftrightarrow> (\<forall>k \<in> set (db_claims db).
     k_expiresAt k \<le> k_hardExpiresAt k \<and> k_hardExpiresAt k = k_createdAt k + CLAIM_HARD_CAP_MS)"

definition normal_ok :: "claim_db \<Rightarrow> bool" where
  "normal_ok db \<longleftrightarrow> (\<forall>p \<in> set (db_paths db). normal_path (p_path p))"

definition claims_inv :: "claim_db \<Rightarrow> bool" where
  "claims_inv db \<longleftrightarrow> ids_ok db \<and> mirror_ok db \<and> index_ok db \<and> excl_ok db \<and> cap_ok db \<and> normal_ok db"

lemmas claims_inv_defs = claims_inv_def ids_ok_def mirror_ok_def index_ok_def excl_ok_def
  cap_ok_def normal_ok_def

definition empty_db :: claim_db where
  "empty_db = \<lparr>db_claims = [], db_paths = [], db_seq = 0\<rparr>"

lemma claims_inv_empty: "claims_inv empty_db"
  by (simp add: claims_inv_defs empty_db_def holds_def)

lemma id_unique:
  "ids_ok db \<Longrightarrow> k \<in> set (db_claims db) \<Longrightarrow> l \<in> set (db_claims db) \<Longrightarrow> k_id k = k_id l \<Longrightarrow> k = l"
  by (auto simp: ids_ok_def distinct_map inj_on_def)

lemma parent_of:
  assumes "claims_inv db" "k \<in> set (db_claims db)" "p \<in> set (db_paths db)" "p_claimId p = k_id k"
  shows "p_project p = k_project k" "p_live p \<longleftrightarrow> k_state k = Live"
proof -
  obtain l where "l \<in> set (db_claims db)" "k_id l = p_claimId p" "k_project l = p_project p"
    "p_live p \<longleftrightarrow> k_state l = Live"
    using assms(1,3) unfolding claims_inv_def mirror_ok_def by blast
  moreover then have "l = k"
    using assms id_unique unfolding claims_inv_def by metis
  ultimately show "p_project p = k_project k" "p_live p \<longleftrightarrow> k_state k = Live" by auto
qed

lemma find_id:
  "ids_ok db \<Longrightarrow> k \<in> set (db_claims db) \<Longrightarrow> find (\<lambda>l. k_id l = k_id k) (db_claims db) = Some k"
  using id_unique find_None_iff_ball find_Some_set
  by (metis (mono_tags, lifting) option.exhaust)

section \<open>Row-wise updates\<close>

text \<open>
  Every statement but the two inserts row_ok rows in place: it maps a function over each
  table. \<open>row_ok\<close> is what such a pair of functions must respect.
\<close>

definition rewrite :: "(claim_rec \<Rightarrow> claim_rec) \<Rightarrow> (claim_path \<Rightarrow> claim_path) \<Rightarrow> claim_db \<Rightarrow> claim_db" where
  "rewrite f g db = db\<lparr>db_claims := map f (db_claims db), db_paths := map g (db_paths db)\<rparr>"

definition row_ok :: "(claim_rec \<Rightarrow> claim_rec) \<Rightarrow> (claim_path \<Rightarrow> claim_path) \<Rightarrow> claim_db \<Rightarrow> bool" where
  "row_ok f g db \<longleftrightarrow>
     (\<forall>k \<in> set (db_claims db). k_id (f k) = k_id k \<and> k_project (f k) = k_project k \<and>
        k_heldBy (f k) = k_heldBy k \<and> k_createdAt (f k) = k_createdAt k \<and>
        k_hardExpiresAt (f k) = k_hardExpiresAt k \<and>
        (k_expiresAt k \<le> k_hardExpiresAt k \<longrightarrow> k_expiresAt (f k) \<le> k_hardExpiresAt k) \<and>
        (k_state k \<noteq> Live \<longrightarrow> f k = k)) \<and>
     (\<forall>p \<in> set (db_paths db). p_claimId (g p) = p_claimId p \<and> p_project (g p) = p_project p \<and>
        p_path (g p) = p_path p \<and>
        (\<forall>k \<in> set (db_claims db). k_id k = p_claimId p \<longrightarrow>
           (p_live p \<longleftrightarrow> k_state k = Live) \<longrightarrow> (p_live (g p) \<longleftrightarrow> k_state (f k) = Live)))"

lemma row_ok_live: "row_ok f g db \<Longrightarrow> k \<in> set (db_claims db) \<Longrightarrow> k_state (f k) = Live \<Longrightarrow> k_state k = Live"
  unfolding row_ok_def by metis

lemma row_ok_path_live:
  assumes inv: "claims_inv db" and r: "row_ok f g db" and p: "p \<in> set (db_paths db)"
    and live: "p_live (g p)"
  shows "p_live p"
proof -
  obtain k where k: "k \<in> set (db_claims db)" "k_id k = p_claimId p" "p_live p \<longleftrightarrow> k_state k = Live"
    using inv p unfolding claims_inv_def mirror_ok_def by blast
  then have "k_state (f k) = Live" using r p live unfolding row_ok_def by blast
  then show ?thesis using row_ok_live[OF r k(1)] k(3) by blast
qed

lemma distinct_map_filter_subset:
  assumes "distinct (map h (filter P xs))" "\<And>x. x \<in> set xs \<Longrightarrow> h (g x) = h x"
    "\<And>x. x \<in> set xs \<Longrightarrow> P (g x) \<Longrightarrow> P x"
  shows "distinct (map h (filter P (map g xs)))"
  using assms
proof (induction xs)
  case Nil
  then show ?case by simp
next
  case (Cons x xs)
  have "set (map h (filter P (map g xs))) \<subseteq> set (map h (filter P xs))"
    using Cons.prems(2,3) by (auto simp: image_iff)
  with Cons show ?case by (auto split: if_splits)
qed

lemma holds_rewrite:
  assumes inv: "claims_inv db" and r: "row_ok f g db" and h: "holds (rewrite f g db) k' p'"
  obtains k p where "holds db k p" "k_project k' = k_project k" "k_heldBy k' = k_heldBy k"
    "p_path p' = p_path p"
proof -
  from h obtain k p where kp: "k \<in> set (db_claims db)" "p \<in> set (db_paths db)" "k' = f k" "p' = g p"
    "k_state (f k) = Live" "p_claimId (g p) = k_id (f k)"
    unfolding holds_def rewrite_def by auto
  then have "k_state k = Live" using row_ok_live[OF r] by blast
  moreover have "p_claimId p = k_id k" using kp r unfolding row_ok_def by metis
  ultimately have "holds db k p" using kp unfolding holds_def by blast
  moreover have "k_project k' = k_project k" "k_heldBy k' = k_heldBy k" "p_path p' = p_path p"
    using kp r unfolding row_ok_def by blast+
  ultimately show ?thesis using that by blast
qed

lemma rewrite_inv:
  assumes inv: "claims_inv db" and r: "row_ok f g db"
  shows "claims_inv (rewrite f g db)"
proof -
  have ids: "map k_id (map f (db_claims db)) = map k_id (db_claims db)"
    using r by (simp add: row_ok_def)
  have "ids_ok (rewrite f g db)"
    using inv ids r by (auto simp: claims_inv_def ids_ok_def rewrite_def row_ok_def simp del: map_map)
  moreover have "mirror_ok (rewrite f g db)"
  proof -
    { fix p assume p: "p \<in> set (db_paths db)"
      then obtain k where k: "k \<in> set (db_claims db)" "k_id k = p_claimId p"
        "k_project k = p_project p" "p_live p \<longleftrightarrow> k_state k = Live"
        using inv unfolding claims_inv_def mirror_ok_def by blast
      then have "k_id (f k) = p_claimId (g p) \<and> k_project (f k) = p_project (g p) \<and>
          (p_live (g p) \<longleftrightarrow> k_state (f k) = Live)"
        using r p unfolding row_ok_def by metis
      then have "\<exists>k \<in> set (db_claims db). k_id (f k) = p_claimId (g p) \<and>
          k_project (f k) = p_project (g p) \<and> (p_live (g p) \<longleftrightarrow> k_state (f k) = Live)"
        using k(1) by blast }
    then show ?thesis by (simp add: mirror_ok_def rewrite_def)
  qed
  moreover have "index_ok (rewrite f g db)"
    unfolding index_ok_def rewrite_def
    using inv r row_ok_path_live[OF inv r]
    by (auto intro!: distinct_map_filter_subset simp: claims_inv_def index_ok_def row_ok_def)
  moreover have "excl_ok (rewrite f g db)"
    unfolding excl_ok_def
  proof (intro allI impI)
    fix k l p q
    assume "holds (rewrite f g db) k p" "holds (rewrite f g db) l q"
      and eq: "k_project k = k_project l" "k_heldBy k \<noteq> k_heldBy l"
    then obtain k0 p0 l0 q0 where "holds db k0 p0" "holds db l0 q0"
      "k_project k = k_project k0" "k_heldBy k = k_heldBy k0" "p_path p = p_path p0"
      "k_project l = k_project l0" "k_heldBy l = k_heldBy l0" "p_path q = p_path q0"
      using holds_rewrite[OF inv r] by metis
    then show "\<not> pathsOverlap (p_path p) (p_path q)"
      using inv eq unfolding claims_inv_def excl_ok_def by metis
  qed
  moreover have "cap_ok (rewrite f g db)"
    using inv r by (auto simp: claims_inv_def cap_ok_def rewrite_def row_ok_def)
  moreover have "normal_ok (rewrite f g db)"
    using inv r by (auto simp: claims_inv_def normal_ok_def rewrite_def row_ok_def)
  ultimately show ?thesis by (simp add: claims_inv_def)
qed

section \<open>Each statement is a rewrite\<close>

lemma end_live_rewrite:
  "end_live P st by now db =
     rewrite (\<lambda>k. if k_state k = Live \<and> P k then end_rec st by now k else k)
       (\<lambda>p. if p_claimId p \<in> set (live_ids P db) then p\<lparr>p_live := False\<rparr> else p) db"
  by (simp add: end_live_def sql_end_claims_def sql_paths_dead_def rewrite_def)

lemma end_rec_sel [simp]:
  "k_id (end_rec st by now k) = k_id k" "k_project (end_rec st by now k) = k_project k"
  "k_heldBy (end_rec st by now k) = k_heldBy k" "k_state (end_rec st by now k) = st"
  "k_createdAt (end_rec st by now k) = k_createdAt k"
  "k_expiresAt (end_rec st by now k) = k_expiresAt k"
  "k_hardExpiresAt (end_rec st by now k) = k_hardExpiresAt k"
  by (simp_all add: end_rec_def)

lemma live_ids_iff:
  "ids_ok db \<Longrightarrow> k \<in> set (db_claims db) \<Longrightarrow> k_id k \<in> set (live_ids P db) \<longleftrightarrow> k_state k = Live \<and> P k"
  unfolding live_ids_def using id_unique by (fastforce simp: image_iff)

lemma end_live_row_ok:
  assumes "ids_ok db" "st \<noteq> Live"
  shows "row_ok (\<lambda>k. if k_state k = Live \<and> P k then end_rec st by now k else k)
       (\<lambda>p. if p_claimId p \<in> set (live_ids P db) then p\<lparr>p_live := False\<rparr> else p) db"
  using assms live_ids_iff[OF assms(1), of _ P] unfolding row_ok_def by fastforce

lemma end_live_inv: "claims_inv db \<Longrightarrow> st \<noteq> Live \<Longrightarrow> claims_inv (end_live P st by now db)"
  unfolding end_live_rewrite by (intro rewrite_inv end_live_row_ok) (auto simp: claims_inv_def)

lemma expireLapsedInner_inv: "claims_inv db \<Longrightarrow> claims_inv (expireLapsedInner now db)"
  unfolding expireLapsedInner_def by (intro end_live_inv) simp_all

lemma releaseClaimsForRun_inv: "claims_inv db \<Longrightarrow> claims_inv (releaseClaimsForRun r at db)"
  unfolding releaseClaimsForRun_def by (intro end_live_inv) simp_all

text \<open>Ending one claim by id writes the statements in the other order, to the same effect.\<close>

lemma end_one_eq:
  assumes "ids_ok db" "live_ids (\<lambda>k. k_id k = i) db \<noteq> []"
  shows "sql_paths_dead (\<lambda>j. j = i) (sql_end_claims (\<lambda>k. k_id k = i) st by now db) =
         end_live (\<lambda>k. k_id k = i) st by now db"
proof -
  have "set (live_ids (\<lambda>k. k_id k = i) db) = {i}"
    using assms(2) by (auto simp: live_ids_def filter_empty_conv image_iff)
  then show ?thesis by (simp add: end_live_def sql_paths_dead_def sql_end_claims_def)
qed

lemma endClaim_cases:
  assumes "ids_ok db"
  shows "snd (endClaim i st by now db) = db \<or>
    snd (endClaim i st by now db) = end_live (\<lambda>k. k_id k = i) st by now db"
  unfolding endClaim_def using end_one_eq[OF assms] by (auto split: option.splits)

lemma endClaim_inv: "claims_inv db \<Longrightarrow> st \<noteq> Live \<Longrightarrow> claims_inv (snd (endClaim i st by now db))"
  using endClaim_cases[of db i st "by" now] end_live_inv by (metis claims_inv_def)

lemma lapseClaimRow_eq:
  assumes "ids_ok db"
  shows "lapseClaimRow i by at db = end_live (\<lambda>k. k_id k = i) Lapsed by at db"
proof (cases "live_ids (\<lambda>k. k_id k = i) db = []")
  case True
  then show ?thesis
    by (simp add: lapseClaimRow_def end_live_def sql_paths_dead_def)
next
  case False
  then show ?thesis using end_one_eq[OF assms False] by (simp add: lapseClaimRow_def Let_def)
qed

lemma lapseClaimRow_inv: "claims_inv db \<Longrightarrow> claims_inv (lapseClaimRow i by at db)"
  using lapseClaimRow_eq end_live_inv by (metis claims_inv_def claim_state.distinct(3))

lemma renewClaimRow_rewrite:
  "renewClaimRow i e at db =
     rewrite (\<lambda>k. if k_id k = i \<and> k_state k = Live
       then k\<lparr>k_renewedAt := at, k_expiresAt := min e (k_hardExpiresAt k)\<rparr> else k) id db"
  by (simp add: renewClaimRow_def rewrite_def)

lemma renewClaimRow_inv: "claims_inv db \<Longrightarrow> claims_inv (renewClaimRow i e at db)"
  unfolding renewClaimRow_rewrite by (rule rewrite_inv) (auto simp: row_ok_def)

lemma sql_renew_own_rewrite:
  "sql_renew_own inp now i db =
     rewrite (\<lambda>k. if k_id k = i \<and> k_state k = Live
       then k\<lparr>k_heldByUuid := i_uuid inp, k_runId := i_runId inp, k_intent := i_intent inp,
              k_renewedAt := now, k_expiresAt := min (now + CLAIM_LEASE_MS) (k_hardExpiresAt k)\<rparr>
       else k) id db"
  by (simp add: sql_renew_own_def rewrite_def)

lemma sql_renew_own_inv: "claims_inv db \<Longrightarrow> claims_inv (sql_renew_own inp now i db)"
  unfolding sql_renew_own_rewrite by (rule rewrite_inv) (auto simp: row_ok_def)

lemmas rewrite_op_inv = end_live_inv expireLapsedInner_inv releaseClaimsForRun_inv endClaim_inv
  lapseClaimRow_inv renewClaimRow_inv sql_renew_own_inv

lemma renewClaims_inv: "claims_inv db \<Longrightarrow> claims_inv (renewClaims probe now db)"
proof -
  have "claims_inv d \<Longrightarrow> claims_inv (foldl (\<lambda>d c. renew_one probe now (fst c) d) d cs)" for d cs
    by (induction cs arbitrary: d)
      (auto simp: renew_one_def intro: rewrite_op_inv split: claim_expiry_decision.split)
  then show "claims_inv db \<Longrightarrow> claims_inv (renewClaims probe now db)" by (simp add: renewClaims_def)
qed

lemma lapseClaims_inv: "claims_inv db \<Longrightarrow> claims_inv (lapseClaims probe now db)"
proof -
  have "claims_inv d \<Longrightarrow> claims_inv (foldl (\<lambda>d c. lapse_one probe now (fst c) d) d cs)" for d cs
    by (induction cs arbitrary: d)
      (auto simp: lapse_one_def intro: rewrite_op_inv split: claim_expiry_decision.split)
  then show "claims_inv db \<Longrightarrow> claims_inv (lapseClaims probe now db)" by (simp add: lapseClaims_def)
qed

section \<open>One claim attempt\<close>

lemma row_of_sel [simp]:
  "c_id (row_of pr d db k) = k_id k" "c_project (row_of pr d db k) = pr"
  "c_heldBy (row_of pr d db k) = k_heldBy k"
  by (simp_all add: row_of_def)

lemma row_of_paths:
  assumes "claims_inv db" "k \<in> set (db_claims db)" "k_state k = Live" "k_project k = pr"
  shows "set (c_paths (row_of pr d db k)) = {p_path p |p. holds db k p}"
  using assms parent_of[OF assms(1,2)] unfolding row_of_def holds_def by auto

lemma live_rows_iff:
  "c \<in> set (live_rows project d db) \<longleftrightarrow>
     (\<exists>k \<in> set (db_claims db). k_project k = project \<and> k_state k = Live \<and> c = row_of project d db k)"
  unfolding live_rows_def by auto

definition own_of :: "string \<Rightarrow> claim_row list \<Rightarrow> string \<Rightarrow> claim_row option" where
  "own_of sid live p = find (\<lambda>c. c_heldBy c = sid \<and> p \<in> set (c_paths c)) live"

lemma split_paths_eq:
  "split_paths sid live ps (ids, fresh) =
     (foldl push_new ids (map c_id (List.map_filter (own_of sid live) ps)),
      fresh @ filter (\<lambda>p. own_of sid live p = None) ps)"
proof (induction ps arbitrary: ids fresh)
  case Nil
  then show ?case by (simp add: List.map_filter_def)
next
  case (Cons p ps)
  then show ?case
    by (cases "own_of sid live p") (auto simp: own_of_def List.map_filter_def)
qed

lemma claimRow_Some:
  assumes "ids_ok db" "k \<in> set (db_claims db)" "k_state k = Live"
  shows "claimRow (k_id k) db = Some (k, claimPaths (k_id k) db)"
  using find_id[OF assms(1,2)] assms(3) by (simp add: claimRow_def hydrateClaim_def)

definition core :: "claim_rec \<Rightarrow> nat \<times> string \<times> string \<times> claim_state \<times> int" where
  "core k = (k_id k, k_project k, k_heldBy k, k_state k, k_hardExpiresAt k)"

definition same_core :: "claim_db \<Rightarrow> claim_db \<Rightarrow> bool" where
  "same_core db db' \<longleftrightarrow> map core (db_claims db') = map core (db_claims db) \<and>
     db_paths db' = db_paths db \<and> db_seq db' = db_seq db"

lemma same_core_trans: "same_core a b \<Longrightarrow> same_core b c \<Longrightarrow> same_core a c"
  by (simp add: same_core_def)

lemma same_core_rec:
  assumes "same_core db db'" "k \<in> set (db_claims db')"
  shows "\<exists>k0 \<in> set (db_claims db). k_id k0 = k_id k \<and> k_project k0 = k_project k \<and>
    k_heldBy k0 = k_heldBy k \<and> k_state k0 = k_state k \<and> k_hardExpiresAt k0 = k_hardExpiresAt k"
proof -
  have "core k \<in> core ` set (db_claims db)"
    using assms unfolding same_core_def by (metis image_eqI list.set_map)
  then show ?thesis by (auto simp: core_def)
qed

lemma same_core_sym: "same_core db db' \<Longrightarrow> same_core db' db"
  by (simp add: same_core_def)

lemma same_core_renew: "same_core db (sql_renew_own inp now i db)"
  by (auto simp: same_core_def sql_renew_own_def core_def)

definition live_id :: "claim_db \<Rightarrow> nat \<Rightarrow> bool" where
  "live_id db i \<longleftrightarrow> (\<exists>k \<in> set (db_claims db). k_id k = i \<and> k_state k = Live)"

lemma live_id_core: "same_core db db' \<Longrightarrow> live_id db i \<Longrightarrow> live_id db' i"
  unfolding live_id_def using same_core_rec same_core_sym by metis

lemma claimRow_live:
  assumes "ids_ok db" "live_id db i" shows "\<exists>s. claimRow i db = Some s"
  using assms claimRow_Some unfolding live_id_def by blast

text \<open>A row whose lease and intent this attempt re-wrote.\<close>

definition armed :: "claim_input \<Rightarrow> int \<Rightarrow> claim_rec \<Rightarrow> bool" where
  "armed inp now k \<longleftrightarrow> k_expiresAt k = min (now + CLAIM_LEASE_MS) (k_hardExpiresAt k) \<and>
     k_intent k = i_intent inp"

lemma sql_renew_own_armed:
  "k \<in> set (db_claims (sql_renew_own inp now i db)) \<Longrightarrow> k_state k = Live \<Longrightarrow>
   k_id k = i \<or> (\<forall>l \<in> set (db_claims db). k_id l = k_id k \<longrightarrow> armed inp now l) \<Longrightarrow> armed inp now k"
  unfolding sql_renew_own_def armed_def by (auto split: if_splits)

lemma renew_all_ok:
  assumes "claims_inv db" "\<forall>i \<in> set js. live_id db i"
  shows "\<exists>db' out'. renew_all inp now js db out = Some (db', out') \<and> claims_inv db' \<and> same_core db db' \<and>
    (\<forall>k \<in> set (db_claims db'). k_state k = Live \<longrightarrow>
       k_id k \<in> set js \<or> (\<forall>l \<in> set (db_claims db). k_id l = k_id k \<longrightarrow> armed inp now l) \<longrightarrow>
       armed inp now k)"
  using assms
proof (induction js arbitrary: db out)
  case Nil
  then show ?case by (auto simp: same_core_def)
next
  case (Cons i js)
  let ?d = "sql_renew_own inp now i db"
  have inv: "claims_inv ?d" using sql_renew_own_inv Cons.prems(1) .
  have sc: "same_core db ?d" by (rule same_core_renew)
  have l: "\<forall>j \<in> set (i # js). live_id ?d j" using Cons.prems(2) live_id_core[OF sc] by blast
  obtain s where s: "claimRow i ?d = Some s"
    using claimRow_live l inv unfolding claims_inv_def by force
  obtain db' out' where r: "renew_all inp now js ?d (out @ [s]) = Some (db', out')" "claims_inv db'"
    "same_core ?d db'" "\<forall>k \<in> set (db_claims db'). k_state k = Live \<longrightarrow>
       k_id k \<in> set js \<or> (\<forall>l \<in> set (db_claims ?d). k_id l = k_id k \<longrightarrow> armed inp now l) \<longrightarrow> armed inp now k"
    using Cons.IH[OF inv, of "out @ [s]"] l by auto
  have "armed inp now k" if k: "k \<in> set (db_claims db')" "k_state k = Live"
    "k_id k \<in> set (i # js) \<or> (\<forall>l \<in> set (db_claims db). k_id l = k_id k \<longrightarrow> armed inp now l)" for k
  proof (cases "k_id k \<in> set js")
    case True
    with r(4) k show ?thesis by blast
  next
    case False
    have "armed inp now l" if l: "l \<in> set (db_claims ?d)" "k_id l = k_id k" for l
    proof (rule sql_renew_own_armed[OF l(1)])
      have "ids_ok ?d" using inv by (simp add: claims_inv_def)
      moreover obtain k0 where "k0 \<in> set (db_claims ?d)" "k_id k0 = k_id k" "k_state k0 = k_state k"
        using same_core_rec[OF r(3) k(1)] by blast
      ultimately show "k_state l = Live" using id_unique l k(2) by metis
      show "k_id l = i \<or> (\<forall>m \<in> set (db_claims db). k_id m = k_id l \<longrightarrow> armed inp now m)"
        using k(3) False l(2) by auto
    qed
    with r(4) k show ?thesis by blast
  qed
  with s r sc show ?case by (auto simp: Let_def intro: same_core_trans)
qed

definition path_row :: "nat \<Rightarrow> string \<Rightarrow> string \<Rightarrow> claim_path" where
  "path_row i project p = \<lparr>p_claimId = i, p_project = project, p_path = p, p_live = True\<rparr>"

lemma path_row_sel [simp]:
  "p_claimId (path_row i pr p) = i" "p_project (path_row i pr p) = pr" "p_path (path_row i pr p) = p"
  "p_live (path_row i pr p)"
  by (simp_all add: path_row_def)

lemma sql_insert_paths_ok:
  "distinct ps \<Longrightarrow> \<forall>r \<in> set rows. p_live r \<longrightarrow> p_project r = project \<longrightarrow> p_path r \<notin> set ps \<Longrightarrow>
   sql_insert_paths i project ps rows = Some (rows @ map (path_row i project) ps)"
proof (induction ps arbitrary: rows)
  case Nil
  then show ?case by simp
next
  case (Cons p ps)
  then have "sql_insert_paths i project ps (rows @ [path_row i project p]) =
      Some ((rows @ [path_row i project p]) @ map (path_row i project) ps)"
    by (intro Cons.IH) auto
  with Cons.prems show ?case by (auto simp: list_ex_iff path_row_def)
qed

text \<open>Appending one claim with fresh, unblocked paths keeps the invariant.\<close>

definition with_claim :: "claim_rec \<Rightarrow> string list \<Rightarrow> claim_db \<Rightarrow> claim_db" where
  "with_claim k ps db = db\<lparr>db_claims := db_claims db @ [k],
     db_paths := db_paths db @ map (path_row (k_id k) (k_project k)) ps, db_seq := k_id k\<rparr>"

lemma path_id_le: "claims_inv db \<Longrightarrow> p \<in> set (db_paths db) \<Longrightarrow> p_claimId p \<le> db_seq db"
  unfolding claims_inv_def mirror_ok_def ids_ok_def by metis

lemma holds_with_claim:
  assumes inv: "claims_inv db" and new: "k_id k = Suc (db_seq db)"
    and h: "holds (with_claim k ps db) l q"
  shows "holds db l q \<or> l = k \<and> p_path q \<in> set ps"
proof -
  have le: False if "p \<in> set (db_paths db)" "p_claimId p = k_id k" for p
    using path_id_le[OF inv that(1)] that(2) new by simp
  have le2: False if "m \<in> set (db_claims db)" "k_id k = k_id m" for m
    using inv that new unfolding claims_inv_def ids_ok_def by fastforce
  show ?thesis using h unfolding holds_def with_claim_def by (auto dest: le le2)
qed

lemma with_claim_inv:
  assumes inv: "claims_inv db" and new: "k_id k = Suc (db_seq db)" "k_state k = Live"
    and cap: "k_expiresAt k \<le> k_hardExpiresAt k" "k_hardExpiresAt k = k_createdAt k + CLAIM_HARD_CAP_MS"
    and ps: "distinct ps" "\<forall>p \<in> set ps. normal_path p"
    and free: "\<forall>r \<in> set (db_paths db). p_live r \<longrightarrow> p_project r = k_project k \<longrightarrow> p_path r \<notin> set ps"
    and unblocked: "\<And>l q p. holds db l q \<Longrightarrow> k_project l = k_project k \<Longrightarrow> k_heldBy l \<noteq> k_heldBy k \<Longrightarrow>
      p \<in> set ps \<Longrightarrow> \<not> pathsOverlap p (p_path q)"
  shows "claims_inv (with_claim k ps db)"
proof -
  note parts = inv[unfolded claims_inv_def]
  have "ids_ok (with_claim k ps db)"
    using parts new by (auto simp: ids_ok_def with_claim_def)
  moreover have "mirror_ok (with_claim k ps db)"
    using parts new by (auto simp: mirror_ok_def with_claim_def)
  moreover have "index_ok (with_claim k ps db)"
  proof -
    have "distinct (map (\<lambda>p. (p_project p, p_path p)) (map (path_row (k_id k) (k_project k)) ps))"
      using ps(1) by (simp add: distinct_map inj_on_def)
    then show ?thesis
      using parts free by (auto simp: index_ok_def with_claim_def filter_map comp_def)
  qed
  moreover have "excl_ok (with_claim k ps db)"
    unfolding excl_ok_def
  proof (intro allI impI)
    fix a b p q
    assume h: "holds (with_claim k ps db) a p" "holds (with_claim k ps db) b q"
      and eq: "k_project a = k_project b" "k_heldBy a \<noteq> k_heldBy b"
    have "excl_ok db" using parts by simp
    with holds_with_claim[OF inv new(1) h(1)] holds_with_claim[OF inv new(1) h(2)] eq
    show "\<not> pathsOverlap (p_path p) (p_path q)"
      unfolding excl_ok_def using unblocked pathsOverlap_sym by metis
  qed
  moreover have "cap_ok (with_claim k ps db)"
    using parts cap by (auto simp: cap_ok_def with_claim_def)
  moreover have "normal_ok (with_claim k ps db)"
    using parts ps(2) by (auto simp: normal_ok_def with_claim_def)
  ultimately show ?thesis by (simp add: claims_inv_def)
qed

lemma new_claim_sel [simp]:
  "k_id (new_claim inp now i) = i" "k_project (new_claim inp now i) = i_project inp"
  "k_heldBy (new_claim inp now i) = i_sessionId inp" "k_state (new_claim inp now i) = Live"
  "k_createdAt (new_claim inp now i) = now" "k_expiresAt (new_claim inp now i) = now + CLAIM_LEASE_MS"
  "k_hardExpiresAt (new_claim inp now i) = now + CLAIM_HARD_CAP_MS"
  by (simp_all add: new_claim_def)

lemma insert_fresh_ok:
  assumes inv: "claims_inv db" and ps: "distinct ps" "\<forall>p \<in> set ps. normal_path p"
    and free: "\<forall>r \<in> set (db_paths db). p_live r \<longrightarrow> p_project r = i_project inp \<longrightarrow> p_path r \<notin> set ps"
    and unblocked: "\<And>l q p. holds db l q \<Longrightarrow> k_project l = i_project inp \<Longrightarrow> k_heldBy l \<noteq> i_sessionId inp \<Longrightarrow>
      p \<in> set ps \<Longrightarrow> \<not> pathsOverlap p (p_path q)"
  shows "\<exists>db' out'. insert_fresh inp now ps db out = Some (db', out') \<and> claims_inv db' \<and>
    db' = (if ps = [] then db else with_claim (new_claim inp now (Suc (db_seq db))) ps db)"
proof (cases "ps = []")
  case True
  with inv show ?thesis by (simp add: insert_fresh_def)
next
  case False
  let ?k = "new_claim inp now (Suc (db_seq db))"
  let ?w = "with_claim ?k ps db"
  have ins: "sql_insert_paths (Suc (db_seq db)) (i_project inp) ps (db_paths db) =
      Some (db_paths db @ map (path_row (Suc (db_seq db)) (i_project inp)) ps)"
    by (rule sql_insert_paths_ok[OF ps(1) free])
  have w: "?w = (sql_insert_claim inp now db)\<lparr>db_paths :=
      db_paths db @ map (path_row (Suc (db_seq db)) (i_project inp)) ps\<rparr>"
    by (simp add: with_claim_def sql_insert_claim_def)
  have inv': "claims_inv ?w"
    by (rule with_claim_inv[OF inv _ _ _ _ ps]) (use free unblocked in \<open>auto simp: CLAIM_LEASE_MS_def CLAIM_HARD_CAP_MS_def\<close>)
  moreover have "?k \<in> set (db_claims ?w)" by (simp add: with_claim_def)
  ultimately have "claimRow (Suc (db_seq db)) ?w = Some (?k, claimPaths (Suc (db_seq db)) ?w)"
    using claimRow_Some[of ?w ?k] by (simp add: claims_inv_def)
  then show ?thesis
    using False ins inv' by (simp add: insert_fresh_def Let_def w sql_insert_claim_def)
qed

end
