(* ===== verification/ClaimSafety.thy ===== *)
theory ClaimSafety
  imports ClaimInv
begin

text \<open>
  The claim tables as a machine: one step per store operation and sweep, what every reachable
  state has, what one attempt gives its caller, and what no operation ever takes away.
\<close>

section \<open>What one attempt does\<close>

lemma own_of_Some:
  assumes "own_of sid (live_rows pr d db) p = Some c" "claims_inv db"
  shows "\<exists>k q. c_id c = k_id k \<and> holds db k q \<and> p_path q = p \<and> k_project k = pr \<and> k_heldBy k = sid"
proof -
  from assms(1) have c: "c \<in> set (live_rows pr d db)" "c_heldBy c = sid" "p \<in> set (c_paths c)"
    using find_Some_set unfolding own_of_def by fast+
  then obtain k where k: "k \<in> set (db_claims db)" "k_project k = pr" "k_state k = Live"
    "c = row_of pr d db k" unfolding live_rows_iff by blast
  with c(3) row_of_paths[OF assms(2) k(1,3,2)] obtain q where "holds db k q" "p_path q = p" by auto
  with k c(2) show ?thesis by auto
qed

lemma own_of_None:
  assumes "own_of sid (live_rows pr d db) p = None" "claims_inv db" "holds db k q"
    "k_project k = pr" "k_heldBy k = sid"
  shows "p_path q \<noteq> p"
proof
  assume "p_path q = p"
  moreover from assms(3) have k: "k \<in> set (db_claims db)" "k_state k = Live" by (auto simp: holds_def)
  ultimately have "p \<in> set (c_paths (row_of pr d db k))"
    using row_of_paths[OF assms(2) k assms(4), of d] assms(3) by auto
  moreover have "row_of pr d db k \<in> set (live_rows pr d db)"
    using k assms(4) by (auto simp: live_rows_iff)
  ultimately show False using assms(1,5) unfolding own_of_def find_None_iff_ball by auto
qed

lemma not_blocks:
  assumes "\<forall>p \<in> set ps. \<forall>c \<in> set (live_rows pr d db). \<not> blocks \<lparr>q_project = pr, q_paths = rs, q_sessionId = sid\<rparr> p c"
    "claims_inv db" "holds db k q" "k_project k = pr" "k_heldBy k \<noteq> sid" "p \<in> set ps"
  shows "\<not> pathsOverlap p (p_path q)"
proof -
  from assms(3) have k: "k \<in> set (db_claims db)" "k_state k = Live" by (auto simp: holds_def)
  then have "row_of pr d db k \<in> set (live_rows pr d db)"
    using assms(4) by (auto simp: live_rows_iff)
  moreover have "p_path q \<in> set (c_paths (row_of pr d db k))"
    using row_of_paths[OF assms(2) k assms(4), of d] assms(3) by auto
  ultimately show ?thesis
    using assms(1,5,6) unfolding blocks_def list_ex_iff by fastforce
qed

text \<open>
  The granted arm: the tables after it are the expired tables with the own rows renewed and,
  when some path was new, one more claim over exactly the new paths.
\<close>

lemma claimAttempt_Granted:
  fixes db0 inp now d
  defines "db \<equiv> expireLapsedInner now db0"
  defines "live \<equiv> live_rows (i_project inp) d db"
  assumes inv0: "claims_inv db0"
    and g: "decideClaim live \<lparr>q_project = i_project inp, q_paths = i_paths inp, q_sessionId = i_sessionId inp\<rparr> = Granted ps"
  shows "\<exists>db1 out fresh. claims_inv db1 \<and> same_core db db1 \<and>
    fresh = filter (\<lambda>p. own_of (i_sessionId inp) live p = None) ps \<and>
    (let db2 = (if fresh = [] then db1 else with_claim (new_claim inp now (Suc (db_seq db1))) fresh db1)
     in claimAttempt inp now d db0 = (AttemptOk out, db2) \<and> claims_inv db2) \<and>
    (\<forall>p \<in> set ps. \<forall>c. own_of (i_sessionId inp) live p = Some c \<longrightarrow>
       (\<forall>k \<in> set (db_claims db1). k_id k = c_id c \<longrightarrow> k_state k = Live \<longrightarrow> armed inp now k))"
proof -
  let ?sid = "i_sessionId inp"
  let ?js = "foldl push_new [] (map c_id (List.map_filter (own_of ?sid live) ps))"
  let ?fresh = "filter (\<lambda>p. own_of ?sid live p = None) ps"
  have inv: "claims_inv db" using expireLapsedInner_inv[OF inv0] by (simp add: db_def)
  from g have ps: "ps = request_paths (i_paths inp)"
    "\<forall>p \<in> set ps. \<forall>c \<in> set live. \<not> blocks \<lparr>q_project = i_project inp, q_paths = i_paths inp, q_sessionId = ?sid\<rparr> p c"
    by (simp_all add: decideClaim_Granted)
  have ids: "live_id db (c_id c)" if own: "own_of ?sid live p = Some c" for p c
  proof -
    obtain k q where "c_id c = k_id k" "holds db k q"
      using own_of_Some[OF own[unfolded live_def] inv] by blast
    then show ?thesis by (auto simp: live_id_def holds_def)
  qed
  have "\<forall>i \<in> set ?js. live_id db i"
    using ids by (auto simp: List.map_filter_def)
  then obtain db1 out where r: "renew_all inp now ?js db [] = Some (db1, out)" "claims_inv db1"
    "same_core db db1" "\<forall>k \<in> set (db_claims db1). k_state k = Live \<longrightarrow> k_id k \<in> set ?js \<or>
       (\<forall>l \<in> set (db_claims db). k_id l = k_id k \<longrightarrow> armed inp now l) \<longrightarrow> armed inp now k"
    using renew_all_ok[OF inv, of ?js inp now "[]"] by blast
  have holds1: "\<exists>k0. holds db k0 q \<and> k_project k0 = k_project k \<and> k_heldBy k0 = k_heldBy k"
    if "holds db1 k q" for k q
    using that same_core_rec[OF r(3)] r(3) unfolding holds_def same_core_def by metis
  have unb: "\<not> pathsOverlap p (p_path q)" if "holds db1 l q" "k_project l = i_project inp"
    "k_heldBy l \<noteq> ?sid" "p \<in> set ?fresh" for l q p
    using holds1[OF that(1)] not_blocks[OF ps(2)[unfolded live_def] inv] that by fastforce
  have "p_path q \<notin> set ?fresh" if q: "q \<in> set (db_paths db1)" "p_live q" "p_project q = i_project inp" for q
  proof
    assume m: "p_path q \<in> set ?fresh"
    obtain k where "holds db1 k q" "k_project k = i_project inp"
      using r(2) q unfolding claims_inv_def mirror_ok_def holds_def by metis
    then obtain k0 where k0: "holds db k0 q" "k_project k0 = i_project inp" "k_heldBy k0 = k_heldBy k"
      using holds1 by metis
    show False
    proof (cases "k_heldBy k0 = ?sid")
      case True
      with own_of_None[OF _ inv k0(1,2) True, of d "p_path q"] m show False by (auto simp: live_def)
    next
      case False
      with not_blocks[OF ps(2)[unfolded live_def] inv k0(1,2) False, of "p_path q"] m show False by auto
    qed
  qed
  then have free: "\<forall>q \<in> set (db_paths db1). p_live q \<longrightarrow> p_project q = i_project inp \<longrightarrow>
      p_path q \<notin> set ?fresh" by blast
  have dis: "distinct ?fresh" using ps(1) by simp
  have nor: "\<forall>p \<in> set ?fresh. normal_path p"
    using ps(1) by (auto simp: set_request_paths dest: normalizeClaimPath_Some)
  have "\<exists>db2 out2. insert_fresh inp now ?fresh db1 out = Some (db2, out2) \<and> claims_inv db2 \<and>
    db2 = (if ?fresh = [] then db1 else with_claim (new_claim inp now (Suc (db_seq db1))) ?fresh db1)"
    by (rule insert_fresh_ok[OF r(2) dis nor free]) (rule unb; assumption)
  then obtain db2 out2 where f: "insert_fresh inp now ?fresh db1 out = Some (db2, out2)"
    "claims_inv db2"
    "db2 = (if ?fresh = [] then db1 else with_claim (new_claim inp now (Suc (db_seq db1))) ?fresh db1)"
    by blast
  have "claimAttempt inp now d db0 = (AttemptOk out2, db2)"
    using g r(1) f(1) unfolding claimAttempt_def Let_def db_def[symmetric] live_def[symmetric]
    by (simp add: split_paths_eq)
  moreover have "armed inp now k" if "p \<in> set ps" "own_of ?sid live p = Some c"
    "k \<in> set (db_claims db1)" "k_id k = c_id c" "k_state k = Live" for p c k
  proof -
    have "k_id k \<in> set ?js" using that by (force simp: List.map_filter_def)
    with r(4) that show ?thesis by blast
  qed
  ultimately show ?thesis using r f by (auto simp: Let_def)
qed

lemma claimAttempt_inv: "claims_inv db \<Longrightarrow> claims_inv (snd (claimAttempt inp now d db))"
proof -
  assume inv: "claims_inv db"
  let ?db = "expireLapsedInner now db"
  show ?thesis
  proof (cases "decideClaim (live_rows (i_project inp) d ?db)
      \<lparr>q_project = i_project inp, q_paths = i_paths inp, q_sessionId = i_sessionId inp\<rparr>")
    case (Granted ps)
    from claimAttempt_Granted[OF inv Granted] show ?thesis by (auto simp: Let_def)
  qed (simp_all add: claimAttempt_def Let_def expireLapsedInner_inv[OF inv])
qed

section \<open>The machine\<close>

inductive claim_step :: "claim_db \<Rightarrow> claim_db \<Rightarrow> bool" where
  attempt: "claim_step db (snd (claimAttempt inp now d db))"
| release: "claim_step db (snd (claimRelease i by now db))"
| broke: "claim_step db (snd (claimBreak i by now db))"
| run_closed: "claim_step db (releaseClaimsForRun r now db)"
| renew_row: "claim_step db (renewClaimRow i e now db)"
| lapse_row: "claim_step db (lapseClaimRow i by now db)"
| renew_sweep: "claim_step db (renewClaims (claimProbe sessions refused) now db)"
| lapse_sweep: "claim_step db (lapseClaims (claimProbe sessions refused) now db)"

inductive_cases claim_stepE: "claim_step db db'"

lemma claim_step_inv: "claims_inv db \<Longrightarrow> claim_step db db' \<Longrightarrow> claims_inv db'"
  by (erule claim_stepE)
    (auto simp: claimRelease_def claimBreak_def
      intro: claimAttempt_inv rewrite_op_inv renewClaims_inv lapseClaims_inv)

section \<open>What no operation takes away\<close>

text \<open>
  A claim row survives its end, an ended row never changes again, a row never changes its
  project, its holder or its hard cap, and the path set of a claim is fixed at its insert.
\<close>

definition keeps_rec :: "claim_rec \<Rightarrow> claim_rec \<Rightarrow> bool" where
  "keeps_rec k k' \<longleftrightarrow> k_id k' = k_id k \<and> k_project k' = k_project k \<and> k_heldBy k' = k_heldBy k \<and>
     k_createdAt k' = k_createdAt k \<and> k_hardExpiresAt k' = k_hardExpiresAt k \<and>
     (k_state k \<noteq> Live \<longrightarrow> k' = k)"

definition history :: "claim_db \<Rightarrow> claim_db \<Rightarrow> bool" where
  "history db db' \<longleftrightarrow>
     (\<forall>k \<in> set (db_claims db). \<exists>k' \<in> set (db_claims db'). keeps_rec k k') \<and>
     (\<forall>i \<le> db_seq db. claimPaths i db' = claimPaths i db) \<and> db_seq db \<le> db_seq db'"

lemma keeps_rec_refl: "keeps_rec k k"
  by (simp add: keeps_rec_def)

lemma keeps_rec_trans: "keeps_rec a b \<Longrightarrow> keeps_rec b c \<Longrightarrow> keeps_rec a c"
  by (auto simp: keeps_rec_def)

lemma history_refl: "history db db"
  by (auto simp: history_def intro: keeps_rec_refl)

lemma history_trans: "history a b \<Longrightarrow> history b c \<Longrightarrow> history a c"
  unfolding history_def using keeps_rec_trans by (metis le_trans)

lemma filter_map_same: "(\<And>x. x \<in> set xs \<Longrightarrow> P (g x) = P x) \<Longrightarrow> (\<And>x. x \<in> set xs \<Longrightarrow> h (g x) = h x) \<Longrightarrow>
  map h (filter P (map g xs)) = map h (filter P xs)"
  by (induction xs) auto

lemma history_rewrite:
  assumes "row_ok f g db" shows "history db (rewrite f g db)"
  unfolding history_def
proof (intro conjI ballI allI impI)
  fix k assume "k \<in> set (db_claims db)"
  then show "\<exists>k' \<in> set (db_claims (rewrite f g db)). keeps_rec k k'"
    using assms unfolding row_ok_def rewrite_def keeps_rec_def by auto
next
  fix i
  show "claimPaths i (rewrite f g db) = claimPaths i db"
    unfolding claimPaths_def rewrite_def claim_db.simps claim_db.surjective
    by (simp del: map_map filter_map, rule filter_map_same) (use assms in \<open>auto simp: row_ok_def\<close>)
qed (simp add: rewrite_def)

lemma history_end_live: "ids_ok db \<Longrightarrow> st \<noteq> Live \<Longrightarrow> history db (end_live P st by now db)"
  unfolding end_live_rewrite by (intro history_rewrite end_live_row_ok)

lemma history_expire:
  assumes "claims_inv db" shows "history db (expireLapsedInner now db)"
proof -
  let ?d = "end_live (\<lambda>k. k_hardExpiresAt k \<le> now) Lapsed ''hard-cap'' now db"
  have "claims_inv ?d" by (rule end_live_inv[OF assms]) simp
  then have "history ?d (expireLapsedInner now db)"
    unfolding expireLapsedInner_def by (intro history_end_live) (simp_all add: claims_inv_def)
  moreover have "history db ?d"
    using assms by (intro history_end_live) (simp_all add: claims_inv_def)
  ultimately show ?thesis using history_trans by blast
qed

lemma history_renew_own: "history db (sql_renew_own inp now i db)"
  unfolding sql_renew_own_rewrite by (rule history_rewrite) (auto simp: row_ok_def)

lemma history_renew_all: "renew_all inp now js db out = Some (db', out') \<Longrightarrow> history db db'"
  by (induction js arbitrary: db out)
    (auto simp: Let_def history_refl split: option.splits intro: history_trans[OF history_renew_own])

lemma history_renew_row: "history db (renewClaimRow i e at db)"
  unfolding renewClaimRow_rewrite by (rule history_rewrite) (auto simp: row_ok_def)

lemma sql_insert_paths_app:
  "sql_insert_paths i pr ps rows = Some rows' \<Longrightarrow> rows' = rows @ map (path_row i pr) ps"
  by (induction ps arbitrary: rows) (force split: if_splits simp: path_row_def)+

lemma history_insert_fresh:
  assumes "insert_fresh inp now fresh db out = Some (db', out')"
  shows "history db db'"
proof (cases "fresh = []")
  case True
  with assms show ?thesis by (simp add: insert_fresh_def history_refl)
next
  case False
  with assms have "db' = with_claim (new_claim inp now (Suc (db_seq db))) fresh db"
    by (auto simp: insert_fresh_def Let_def sql_insert_claim_def with_claim_def
        split: option.splits dest!: sql_insert_paths_app)
  then show ?thesis
    by (auto simp: history_def with_claim_def claimPaths_def filter_map comp_def intro: keeps_rec_refl)
qed

lemma history_attempt:
  assumes "claims_inv db" shows "history db (snd (claimAttempt inp now d db))"
  using history_refl history_trans history_expire[OF assms] history_renew_all history_insert_fresh
  unfolding claimAttempt_def
  by (auto simp: Let_def split: claim_decision.splits prod.splits option.splits) (meson history_trans)

lemma history_lapse_row: "claims_inv db \<Longrightarrow> history db (lapseClaimRow i by at db)"
  by (simp add: claims_inv_def lapseClaimRow_eq history_end_live)

lemma history_end_claim: "claims_inv db \<Longrightarrow> st \<noteq> Live \<Longrightarrow> history db (snd (endClaim i st by now db))"
  using endClaim_cases[of db i st "by" now] history_refl history_end_live
  by (metis claims_inv_def)

lemma history_renew_sweep: "history db (renewClaims probe now db)"
proof -
  have "history d (foldl (\<lambda>d c. renew_one probe now (fst c) d) d cs)" for d cs
    by (induction cs arbitrary: d)
      (auto simp: renew_one_def history_refl intro: history_renew_row history_trans[OF history_renew_row]
        split: claim_expiry_decision.split)
  then show ?thesis by (simp add: renewClaims_def)
qed

lemma history_lapse_sweep: "claims_inv db \<Longrightarrow> history db (lapseClaims probe now db)"
proof -
  have "claims_inv d \<Longrightarrow> history d (foldl (\<lambda>d c. lapse_one probe now (fst c) d) d cs)" for d cs
    by (induction cs arbitrary: d)
      (auto simp: lapse_one_def history_refl intro: history_trans[OF history_lapse_row] lapseClaimRow_inv
        split: claim_expiry_decision.split)
  then show "claims_inv db \<Longrightarrow> history db (lapseClaims probe now db)" by (simp add: lapseClaims_def)
qed

lemma claim_step_history: "claims_inv db \<Longrightarrow> claim_step db db' \<Longrightarrow> history db db'"
  by (erule claim_stepE)
    (auto simp: claimRelease_def claimBreak_def releaseClaimsForRun_def claims_inv_def[of db]
      intro: history_attempt history_end_claim history_end_live history_renew_row history_lapse_row
        history_renew_sweep history_lapse_sweep)

interpretation claim_machine: inv_machine_frame "\<lambda>db. db = empty_db" claim_step claims_inv history
proof unfold_locales
  show "\<And>s. s = empty_db \<Longrightarrow> claims_inv s" by (simp add: claims_inv_empty)
  show "\<And>s t. claims_inv s \<Longrightarrow> claim_step s t \<Longrightarrow> claims_inv t" by (rule claim_step_inv)
  show "\<And>s. history s s" by (rule history_refl)
  show "\<And>s t u. history s t \<Longrightarrow> history t u \<Longrightarrow> history s u" by (rule history_trans)
  show "\<And>s t. claims_inv s \<Longrightarrow> claim_step s t \<Longrightarrow> history s t" by (rule claim_step_history)
qed

section \<open>Who holds what\<close>

text \<open>
  The contract behind the tables: which session holds which path of which project. A granted
  attempt adds exactly the requested normal paths; nothing else about it changes.
\<close>

definition holdings :: "claim_db \<Rightarrow> (string \<times> string \<times> string) set" where
  "holdings db = {(k_project k, p_path p, k_heldBy k) |k p. holds db k p}"

lemma holdings_same_core: "same_core db db' \<Longrightarrow> holdings db' = holdings db"
proof -
  have "holdings b \<subseteq> holdings a" if sc: "same_core a b" for a b
  proof
    fix x assume "x \<in> holdings b"
    then obtain k p where x: "x = (k_project k, p_path p, k_heldBy k)" "holds b k p"
      unfolding holdings_def by blast
    then obtain k0 where "k0 \<in> set (db_claims a)" "k_id k0 = k_id k" "k_project k0 = k_project k"
      "k_heldBy k0 = k_heldBy k" "k_state k0 = k_state k"
      using same_core_rec[OF sc, of k] unfolding holds_def by blast
    then have "holds a k0 p" "x = (k_project k0, p_path p, k_heldBy k0)"
      using x sc unfolding holds_def same_core_def by simp_all
    then show "x \<in> holdings a" unfolding holdings_def by blast
  qed
  then show "same_core db db' \<Longrightarrow> holdings db' = holdings db"
    using same_core_sym by blast
qed

lemma holdings_with_claim:
  assumes "claims_inv db" "k_id k = Suc (db_seq db)" "k_state k = Live"
  shows "holdings (with_claim k ps db) = holdings db \<union> {(k_project k, p, k_heldBy k) |p. p \<in> set ps}"
proof (intro equalityI subsetI)
  fix x assume "x \<in> holdings (with_claim k ps db)"
  then show "x \<in> holdings db \<union> {(k_project k, p, k_heldBy k) |p. p \<in> set ps}"
    using holds_with_claim[OF assms(1,2)] unfolding holdings_def by blast
next
  fix x assume "x \<in> holdings db \<union> {(k_project k, p, k_heldBy k) |p. p \<in> set ps}"
  then show "x \<in> holdings (with_claim k ps db)"
  proof
    assume "x \<in> holdings db"
    then show ?thesis unfolding holdings_def holds_def with_claim_def by fastforce
  next
    assume "x \<in> {(k_project k, p, k_heldBy k) |p. p \<in> set ps}"
    then obtain p where p: "p \<in> set ps" "x = (k_project k, p, k_heldBy k)" by blast
    then have "holds (with_claim k ps db) k (path_row (k_id k) (k_project k) p)"
      using assms(3) by (auto simp: holds_def with_claim_def)
    then have "(k_project k, p_path (path_row (k_id k) (k_project k) p), k_heldBy k) \<in> holdings (with_claim k ps db)"
      unfolding holdings_def by blast
    with p show ?thesis by simp
  qed
qed

section \<open>Properties of the claim tables\<close>

lemma live_after_expire:
  assumes "k \<in> set (db_claims (expireLapsedInner now db))" "k_state k = Live"
  shows "now < k_expiresAt k" "now < k_hardExpiresAt k"
  using assms unfolding expireLapsedInner_def end_live_def sql_end_claims_def sql_paths_dead_def
  by (auto split: if_splits)

lemma claimAttempt_split:
  "claimAttempt inp now d db = (r, db') \<Longrightarrow>
   r = AttemptThrew \<and> db' = db \<or>
   (\<exists>xs. r = AttemptConflict xs \<and> db' = expireLapsedInner now db) \<or>
   (\<exists>ps. r = AttemptBadPath ps \<and> db' = expireLapsedInner now db) \<or>
   (\<exists>ps. decideClaim (live_rows (i_project inp) d (expireLapsedInner now db))
      \<lparr>q_project = i_project inp, q_paths = i_paths inp, q_sessionId = i_sessionId inp\<rparr> = Granted ps)"
  unfolding claimAttempt_def by (auto simp: Let_def split: claim_decision.splits)

lemma holds_own_live:
  assumes "own_of sid (live_rows pr d db) p = Some c" "claims_inv db" "same_core db db1"
  shows "\<exists>k q. c_id c = k_id k \<and> holds db1 k q \<and> p_path q = p \<and> k_project k = pr \<and> k_heldBy k = sid"
proof -
  obtain k q where k: "c_id c = k_id k" "holds db k q" "p_path q = p" "k_project k = pr" "k_heldBy k = sid"
    using own_of_Some[OF assms(1,2)] by blast
  then have "k \<in> set (db_claims db)" by (simp add: holds_def)
  then obtain k1 where "k1 \<in> set (db_claims db1)" "k_id k1 = k_id k" "k_project k1 = k_project k"
    "k_heldBy k1 = k_heldBy k" "k_state k1 = k_state k"
    using same_core_rec[OF same_core_sym[OF assms(3)]] by metis
  then show ?thesis
    using k assms(3) unfolding holds_def same_core_def by metis
qed


definition demo_input :: "string \<Rightarrow> string list \<Rightarrow> claim_input" where
  "demo_input sid ps = \<lparr>i_project = ''demo'', i_paths = ps, i_sessionId = sid, i_uuid = ''u'',
     i_runId = None, i_intent = ''edit''\<rparr>"

definition demo_db :: claim_db where
  "demo_db = snd (claimAttempt (demo_input ''s1'' [''shared/'', ''server/src'']) 1000 (\<lambda>_. DUnknown) empty_db)"

lemma demo_db_eval:
  "db_claims demo_db = [new_claim (demo_input ''s1'' []) 1000 1]"
  "claimPaths (Suc 0) demo_db = [''shared'', ''server/src'']"
  unfolding demo_db_def demo_input_def new_claim_def CLAIM_LEASE_MS_def CLAIM_HARD_CAP_MS_def by code_simp+




text \<open>A path the caller already held: it is among the holdings, and after the renewal its claim is armed.\<close>

lemma own_path_held:
  assumes "claims_inv e" "own_of s (live_rows proj d e) p \<noteq> None"
  shows "(proj, p, s) \<in> holdings e"
proof -
  from assms(2) obtain c where "own_of s (live_rows proj d e) p = Some c" by auto
  then obtain k q where "holds e k q" "p_path q = p" "k_project k = proj" "k_heldBy k = s"
    using own_of_Some assms(1) by blast
  then have "(k_project k, p_path q, k_heldBy k) \<in> holdings e" "k_project k = proj" "p_path q = p" "k_heldBy k = s"
    unfolding holdings_def by blast+
  then show ?thesis by simp
qed

definition held_armed :: "claim_input \<Rightarrow> int \<Rightarrow> claim_db \<Rightarrow> string \<Rightarrow> bool" where
  "held_armed inp now db p \<longleftrightarrow> (\<exists>k q. holds db k q \<and> p_path q = p \<and> k_project k = i_project inp \<and>
     k_heldBy k = i_sessionId inp \<and> now < k_expiresAt k \<and> k_intent k = i_intent inp)"

lemma own_path_armed:
  assumes own: "own_of (i_sessionId inp) (live_rows (i_project inp) d (expireLapsedInner now db)) p = Some c"
    and inv: "claims_inv (expireLapsedInner now db)" and core: "same_core (expireLapsedInner now db) db1"
    and armed: "\<forall>k \<in> set (db_claims db1). k_id k = c_id c \<longrightarrow> k_state k = Live \<longrightarrow> armed inp now k"
  shows "held_armed inp now db1 p"
proof -
  obtain k q where k: "c_id c = k_id k" "holds db1 k q" "p_path q = p" "k_project k = i_project inp" "k_heldBy k = i_sessionId inp"
    using holds_own_live[OF own inv core] by blast
  have live: "k \<in> set (db_claims db1)" "k_state k = Live" using k(2) by (auto simp: holds_def)
  then obtain k0 where "k0 \<in> set (db_claims (expireLapsedInner now db))" "k_state k0 = Live"
    "k_hardExpiresAt k0 = k_hardExpiresAt k"
    using same_core_rec[OF core] by metis
  then have "now < k_hardExpiresAt k" using live_after_expire(2) by metis
  moreover have "armed inp now k" using armed k(1) live by auto
  ultimately show ?thesis using k unfolding held_armed_def armed_def CLAIM_LEASE_MS_def by fastforce
qed

lemma held_armed_with_claim:
  "held_armed inp now db p \<Longrightarrow> held_armed inp now (with_claim k ps db) p"
  unfolding held_armed_def by (force simp: holds_def with_claim_def)

lemma new_path_armed:
  "p \<in> set ps \<Longrightarrow> held_armed inp now (with_claim (new_claim inp now n) ps db) p"
proof -
  let ?k = "new_claim inp now n"
  assume "p \<in> set ps"
  then have "holds (with_claim ?k ps db) ?k (path_row (k_id ?k) (k_project ?k) p)" by (auto simp: holds_def with_claim_def)
  then show ?thesis unfolding held_armed_def by (force simp: CLAIM_LEASE_MS_def new_claim_def[of inp])
qed

text \<open>What a granted attempt leaves.\<close>

lemma claimAttempt_grants:
  assumes inv: "claims_inv db" and att: "claimAttempt inp now d db = (r, db')"
    and granted: "decideClaim (live_rows (i_project inp) d (expireLapsedInner now db))
      \<lparr>q_project = i_project inp, q_paths = i_paths inp, q_sessionId = i_sessionId inp\<rparr> = Granted ps"
  shows "\<exists>out. r = AttemptOk out \<and>
    holdings db' = holdings (expireLapsedInner now db) \<union>
      {(i_project inp, p, i_sessionId inp) |p. \<exists>raw \<in> set (i_paths inp). normalizeClaimPath raw = Some p} \<and>
    (\<forall>raw \<in> set (i_paths inp). \<exists>p k q. normalizeClaimPath raw = Some p \<and> holds db' k q \<and>
       p_path q = p \<and> k_project k = i_project inp \<and> k_heldBy k = i_sessionId inp \<and>
       now < k_expiresAt k \<and> k_intent k = i_intent inp)"
proof -
  let ?e = "expireLapsedInner now db"
  let ?live = "live_rows (i_project inp) d ?e"
  let ?own = "own_of (i_sessionId inp) ?live"
  have inve: "claims_inv ?e" using expireLapsedInner_inv[OF inv] .
  from granted have ps: "set ps = {p. \<exists>raw \<in> set (i_paths inp). normalizeClaimPath raw = Some p}"
    "\<forall>raw \<in> set (i_paths inp). normalizeClaimPath raw \<noteq> None"
    by (simp_all add: decideClaim_Granted set_request_paths)
  obtain db1 out fresh where g: "claims_inv db1" "same_core ?e db1"
    "fresh = filter (\<lambda>p. ?own p = None) ps"
    "claimAttempt inp now d db = (AttemptOk out,
       if fresh = [] then db1 else with_claim (new_claim inp now (Suc (db_seq db1))) fresh db1)"
    "\<forall>p \<in> set ps. \<forall>c. ?own p = Some c \<longrightarrow>
       (\<forall>k \<in> set (db_claims db1). k_id k = c_id c \<longrightarrow> k_state k = Live \<longrightarrow> armed inp now k)"
    using claimAttempt_Granted[OF inv granted] by (auto simp: Let_def)
  let ?k = "new_claim inp now (Suc (db_seq db1))"
  have r: "r = AttemptOk out" "db' = (if fresh = [] then db1 else with_claim ?k fresh db1)"
    using g(4) att by simp_all
  have new: "holdings db' = holdings ?e \<union> {(i_project inp, p, i_sessionId inp) |p. p \<in> set fresh}"
    using r(2) holdings_same_core[OF g(2)] holdings_with_claim[OF g(1), of ?k fresh] by auto
  have hold: "held_armed inp now db' p" if p: "p \<in> set ps" for p
  proof (cases "?own p")
    case None
    then have "p \<in> set fresh" using p g(3) by simp
    then show ?thesis using new_path_armed r(2) by auto
  next
    case (Some c)
    then have "held_armed inp now db1 p" using own_path_armed[OF Some inve g(2)] g(5) p by blast
    then show ?thesis using held_armed_with_claim r(2) by simp
  qed
  have "(i_project inp, p, i_sessionId inp) \<in> holdings ?e" if "p \<in> set ps" "?own p \<noteq> None" for p
    by (rule own_path_held[OF inve that(2)])
  then have old: "(i_project inp, p, i_sessionId inp) \<in> holdings ?e"
    if "p \<in> set ps" "p \<notin> set fresh" for p using that g(3) by fastforce
  have "holdings db' = holdings ?e \<union> {(i_project inp, p, i_sessionId inp) |p. p \<in> set ps}"
    unfolding new using g(3) by (auto dest: old)
  moreover have "\<exists>p k q. normalizeClaimPath raw = Some p \<and> holds db' k q \<and>
       p_path q = p \<and> k_project k = i_project inp \<and> k_heldBy k = i_sessionId inp \<and>
       now < k_expiresAt k \<and> k_intent k = i_intent inp" if "raw \<in> set (i_paths inp)" for raw
    using hold[unfolded held_armed_def] ps that by (metis (mono_tags, lifting) mem_Collect_eq not_None_eq)
  ultimately show ?thesis using ps(1) r(1) by simp
qed

text \<open>C14: A claim attempt is all or nothing. When it answers ok, the session holds every
  requested path in its normal form by a live claim whose lease ends after now and whose
  intent is the one just declared, and the holdings grow by exactly those paths; when it
  refuses, nothing changed but the lapses of claims whose lease had run out.\<close>

theorem claimAttempt_all_or_nothing:
  assumes "claim_step\<^sup>*\<^sup>* empty_db db" and "claimAttempt inp now d db = (r, db')"
  shows "case r of
    AttemptOk out \<Rightarrow>
      holdings db' = holdings (expireLapsedInner now db) \<union>
        {(i_project inp, p, i_sessionId inp) |p. \<exists>raw \<in> set (i_paths inp). normalizeClaimPath raw = Some p} \<and>
      (\<forall>raw \<in> set (i_paths inp). \<exists>p k q. normalizeClaimPath raw = Some p \<and> holds db' k q \<and>
         p_path q = p \<and> k_project k = i_project inp \<and> k_heldBy k = i_sessionId inp \<and>
         now < k_expiresAt k \<and> k_intent k = i_intent inp)
  | _ \<Rightarrow> db' = expireLapsedInner now db"
proof -
  have inv: "claims_inv db" using claim_machine.inv_reach[OF refl assms(1)] .
  show ?thesis
  proof (cases "decideClaim (live_rows (i_project inp) d (expireLapsedInner now db))
      \<lparr>q_project = i_project inp, q_paths = i_paths inp, q_sessionId = i_sessionId inp\<rparr>")
    case (Granted ps)
    then show ?thesis using claimAttempt_grants[OF inv assms(2)] by auto
  next
    case (BadPath xs)
    with assms(2) show ?thesis by (auto simp: claimAttempt_def Let_def)
  next
    case (Conflict xs)
    with assms(2) show ?thesis by (auto simp: claimAttempt_def Let_def)
  qed
qed

theorem claimAttempt_all_or_nothing_witness:
  "fst (claimAttempt (demo_input ''s2'' [''shared/api.ts'']) 2000 (\<lambda>_. DYes) demo_db) \<noteq> AttemptThrew \<and>
   snd (claimAttempt (demo_input ''s2'' [''shared/api.ts'']) 2000 (\<lambda>_. DYes) demo_db) =
     expireLapsedInner 2000 demo_db"
proof -
  let ?a = "claimAttempt (demo_input ''s2'' [''shared/api.ts'']) 2000 (\<lambda>_. DYes) demo_db"
  have r: "claim_step\<^sup>*\<^sup>* empty_db demo_db"
    unfolding demo_db_def by (rule r_into_rtranclp, rule claim_step.attempt)
  have c: "case fst ?a of AttemptConflict _ \<Rightarrow> True | _ \<Rightarrow> False"
    unfolding demo_db_def demo_input_def by code_simp
  then show ?thesis
    using claimAttempt_all_or_nothing [OF r, of _ _ _ "fst ?a" "snd ?a"]
    by (auto split: attempt_result.splits)
qed

text \<open>C20: Claim history is never destroyed. Along any run of the operations every claim row
  keeps its id, project, holder and hard cap; a row that is no longer live never changes
  again; and the set of paths of a claim stays what it was when the claim was made.\<close>

theorem claim_history_kept:
  assumes "claim_step\<^sup>*\<^sup>* empty_db db" and "claim_step\<^sup>*\<^sup>* db db'" and "k \<in> set (db_claims db)"
  shows "(\<exists>k' \<in> set (db_claims db'). k_id k' = k_id k \<and> k_project k' = k_project k \<and>
      k_heldBy k' = k_heldBy k \<and> k_hardExpiresAt k' = k_hardExpiresAt k \<and>
      (k_state k \<noteq> Live \<longrightarrow> k' = k)) \<and>
    claimPaths (k_id k) db' = claimPaths (k_id k) db"
proof
  have inv: "claims_inv db" using claim_machine.inv_reach[OF refl assms(1)] .
  have h: "history db db'" using claim_machine.grows_steps[OF assms(2) inv] .
  then show "\<exists>k' \<in> set (db_claims db'). k_id k' = k_id k \<and> k_project k' = k_project k \<and>
      k_heldBy k' = k_heldBy k \<and> k_hardExpiresAt k' = k_hardExpiresAt k \<and>
      (k_state k \<noteq> Live \<longrightarrow> k' = k)"
    using assms(3) unfolding history_def keeps_rec_def by metis
  show "claimPaths (k_id k) db' = claimPaths (k_id k) db"
    using h inv assms(3) unfolding history_def claims_inv_def ids_ok_def by metis
qed

theorem claim_history_kept_witness:
  "claimPaths 1 (snd (claimBreak 1 ''op'' 5000 demo_db)) = [''shared'', ''server/src'']"
proof -
  have r: "claim_step\<^sup>*\<^sup>* empty_db demo_db"
    unfolding demo_db_def by (rule r_into_rtranclp, rule claim_step.attempt)
  have s: "claim_step\<^sup>*\<^sup>* demo_db (snd (claimBreak 1 ''op'' 5000 demo_db))"
    by (rule r_into_rtranclp, rule claim_step.broke)
  show ?thesis
    using claim_history_kept [OF r s, of "new_claim (demo_input ''s1'' []) 1000 1"]
    by (simp add: demo_db_eval)
qed

section \<open>The sweeps under doubt\<close>

text \<open>
  The port \<open>LivenessProbe\<close>, declared by \<open>claims.ts\<close>: what the lease sweeps rely on is
  that a holder the tick could not read is answered \<open>unmeasurable\<close>, never \<open>gone\<close>.
\<close>

locale liveness_probe =
  fixes liveness :: "string \<Rightarrow> liveness_verdict"
    and unread :: "string \<Rightarrow> bool"
  assumes unread_doubt: "unread i \<Longrightarrow> liveness i = Unmeasurable"
begin

lemma lapse_one_unread:
  "unread (k_heldBy k) \<Longrightarrow> now < k_hardExpiresAt k \<Longrightarrow> lapse_one liveness now k db = db"
  by (simp add: lapse_one_def claimExpiry_def unread_doubt)

lemma renew_one_unread:
  "unread (k_heldBy k) \<Longrightarrow> now < k_hardExpiresAt k \<Longrightarrow>
   k_expiresAt k < min (now + CLAIM_LEASE_MS) (k_hardExpiresAt k) \<Longrightarrow>
   renew_one liveness now k db = renewClaimRow (k_id k) (min (now + CLAIM_LEASE_MS) (k_hardExpiresAt k)) now db"
  by (simp add: renew_one_def claimExpiry_def unread_doubt renewing_verdict_def Let_def)

lemma lapse_one_other:
  "k_id k \<noteq> i \<Longrightarrow> m \<in> set (db_claims db) \<Longrightarrow> k_id m = i \<Longrightarrow> m \<in> set (db_claims (lapse_one liveness now k db))"
  by (auto simp: lapse_one_def lapseClaimRow_def Let_def sql_end_claims_def sql_paths_dead_def
      image_iff split: claim_expiry_decision.split)

lemma lapse_sweep_keeps:
  assumes "ids_ok db0" "m \<in> set (db_claims db)" "m \<in> set (db_claims db0)" "unread (k_heldBy m)"
    "now < k_hardExpiresAt m" "set cs \<subseteq> set (db_claims db0)"
  shows "m \<in> set (db_claims (foldl (\<lambda>d c. lapse_one liveness now c d) db cs))"
  using assms(2,6)
proof (induction cs arbitrary: db)
  case Nil
  then show ?case by simp
next
  case (Cons c cs)
  have "m \<in> set (db_claims (lapse_one liveness now c db))"
  proof (cases "k_id c = k_id m")
    case True
    then have "c = m" using id_unique[OF assms(1)] assms(3) Cons.prems(2) by simp
    then show ?thesis using lapse_one_unread[OF assms(4,5)] Cons.prems(1) by simp
  next
    case False
    then show ?thesis using lapse_one_other Cons.prems(1) by blast
  qed
  with Cons show ?case by simp
qed

end

interpretation probe: liveness_probe "claimProbe sessions refused" "\<lambda>i. i \<in> refused"
  for sessions refused
  by unfold_locales (simp add: claimProbe_def)

lemma activeClaims_map: "map fst (activeClaims db) = filter (\<lambda>k. k_state k = Live) (db_claims db)"
proof -
  have "map fst (List.map_filter (\<lambda>r. hydrateClaim r (f r)) (filter (\<lambda>k. k_state k = Live) cs)) =
      filter (\<lambda>k. k_state k = Live) cs" for f cs
    by (induction cs) (auto simp: List.map_filter_simps hydrateClaim_def)
  then show ?thesis by (simp add: activeClaims_def)
qed

lemma lapseClaims_map:
  "lapseClaims probe now db =
     foldl (\<lambda>d c. lapse_one probe now c d) db (filter (\<lambda>k. k_state k = Live) (db_claims db))"
  unfolding lapseClaims_def activeClaims_map[symmetric] by (simp add: foldl_map)

text \<open>A box that could not read a session does not expire its claims. The lapse sweep leaves
  a claim untouched while its hard cap has not passed and its holder is among the refused ids
  of the listing, however long its lease has run out.\<close>

theorem refused_holder_keeps_claim:
  assumes "claim_step\<^sup>*\<^sup>* empty_db db" and "k \<in> set (db_claims db)"
    and "k_heldBy k \<in> refused" and "now < k_hardExpiresAt k"
  shows "k \<in> set (db_claims (lapseClaims (claimProbe sessions refused) now db))"
proof -
  have "ids_ok db" using claim_machine.inv_reach[OF refl assms(1)] by (simp add: claims_inv_def)
  then show ?thesis
    unfolding lapseClaims_map by (rule probe.lapse_sweep_keeps) (use assms in auto)
qed

theorem refused_holder_keeps_claim_witness:
  "new_claim (demo_input ''s1'' []) 1000 1 \<in>
     set (db_claims (lapseClaims (claimProbe [] {''s1''}) 28000000 demo_db))"
  by (rule refused_holder_keeps_claim)
    (unfold demo_db_def, rule r_into_rtranclp, rule claim_step.attempt,
     simp_all add: demo_db_eval[unfolded demo_db_def] CLAIM_HARD_CAP_MS_def, simp add: demo_input_def)

end
