(* ===== verification/LeaseState.thy ===== *)
theory LeaseState
  imports Prelude
begin

text \<open>
  The lease transition table of the delegation broker
  (\<open>server/src/coord/delegation-lease-state.ts\<close>): the one decision every transition and
  release goes through, the folds that turn one journal entry into rows, and the plan of the
  native-removed releases. Row types are those of \<open>delegation-model.ts\<close>. An instant is its
  canonical UTC string, compared by code units as the code does. The human-readable
  \<open>detail\<close> sentence of a refusal is not modelled. A tree key \<open>JSON.stringify([project,
  adminRecord])\<close> is the pair itself: both determine each other. The lease columns that no
  operation here reads or writes (parentage, workspace and cleanup state, which every fold
  copies unchanged) and the entry's \<open>auditEvidence\<close> are left out of the records.
\<close>

section \<open>Vocabularies\<close>

datatype transition_reason =
  RCarrier | RAdopt | RRetain | ROperatorRetain | RAttach | RTransfer
| RTransferRefused | RTransferRecovered | RPromote

datatype lineage_close_reason = LCNativeRemoved | LCTransferred | LCForeign | LCTransfer

datatype release_reason = RelNativeRemoved | RelTransferred | RelForeign

text \<open>The close word a lineage row stores: a transition's word or a release reason.\<close>

datatype close_word = CloseBy lineage_close_reason | CloseRelease release_reason

datatype act_refusal =
  LeaseUnknown | LeaseReleased | StaleGeneration | WrongDisposition | NotReady | CarrierBehind

datatype disposition = Ephemeral | Adopted | Retained | Promoted

datatype carrier_state = AsDisposed disposition | Transferring | ReleasedState

datatype lease_source = SrcAgent | SrcWorkflow | SrcRaw | SrcAttached

section \<open>Rows\<close>

record attempt_mark =
  am_attemptedAt :: string
  am_attemptId :: string

record lease_row =
  l_leaseId :: string
  l_generation :: int
  l_creatingJournalSequence :: int
  l_currentJournalSequence :: int
  l_activityId :: string
  l_parentId :: string
  l_parentIncarnation :: string
  l_project :: string
  l_adminRecord :: string
  l_canonicalPath :: string
  l_creationBase :: "string option"
  l_sourceKind :: lease_source
  l_disposition :: disposition
  l_firstObservedAt :: string
  l_lastObservedAt :: string
  l_terminalEvidenceAt :: "string option"
  l_adoptedAt :: "string option"
  l_retainedAt :: "string option"
  l_promotedAt :: "string option"
  l_cleanupDueAt :: "string option"
  l_carrierGenerationSeen :: "int option"
  l_releasedAt :: "string option"

record carrier_row =
  cr_leaseId :: string
  cr_transferringSince :: "string option"
  cr_transferRun :: "nat option"
  cr_promotedRun :: "nat option"
  cr_promotedSession :: "string option"
  cr_releaseReason :: "release_reason option"
  cr_resolvedThrough :: "attempt_mark option"

record lineage_row =
  n_lineageId :: string
  n_parentId :: string
  n_parentIncarnation :: string
  n_activityId :: "string option"
  n_leaseId :: "string option"
  n_runId :: "nat option"
  n_openedAt :: string
  n_closedAt :: "string option"
  n_closeReason :: "close_word option"

record transition_entry =
  t_leaseId :: string
  t_generation :: int
  t_reason :: transition_reason
  t_to :: carrier_state
  t_at :: string
  t_expiresAt :: "string option"
  t_terminalEvidenceAt :: "string option"
  t_runId :: "nat option"
  t_promotedSession :: "string option"
  t_lineageClose :: "lineage_close_reason option"
  t_lineageOpenRun :: "nat option"
  t_resolvesThrough :: "attempt_mark option"

record release_entry =
  r_leaseId :: string
  r_generation :: int
  r_releaseReason :: release_reason
  r_at :: string
  r_lastHeadSha :: "string option"
  r_resolvesThrough :: "attempt_mark option"

section \<open>The table and the decision\<close>

definition carrier_gated :: "transition_reason \<Rightarrow> bool" where
  "carrier_gated r \<longleftrightarrow> r \<in> {RAdopt, RRetain, ROperatorRetain, RAttach, RTransfer}"

definition settled :: "carrier_state list" where
  "settled = [AsDisposed Ephemeral, AsDisposed Adopted, AsDisposed Retained]"

text \<open>Where a reason goes: \<open>None\<close> stands for \<open>'prior'\<close>, the lease's own disposition.\<close>

fun transition_from :: "transition_reason \<Rightarrow> carrier_state list" where
  "transition_from RCarrier = [AsDisposed Ephemeral]"
| "transition_from RAdopt = [AsDisposed Ephemeral]"
| "transition_from RRetain = settled"
| "transition_from ROperatorRetain = settled"
| "transition_from RAttach = settled"
| "transition_from RTransfer = settled"
| "transition_from RTransferRefused = [Transferring]"
| "transition_from RTransferRecovered = [Transferring]"
| "transition_from RPromote = [Transferring]"

fun transition_to :: "transition_reason \<Rightarrow> carrier_state option" where
  "transition_to RCarrier = Some (AsDisposed Ephemeral)"
| "transition_to RAdopt = Some (AsDisposed Adopted)"
| "transition_to RRetain = Some (AsDisposed Retained)"
| "transition_to ROperatorRetain = Some (AsDisposed Retained)"
| "transition_to RAttach = Some (AsDisposed Retained)"
| "transition_to RTransfer = Some Transferring"
| "transition_to RTransferRefused = None"
| "transition_to RTransferRecovered = None"
| "transition_to RPromote = Some (AsDisposed Promoted)"

definition delegationCarrierStateOf :: "lease_row \<Rightarrow> carrier_row option \<Rightarrow> carrier_state" where
  "delegationCarrierStateOf lease carrier =
     (if l_releasedAt lease \<noteq> None then ReleasedState
      else if (case carrier of None \<Rightarrow> False | Some c \<Rightarrow> cr_transferringSince c \<noteq> None) then Transferring
      else AsDisposed (l_disposition lease))"

text \<open>\<open>DelegationLeaseDecision\<close>: a refusal, or the target state and the next generation.\<close>

type_synonym lease_decision = "act_refusal + carrier_state \<times> int"

definition decideCommon :: "lease_row option \<Rightarrow> int \<Rightarrow> act_refusal option" where
  "decideCommon lease expectGeneration =
     (case lease of
        None \<Rightarrow> Some LeaseUnknown
      | Some l \<Rightarrow>
          if l_releasedAt l \<noteq> None then Some LeaseReleased
          else if expectGeneration \<noteq> l_generation l then Some StaleGeneration
          else None)"

definition decideLeaseTransition ::
  "lease_row option \<Rightarrow> carrier_row option \<Rightarrow> transition_reason \<Rightarrow> int \<Rightarrow> bool \<Rightarrow> lease_decision" where
  "decideLeaseTransition lease carrier reason expectGeneration carrierRequired =
     (case (decideCommon lease expectGeneration, lease) of
        (Some r, _) \<Rightarrow> Inl r
      | (None, None) \<Rightarrow> Inl LeaseUnknown
      | (None, Some l) \<Rightarrow>
          (let state = delegationCarrierStateOf l carrier in
           if state \<notin> set (transition_from reason) then Inl WrongDisposition
           else if reason = RCarrier \<and> l_generation l \<noteq> 0 then Inl WrongDisposition
           else if carrierRequired \<and> carrier_gated reason \<and>
             (case l_carrierGenerationSeen l of None \<Rightarrow> True | Some g \<Rightarrow> g < l_generation l)
           then Inl CarrierBehind
           else Inr (case transition_to reason of None \<Rightarrow> AsDisposed (l_disposition l) | Some s \<Rightarrow> s,
                     l_generation l + 1)))"

text \<open>\<open>True\<close> when the live promote door refuses (the code answers the refusal's sentence).\<close>

definition promoteRunMismatch :: "carrier_row option \<Rightarrow> nat option \<Rightarrow> bool" where
  "promoteRunMismatch carrier runId =
     (case carrier of
        None \<Rightarrow> True
      | Some c \<Rightarrow> (case cr_transferRun c of None \<Rightarrow> True | Some r \<Rightarrow> runId \<noteq> Some r))"

definition decideLeaseRelease :: "lease_row option \<Rightarrow> carrier_row option \<Rightarrow> int \<Rightarrow> lease_decision" where
  "decideLeaseRelease lease carrier expectGeneration =
     (case (decideCommon lease expectGeneration, lease) of
        (Some r, _) \<Rightarrow> Inl r
      | (None, None) \<Rightarrow> Inl LeaseUnknown
      | (None, Some l) \<Rightarrow>
          if delegationCarrierStateOf l carrier = Transferring then Inl WrongDisposition
          else Inr (ReleasedState, l_generation l + 1))"

section \<open>The folds\<close>

datatype fold_refusal = Refusal act_refusal | BadEntry

record lease_fold =
  f_lease :: lease_row
  f_carrier :: "carrier_row option"
  f_lineage :: "lineage_row list"

definition attemptMarkAbove :: "attempt_mark \<Rightarrow> attempt_mark \<Rightarrow> bool" where
  "attemptMarkAbove a b \<longleftrightarrow>
     am_attemptedAt a > am_attemptedAt b \<or>
     am_attemptedAt a = am_attemptedAt b \<and> am_attemptId a > am_attemptId b"

definition emptyCarrier :: "string \<Rightarrow> carrier_row" where
  "emptyCarrier leaseId =
     \<lparr>cr_leaseId = leaseId, cr_transferringSince = None, cr_transferRun = None, cr_promotedRun = None,
      cr_promotedSession = None, cr_releaseReason = None, cr_resolvedThrough = None\<rparr>"

definition carrierOrNull :: "carrier_row \<Rightarrow> carrier_row option" where
  "carrierOrNull c =
     (if cr_transferringSince c = None \<and> cr_transferRun c = None \<and> cr_promotedRun c = None \<and>
         cr_promotedSession c = None \<and> cr_releaseReason c = None \<and> cr_resolvedThrough c = None
      then None else Some c)"

definition resolved :: "carrier_row \<Rightarrow> attempt_mark option \<Rightarrow> carrier_row" where
  "resolved c mark =
     (case mark of
        None \<Rightarrow> c
      | Some m \<Rightarrow>
          (case cr_resolvedThrough c of
             None \<Rightarrow> c\<lparr>cr_resolvedThrough := Some m\<rparr>
           | Some r \<Rightarrow> if \<not> attemptMarkAbove m r then c else c\<lparr>cr_resolvedThrough := Some m\<rparr>))"

definition closeLeaseLineage :: "lineage_row list \<Rightarrow> string \<Rightarrow> string \<Rightarrow> close_word \<Rightarrow> lineage_row list" where
  "closeLeaseLineage lineage leaseId at reason =
     map (\<lambda>n. n\<lparr>n_closedAt := Some at, n_closeReason := Some reason\<rparr>)
       (filter (\<lambda>n. n_leaseId n = Some leaseId \<and> n_closedAt n = None) lineage)"

definition keeps_reason :: "transition_reason \<Rightarrow> bool" where
  "keeps_reason r \<longleftrightarrow> r = RAdopt \<or> r = RRetain \<or> r = ROperatorRetain \<or> r = RAttach"

text \<open>The field checks of a transition entry, in the code's order; \<open>True\<close> is \<open>bad-entry\<close>.\<close>

definition bad_transition_entry :: "lease_row \<Rightarrow> carrier_state \<times> int \<Rightarrow> transition_entry \<Rightarrow> bool" where
  "bad_transition_entry l d e \<longleftrightarrow>
     snd d \<noteq> t_generation e \<or>
     fst d \<noteq> t_to e \<or>
     (keeps_reason (t_reason e) \<and> t_expiresAt e = None) \<or>
     ((t_reason e = RTransfer \<or> t_reason e = RPromote) \<and> t_runId e = None) \<or>
     (if t_reason e = RAdopt
      then (case t_terminalEvidenceAt e of
              None \<Rightarrow> True
            | Some te \<Rightarrow> te > t_at e \<or> te < l_firstObservedAt l)
      else t_terminalEvidenceAt e \<noteq> None)"

definition transition_lease :: "lease_row \<Rightarrow> carrier_state \<Rightarrow> transition_entry \<Rightarrow> int \<Rightarrow> lease_row" where
  "transition_lease l to e seq =
     (let row = l\<lparr>l_generation := t_generation e, l_currentJournalSequence := seq\<rparr>;
          row = (case to of AsDisposed d \<Rightarrow> row\<lparr>l_disposition := d\<rparr> | _ \<Rightarrow> row) in
      case t_reason e of
        RAdopt \<Rightarrow> row\<lparr>l_adoptedAt := Some (t_at e), l_terminalEvidenceAt := t_terminalEvidenceAt e,
                     l_cleanupDueAt := t_expiresAt e\<rparr>
      | RRetain \<Rightarrow> row\<lparr>l_retainedAt := Some (t_at e), l_cleanupDueAt := t_expiresAt e\<rparr>
      | ROperatorRetain \<Rightarrow> row\<lparr>l_retainedAt := Some (t_at e), l_cleanupDueAt := t_expiresAt e\<rparr>
      | RAttach \<Rightarrow> row\<lparr>l_retainedAt := Some (t_at e), l_cleanupDueAt := t_expiresAt e\<rparr>
      | RPromote \<Rightarrow> row\<lparr>l_promotedAt := Some (t_at e)\<rparr>
      | _ \<Rightarrow> row)"

definition transition_carrier :: "carrier_row \<Rightarrow> transition_entry \<Rightarrow> carrier_row" where
  "transition_carrier c e =
     (case t_reason e of
        RTransfer \<Rightarrow> c\<lparr>cr_transferringSince := Some (t_at e), cr_transferRun := t_runId e\<rparr>
      | RTransferRefused \<Rightarrow> c\<lparr>cr_transferringSince := None, cr_transferRun := None\<rparr>
      | RTransferRecovered \<Rightarrow> c\<lparr>cr_transferringSince := None, cr_transferRun := None\<rparr>
      | RPromote \<Rightarrow> c\<lparr>cr_transferringSince := None, cr_transferRun := None, cr_promotedRun := t_runId e,
                      cr_promotedSession := t_promotedSession e\<rparr>
      | _ \<Rightarrow> c)"

definition foldLeaseTransition ::
  "lease_row option \<Rightarrow> carrier_row option \<Rightarrow> lineage_row list \<Rightarrow> transition_entry \<Rightarrow> int \<Rightarrow>
   (nat \<Rightarrow> string) \<Rightarrow> fold_refusal + lease_fold" where
  "foldLeaseTransition lease carrier lineage e seq runLineageId =
     (case decideLeaseTransition lease carrier (t_reason e) (t_generation e - 1) False of
        Inl r \<Rightarrow> Inl (Refusal r)
      | Inr d \<Rightarrow>
          (case lease of
             None \<Rightarrow> Inl BadEntry
           | Some l \<Rightarrow>
               if bad_transition_entry l d e then Inl BadEntry
               else
                 (let row = transition_lease l (fst d) e seq;
                      c = (case carrier of None \<Rightarrow> emptyCarrier (t_leaseId e) | Some c \<Rightarrow> c);
                      c = resolved (transition_carrier c e) (t_resolvesThrough e);
                      closed = (case t_lineageClose e of None \<Rightarrow> []
                                | Some w \<Rightarrow> closeLeaseLineage lineage (t_leaseId e) (t_at e) (CloseBy w));
                      opened = (case t_lineageOpenRun e of None \<Rightarrow> []
                                | Some r \<Rightarrow> [\<lparr>n_lineageId = runLineageId r, n_parentId = l_parentId l,
                                    n_parentIncarnation = l_parentIncarnation l, n_activityId = None,
                                    n_leaseId = None, n_runId = Some r, n_openedAt = t_at e,
                                    n_closedAt = None, n_closeReason = None\<rparr>])
                  in Inr \<lparr>f_lease = row, f_carrier = carrierOrNull c, f_lineage = closed @ opened\<rparr>)))"

definition foldLeaseRelease ::
  "lease_row option \<Rightarrow> carrier_row option \<Rightarrow> lineage_row list \<Rightarrow> release_entry \<Rightarrow> int \<Rightarrow> fold_refusal + lease_fold" where
  "foldLeaseRelease lease carrier lineage e seq =
     (case decideLeaseRelease lease carrier (r_generation e - 1) of
        Inl r \<Rightarrow> Inl (Refusal r)
      | Inr d \<Rightarrow>
          (case lease of
             None \<Rightarrow> Inl BadEntry
           | Some l \<Rightarrow>
               if snd d \<noteq> r_generation e then Inl BadEntry
               else
                 (let row = l\<lparr>l_generation := r_generation e, l_currentJournalSequence := seq,
                              l_releasedAt := Some (r_at e)\<rparr>;
                      c = (case carrier of None \<Rightarrow> emptyCarrier (r_leaseId e) | Some c \<Rightarrow> c);
                      c = resolved (c\<lparr>cr_releaseReason := Some (r_releaseReason e)\<rparr>) (r_resolvesThrough e)
                  in Inr \<lparr>f_lease = row, f_carrier = carrierOrNull c,
                          f_lineage = closeLeaseLineage lineage (r_leaseId e) (r_at e)
                                        (CloseRelease (r_releaseReason e))\<rparr>)))"

definition foldLeaseCarrierSeen :: "lease_row option \<Rightarrow> int \<Rightarrow> act_refusal + lease_row" where
  "foldLeaseCarrierSeen lease generation =
     (case lease of
        None \<Rightarrow> Inl LeaseUnknown
      | Some l \<Rightarrow>
          if generation < 1 \<or> generation > l_generation l then Inl StaleGeneration
          else (let seen = max (case l_carrierGenerationSeen l of None \<Rightarrow> 0 | Some g \<Rightarrow> g) generation in
                Inr (if l_carrierGenerationSeen l = Some seen then l
                     else l\<lparr>l_carrierGenerationSeen := Some seen\<rparr>)))"

section \<open>Native-removed releases\<close>

type_synonym tree_key = "string \<times> string"

definition lease_tree :: "lease_row \<Rightarrow> tree_key" where
  "lease_tree l = (l_project l, l_adminRecord l)"

record census =
  cs_censused :: "string set"
  cs_listed :: "tree_key set"
  cs_absent :: "tree_key set"
  cs_unreadable :: "tree_key set"
  cs_heads :: "tree_key \<rightharpoonup> string"

record native_memory =
  m_absentListings :: "string \<rightharpoonup> nat"
  m_lastHeads :: "string \<rightharpoonup> string"

record native_release =
  nr_leaseId :: string
  nr_expectGeneration :: int
  nr_releaseReason :: release_reason
  nr_lastHeadSha :: "string option"

definition DELEGATION_NATIVE_REMOVED_LISTINGS :: nat where "DELEGATION_NATIVE_REMOVED_LISTINGS = 2"
definition DELEGATION_LEASE_RELEASES_PER_PASS :: nat where "DELEGATION_LEASE_RELEASES_PER_PASS = 8"

text \<open>What the loop carries: the releases asked so far, the memory, the uncensused count.\<close>

record plan_acc =
  pa_release :: "native_release list"
  pa_memory :: native_memory
  pa_uncensused :: nat

definition keep_memory :: "string \<Rightarrow> string option \<Rightarrow> nat \<Rightarrow> native_memory \<Rightarrow> native_memory" where
  "keep_memory leaseId head cnt m =
     (let m = (if cnt > 0 then m\<lparr>m_absentListings := (m_absentListings m)(leaseId \<mapsto> cnt)\<rparr> else m) in
      case head of None \<Rightarrow> m | Some h \<Rightarrow> m\<lparr>m_lastHeads := (m_lastHeads m)(leaseId \<mapsto> h)\<rparr>)"

definition last_head :: "census \<Rightarrow> native_memory \<Rightarrow> lease_row \<Rightarrow> string option" where
  "last_head cs prior l =
     (case (if l_project l \<in> cs_censused cs then cs_heads cs (lease_tree l) else None) of
        Some h \<Rightarrow> Some h
      | None \<Rightarrow> m_lastHeads prior (l_leaseId l))"

definition prior_count :: "native_memory \<Rightarrow> lease_row \<Rightarrow> nat" where
  "prior_count prior l = (case m_absentListings prior (l_leaseId l) of None \<Rightarrow> 0 | Some n \<Rightarrow> n)"

definition plan_one ::
  "(string \<rightharpoonup> carrier_row) \<Rightarrow> census \<Rightarrow> native_memory \<Rightarrow> plan_acc \<Rightarrow> lease_row \<Rightarrow> plan_acc" where
  "plan_one carriers cs prior acc l =
     (if l_releasedAt l \<noteq> None then acc
      else
        let key = lease_tree l;
            head = last_head cs prior l;
            n = prior_count prior l;
            kept = (\<lambda>c a. a\<lparr>pa_memory := keep_memory (l_leaseId l) head c (pa_memory a)\<rparr>)
        in
        if delegationCarrierStateOf l (carriers (l_leaseId l)) = Transferring then kept n acc
        else if l_project l \<notin> cs_censused cs
        then kept n (acc\<lparr>pa_uncensused := pa_uncensused acc + 1\<rparr>)
        else if key \<in> cs_unreadable cs then kept 0 acc
        else if key \<in> cs_listed cs \<and> key \<notin> cs_absent cs then kept 0 acc
        else
          (let acc' = kept (n + 1) acc in
           if n + 1 < DELEGATION_NATIVE_REMOVED_LISTINGS \<or>
              length (pa_release acc') \<ge> DELEGATION_LEASE_RELEASES_PER_PASS then acc'
           else acc'\<lparr>pa_release := pa_release acc' @
             [\<lparr>nr_leaseId = l_leaseId l, nr_expectGeneration = l_generation l,
               nr_releaseReason = (if l_disposition l = Promoted then RelTransferred else RelNativeRemoved),
               nr_lastHeadSha = head\<rparr>]\<rparr>))"

definition oldest_first :: "lease_row list \<Rightarrow> lease_row list" where
  "oldest_first ls = sort_key (\<lambda>l. (l_creatingJournalSequence l, l_leaseId l)) ls"

text \<open>\<open>new Map(rows.map((c) => [c.leaseId, c]))\<close>: a later row of an id wins.\<close>

definition carrier_map :: "carrier_row list \<Rightarrow> string \<rightharpoonup> carrier_row" where
  "carrier_map cs = map_of (rev (map (\<lambda>c. (cr_leaseId c, c)) cs))"

definition planNativeRemoved ::
  "lease_row list \<Rightarrow> carrier_row list \<Rightarrow> census \<Rightarrow> native_memory \<Rightarrow> plan_acc" where
  "planNativeRemoved leases carriers cs prior =
     foldl (plan_one (carrier_map carriers) cs prior)
       \<lparr>pa_release = [], pa_memory = \<lparr>m_absentListings = Map.empty, m_lastHeads = Map.empty\<rparr>, pa_uncensused = 0\<rparr>
       (oldest_first leases)"

end
