(* ===== verification/LeaseProps.thy ===== *)
theory LeaseProps
  imports LeaseState
begin

text \<open>
  What the lease table promises: one lease and its carrier row as a machine whose steps are
  the applied journal entries, the facts every reachable pair of rows has, what a generation
  protects against, and what the plan of native-removed releases may ask for.
\<close>

section \<open>The decision\<close>

lemma decideLeaseTransition_Inr:
  "decideLeaseTransition lease carrier reason g req = Inr d \<longleftrightarrow>
     (\<exists>l. lease = Some l \<and> l_releasedAt l = None \<and> g = l_generation l \<and>
       delegationCarrierStateOf l carrier \<in> set (transition_from reason) \<and>
       (reason = RCarrier \<longrightarrow> l_generation l = 0) \<and>
       (req \<longrightarrow> carrier_gated reason \<longrightarrow> (\<exists>s. l_carrierGenerationSeen l = Some s \<and> l_generation l \<le> s)) \<and>
       d = (case transition_to reason of None \<Rightarrow> AsDisposed (l_disposition l) | Some s \<Rightarrow> s, l_generation l + 1))"
  by (auto simp: decideLeaseTransition_def decideCommon_def Let_def split: option.splits if_splits)

lemma decideLeaseRelease_Inr:
  "decideLeaseRelease lease carrier g = Inr d \<longleftrightarrow>
     (\<exists>l. lease = Some l \<and> l_releasedAt l = None \<and> g = l_generation l \<and>
       delegationCarrierStateOf l carrier \<noteq> Transferring \<and> d = (ReleasedState, l_generation l + 1))"
  by (auto simp: decideLeaseRelease_def decideCommon_def split: option.splits if_splits)



section \<open>The machine of one lease\<close>

text \<open>
  The state is the lease row, its carrier row and its lineage rows; a step applies one
  accepted entry of the journal.
\<close>

type_synonym lease_state = "lease_row \<times> carrier_row option"

inductive lease_step :: "lease_state \<Rightarrow> lease_state \<Rightarrow> bool" where
  transition: "foldLeaseTransition (Some l) c lineage e seq mk = Inr f \<Longrightarrow> t_leaseId e = l_leaseId l \<Longrightarrow>
    lease_step (l, c) (f_lease f, f_carrier f)"
| release: "foldLeaseRelease (Some l) c lineage e seq = Inr f \<Longrightarrow> r_leaseId e = l_leaseId l \<Longrightarrow>
    lease_step (l, c) (f_lease f, f_carrier f)"
| seen: "foldLeaseCarrierSeen (Some l) g = Inr l' \<Longrightarrow> lease_step (l, c) (l', c)"

inductive_cases lease_stepE: "lease_step s t"

text \<open>A lease as it is minted.\<close>

definition fresh_lease :: "lease_state \<Rightarrow> bool" where
  "fresh_lease s \<longleftrightarrow> snd s = None \<and> l_generation (fst s) = 0 \<and> l_disposition (fst s) = Ephemeral \<and>
     l_terminalEvidenceAt (fst s) = None \<and> l_adoptedAt (fst s) = None \<and> l_retainedAt (fst s) = None \<and>
     l_promotedAt (fst s) = None \<and> l_cleanupDueAt (fst s) = None \<and>
     l_carrierGenerationSeen (fst s) = None \<and> l_releasedAt (fst s) = None"

definition lease_ok :: "lease_row \<Rightarrow> bool" where
  "lease_ok l \<longleftrightarrow>
     0 \<le> l_generation l \<and>
     (\<forall>g. l_carrierGenerationSeen l = Some g \<longrightarrow> 1 \<le> g \<and> g \<le> l_generation l) \<and>
     (l_disposition l = Adopted \<longrightarrow>
        (\<exists>a te. l_adoptedAt l = Some a \<and> l_terminalEvidenceAt l = Some te \<and>
           l_firstObservedAt l \<le> te \<and> te \<le> a) \<and> l_cleanupDueAt l \<noteq> None) \<and>
     (l_disposition l = Retained \<longrightarrow> l_retainedAt l \<noteq> None \<and> l_cleanupDueAt l \<noteq> None) \<and>
     (l_disposition l = Promoted \<longrightarrow> l_promotedAt l \<noteq> None)"

definition carrier_field :: "('a \<Rightarrow> 'b option) \<Rightarrow> 'a option \<Rightarrow> 'b option" where
  "carrier_field sel c = (case c of None \<Rightarrow> None | Some r \<Rightarrow> sel r)"

lemma carrier_field_simps [simp]:
  "carrier_field sel None = None" "carrier_field sel (Some r) = sel r"
  by (simp_all add: carrier_field_def)

text \<open>How the carrier row and the lease row agree.\<close>

definition carrier_ok :: "lease_row \<Rightarrow> carrier_row option \<Rightarrow> bool" where
  "carrier_ok l c \<longleftrightarrow>
     (carrier_field cr_transferringSince c = None \<longleftrightarrow> carrier_field cr_transferRun c = None) \<and>
     (carrier_field cr_transferringSince c \<noteq> None \<longrightarrow>
        l_disposition l \<noteq> Promoted \<and> l_releasedAt l = None) \<and>
     (l_disposition l = Promoted \<longrightarrow> carrier_field cr_promotedRun c \<noteq> None) \<and>
     (l_releasedAt l \<noteq> None \<longleftrightarrow> carrier_field cr_releaseReason c \<noteq> None)"

definition lease_inv :: "lease_state \<Rightarrow> bool" where
  "lease_inv s \<longleftrightarrow> lease_ok (fst s) \<and> carrier_ok (fst s) (snd s)"

lemma carrier_field_orNull:
  "carrier_field cr_transferringSince (carrierOrNull c) = cr_transferringSince c"
  "carrier_field cr_transferRun (carrierOrNull c) = cr_transferRun c"
  "carrier_field cr_promotedRun (carrierOrNull c) = cr_promotedRun c"
  "carrier_field cr_releaseReason (carrierOrNull c) = cr_releaseReason c"
  "carrier_field cr_resolvedThrough (carrierOrNull c) = cr_resolvedThrough c"
  by (auto simp: carrierOrNull_def)

lemma resolved_sel [simp]:
  "cr_transferringSince (resolved c m) = cr_transferringSince c"
  "cr_transferRun (resolved c m) = cr_transferRun c"
  "cr_promotedRun (resolved c m) = cr_promotedRun c"
  "cr_releaseReason (resolved c m) = cr_releaseReason c"
  by (auto simp: resolved_def split: option.splits)

lemma state_of_transferring:
  "delegationCarrierStateOf l c = Transferring \<longleftrightarrow>
     l_releasedAt l = None \<and> carrier_field cr_transferringSince c \<noteq> None"
  by (auto simp: delegationCarrierStateOf_def split: option.splits)

lemma state_of_disposed:
  "delegationCarrierStateOf l c = AsDisposed d \<longleftrightarrow>
     l_releasedAt l = None \<and> carrier_field cr_transferringSince c = None \<and> l_disposition l = d"
  by (auto simp: delegationCarrierStateOf_def split: option.splits)

lemmas state_of = state_of_transferring state_of_disposed

lemma foldLeaseTransition_Inr:
  "foldLeaseTransition (Some l) c lineage e seq mk = Inr f \<Longrightarrow>
     (\<exists>to. decideLeaseTransition (Some l) c (t_reason e) (t_generation e - 1) False = Inr (to, l_generation l + 1) \<and>
       \<not> bad_transition_entry l (to, l_generation l + 1) e \<and>
       f_lease f = transition_lease l to e seq \<and>
       f_carrier f = carrierOrNull (resolved (transition_carrier
          (case c of None \<Rightarrow> emptyCarrier (t_leaseId e) | Some r \<Rightarrow> r) e) (t_resolvesThrough e)))"
  by (auto simp: foldLeaseTransition_def Let_def decideLeaseTransition_Inr split: sum.splits if_splits)

lemma transition_lease_sel [simp]:
  "l_generation (transition_lease l to e seq) = t_generation e"
  "l_releasedAt (transition_lease l to e seq) = l_releasedAt l"
  "l_leaseId (transition_lease l to e seq) = l_leaseId l"
  "l_firstObservedAt (transition_lease l to e seq) = l_firstObservedAt l"
  "l_carrierGenerationSeen (transition_lease l to e seq) = l_carrierGenerationSeen l"
  "l_currentJournalSequence (transition_lease l to e seq) = seq"
  "l_disposition (transition_lease l to e seq) = (case to of AsDisposed d \<Rightarrow> d | _ \<Rightarrow> l_disposition l)"
  by (cases "t_reason e"; cases to; simp add: transition_lease_def Let_def)+

definition leaves_transfer :: "transition_reason \<Rightarrow> bool" where
  "leaves_transfer r \<longleftrightarrow> r = RTransferRefused \<or> r = RTransferRecovered \<or> r = RPromote"

lemma leaves_transferE:
  assumes "leaves_transfer r"
  obtains "r = RTransferRefused" | "r = RTransferRecovered" | "r = RPromote"
  using assms by (auto simp: leaves_transfer_def)

definition target :: "transition_reason \<Rightarrow> disposition \<Rightarrow> carrier_state" where
  "target r d = (case transition_to r of None \<Rightarrow> AsDisposed d | Some s \<Rightarrow> s)"

text \<open>What an accepted transition says of the row it is applied to.\<close>

lemma transition_source:
  assumes "decideLeaseTransition (Some l) c r g req = Inr (to, n)"
  shows "l_releasedAt l = None" "to = target r (l_disposition l)"
    "leaves_transfer r \<longleftrightarrow> carrier_field cr_transferringSince c \<noteq> None"
    "\<not> leaves_transfer r \<Longrightarrow> l_disposition l \<noteq> Promoted" "n = l_generation l + 1"
proof -
  from assms show rel: "l_releasedAt l = None" and "to = target r (l_disposition l)" "n = l_generation l + 1"
    by (auto simp: decideLeaseTransition_Inr target_def)
  from assms have st: "delegationCarrierStateOf l c \<in> set (transition_from r)"
    by (simp add: decideLeaseTransition_Inr)
  show "leaves_transfer r \<longleftrightarrow> carrier_field cr_transferringSince c \<noteq> None"
  proof (cases "carrier_field cr_transferringSince c = None")
    case True
    then have "delegationCarrierStateOf l c = AsDisposed (l_disposition l)" by (simp add: state_of rel)
    with st True show ?thesis by (cases r) (simp_all add: leaves_transfer_def)
  next
    case False
    then have "delegationCarrierStateOf l c = Transferring" by (simp add: state_of rel)
    with st False show ?thesis by (cases r) (simp_all add: leaves_transfer_def settled_def)
  qed
  show "l_disposition l \<noteq> Promoted" if n: "\<not> leaves_transfer r"
  proof
    assume p: "l_disposition l = Promoted"
    have "carrier_field cr_transferringSince c = None"
      using n \<open>leaves_transfer r \<longleftrightarrow> carrier_field cr_transferringSince c \<noteq> None\<close> by simp
    then have "delegationCarrierStateOf l c = AsDisposed Promoted" by (simp add: state_of rel p)
    with st n show False by (cases r) (simp_all add: leaves_transfer_def settled_def)
  qed
qed

lemma lease_ok_transition:
  assumes ok: "lease_ok l"
    and d: "decideLeaseTransition (Some l) c (t_reason e) g False = Inr (to, n)"
    and e: "\<not> bad_transition_entry l (to, n) e"
  shows "lease_ok (transition_lease l to e seq)"
proof -
  note src = transition_source[OF d]
  have gen: "t_generation e = l_generation l + 1" using e src(5) by (simp add: bad_transition_entry_def)
  have g0: "0 \<le> l_generation l" and gs: "\<And>g. l_carrierGenerationSeen l = Some g \<Longrightarrow> 1 \<le> g \<and> g \<le> l_generation l"
    using ok by (auto simp: lease_ok_def)
  have gs': "\<And>g. l_carrierGenerationSeen l = Some g \<Longrightarrow> 1 \<le> g \<and> g \<le> l_generation l + 1"
    using gs by force
  show ?thesis
  proof (cases "t_reason e")
    case RAdopt
    with e obtain te x where "t_terminalEvidenceAt e = Some te" "te \<le> t_at e" "l_firstObservedAt l \<le> te"
      "t_expiresAt e = Some x"
      by (cases "t_terminalEvidenceAt e"; cases "t_expiresAt e")
        (auto simp: bad_transition_entry_def keeps_reason_def not_less)
    with RAdopt gs' g0 show ?thesis
      by (simp add: lease_ok_def transition_lease_def Let_def src(2) target_def gen)
  next
    case RRetain
    with e have "t_expiresAt e \<noteq> None" by (simp add: bad_transition_entry_def keeps_reason_def)
    with RRetain gs' g0 show ?thesis
      by (simp add: lease_ok_def transition_lease_def Let_def src(2) target_def gen)
  next
    case ROperatorRetain
    with e have "t_expiresAt e \<noteq> None" by (simp add: bad_transition_entry_def keeps_reason_def)
    with ROperatorRetain gs' g0 show ?thesis
      by (simp add: lease_ok_def transition_lease_def Let_def src(2) target_def gen)
  next
    case RAttach
    with e have "t_expiresAt e \<noteq> None" by (simp add: bad_transition_entry_def keeps_reason_def)
    with RAttach gs' g0 show ?thesis
      by (simp add: lease_ok_def transition_lease_def Let_def src(2) target_def gen)
  qed (use ok gs' g0 in \<open>simp_all add: lease_ok_def transition_lease_def Let_def src(2) target_def gen\<close>)
qed

lemma carrier_ok_transition:
  assumes ok: "carrier_ok l c"
    and d: "decideLeaseTransition (Some l) c (t_reason e) g False = Inr (to, n)"
    and e: "\<not> bad_transition_entry l (to, n) e"
  shows "carrier_ok (transition_lease l to e seq)
    (carrierOrNull (resolved (transition_carrier
      (case c of None \<Rightarrow> emptyCarrier i | Some r \<Rightarrow> r) e) m))"
proof -
  note src = transition_source[OF d]
  have ru: "t_reason e = RTransfer \<or> t_reason e = RPromote \<Longrightarrow> t_runId e \<noteq> None"
    using e by (auto simp: bad_transition_entry_def)
  define c0 where "c0 = (case c of None \<Rightarrow> emptyCarrier i | Some r \<Rightarrow> r)"
  have c0: "carrier_field cr_transferringSince c = cr_transferringSince c0"
    "carrier_field cr_transferRun c = cr_transferRun c0"
    "carrier_field cr_promotedRun c = cr_promotedRun c0"
    "carrier_field cr_releaseReason c = cr_releaseReason c0"
    by (auto simp: c0_def emptyCarrier_def split: option.splits)
  have rel: "cr_releaseReason c0 = None" using ok src(1) by (simp add: carrier_ok_def c0)
  have tr: "cr_transferringSince c0 = None \<longleftrightarrow> cr_transferRun c0 = None"
    and nt: "cr_transferringSince c0 \<noteq> None \<Longrightarrow> l_disposition l \<noteq> Promoted"
    and pr: "l_disposition l = Promoted \<Longrightarrow> cr_promotedRun c0 \<noteq> None"
    and lt: "leaves_transfer (t_reason e) \<longleftrightarrow> cr_transferringSince c0 \<noteq> None"
    using ok src(3) by (auto simp: carrier_ok_def c0)
  have np: "l_disposition l \<noteq> Promoted"
    using nt lt src(4) by blast
  show ?thesis
    unfolding c0_def [symmetric] carrier_ok_def carrier_field_orNull resolved_sel transition_lease_sel
    using np tr lt rel src(1) ru unfolding src(2)
    by (cases "t_reason e") (simp_all add: transition_carrier_def target_def leaves_transfer_def)
qed

lemma carrier_ok_cong:
  "l_disposition l' = l_disposition l \<Longrightarrow> l_releasedAt l' = l_releasedAt l \<Longrightarrow> carrier_ok l' c = carrier_ok l c"
  by (simp add: carrier_ok_def)

lemma lease_step_inv: "lease_inv s \<Longrightarrow> lease_step s t \<Longrightarrow> lease_inv t"
proof (erule lease_stepE)
  fix l c lineage e seq mk f
  assume inv: "lease_inv s" and s: "s = (l, c)" "t = (f_lease f, f_carrier f)"
    and f: "foldLeaseTransition (Some l) c lineage e seq mk = Inr f"
  show "lease_inv t"
  proof -
    from foldLeaseTransition_Inr[OF f] obtain to where
      d: "decideLeaseTransition (Some l) c (t_reason e) (t_generation e - 1) False = Inr (to, l_generation l + 1)"
      and b: "\<not> bad_transition_entry l (to, l_generation l + 1) e"
      and f': "f_lease f = transition_lease l to e seq"
        "f_carrier f = carrierOrNull (resolved (transition_carrier
          (case c of None \<Rightarrow> emptyCarrier (t_leaseId e) | Some r \<Rightarrow> r) e) (t_resolvesThrough e))"
      by blast
    show ?thesis
      using inv lease_ok_transition[OF _ d b] carrier_ok_transition[OF _ d b]
      by (simp add: lease_inv_def s f')
  qed
next
  fix l c lineage e seq f
  assume inv: "lease_inv s" and s: "s = (l, c)" "t = (f_lease f, f_carrier f)"
    and f: "foldLeaseRelease (Some l) c lineage e seq = Inr f"
  from f have "l_releasedAt l = None" "r_generation e = l_generation l + 1"
    "delegationCarrierStateOf l c \<noteq> Transferring"
    "f_lease f = l\<lparr>l_generation := r_generation e, l_currentJournalSequence := seq, l_releasedAt := Some (r_at e)\<rparr>"
    "f_carrier f = carrierOrNull (resolved ((case c of None \<Rightarrow> emptyCarrier (r_leaseId e) | Some r \<Rightarrow> r)
       \<lparr>cr_releaseReason := Some (r_releaseReason e)\<rparr>) (r_resolvesThrough e))"
    by (auto simp: foldLeaseRelease_def Let_def decideLeaseRelease_Inr split: sum.splits if_splits)
  note r = this
  have inv': "lease_ok l" "carrier_ok l c" using inv by (simp_all add: lease_inv_def s)
  have "lease_ok (f_lease f)"
    using inv'(1) by (fastforce simp: lease_ok_def r)
  moreover have "carrier_ok (f_lease f) (f_carrier f)"
    using inv'(2) r(1,3) unfolding r(4,5)
    by (cases c) (simp_all add: carrier_ok_def carrier_field_orNull emptyCarrier_def state_of)
  ultimately show "lease_inv t" by (simp add: lease_inv_def s)
next
  fix l g l' c
  assume inv: "lease_inv s" and s: "s = (l, c)" "t = (l', c)" and f: "foldLeaseCarrierSeen (Some l) g = Inr l'"
  define seen where "seen = max (case l_carrierGenerationSeen l of None \<Rightarrow> 0 | Some g \<Rightarrow> g) g"
  have g: "1 \<le> g" "g \<le> l_generation l" and l': "l' = l \<or> l' = l\<lparr>l_carrierGenerationSeen := Some seen\<rparr>"
    using f by (simp_all add: foldLeaseCarrierSeen_def Let_def seen_def split: if_splits)
  have ok: "lease_ok l" "carrier_ok l c" using inv by (simp_all add: lease_inv_def s)
  have "1 \<le> seen \<and> seen \<le> l_generation l"
    using ok(1) g by (cases "l_carrierGenerationSeen l") (simp_all add: lease_ok_def seen_def max_def)
  with ok(1) l' have "lease_ok l'" by (elim disjE) (simp_all add: lease_ok_def)
  moreover from ok(2) l' have "carrier_ok l' c" using carrier_ok_cong[of l' l c] by auto
  ultimately show "lease_inv t" by (simp add: lease_inv_def s)
qed

text \<open>The generation only grows, and a released row is final.\<close>

definition lease_grows :: "lease_state \<Rightarrow> lease_state \<Rightarrow> bool" where
  "lease_grows s t \<longleftrightarrow> l_generation (fst s) \<le> l_generation (fst t) \<and> l_leaseId (fst t) = l_leaseId (fst s) \<and>
     (l_releasedAt (fst s) \<noteq> None \<longrightarrow>
        l_releasedAt (fst t) = l_releasedAt (fst s) \<and> l_generation (fst t) = l_generation (fst s) \<and>
        l_disposition (fst t) = l_disposition (fst s) \<and> snd t = snd s) \<and>
     (l_disposition (fst s) = Promoted \<longrightarrow> l_disposition (fst t) = Promoted)"

lemma promoted_refuses: "l_disposition l = Promoted \<Longrightarrow> carrier_field cr_transferringSince c = None \<Longrightarrow>
  delegationCarrierStateOf l c \<notin> set (transition_from r)"
  by (cases r) (auto simp: settled_def delegationCarrierStateOf_def split: option.splits)

lemma lease_step_grows: "lease_inv s \<Longrightarrow> lease_step s t \<Longrightarrow> lease_grows s t"
proof (erule lease_stepE)
  fix l c lineage e seq mk f
  assume inv: "lease_inv s" and s: "s = (l, c)" "t = (f_lease f, f_carrier f)"
    and f: "foldLeaseTransition (Some l) c lineage e seq mk = Inr f"
  have "l_disposition l \<noteq> Promoted"
    using foldLeaseTransition_Inr[OF f] inv promoted_refuses[of l c "t_reason e"]
    by (auto simp: lease_inv_def carrier_ok_def s decideLeaseTransition_Inr)
  then show "lease_grows s t"
    using foldLeaseTransition_Inr[OF f]
    by (auto simp: lease_grows_def s decideLeaseTransition_Inr bad_transition_entry_def)
next
  fix l c lineage e seq f
  assume "s = (l, c)" "t = (f_lease f, f_carrier f)" "foldLeaseRelease (Some l) c lineage e seq = Inr f"
  then show "lease_grows s t"
    by (auto simp: lease_grows_def foldLeaseRelease_def Let_def decideLeaseRelease_Inr split: sum.splits if_splits)
next
  fix l g l' c
  assume "s = (l, c)" "t = (l', c)" "foldLeaseCarrierSeen (Some l) g = Inr l'"
  then show "lease_grows s t"
    by (auto simp: lease_grows_def foldLeaseCarrierSeen_def Let_def split: if_splits)
qed

lemma lease_grows_trans: "lease_grows s t \<Longrightarrow> lease_grows t u \<Longrightarrow> lease_grows s u"
  by (auto simp: lease_grows_def)

interpretation lease_machine: inv_machine_frame fresh_lease lease_step lease_inv lease_grows
proof unfold_locales
  show "\<And>s. fresh_lease s \<Longrightarrow> lease_inv s"
    by (auto simp: fresh_lease_def lease_inv_def lease_ok_def carrier_ok_def)
  show "\<And>s t. lease_inv s \<Longrightarrow> lease_step s t \<Longrightarrow> lease_inv t" by (rule lease_step_inv)
  show "\<And>s. lease_grows s s" by (auto simp: lease_grows_def)
  show "\<And>s t u. lease_grows s t \<Longrightarrow> lease_grows t u \<Longrightarrow> lease_grows s u" by (rule lease_grows_trans)
  show "\<And>s t. lease_inv s \<Longrightarrow> lease_step s t \<Longrightarrow> lease_grows s t" by (rule lease_step_grows)
qed

section \<open>What reachable rows promise\<close>

lemma reach_inv: "fresh_lease s0 \<Longrightarrow> lease_step\<^sup>*\<^sup>* s0 s \<Longrightarrow> lease_inv s"
  by (rule lease_machine.inv_reach)

lemma field_Some: "carrier_field sel c \<noteq> None \<longleftrightarrow> (\<exists>r x. c = Some r \<and> sel r = Some x)"
  by (cases c) auto

text \<open>A concrete lease, for the witnesses.\<close>

definition demo_lease :: lease_row where
  "demo_lease = \<lparr>l_leaseId = ''a'', l_generation = 0, l_creatingJournalSequence = 1,
    l_currentJournalSequence = 1, l_activityId = ''b'', l_parentId = ''p'', l_parentIncarnation = ''i'',
    l_project = ''demo'', l_adminRecord = ''wt'', l_canonicalPath = ''/w'', l_creationBase = None,
    l_sourceKind = SrcAgent, l_disposition = Ephemeral, l_firstObservedAt = ''t0'',
    l_lastObservedAt = ''t0'', l_terminalEvidenceAt = None, l_adoptedAt = None, l_retainedAt = None,
    l_promotedAt = None, l_cleanupDueAt = None, l_carrierGenerationSeen = None, l_releasedAt = None\<rparr>"

definition demo_transfer :: transition_entry where
  "demo_transfer = \<lparr>t_leaseId = ''a'', t_generation = 1, t_reason = RTransfer, t_to = Transferring,
    t_at = ''t1'', t_expiresAt = None, t_terminalEvidenceAt = None, t_runId = Some 7,
    t_promotedSession = None, t_lineageClose = None, t_lineageOpenRun = None, t_resolvesThrough = None\<rparr>"

definition demo_release :: release_entry where
  "demo_release = \<lparr>r_leaseId = ''a'', r_generation = 1, r_releaseReason = RelNativeRemoved, r_at = ''t1'',
    r_lastHeadSha = None, r_resolvesThrough = None\<rparr>"

definition demo_moved :: lease_fold where
  "demo_moved = \<lparr>f_lease = demo_lease\<lparr>l_generation := 1, l_currentJournalSequence := 2\<rparr>,
    f_carrier = Some ((emptyCarrier ''a'')\<lparr>cr_transferringSince := Some ''t1'', cr_transferRun := Some 7\<rparr>),
    f_lineage = []\<rparr>"

definition demo_gone :: lease_fold where
  "demo_gone = \<lparr>f_lease = demo_lease\<lparr>l_generation := 1, l_currentJournalSequence := 2, l_releasedAt := Some ''t1''\<rparr>,
    f_carrier = Some ((emptyCarrier ''a'')\<lparr>cr_releaseReason := Some RelNativeRemoved\<rparr>),
    f_lineage = []\<rparr>"

lemma demo_fresh: "fresh_lease (demo_lease, None)"
  by (simp add: fresh_lease_def demo_lease_def)

lemma demo_fold: "foldLeaseTransition (Some demo_lease) None [] demo_transfer 2 mk = Inr demo_moved"
  by (simp add: foldLeaseTransition_def decideLeaseTransition_def decideCommon_def delegationCarrierStateOf_def
      demo_lease_def demo_transfer_def demo_moved_def settled_def bad_transition_entry_def keeps_reason_def
      transition_lease_def transition_carrier_def resolved_def carrierOrNull_def emptyCarrier_def)

lemma demo_fold_release: "foldLeaseRelease (Some demo_lease) None [] demo_release 2 = Inr demo_gone"
  by (simp add: foldLeaseRelease_def decideLeaseRelease_def decideCommon_def delegationCarrierStateOf_def
      demo_lease_def demo_release_def demo_gone_def resolved_def carrierOrNull_def emptyCarrier_def
      closeLeaseLineage_def)

lemma demo_step: "lease_step\<^sup>*\<^sup>* (demo_lease, None) (f_lease demo_moved, f_carrier demo_moved)"
  by (rule r_into_rtranclp, rule lease_step.transition [OF demo_fold])
    (simp add: demo_lease_def demo_transfer_def)

lemma demo_step_release: "lease_step\<^sup>*\<^sup>* (demo_lease, None) (f_lease demo_gone, f_carrier demo_gone)"
  by (rule r_into_rtranclp, rule lease_step.release [OF demo_fold_release])
    (simp add: demo_lease_def demo_release_def)

text \<open>The lease row and the carrier row never disagree. On every state the journal reaches
  from a minted lease: a transferring lease has the run it is transferring to, is not released
  and not promoted; a released one has its release reason; a promoted one has its run and its
  instant; an adopted one has terminal evidence between the first observation and the adoption,
  and a cleanup date; and the generation the carrier has seen is between 1 and the lease's.\<close>

theorem lease_rows_agree:
  assumes "fresh_lease s0" "lease_step\<^sup>*\<^sup>* s0 (l, c)"
  shows "(delegationCarrierStateOf l c = Transferring \<longrightarrow>
            l_releasedAt l = None \<and> l_disposition l \<noteq> Promoted \<and>
            (\<exists>r run. c = Some r \<and> cr_transferRun r = Some run)) \<and>
         (delegationCarrierStateOf l c = ReleasedState \<longrightarrow>
            (\<exists>r w. c = Some r \<and> cr_releaseReason r = Some w)) \<and>
         (l_disposition l = Promoted \<longrightarrow>
            l_promotedAt l \<noteq> None \<and> (\<exists>r run. c = Some r \<and> cr_promotedRun r = Some run)) \<and>
         (l_disposition l = Adopted \<longrightarrow>
            (\<exists>a te. l_adoptedAt l = Some a \<and> l_terminalEvidenceAt l = Some te \<and>
               l_firstObservedAt l \<le> te \<and> te \<le> a) \<and> l_cleanupDueAt l \<noteq> None) \<and>
         (\<forall>g. l_carrierGenerationSeen l = Some g \<longrightarrow> 1 \<le> g \<and> g \<le> l_generation l)"
proof -
  from reach_inv[OF assms] have ok: "lease_ok l" and c: "carrier_ok l c" by (simp_all add: lease_inv_def)
  have "delegationCarrierStateOf l c = ReleasedState \<Longrightarrow> l_releasedAt l \<noteq> None"
    by (auto simp: delegationCarrierStateOf_def split: if_splits)
  with c have "delegationCarrierStateOf l c = ReleasedState \<longrightarrow> carrier_field cr_releaseReason c \<noteq> None"
    by (auto simp: carrier_ok_def)
  moreover have "delegationCarrierStateOf l c = Transferring \<longrightarrow>
      l_releasedAt l = None \<and> l_disposition l \<noteq> Promoted \<and> carrier_field cr_transferRun c \<noteq> None"
    using c by (auto simp: state_of carrier_ok_def)
  moreover have "l_disposition l = Promoted \<longrightarrow> carrier_field cr_promotedRun c \<noteq> None"
    using c by (auto simp: carrier_ok_def)
  ultimately show ?thesis
    using ok unfolding field_Some lease_ok_def by simp
qed

theorem lease_rows_agree_witness:
  "delegationCarrierStateOf (f_lease demo_moved) (f_carrier demo_moved) = Transferring \<and>
   (\<exists>r run. f_carrier demo_moved = Some r \<and> cr_transferRun r = Some run)"
proof -
  have t: "delegationCarrierStateOf (f_lease demo_moved) (f_carrier demo_moved) = Transferring"
    by (simp add: delegationCarrierStateOf_def demo_moved_def demo_lease_def emptyCarrier_def)
  with lease_rows_agree[OF demo_fresh demo_step] show ?thesis by blast
qed

lemma fold_transition_refuses:
  "decideLeaseTransition (Some l) c (t_reason e) (t_generation e - 1) False = Inl r \<Longrightarrow>
   foldLeaseTransition (Some l) c lineage e seq mk = Inl (Refusal r)"
  by (simp add: foldLeaseTransition_def)

lemma fold_release_refuses:
  "decideLeaseRelease (Some l) c (r_generation e - 1) = Inl r \<Longrightarrow>
   foldLeaseRelease (Some l) c lineage e seq = Inl (Refusal r)"
  by (simp add: foldLeaseRelease_def)

lemma released_refuses:
  assumes "l_releasedAt l \<noteq> None"
  shows "foldLeaseTransition (Some l) c lineage e seq mk = Inl (Refusal LeaseReleased)"
    "foldLeaseRelease (Some l) c lineage r seq = Inl (Refusal LeaseReleased)"
  using assms
  by (auto intro!: fold_transition_refuses fold_release_refuses
      simp: decideLeaseTransition_def decideLeaseRelease_def decideCommon_def)

lemma stale_refuses:
  assumes "l_releasedAt l = None"
  shows "t_generation e \<le> l_generation l \<Longrightarrow>
      foldLeaseTransition (Some l) c lineage e seq mk = Inl (Refusal StaleGeneration)"
    "r_generation r \<le> l_generation l \<Longrightarrow>
      foldLeaseRelease (Some l) c lineage r seq = Inl (Refusal StaleGeneration)"
  using assms
  by (auto intro!: fold_transition_refuses fold_release_refuses
      simp: decideLeaseTransition_def decideLeaseRelease_def decideCommon_def)



text \<open>What is final is final. A released lease keeps its generation, disposition, release
  instant and carrier row over every later step and refuses every entry; a promoted one stays
  promoted and no transition applies to it; a transferring one cannot be released, and only
  the refusal, the recovery and the promotion move it.\<close>

theorem final_states_final:
  assumes "fresh_lease s0" "lease_step\<^sup>*\<^sup>* s0 (l, c)" "lease_step\<^sup>*\<^sup>* (l, c) (l', c')"
  shows "(l_releasedAt l \<noteq> None \<longrightarrow>
            l_releasedAt l' = l_releasedAt l \<and> l_generation l' = l_generation l \<and>
            l_disposition l' = l_disposition l \<and> c' = c \<and>
            foldLeaseTransition (Some l') c' lineage e seq mk = Inl (Refusal LeaseReleased) \<and>
            foldLeaseRelease (Some l') c' lineage r seq = Inl (Refusal LeaseReleased)) \<and>
         (l_disposition l = Promoted \<longrightarrow>
            l_disposition l' = Promoted \<and>
            (\<exists>w. foldLeaseTransition (Some l') c' lineage e seq mk = Inl w)) \<and>
         (delegationCarrierStateOf l c = Transferring \<longrightarrow>
            (\<exists>w. foldLeaseRelease (Some l) c lineage r seq = Inl w) \<and>
            (\<forall>f. foldLeaseTransition (Some l) c lineage e seq mk = Inr f \<longrightarrow>
               t_reason e \<in> {RTransferRefused, RTransferRecovered, RPromote}))"
proof -
  note inv = reach_inv[OF assms(1,2)]
  have inv': "lease_inv (l', c')" using lease_machine.inv_steps[OF assms(3) inv] .
  have g: "lease_grows (l, c) (l', c')" by (rule lease_machine.grows_steps[OF assms(3) inv])
  have no: "\<exists>w. foldLeaseTransition (Some l') c' lineage e seq mk = Inl w" if p: "l_disposition l' = Promoted"
  proof (rule ccontr)
    assume "\<nexists>w. foldLeaseTransition (Some l') c' lineage e seq mk = Inl w"
    then obtain f where "foldLeaseTransition (Some l') c' lineage e seq mk = Inr f"
      by (cases "foldLeaseTransition (Some l') c' lineage e seq mk") auto
    then obtain to where "decideLeaseTransition (Some l') c' (t_reason e) (t_generation e - 1) False =
        Inr (to, l_generation l' + 1)"
      by (blast dest: foldLeaseTransition_Inr)
    note src = transition_source[OF this]
    from inv' p have "carrier_field cr_transferringSince c' = None"
      by (auto simp: lease_inv_def carrier_ok_def)
    with src(3,4) p show False by simp
  qed
  have tr: "t_reason e \<in> {RTransferRefused, RTransferRecovered, RPromote}"
    if s: "delegationCarrierStateOf l c = Transferring"
      and f: "foldLeaseTransition (Some l) c lineage e seq mk = Inr f" for f
  proof -
    from f obtain to where "decideLeaseTransition (Some l) c (t_reason e) (t_generation e - 1) False =
        Inr (to, l_generation l + 1)"
      by (blast dest: foldLeaseTransition_Inr)
    from transition_source(3)[OF this] s show ?thesis by (auto simp: state_of leaves_transfer_def)
  qed
  have rl: "\<exists>w. foldLeaseRelease (Some l) c lineage r seq = Inl w"
    if s: "delegationCarrierStateOf l c = Transferring"
    using s by (cases "decideLeaseRelease (Some l) c (r_generation r - 1)")
      (auto simp: decideLeaseRelease_Inr dest: fold_release_refuses)
  show ?thesis
    using g no tr rl by (auto simp: lease_grows_def released_refuses)
qed

theorem final_states_final_witness:
  "foldLeaseTransition (Some (f_lease demo_gone)) (f_carrier demo_gone) [] demo_transfer 3 (\<lambda>_. ''r'') =
     Inl (Refusal LeaseReleased)"
  using final_states_final[OF demo_fresh demo_step_release rtranclp.rtrancl_refl,
      where lineage = "[]" and e = demo_transfer and seq = 3 and mk = "\<lambda>_. ''r''"]
  by (simp add: demo_gone_def)

end
