(* ===== verification/LeasePlan.thy ===== *)
theory LeasePlan
  imports LeaseProps
begin

text \<open>
  The plan of the native-removed releases (\<open>planNativeRemoved\<close>): the loop against a reference
  that says which leases a pass asks to release and what it remembers of each lease.
\<close>

section \<open>The reference\<close>

text \<open>The census of this pass measured the lease's project and its record is gone from it.\<close>

definition missing :: "census \<Rightarrow> lease_row \<Rightarrow> bool" where
  "missing cs l \<longleftrightarrow> l_project l \<in> cs_censused cs \<and> lease_tree l \<notin> cs_unreadable cs \<and>
     (lease_tree l \<in> cs_listed cs \<longrightarrow> lease_tree l \<in> cs_absent cs)"

text \<open>The consecutive absent listings of an unreleased lease after this pass.\<close>

definition next_count :: "(string \<rightharpoonup> carrier_row) \<Rightarrow> census \<Rightarrow> native_memory \<Rightarrow> lease_row \<Rightarrow> nat" where
  "next_count carriers cs prior l =
     (if delegationCarrierStateOf l (carriers (l_leaseId l)) = Transferring \<or> l_project l \<notin> cs_censused cs
      then prior_count prior l
      else if missing cs l then prior_count prior l + 1 else 0)"

definition release_due :: "(string \<rightharpoonup> carrier_row) \<Rightarrow> census \<Rightarrow> native_memory \<Rightarrow> lease_row \<Rightarrow> bool" where
  "release_due carriers cs prior l \<longleftrightarrow> l_releasedAt l = None \<and>
     delegationCarrierStateOf l (carriers (l_leaseId l)) \<noteq> Transferring \<and>
     missing cs l \<and> 1 \<le> prior_count prior l"

definition ask :: "census \<Rightarrow> native_memory \<Rightarrow> lease_row \<Rightarrow> native_release" where
  "ask cs prior l = \<lparr>nr_leaseId = l_leaseId l, nr_expectGeneration = l_generation l,
     nr_releaseReason = (if l_disposition l = Promoted then RelTransferred else RelNativeRemoved),
     nr_lastHeadSha = last_head cs prior l\<rparr>"

section \<open>One round of the loop\<close>

lemma keep_memory_sel [simp]:
  "m_absentListings (keep_memory i h n m) = (if n > 0 then (m_absentListings m)(i \<mapsto> n) else m_absentListings m)"
  "m_lastHeads (keep_memory i h n m) = (case h of None \<Rightarrow> m_lastHeads m | Some x \<Rightarrow> (m_lastHeads m)(i \<mapsto> x))"
  by (auto simp: keep_memory_def Let_def split: option.splits)

lemma plan_one_release:
  "pa_release (plan_one carriers cs prior acc l) =
     (if release_due carriers cs prior l \<and> length (pa_release acc) < 8 then pa_release acc @ [ask cs prior l]
      else pa_release acc)"
  by (auto simp: plan_one_def release_due_def missing_def ask_def Let_def not_le
      DELEGATION_NATIVE_REMOVED_LISTINGS_def DELEGATION_LEASE_RELEASES_PER_PASS_def)

lemma plan_one_memory:
  "pa_memory (plan_one carriers cs prior acc l) =
     (if l_releasedAt l \<noteq> None then pa_memory acc
      else keep_memory (l_leaseId l) (last_head cs prior l) (next_count carriers cs prior l) (pa_memory acc))"
  by (auto simp: plan_one_def next_count_def missing_def Let_def)

lemma plan_release:
  "pa_release (foldl (plan_one carriers cs prior) acc ls) =
     pa_release acc @ take (8 - length (pa_release acc)) (map (ask cs prior) (filter (release_due carriers cs prior) ls))"
proof (induction ls arbitrary: acc)
  case Nil
  then show ?case by simp
next
  case (Cons l ls)
  show ?case
  proof (cases "release_due carriers cs prior l \<and> length (pa_release acc) < 8")
    case True
    then have "8 - length (pa_release acc) = Suc (8 - Suc (length (pa_release acc)))" by linarith
    with True show ?thesis by (simp add: Cons plan_one_release)
  next
    case False
    then show ?thesis by (cases "release_due carriers cs prior l") (simp_all add: Cons plan_one_release)
  qed
qed

lemma plan_memory:
  assumes "distinct (map l_leaseId ls)"
  shows "m_absentListings (pa_memory (foldl (plan_one carriers cs prior) acc ls)) i =
     (case find (\<lambda>l. l_leaseId l = i \<and> l_releasedAt l = None) ls of
        Some l \<Rightarrow> if next_count carriers cs prior l > 0 then Some (next_count carriers cs prior l)
                  else m_absentListings (pa_memory acc) i
      | None \<Rightarrow> m_absentListings (pa_memory acc) i)"
  using assms
proof (induction ls arbitrary: acc)
  case Nil
  then show ?case by simp
next
  case (Cons l ls)
  have ih: "m_absentListings (pa_memory (foldl (plan_one carriers cs prior) (plan_one carriers cs prior acc l) ls)) i =
     (case find (\<lambda>l. l_leaseId l = i \<and> l_releasedAt l = None) ls of
        Some k \<Rightarrow> if next_count carriers cs prior k > 0 then Some (next_count carriers cs prior k)
                  else m_absentListings (pa_memory (plan_one carriers cs prior acc l)) i
      | None \<Rightarrow> m_absentListings (pa_memory (plan_one carriers cs prior acc l)) i)"
    using Cons.IH Cons.prems by simp
  show ?case
  proof (cases "l_leaseId l = i")
    case True
    then have "find (\<lambda>l. l_leaseId l = i \<and> l_releasedAt l = None) ls = None"
      using Cons.prems by (fastforce simp: find_None_iff_ball image_iff)
    with ih True show ?thesis by (auto simp: plan_one_memory)
  next
    case False
    with ih show ?thesis by (auto simp: plan_one_memory split: option.splits)
  qed
qed

lemma oldest_first_perm [simp]:
  "set (oldest_first ls) = set ls"
  "distinct (map l_leaseId (oldest_first ls)) = distinct (map l_leaseId ls)"
  by (simp_all add: oldest_first_def distinct_map)

lemma due_released_ok:
  "release_due carriers cs prior l \<Longrightarrow>
   decideLeaseRelease (Some l) (carriers (l_leaseId l)) (nr_expectGeneration (ask cs prior l)) =
     Inr (ReleasedState, l_generation l + 1)"
  by (simp add: decideLeaseRelease_Inr release_due_def ask_def)

section \<open>The plan\<close>

text \<open>What a pass of the native-removed plan asks for. The releases are exactly the first
  eight, oldest lease first, of the unreleased, not transferring leases whose project was
  censused, whose record is missing from this listing, and whose record was missing from the
  one before; every release it asks for is one the release decision accepts at the generation
  the plan read. The memory it hands to the next pass holds, for each unreleased lease, the
  consecutive listings it was absent from (a candidate beyond the cap keeps its count), and
  nothing for a released lease.\<close>

theorem native_removed_plan:
  assumes "distinct (map l_leaseId leases)"
  shows "pa_release (planNativeRemoved leases carriers cs prior) =
           take 8 (map (ask cs prior) (filter (release_due (carrier_map carriers) cs prior) (oldest_first leases))) \<and>
         (\<forall>r \<in> set (pa_release (planNativeRemoved leases carriers cs prior)). \<exists>l \<in> set leases.
            r = ask cs prior l \<and> release_due (carrier_map carriers) cs prior l \<and>
            decideLeaseRelease (Some l) (carrier_map carriers (l_leaseId l)) (nr_expectGeneration r) =
              Inr (ReleasedState, l_generation l + 1)) \<and>
         (\<forall>l \<in> set leases. m_absentListings (pa_memory (planNativeRemoved leases carriers cs prior)) (l_leaseId l) =
            (if l_releasedAt l = None \<and> next_count (carrier_map carriers) cs prior l > 0
             then Some (next_count (carrier_map carriers) cs prior l) else None))"
proof (intro conjI ballI)
  show rel: "pa_release (planNativeRemoved leases carriers cs prior) =
      take 8 (map (ask cs prior) (filter (release_due (carrier_map carriers) cs prior) (oldest_first leases)))"
    by (simp add: planNativeRemoved_def plan_release)
  fix r assume "r \<in> set (pa_release (planNativeRemoved leases carriers cs prior))"
  then obtain l where "l \<in> set leases" "r = ask cs prior l" "release_due (carrier_map carriers) cs prior l"
    unfolding rel by (auto dest!: in_set_takeD)
  then show "\<exists>l \<in> set leases. r = ask cs prior l \<and> release_due (carrier_map carriers) cs prior l \<and>
      decideLeaseRelease (Some l) (carrier_map carriers (l_leaseId l)) (nr_expectGeneration r) =
        Inr (ReleasedState, l_generation l + 1)"
    using due_released_ok by blast
next
  fix l assume l: "l \<in> set leases"
  have d: "distinct (map l_leaseId (oldest_first leases))" using assms by simp
  have one: "k = l" if "k \<in> set leases" "l_leaseId k = l_leaseId l" for k
    using assms l that by (auto simp: distinct_map dest: inj_onD)
  have "find (\<lambda>k. l_leaseId k = l_leaseId l \<and> l_releasedAt k = None) (oldest_first leases) =
      (if l_releasedAt l = None then Some l else None)"
  proof (cases "find (\<lambda>k. l_leaseId k = l_leaseId l \<and> l_releasedAt k = None) (oldest_first leases)")
    case None
    then show ?thesis using l by (auto simp: find_None_iff_ball)
  next
    case (Some k)
    from find_Some_set[OF this] have "k = l" "l_releasedAt k = None" by (auto intro: one)
    with Some show ?thesis by simp
  qed
  then show "m_absentListings (pa_memory (planNativeRemoved leases carriers cs prior)) (l_leaseId l) =
      (if l_releasedAt l = None \<and> next_count (carrier_map carriers) cs prior l > 0
       then Some (next_count (carrier_map carriers) cs prior l) else None)"
    by (simp add: planNativeRemoved_def plan_memory[OF d])
qed

definition demo_census :: census where
  "demo_census = \<lparr>cs_censused = {''demo''}, cs_listed = {}, cs_absent = {}, cs_unreadable = {}, cs_heads = Map.empty\<rparr>"

definition demo_memory :: native_memory where
  "demo_memory = \<lparr>m_absentListings = [''a'' \<mapsto> 1], m_lastHeads = Map.empty\<rparr>"

theorem native_removed_plan_witness:
  "map nr_leaseId (pa_release (planNativeRemoved [demo_lease] [] demo_census demo_memory)) = [''a''] \<and>
   m_absentListings (pa_memory (planNativeRemoved [demo_lease] [] demo_census demo_memory)) ''a'' = Some 2"
proof -
  have e: "release_due (carrier_map []) demo_census demo_memory demo_lease"
    and n: "next_count (carrier_map []) demo_census demo_memory demo_lease = 2"
    by (simp_all add: release_due_def next_count_def missing_def demo_census_def demo_memory_def demo_lease_def
        delegationCarrierStateOf_def carrier_map_def prior_count_def lease_tree_def)
  have i: "l_leaseId demo_lease = ''a''" "l_releasedAt demo_lease = None" by (simp_all add: demo_lease_def)
  have o: "oldest_first [demo_lease] = [demo_lease]" by (simp add: oldest_first_def)
  have "distinct (map l_leaseId [demo_lease])" by simp
  note plan = native_removed_plan[OF this, of "[]" demo_census demo_memory]
  have "pa_release (planNativeRemoved [demo_lease] [] demo_census demo_memory) = [ask demo_census demo_memory demo_lease]"
    using plan [THEN conjunct1] e unfolding o by (simp only: filter.simps list.map if_True take_Suc_Cons take_Nil numeral_eq_Suc)
  moreover have "m_absentListings (pa_memory (planNativeRemoved [demo_lease] [] demo_census demo_memory)) ''a'' = Some 2"
    using plan [THEN conjunct2, THEN conjunct2, THEN bspec, of demo_lease] unfolding n i by simp
  ultimately show ?thesis by (simp only: ask_def list.map native_release.simps i)
qed

end
