(* ===== verification/RateLimit.thy ===== *)
theory RateLimit
  imports Prelude
begin

text \<open>
  The sign-in brakes (\<open>server/src/auth/ratelimit.ts\<close>): the pure window arithmetic, the
  \<open>LoginRateLimiter\<close> object with its in-flight slots, and the per-session step-up budget.
  A release closure is a handle: its index in the list of handles the object has given out,
  with the closure's own \<open>released\<close> variable. The entries of the step-up map are objects
  shared between the map and the closures, so they live in an explicit heap. Every default
  \<open>now = Date.now()\<close> is an argument.
\<close>

section \<open>The window\<close>

record rate_state =
  windowStart :: int
  rcount :: int

definition WINDOW_MS :: int where "WINDOW_MS = 60000"
definition MAX_FAILURES :: int where "MAX_FAILURES = 8"
definition PASSKEY_MAX_FAILURES :: int where "PASSKEY_MAX_FAILURES = 60"

record rate_verdict =
  v_ok :: bool
  v_state :: rate_state
  v_retryAfter :: "int option"

definition rolled :: "rate_state \<Rightarrow> int \<Rightarrow> rate_state" where
  "rolled st now =
     (if now - windowStart st \<ge> WINDOW_MS then \<lparr>windowStart = now, rcount = 0\<rparr> else st)"

definition msUntilWindowEnd :: "rate_state \<Rightarrow> int \<Rightarrow> int" where
  "msUntilWindowEnd st now = windowStart st + WINDOW_MS - now"

definition loginVerdict :: "rate_state \<Rightarrow> int \<Rightarrow> int \<Rightarrow> int \<Rightarrow> rate_verdict" where
  "loginVerdict st now inFlight mx =
     (let nxt = rolled st now in
      if rcount nxt + inFlight < mx then \<lparr>v_ok = True, v_state = nxt, v_retryAfter = None\<rparr>
      else \<lparr>v_ok = False, v_state = nxt, v_retryAfter = Some (msUntilWindowEnd nxt now)\<rparr>)"

definition recordFailure :: "rate_state \<Rightarrow> int \<Rightarrow> rate_state" where
  "recordFailure st now =
     (let nxt = rolled st now in \<lparr>windowStart = windowStart nxt, rcount = rcount nxt + 1\<rparr>)"

definition recordSuccess :: "rate_state \<Rightarrow> int \<Rightarrow> rate_state" where
  "recordSuccess st now = \<lparr>windowStart = now, rcount = 0\<rparr>"

section \<open>The login limiter\<close>

record limiter =
  rl_state :: rate_state
  rl_inFlight :: int
  rl_max :: int
  rl_released :: "bool list"

definition new_limiter :: "int \<Rightarrow> int \<Rightarrow> limiter" where
  "new_limiter now mx =
     \<lparr>rl_state = \<lparr>windowStart = now, rcount = 0\<rparr>, rl_inFlight = 0, rl_max = mx, rl_released = []\<rparr>"

definition check :: "int \<Rightarrow> limiter \<Rightarrow> (bool \<times> int option) \<times> limiter" where
  "check now l =
     (let v = loginVerdict (rl_state l) now (rl_inFlight l) (rl_max l) in
      ((v_ok v, v_retryAfter v), l\<lparr>rl_state := v_state v\<rparr>))"

text \<open>\<open>Inl\<close> is a refusal with its \<open>retryAfter\<close>, \<open>Inr\<close> the handle of the slot.\<close>

definition reserve :: "int \<Rightarrow> limiter \<Rightarrow> (int + nat) \<times> limiter" where
  "reserve now l =
     (let v = loginVerdict (rl_state l) now (rl_inFlight l) (rl_max l);
          l = l\<lparr>rl_state := v_state v\<rparr> in
      if \<not> v_ok v then (Inl (msUntilWindowEnd (v_state v) now), l)
      else (Inr (length (rl_released l)),
            l\<lparr>rl_inFlight := rl_inFlight l + 1, rl_released := rl_released l @ [False]\<rparr>))"

definition release :: "nat \<Rightarrow> limiter \<Rightarrow> limiter" where
  "release h l =
     (if h < length (rl_released l) \<and> \<not> rl_released l ! h
      then l\<lparr>rl_released := (rl_released l)[h := True], rl_inFlight := rl_inFlight l - 1\<rparr>
      else l)"

definition pending :: "limiter \<Rightarrow> int" where "pending l = rl_inFlight l"

definition spend :: "int \<Rightarrow> limiter \<Rightarrow> limiter" where
  "spend now l = l\<lparr>rl_state := recordFailure (rl_state l) now\<rparr>"

definition fail :: "int \<Rightarrow> limiter \<Rightarrow> limiter" where "fail now l = spend now l"

definition succeed :: "int \<Rightarrow> limiter \<Rightarrow> limiter" where
  "succeed now l = l\<lparr>rl_state := recordSuccess (rl_state l) now\<rparr>"

section \<open>The step-up limiter\<close>

definition STEP_UP_MAX_FAILURES :: nat where "STEP_UP_MAX_FAILURES = 5"

datatype step_up_refusal = SLocked | SBusy

record su_entry =
  e_failures :: nat
  e_locked :: bool
  e_inFlight :: bool

text \<open>A handle: the entry object it closes over, its session key, and \<open>released\<close>.\<close>

record su_handle =
  h_entry :: nat
  h_key :: string
  h_released :: bool

record step_up =
  su_heap :: "su_entry list"
  su_map :: "string \<rightharpoonup> nat"
  su_handles :: "su_handle list"

definition new_step_up :: step_up where
  "new_step_up = \<lparr>su_heap = [], su_map = Map.empty, su_handles = []\<rparr>"

definition new_entry :: su_entry where
  "new_entry = \<lparr>e_failures = 0, e_locked = False, e_inFlight = False\<rparr>"

definition su_entry_of :: "string \<Rightarrow> step_up \<Rightarrow> nat \<times> step_up" where
  "su_entry_of idHash s =
     (case su_map s idHash of
        Some a \<Rightarrow> (a, s)
      | None \<Rightarrow> (length (su_heap s),
          s\<lparr>su_heap := su_heap s @ [new_entry], su_map := (su_map s)(idHash \<mapsto> length (su_heap s))\<rparr>))"

definition put_entry :: "nat \<Rightarrow> su_entry \<Rightarrow> step_up \<Rightarrow> step_up" where
  "put_entry a e s = s\<lparr>su_heap := (su_heap s)[a := e]\<rparr>"

definition su_isLocked :: "string \<Rightarrow> step_up \<Rightarrow> bool" where
  "su_isLocked idHash s = (case su_map s idHash of None \<Rightarrow> False | Some a \<Rightarrow> e_locked (su_heap s ! a))"

definition su_reserve :: "string \<Rightarrow> step_up \<Rightarrow> (step_up_refusal + nat) \<times> step_up" where
  "su_reserve idHash s0 =
     (let (a, s) = su_entry_of idHash s0; e = su_heap s ! a in
      if e_locked e then (Inl SLocked, s)
      else if e_inFlight e then (Inl SBusy, s)
      else (Inr (length (su_handles s)),
            (put_entry a (e\<lparr>e_inFlight := True\<rparr>) s)
              \<lparr>su_handles := su_handles s @ [\<lparr>h_entry = a, h_key = idHash, h_released = False\<rparr>]\<rparr>))"

definition su_release :: "nat \<Rightarrow> step_up \<Rightarrow> step_up" where
  "su_release h s =
     (if h \<ge> length (su_handles s) \<or> h_released (su_handles s ! h) then s
      else
        let hd = su_handles s ! h; a = h_entry hd; e = su_heap s ! a;
            s1 = (put_entry a (e\<lparr>e_inFlight := False\<rparr>) s)
                   \<lparr>su_handles := (su_handles s)[h := hd\<lparr>h_released := True\<rparr>]\<rparr> in
        if \<not> e_locked e \<and> e_failures e = 0 then s1\<lparr>su_map := (su_map s1)(h_key hd := None)\<rparr> else s1)"

definition su_fail :: "nat \<Rightarrow> string \<Rightarrow> step_up \<Rightarrow> bool \<times> step_up" where
  "su_fail mx idHash s0 =
     (let (a, s) = su_entry_of idHash s0; e = su_heap s ! a in
      if e_locked e then (False, s)
      else
        let e1 = e\<lparr>e_failures := e_failures e + 1\<rparr> in
        if e_failures e1 \<ge> mx then (True, put_entry a (e1\<lparr>e_locked := True\<rparr>) s)
        else (False, put_entry a e1 s))"

definition su_succeed :: "string \<Rightarrow> step_up \<Rightarrow> step_up" where
  "su_succeed idHash s =
     (case su_map s idHash of
        None \<Rightarrow> s
      | Some a \<Rightarrow>
          let e = su_heap s ! a in
          if \<not> e_locked e then put_entry a (e\<lparr>e_failures := 0\<rparr>) s else s)"

end
