(* ===== verification/RateProps.thy ===== *)
theory RateProps
  imports RateLimit
begin

text \<open>
  What the sign-in brakes promise: the exact verdict of the window, the slots of the login
  limiter as a machine, and the step-up limiter against a specification that keeps one
  budget per session and knows nothing of the map, the heap or the closures.
\<close>

section \<open>The window\<close>

text \<open>The verdict is exact. With the window the state is in, a sign-in is refused exactly
  when that window has not ended and the failures counted in it plus the sign-ins in flight
  reach the ceiling, or when those in flight reach it alone; the wait it answers is between 1
  and 60000 ms when the window's start is not in the future; and once that wait has passed a
  sign-in is admitted whenever a slot is free, whatever was counted.\<close>

theorem loginVerdict_exact:
  assumes "windowStart st \<le> now" "0 \<le> rcount st"
  shows "(v_ok (loginVerdict st now n mx) \<longleftrightarrow>
            n < mx \<and> (now < windowStart st + WINDOW_MS \<longrightarrow> rcount st + n < mx)) \<and>
         (v_ok (loginVerdict st now n mx) \<longleftrightarrow> v_retryAfter (loginVerdict st now n mx) = None) \<and>
         (\<forall>w. v_retryAfter (loginVerdict st now n mx) = Some w \<longrightarrow>
            0 < w \<and> w \<le> WINDOW_MS \<and>
            (\<forall>m. v_ok (loginVerdict (v_state (loginVerdict st now n mx)) (now + w) m mx) \<longleftrightarrow> m < mx))"
  using assms
  by (auto simp: loginVerdict_def rolled_def Let_def msUntilWindowEnd_def WINDOW_MS_def)

theorem loginVerdict_exact_witness:
  "v_retryAfter (loginVerdict \<lparr>windowStart = 0, rcount = 7\<rparr> 1000 1 MAX_FAILURES) = Some 59000 \<and>
   v_ok (loginVerdict (v_state (loginVerdict \<lparr>windowStart = 0, rcount = 7\<rparr> 1000 1 MAX_FAILURES)) 60000 1 MAX_FAILURES)"
proof -
  have w: "v_retryAfter (loginVerdict \<lparr>windowStart = 0, rcount = 7\<rparr> 1000 1 MAX_FAILURES) = Some 59000"
    by (simp add: loginVerdict_def rolled_def msUntilWindowEnd_def WINDOW_MS_def MAX_FAILURES_def)
  have "\<forall>m. v_ok (loginVerdict (v_state (loginVerdict \<lparr>windowStart = 0, rcount = 7\<rparr> 1000 1 MAX_FAILURES))
      (1000 + 59000) m MAX_FAILURES) \<longleftrightarrow> m < MAX_FAILURES"
    using loginVerdict_exact[of "\<lparr>windowStart = 0, rcount = 7\<rparr>" 1000 1 MAX_FAILURES] w by simp
  from spec[OF this, of 1] w show ?thesis by (simp add: MAX_FAILURES_def)
qed

section \<open>The slots of the login limiter\<close>

text \<open>One call of the object, at an instant of the caller's.\<close>

inductive limiter_step :: "limiter \<Rightarrow> limiter \<Rightarrow> bool" where
  "limiter_step l (snd (check now l))"
| "limiter_step l (snd (reserve now l))"
| "limiter_step l (release h l)"
| "limiter_step l (fail now l)"
| "limiter_step l (succeed now l)"

inductive_cases limiter_stepE: "limiter_step l l'"

definition live_slots :: "limiter \<Rightarrow> nat" where
  "live_slots l = length (filter Not (rl_released l))"

definition limiter_inv :: "int \<Rightarrow> limiter \<Rightarrow> bool" where
  "limiter_inv mx l \<longleftrightarrow> rl_max l = mx \<and> 0 \<le> mx \<and> rl_inFlight l = int (live_slots l) \<and>
     int (live_slots l) \<le> mx \<and> 0 \<le> rcount (rl_state l)"

definition slot_grows :: "limiter \<Rightarrow> limiter \<Rightarrow> bool" where
  "slot_grows l l' \<longleftrightarrow> length (rl_released l) \<le> length (rl_released l') \<and>
     (\<forall>h < length (rl_released l). rl_released l ! h \<longrightarrow> rl_released l' ! h)"

lemma filter_Not_update:
  "h < length bs \<Longrightarrow> \<not> bs ! h \<Longrightarrow> Suc (length (filter Not (bs[h := True]))) = length (filter Not bs)"
  by (induction bs arbitrary: h) (auto simp: nth_Cons split: nat.splits)

lemma rolled_count: "0 \<le> rcount st \<Longrightarrow> 0 \<le> rcount (rolled st now)"
  by (simp add: rolled_def)

lemma limiter_inv_step:
  assumes "limiter_inv mx l" "limiter_step l l'"
  shows "limiter_inv mx l'"
proof -
  have r: "\<And>now. 0 \<le> rcount (rolled (rl_state l) now)"
    using assms(1) by (simp add: limiter_inv_def rolled_count)
  have a: "rcount (rolled (rl_state l) now) + n < k \<Longrightarrow> n + 1 \<le> k" for now n k
    using r[of now] by linarith
  have c: "0 \<le> rcount (rolled (rl_state l) now) + 1" for now
    using r[of now] by linarith
  show ?thesis
    using assms(2,1)
    by (elim limiter_stepE)
      (auto simp: limiter_inv_def live_slots_def check_def reserve_def release_def fail_def spend_def
        succeed_def recordFailure_def recordSuccess_def loginVerdict_def Let_def r c
        dest: filter_Not_update a)
qed

lemma slot_grows_step: "limiter_step l l' \<Longrightarrow> slot_grows l l'"
  by (erule limiter_stepE)
    (auto simp: slot_grows_def check_def reserve_def release_def fail_def spend_def succeed_def Let_def
      nth_append nth_list_update)

interpretation login_machine: inv_machine_frame "\<lambda>l. \<exists>now. 0 \<le> mx \<and> l = new_limiter now mx" limiter_step
  "limiter_inv mx" slot_grows for mx
proof unfold_locales
  show "\<And>l. \<exists>now. 0 \<le> mx \<and> l = new_limiter now mx \<Longrightarrow> limiter_inv mx l"
    by (auto simp: limiter_inv_def new_limiter_def live_slots_def)
  show "\<And>l l'. limiter_inv mx l \<Longrightarrow> limiter_step l l' \<Longrightarrow> limiter_inv mx l'" by (rule limiter_inv_step)
  show "\<And>l. slot_grows l l" by (simp add: slot_grows_def)
  show "\<And>l l' l''. slot_grows l l' \<Longrightarrow> slot_grows l' l'' \<Longrightarrow> slot_grows l l''"
    by (auto simp: slot_grows_def)
  show "\<And>l l'. limiter_inv mx l \<Longrightarrow> limiter_step l l' \<Longrightarrow> slot_grows l l'" by (rule slot_grows_step)
qed

text \<open>The login limiter counts its slots. Whatever the sequence of calls, at whatever
  instants, the in-flight count is the number of handles given out and not yet released, it
  never exceeds the ceiling and never goes below zero, releasing a handle again changes
  nothing ever after, and a reservation is admitted only while the failures of the window and
  the slots in flight together are below the ceiling.\<close>

theorem login_slots_counted:
  assumes "0 \<le> mx" "limiter_step\<^sup>*\<^sup>* (new_limiter t0 mx) l" "limiter_step\<^sup>*\<^sup>* l l'"
  shows "pending l = int (live_slots l) \<and> 0 \<le> pending l \<and> pending l \<le> mx \<and>
         (h < length (rl_released l) \<longrightarrow> rl_released l ! h \<longrightarrow> release h l' = l') \<and>
         (fst (reserve now l) = Inr i \<longrightarrow>
            rcount (rolled (rl_state l) now) + int (live_slots l) < mx \<and> i = length (rl_released l))"
proof -
  have inv: "limiter_inv mx l" using login_machine.inv_reach[OF _ assms(2)] assms(1) by blast
  have "slot_grows l l'" using login_machine.grows_steps[OF assms(3) inv] .
  then have "h < length (rl_released l) \<longrightarrow> rl_released l ! h \<longrightarrow> release h l' = l'"
    by (simp add: slot_grows_def release_def)
  moreover have "pending l = int (live_slots l) \<and> 0 \<le> pending l \<and> pending l \<le> mx"
    using inv by (simp add: limiter_inv_def pending_def)
  moreover have "fst (reserve now l) = Inr i \<longrightarrow>
      rcount (rolled (rl_state l) now) + int (live_slots l) < mx \<and> i = length (rl_released l)"
    using inv by (simp add: limiter_inv_def reserve_def Let_def loginVerdict_def)
  ultimately show ?thesis by blast
qed

theorem login_slots_counted_witness:
  "release 0 (release 0 (snd (reserve 5 (new_limiter 0 8)))) = release 0 (snd (reserve 5 (new_limiter 0 8)))"
proof -
  let ?l = "release 0 (snd (reserve 5 (new_limiter 0 8)))"
  have "limiter_step (new_limiter 0 8) (snd (reserve 5 (new_limiter 0 8)))" by (rule limiter_step.intros(2))
  moreover have "limiter_step (snd (reserve 5 (new_limiter 0 8))) ?l" by (rule limiter_step.intros(3))
  ultimately have r: "limiter_step\<^sup>*\<^sup>* (new_limiter 0 8) ?l" by (rule two_steps)
  have "0 < length (rl_released ?l) \<and> rl_released ?l ! 0"
    by (simp add: release_def reserve_def new_limiter_def loginVerdict_def rolled_def WINDOW_MS_def)
  with login_slots_counted[OF _ r rtranclp.rtrancl_refl, where h = 0] show ?thesis by simp
qed

section \<open>The step-up budget\<close>

text \<open>The specification: every session has a budget of its own, and nothing else exists.\<close>

type_synonym budgets = "string \<Rightarrow> su_entry"

definition spec_reserve :: "string \<Rightarrow> budgets \<Rightarrow> step_up_refusal option \<times> budgets" where
  "spec_reserve k B =
     (if e_locked (B k) then (Some SLocked, B)
      else if e_inFlight (B k) then (Some SBusy, B)
      else (None, B(k := (B k)\<lparr>e_inFlight := True\<rparr>)))"

definition spec_release :: "string \<Rightarrow> budgets \<Rightarrow> budgets" where
  "spec_release k B = B(k := (B k)\<lparr>e_inFlight := False\<rparr>)"

definition spec_fail :: "nat \<Rightarrow> string \<Rightarrow> budgets \<Rightarrow> bool \<times> budgets" where
  "spec_fail mx k B =
     (if e_locked (B k) then (False, B)
      else if e_failures (B k) + 1 \<ge> mx
      then (True, B(k := (B k)\<lparr>e_failures := e_failures (B k) + 1, e_locked := True\<rparr>))
      else (False, B(k := (B k)\<lparr>e_failures := e_failures (B k) + 1\<rparr>)))"

definition spec_succeed :: "string \<Rightarrow> budgets \<Rightarrow> budgets" where
  "spec_succeed k B = (if e_locked (B k) then B else B(k := (B k)\<lparr>e_failures := 0\<rparr>))"

text \<open>The abstraction: a session with no entry has an untouched budget.\<close>

definition su_view :: "step_up \<Rightarrow> budgets" where
  "su_view s = (\<lambda>k. case su_map s k of None \<Rightarrow> new_entry | Some a \<Rightarrow> su_heap s ! a)"

definition su_wf :: "step_up \<Rightarrow> bool" where
  "su_wf s \<longleftrightarrow> (\<forall>k a. su_map s k = Some a \<longrightarrow> a < length (su_heap s)) \<and>
     (\<forall>k k' a. su_map s k = Some a \<longrightarrow> su_map s k' = Some a \<longrightarrow> k = k')"

definition live_handle :: "step_up \<Rightarrow> nat \<Rightarrow> bool" where
  "live_handle s h \<longleftrightarrow> h < length (su_handles s) \<and> \<not> h_released (su_handles s ! h)"

abbreviation key_of :: "step_up \<Rightarrow> nat \<Rightarrow> string" where
  "key_of s h \<equiv> h_key (su_handles s ! h)"

definition su_inv :: "step_up \<Rightarrow> bool" where
  "su_inv s \<longleftrightarrow> su_wf s \<and>
     (\<forall>h. live_handle s h \<longrightarrow> su_map s (key_of s h) = Some (h_entry (su_handles s ! h))) \<and>
     (\<forall>h h'. live_handle s h \<longrightarrow> live_handle s h' \<longrightarrow> key_of s h = key_of s h' \<longrightarrow> h = h') \<and>
     (\<forall>k. e_inFlight (su_view s k) \<longleftrightarrow> (\<exists>h. live_handle s h \<and> key_of s h = k))"

lemma su_view_Some: "su_map s k = Some a \<Longrightarrow> su_view s k = su_heap s ! a"
  by (simp add: su_view_def)

lemma put_entry_sel [simp]:
  "su_map (put_entry a e s) = su_map s" "su_handles (put_entry a e s) = su_handles s"
  "length (su_heap (put_entry a e s)) = length (su_heap s)"
  by (simp_all add: put_entry_def)

lemma su_wf_put [simp]: "su_wf (put_entry a e s) = su_wf s"
  by (simp add: su_wf_def)

lemma su_view_put:
  assumes "su_wf s" "su_map s k = Some a"
  shows "su_view (put_entry a e s) = (su_view s)(k := e)"
proof
  fix k'
  show "su_view (put_entry a e s) k' = ((su_view s)(k := e)) k'"
  proof (cases "k' = k")
    case True
    with assms show ?thesis by (simp add: su_view_def put_entry_def su_wf_def)
  next
    case False
    with assms have "su_map s k' \<noteq> Some a" by (auto simp: su_wf_def)
    with False show ?thesis by (auto simp: su_view_def put_entry_def split: option.splits)
  qed
qed

lemma su_entry_of_spec:
  assumes "su_wf s" "su_entry_of k s = (a, s')"
  shows "su_wf s'" "su_map s' k = Some a" "su_view s' = su_view s" "su_handles s' = su_handles s"
    "\<And>k' b. su_map s k' = Some b \<Longrightarrow> su_map s' k' = Some b"
    "su_heap s' ! a = su_view s k"
proof -
  show wf: "su_wf s'" and m: "su_map s' k = Some a" and "su_handles s' = su_handles s"
    and "\<And>k' b. su_map s k' = Some b \<Longrightarrow> su_map s' k' = Some b"
    using assms by (fastforce simp: su_entry_of_def su_wf_def split: option.splits if_splits)+
  show v: "su_view s' = su_view s"
  proof (cases "su_map s k")
    case (Some b)
    with assms(2) show ?thesis by (simp add: su_entry_of_def)
  next
    case None
    then have s': "su_map s' = (su_map s)(k \<mapsto> length (su_heap s))" "su_heap s' = su_heap s @ [new_entry]"
      using assms(2) by (auto simp: su_entry_of_def)
    show ?thesis
    proof
      fix k'
      show "su_view s' k' = su_view s k'"
        using None assms(1) by (cases "su_map s k'") (auto simp: su_view_def s' su_wf_def nth_append)
    qed
  qed
  show "su_heap s' ! a = su_view s k" using su_view_Some[OF m] v by simp
qed

lemma su_inv_cong:
  assumes "su_inv s" "su_wf s'" "su_handles s' = su_handles s"
    and "\<And>k b. su_map s k = Some b \<Longrightarrow> su_map s' k = Some b"
    and "\<And>k. e_inFlight (su_view s' k) = e_inFlight (su_view s k)"
  shows "su_inv s'"
  using assms by (simp add: su_inv_def live_handle_def)

lemma su_fail_refines:
  assumes "su_inv s"
  shows "fst (su_fail mx k s) = fst (spec_fail mx k (su_view s))"
    "su_view (snd (su_fail mx k s)) = snd (spec_fail mx k (su_view s))"
    "su_inv (snd (su_fail mx k s))"
proof -
  obtain a s' where e: "su_entry_of k s = (a, s')" by force
  have "su_wf s" using assms by (simp add: su_inv_def)
  note sp = su_entry_of_spec[OF this e]
  show r: "fst (su_fail mx k s) = fst (spec_fail mx k (su_view s))"
    and v: "su_view (snd (su_fail mx k s)) = snd (spec_fail mx k (su_view s))"
    using sp(1-3,6) by (simp_all add: su_fail_def spec_fail_def e Let_def su_view_put)
  show "su_inv (snd (su_fail mx k s))"
  proof (rule su_inv_cong [OF assms])
    show "su_wf (snd (su_fail mx k s))" "su_handles (snd (su_fail mx k s)) = su_handles s"
      "\<And>k' b. su_map s k' = Some b \<Longrightarrow> su_map (snd (su_fail mx k s)) k' = Some b"
      using sp by (simp_all add: su_fail_def e Let_def)
    show "\<And>k'. e_inFlight (su_view (snd (su_fail mx k s)) k') = e_inFlight (su_view s k')"
      unfolding v by (simp add: spec_fail_def)
  qed
qed

lemma su_succeed_refines:
  assumes "su_inv s"
  shows "su_view (su_succeed k s) = spec_succeed k (su_view s)" "su_inv (su_succeed k s)"
proof -
  have wf: "su_wf s" using assms by (simp add: su_inv_def)
  show v: "su_view (su_succeed k s) = spec_succeed k (su_view s)"
  proof (cases "su_map s k")
    case None
    then have "su_view s k = new_entry" by (simp add: su_view_def)
    moreover have "new_entry\<lparr>e_failures := 0\<rparr> = new_entry" by (simp add: new_entry_def)
    ultimately show ?thesis
      using None by (simp add: su_succeed_def spec_succeed_def fun_upd_idem)
  next
    case (Some a)
    with wf show ?thesis
      by (simp add: su_succeed_def spec_succeed_def Let_def su_view_put su_view_Some)
  qed
  show "su_inv (su_succeed k s)"
  proof (rule su_inv_cong [OF assms])
    show "su_wf (su_succeed k s)" "su_handles (su_succeed k s) = su_handles s"
      "\<And>k' b. su_map s k' = Some b \<Longrightarrow> su_map (su_succeed k s) k' = Some b"
      using wf by (auto simp: su_succeed_def Let_def split: option.splits)
    show "\<And>k'. e_inFlight (su_view (su_succeed k s) k') = e_inFlight (su_view s k')"
      unfolding v by (simp add: spec_succeed_def)
  qed
qed

lemma su_reserve_refines:
  assumes "su_inv s"
  shows "(case fst (su_reserve k s) of Inl r \<Rightarrow> Some r | Inr h \<Rightarrow> None) = fst (spec_reserve k (su_view s))"
    "su_view (snd (su_reserve k s)) = snd (spec_reserve k (su_view s))"
    "su_inv (snd (su_reserve k s))"
proof -
  obtain a s' where e: "su_entry_of k s = (a, s')" by force
  have "su_wf s" using assms by (simp add: su_inv_def)
  note sp = su_entry_of_spec[OF this e]
  have hv: "su_view (x\<lparr>su_handles := hs\<rparr>) = su_view x" for x hs by (simp add: su_view_def cong: option.case_cong)
  show r: "(case fst (su_reserve k s) of Inl r \<Rightarrow> Some r | Inr h \<Rightarrow> None) = fst (spec_reserve k (su_view s))"
    and v: "su_view (snd (su_reserve k s)) = snd (spec_reserve k (su_view s))"
    using sp(1-3,6) by (simp_all add: su_reserve_def spec_reserve_def e Let_def su_view_put hv)
  show "su_inv (snd (su_reserve k s))"
  proof (cases "e_locked (su_view s k) \<or> e_inFlight (su_view s k)")
    case True
    then have "snd (su_reserve k s) = s'" using sp(6) by (auto simp: su_reserve_def e Let_def)
    then show ?thesis using su_inv_cong[OF assms sp(1,4,5)] sp(3) by simp
  next
    case False
    define t where "t = snd (su_reserve k s)"
    have t: "su_wf t" "su_map t = su_map s'"
      "su_handles t = su_handles s @ [\<lparr>h_entry = a, h_key = k, h_released = False\<rparr>]"
      using False sp by (simp_all add: t_def su_reserve_def e Let_def su_wf_def put_entry_def)
    have vt: "su_view t = (su_view s)(k := (su_view s k)\<lparr>e_inFlight := True\<rparr>)"
      using v False unfolding t_def by (simp add: spec_reserve_def)
    have none: "live_handle s h \<Longrightarrow> key_of s h \<noteq> k" for h
      using assms False unfolding su_inv_def by blast
    have lh: "live_handle t h \<longleftrightarrow> live_handle s h \<or> h = length (su_handles s)" for h
      by (auto simp: live_handle_def t(3) nth_append)
    have kh: "live_handle s h \<Longrightarrow> su_handles t ! h = su_handles s ! h" for h
      by (simp add: live_handle_def t(3) nth_append)
    have kn: "su_handles t ! length (su_handles s) = \<lparr>h_entry = a, h_key = k, h_released = False\<rparr>"
      by (simp add: t(3))
    have "su_inv t"
      unfolding su_inv_def
    proof (intro conjI allI impI)
      show "su_wf t" by (rule t(1))
      show "su_map t (key_of t h) = Some (h_entry (su_handles t ! h))" if "live_handle t h" for h
        using that assms sp(2,5) unfolding lh t(2) by (auto simp: kh kn su_inv_def)
      show "h = h'" if "live_handle t h" "live_handle t h'" "key_of t h = key_of t h'" for h h'
        using that none[of h] none[of h'] assms unfolding lh by (auto simp: kh kn su_inv_def)
      show "e_inFlight (su_view t k') \<longleftrightarrow> (\<exists>h. live_handle t h \<and> key_of t h = k')" for k'
      proof (cases "k' = k")
        case True
        then show ?thesis unfolding vt lh by (auto simp: kn)
      next
        case neq: False
        have "(\<exists>h. live_handle t h \<and> key_of t h = k') \<longleftrightarrow> (\<exists>h. live_handle s h \<and> key_of s h = k')"
          unfolding lh using neq kn by (auto simp: kh)
        then show ?thesis using neq assms unfolding vt by (simp add: su_inv_def)
      qed
    qed
    then show ?thesis by (simp add: t_def)
  qed
qed

lemma su_release_idle: "\<not> live_handle s h \<Longrightarrow> su_release h s = s"
  by (auto simp: su_release_def live_handle_def)

lemma su_release_refines:
  assumes inv: "su_inv s" and h: "live_handle s h"
  shows "su_view (su_release h s) = spec_release (key_of s h) (su_view s)" "su_inv (su_release h s)"
proof -
  define k a where "k = key_of s h" and "a = h_entry (su_handles s ! h)"
  have wf: "su_wf s" and m: "su_map s k = Some a" using inv h by (simp_all add: su_inv_def k_def a_def)
  define e s1 t where "e = su_heap s ! a"
    and "s1 = (put_entry a (e\<lparr>e_inFlight := False\<rparr>) s)
      \<lparr>su_handles := (su_handles s)[h := (su_handles s ! h)\<lparr>h_released := True\<rparr>]\<rparr>"
    and "t = su_release h s"
  have e: "su_view s k = e" using su_view_Some[OF m] by (simp add: e_def)
  have hl: "h < length (su_handles s)" using h by (simp add: live_handle_def)
  have t: "t = (if \<not> e_locked e \<and> e_failures e = 0 then s1\<lparr>su_map := (su_map s1)(k := None)\<rparr> else s1)"
    using h by (simp add: t_def su_release_def live_handle_def Let_def e_def a_def s1_def k_def)
  have s1m: "su_map s1 = su_map s" by (simp add: s1_def)
  have v1: "su_view s1 = (su_view s)(k := e\<lparr>e_inFlight := False\<rparr>)"
    using su_view_put[OF wf m] by (simp add: s1_def su_view_def cong: option.case_cong)
  have th: "su_handles t = (su_handles s)[h := (su_handles s ! h)\<lparr>h_released := True\<rparr>]"
    by (simp add: t s1_def)
  have tm: "su_map t k' = su_map s k'" if "k' \<noteq> k" for k' using that by (simp add: t s1m)
  have "su_view t = spec_release k (su_view s)"
  proof (cases "\<not> e_locked e \<and> e_failures e = 0")
    case True
    then have ne: "e\<lparr>e_inFlight := False\<rparr> = new_entry" by (simp add: new_entry_def)
    have "su_view t = (su_view s1)(k := new_entry)"
      using True by (simp add: t su_view_def fun_eq_iff cong: option.case_cong)
    then show ?thesis by (simp add: v1 spec_release_def e ne)
  next
    case False
    then have "t = s1" by (auto simp: t)
    then show ?thesis by (simp add: v1 spec_release_def e)
  qed
  then show v: "su_view (su_release h s) = spec_release (key_of s h) (su_view s)"
    by (simp add: t_def k_def)
  have twf: "su_wf t" using wf by (auto simp: t su_wf_def s1_def)
  have lh: "live_handle t h' \<longleftrightarrow> live_handle s h' \<and> h' \<noteq> h" for h'
    using hl by (auto simp: live_handle_def th nth_list_update)
  have kh: "h' \<noteq> h \<Longrightarrow> su_handles t ! h' = su_handles s ! h'" for h' by (simp add: th)
  have other: "key_of s h' \<noteq> k" if "live_handle s h'" "h' \<noteq> h" for h'
    using inv h that unfolding su_inv_def k_def by blast
  have "su_inv t"
    unfolding su_inv_def
  proof (intro conjI allI impI)
    show "su_wf t" by (rule twf)
    show "su_map t (key_of t h') = Some (h_entry (su_handles t ! h'))" if "live_handle t h'" for h'
      using that inv other[of h'] unfolding lh by (auto simp: kh tm su_inv_def)
    show "i = j" if "live_handle t i" "live_handle t j" "key_of t i = key_of t j" for i j
      using that inv unfolding lh by (auto simp: kh su_inv_def)
    show "e_inFlight (su_view t k') \<longleftrightarrow> (\<exists>i. live_handle t i \<and> key_of t i = k')" for k'
    proof (cases "k' = k")
      case True
      have "\<not> (\<exists>i. live_handle t i \<and> key_of t i = k)" using other unfolding lh by (metis kh)
      with True v show ?thesis by (simp add: t_def spec_release_def k_def)
    next
      case False
      have "(\<exists>i. live_handle t i \<and> key_of t i = k') \<longleftrightarrow> (\<exists>i. live_handle s i \<and> key_of s i = k')"
        using False unfolding lh k_def by (metis kh)
      with False v inv show ?thesis by (simp add: t_def spec_release_def k_def su_inv_def)
    qed
  qed
  then show "su_inv (su_release h s)" by (simp add: t_def)
qed

lemma su_inv_new: "su_inv new_step_up"
  by (simp add: su_inv_def su_wf_def live_handle_def new_step_up_def su_view_def new_entry_def)

inductive su_step :: "nat \<Rightarrow> step_up \<Rightarrow> step_up \<Rightarrow> bool" for mx where
  "su_step mx s (snd (su_reserve k s))"
| "su_step mx s (su_release h s)"
| "su_step mx s (snd (su_fail mx k s))"
| "su_step mx s (su_succeed k s)"

inductive_cases su_stepE: "su_step mx s t"

lemma su_inv_step: "su_inv s \<Longrightarrow> su_step mx s t \<Longrightarrow> su_inv t"
  by (erule su_stepE)
    (use su_reserve_refines(3) su_fail_refines(3) su_succeed_refines(2) su_release_refines(2)
      su_release_idle in metis)+

definition lock_grows :: "step_up \<Rightarrow> step_up \<Rightarrow> bool" where
  "lock_grows s t \<longleftrightarrow> (\<forall>k. e_locked (su_view s k) \<longrightarrow> e_locked (su_view t k))"

lemma lock_grows_step: "su_inv s \<Longrightarrow> su_step mx s t \<Longrightarrow> lock_grows s t"
proof (erule su_stepE)
  fix h assume inv: "su_inv s" and t: "t = su_release h s"
  show "lock_grows s t"
  proof (cases "live_handle s h")
    case True
    with inv show ?thesis by (simp add: t lock_grows_def su_release_refines(1) spec_release_def)
  qed (simp add: t lock_grows_def su_release_idle)
qed (simp_all add: lock_grows_def su_reserve_refines(2) su_fail_refines(2) su_succeed_refines(1)
    spec_reserve_def spec_fail_def spec_succeed_def)

interpretation step_up_machine: inv_machine_frame "\<lambda>s. s = new_step_up" "su_step mx" su_inv lock_grows for mx
proof unfold_locales
  show "\<And>s. s = new_step_up \<Longrightarrow> su_inv s" by (simp add: su_inv_new)
  show "\<And>s t. su_inv s \<Longrightarrow> su_step mx s t \<Longrightarrow> su_inv t" by (rule su_inv_step)
  show "\<And>s. lock_grows s s" by (simp add: lock_grows_def)
  show "\<And>s t u. lock_grows s t \<Longrightarrow> lock_grows t u \<Longrightarrow> lock_grows s u" by (auto simp: lock_grows_def)
  show "\<And>s t. su_inv s \<Longrightarrow> su_step mx s t \<Longrightarrow> lock_grows s t" by (rule lock_grows_step)
qed

text \<open>C24: The step-up limiter is one budget per session. On every reachable state each call
  does to the budgets exactly what the specification says, for its own session and no other,
  although entries are made on demand, dropped on release and shared with the closures: a
  reservation answers locked, busy or a fresh handle as the budget says, a failure answers
  whether it engaged the lock, a release frees the slot of its session (and a second release
  changes nothing), and at most one handle of a session is live.\<close>

theorem step_up_refines_budgets:
  assumes "(su_step mx)\<^sup>*\<^sup>* new_step_up s"
  shows "(case fst (su_reserve k s) of Inl r \<Rightarrow> Some r | Inr h \<Rightarrow> None) = fst (spec_reserve k (su_view s)) \<and>
         su_view (snd (su_reserve k s)) = snd (spec_reserve k (su_view s)) \<and>
         fst (su_fail mx k s) = fst (spec_fail mx k (su_view s)) \<and>
         su_view (snd (su_fail mx k s)) = snd (spec_fail mx k (su_view s)) \<and>
         su_view (su_succeed k s) = spec_succeed k (su_view s) \<and>
         su_isLocked k s = e_locked (su_view s k) \<and>
         su_view (su_release h s) = (if live_handle s h then spec_release (key_of s h) (su_view s) else su_view s) \<and>
         (live_handle s h \<longrightarrow> live_handle s h' \<longrightarrow> key_of s h = key_of s h' \<longrightarrow> h = h')"
proof -
  have inv: "su_inv s" using step_up_machine.inv_reach[OF refl assms] .
  have "su_isLocked k s = e_locked (su_view s k)"
    by (simp add: su_isLocked_def su_view_def new_entry_def split: option.splits)
  moreover have "live_handle s h \<longrightarrow> live_handle s h' \<longrightarrow> key_of s h = key_of s h' \<longrightarrow> h = h'"
    using inv unfolding su_inv_def by blast
  ultimately show ?thesis
    using su_reserve_refines(1,2)[OF inv] su_fail_refines(1,2)[OF inv] su_succeed_refines(1)[OF inv]
      su_release_refines(1)[OF inv] su_release_idle by simp
qed

theorem step_up_refines_budgets_witness:
  "su_view (snd (su_fail 5 ''s'' (snd (su_reserve ''s'' new_step_up)))) ''s'' =
     \<lparr>e_failures = 1, e_locked = False, e_inFlight = True\<rparr>"
proof -
  have r: "(su_step 5)\<^sup>*\<^sup>* new_step_up (snd (su_reserve ''s'' new_step_up))"
    by (rule r_into_rtranclp, rule su_step.intros(1))
  have v: "su_view (snd (su_reserve ''s'' new_step_up)) ''s'' = new_entry\<lparr>e_inFlight := True\<rparr>"
    using step_up_refines_budgets[OF rtranclp.rtrancl_refl, where k = "''s''"]
    by (simp add: spec_reserve_def) (simp add: su_view_def new_step_up_def new_entry_def)
  show ?thesis
    using step_up_refines_budgets[OF r, where k = "''s''"] v
    by (simp add: spec_fail_def new_entry_def)
qed

text \<open>C25: A step-up lock lasts. Once a session is locked, no later sequence of calls, for this
  session or any other, opens it again: it stays locked, every reservation answers locked, and
  no later failure reports that it engaged the lock. The failure that reports it leaves the
  session locked, so the lock is reported at most once.\<close>

theorem step_up_lock_lasts:
  assumes "(su_step mx)\<^sup>*\<^sup>* new_step_up s"
    and "su_isLocked k s \<or> (\<exists>s0. (su_step mx)\<^sup>*\<^sup>* new_step_up s0 \<and> su_fail mx k s0 = (True, s))"
    and "(su_step mx)\<^sup>*\<^sup>* s t"
  shows "su_isLocked k t \<and> fst (su_reserve k t) = Inl SLocked \<and> fst (su_fail mx k t) = False"
proof -
  note inv = step_up_machine.inv_reach[OF refl assms(1)]
  have inv': "su_inv t" using step_up_machine.inv_steps[OF assms(3) inv] .
  have lk: "su_isLocked k u = e_locked (su_view u k)" for u
    by (simp add: su_isLocked_def su_view_def new_entry_def split: option.splits)
  have "e_locked (su_view s k)"
    using assms(2)
  proof
    assume "\<exists>s0. (su_step mx)\<^sup>*\<^sup>* new_step_up s0 \<and> su_fail mx k s0 = (True, s)"
    then obtain s0 where s0: "su_inv s0" "su_fail mx k s0 = (True, s)"
      using step_up_machine.inv_reach[OF refl] by blast
    from su_fail_refines(1,2)[OF s0(1), of mx k] s0(2) show ?thesis
      by (auto simp: spec_fail_def split: if_splits)
  qed (simp add: lk)
  then have l: "e_locked (su_view t k)"
    using step_up_machine.grows_steps[OF assms(3) inv] by (simp add: lock_grows_def)
  have "fst (su_reserve k t) = Inl SLocked"
    using su_reserve_refines(1)[OF inv', of k] l by (simp add: spec_reserve_def split: sum.splits)
  moreover have "fst (su_fail mx k t) = False"
    using su_fail_refines(1)[OF inv', of mx k] l by (simp add: spec_fail_def)
  ultimately show ?thesis using l by (simp add: lk)
qed

theorem step_up_lock_lasts_witness:
  "fst (su_reserve ''s'' (su_succeed ''s'' (snd (su_fail 1 ''s'' new_step_up)))) = Inl SLocked"
proof -
  have r: "(su_step 1)\<^sup>*\<^sup>* new_step_up (snd (su_fail 1 ''s'' new_step_up))"
    by (rule r_into_rtranclp, rule su_step.intros(3))
  have l: "su_isLocked ''s'' (snd (su_fail 1 ''s'' new_step_up))"
    by (simp add: su_isLocked_def su_fail_def su_entry_of_def new_step_up_def new_entry_def put_entry_def)
  have "(su_step 1)\<^sup>*\<^sup>* (snd (su_fail 1 ''s'' new_step_up)) (su_succeed ''s'' (snd (su_fail 1 ''s'' new_step_up)))"
    by (rule r_into_rtranclp, rule su_step.intros(4))
  from step_up_lock_lasts[OF r disjI1[OF l] this] show ?thesis by blast
qed

end
