(* ===== verification/LaneRunner.thy ===== *)
theory LaneRunner
  imports Prelude
begin

text \<open>
  The watcher's lanes: the table of cadences (\<open>server/src/laneSchedule.ts\<close>) and the runner
  that throttles a lane and keeps it to a single flight (\<open>server/src/laneRunner.ts\<close>).

  The runner keeps one slot per lane name and an operation reads and writes only the slot of
  its own name, so an operation is a function of the lane's row and slot. A run is a token (the
  code's \<open>Symbol\<close>); a stamp of \<open>None\<close> is \<open>-Infinity\<close>; a rerun thunk is the number of
  its asker. The code reads the row's clock once for the stamp and once more after it has
  called the lane's work, so \<open>start\<close> takes both readings. The sentence of \<open>warnKey\<close> and the
  prose \<open>reason\<close> of \<open>derivedFrom\<close> are dropped: \<open>l_warns\<close> says whether there is one.
\<close>

section \<open>The table\<close>

datatype lane_clock = Mono | Wall

datatype lane_flight = Skip | Join | JoinRerun | NoGuard

record lane_row =
  l_name :: string
  l_cadenceMs :: int
  l_activeCadenceMs :: "int option"
  l_derivedFrom :: "string option"
  l_clock :: lane_clock
  l_flight :: lane_flight
  l_staleAfterMs :: "int option"
  l_warns :: bool
  l_startsDue :: bool

definition lane :: "string \<Rightarrow> int \<Rightarrow> int option \<Rightarrow> string option \<Rightarrow> lane_clock \<Rightarrow> lane_flight \<Rightarrow> int option \<Rightarrow>
    bool \<Rightarrow> bool \<Rightarrow> lane_row" where
  "lane n c a d k f s w sd =
     \<lparr>l_name = n, l_cadenceMs = c, l_activeCadenceMs = a, l_derivedFrom = d, l_clock = k, l_flight = f,
      l_staleAfterMs = s, l_warns = w, l_startsDue = sd\<rparr>"

definition CATALOGUE_POLL_INTERVAL_MS :: int where "CATALOGUE_POLL_INTERVAL_MS = 30 * 60000"
definition SERVER_CAPS_WRITE_MS :: int where "SERVER_CAPS_WRITE_MS = 60000"
definition CAPS_REFRESH_MS :: int where "CAPS_REFRESH_MS = 60000"
definition UPDATE_INVENTORY_MS :: int where "UPDATE_INVENTORY_MS = 60000"
definition TASK_SWEEP_MS :: int where "TASK_SWEEP_MS = 10000"
definition USAGE_SWEEP_MS :: int where "USAGE_SWEEP_MS = 60000"
definition NAME_SWEEP_MS :: int where "NAME_SWEEP_MS = 10000"
definition DIVERGENCE_SWEEP_MS :: int where "DIVERGENCE_SWEEP_MS = 60000"
definition LC_SWEEP_MS :: int where "LC_SWEEP_MS = 5000"
definition LEDGER_FLOOR_SWEEP_MS :: int where "LEDGER_FLOOR_SWEEP_MS = 3600000"
definition LEDGER_RECONCILE_SWEEP_MS :: int where "LEDGER_RECONCILE_SWEEP_MS = 900000"
definition READINESS_SWEEP_MS :: int where "READINESS_SWEEP_MS = 600000"
definition PR_SWEEP_MS :: int where "PR_SWEEP_MS = 120000"
definition PR_SWEEP_ACTIVE_MS :: int where "PR_SWEEP_ACTIVE_MS = 30000"
definition PR_BACKOFF_MAX_MS :: int where "PR_BACKOFF_MAX_MS = 900000"
definition PR_SWEEP_STUCK_MS :: int where "PR_SWEEP_STUCK_MS = PR_BACKOFF_MAX_MS"
definition CLAIM_SWEEP_MS :: int where "CLAIM_SWEEP_MS = 60000"
definition STALL_SWEEP_MS :: int where "STALL_SWEEP_MS = CLAIM_SWEEP_MS"
definition IDLE_NUDGE_SWEEP_MS :: int where "IDLE_NUDGE_SWEEP_MS = 10000"
definition MAIL_SWEEP_MS :: int where "MAIL_SWEEP_MS = 10000"
definition ASK_SWEEP_MS :: int where "ASK_SWEEP_MS = 10000"
definition APPROVAL_PRUNE_MS :: int where "APPROVAL_PRUNE_MS = 86400000"
definition DRIFT_SWEEP_MS :: int where "DRIFT_SWEEP_MS = 900000"
definition DIGEST_BEAT_MS :: int where "DIGEST_BEAT_MS = 60000"
definition CHILD_RECLAIM_SWEEP_MS :: int where "CHILD_RECLAIM_SWEEP_MS = 60000"
definition COLLECT_OBSERVE_INTERVAL_MS :: int where "COLLECT_OBSERVE_INTERVAL_MS = CHILD_RECLAIM_SWEEP_MS"
definition STOP_DONE_SWEEP_MS :: int where "STOP_DONE_SWEEP_MS = 60000"
definition HIBERNATE_SWEEP_MS :: int where "HIBERNATE_SWEEP_MS = 5 * 60000"
definition LANDING_CHECKS_BEAT_MS :: int where "LANDING_CHECKS_BEAT_MS = 30000"
definition LANDING_RADAR_SWEEP_MS :: int where "LANDING_RADAR_SWEEP_MS = 60000"
definition DISK_SWEEP_MS :: int where "DISK_SWEEP_MS = 60000"
definition TMP_SWEEP_CENSUS_MS :: int where "TMP_SWEEP_CENSUS_MS = 5 * 60000"
definition STALE_ARCHIVE_SWEEP_MS :: int where "STALE_ARCHIVE_SWEEP_MS = 60 * 60000"

lemmas lane_constants =
  CATALOGUE_POLL_INTERVAL_MS_def
  SERVER_CAPS_WRITE_MS_def
  CAPS_REFRESH_MS_def
  UPDATE_INVENTORY_MS_def
  TASK_SWEEP_MS_def
  USAGE_SWEEP_MS_def
  NAME_SWEEP_MS_def
  DIVERGENCE_SWEEP_MS_def
  LC_SWEEP_MS_def
  LEDGER_FLOOR_SWEEP_MS_def
  LEDGER_RECONCILE_SWEEP_MS_def
  READINESS_SWEEP_MS_def
  PR_SWEEP_MS_def
  PR_SWEEP_ACTIVE_MS_def
  PR_BACKOFF_MAX_MS_def
  PR_SWEEP_STUCK_MS_def
  CLAIM_SWEEP_MS_def
  STALL_SWEEP_MS_def
  IDLE_NUDGE_SWEEP_MS_def
  MAIL_SWEEP_MS_def
  ASK_SWEEP_MS_def
  APPROVAL_PRUNE_MS_def
  DRIFT_SWEEP_MS_def
  DIGEST_BEAT_MS_def
  CHILD_RECLAIM_SWEEP_MS_def
  COLLECT_OBSERVE_INTERVAL_MS_def
  STOP_DONE_SWEEP_MS_def
  HIBERNATE_SWEEP_MS_def
  LANDING_CHECKS_BEAT_MS_def
  LANDING_RADAR_SWEEP_MS_def
  DISK_SWEEP_MS_def
  TMP_SWEEP_CENSUS_MS_def
  STALE_ARCHIVE_SWEEP_MS_def

definition LANE_SCHEDULE :: "lane_row list" where
  "LANE_SCHEDULE =
    [lane ''caps'' CAPS_REFRESH_MS None None Mono NoGuard None False False,
     lane ''catalogue'' CATALOGUE_POLL_INTERVAL_MS None None Mono NoGuard None True False,
     lane ''inventory'' UPDATE_INVENTORY_MS None None Mono JoinRerun None False False,
     lane ''landingChecks'' LANDING_CHECKS_BEAT_MS None None Mono Skip (Some (5 * 60000)) True False,
     lane ''landingRadar'' LANDING_RADAR_SWEEP_MS None None Mono Skip (Some (5 * 60000)) True False,
     lane ''serverCaps'' SERVER_CAPS_WRITE_MS None None Mono Join None False False,
     lane ''tasks'' TASK_SWEEP_MS None None Mono NoGuard None False False,
     lane ''usage'' USAGE_SWEEP_MS None None Mono NoGuard None False False,
     lane ''pr'' PR_SWEEP_MS (Some PR_SWEEP_ACTIVE_MS) None Mono Skip (Some PR_SWEEP_STUCK_MS) False False,
     lane ''names'' NAME_SWEEP_MS None None Mono NoGuard None False False,
     lane ''divergences'' DIVERGENCE_SWEEP_MS None None Mono NoGuard None False False,
     lane ''lifecycle'' LC_SWEEP_MS None None Mono NoGuard None False False,
     lane ''readiness'' READINESS_SWEEP_MS None None Mono NoGuard None False False,
     lane ''ledgerReconcile'' LEDGER_RECONCILE_SWEEP_MS None None Mono NoGuard None False False,
     lane ''drift'' DRIFT_SWEEP_MS None None Mono Skip None False False,
     lane ''ledgerFloor'' LEDGER_FLOOR_SWEEP_MS None None Mono NoGuard None False False,
     lane ''claimRenew'' CLAIM_SWEEP_MS None None Mono NoGuard None False False,
     lane ''claimLapse'' CLAIM_SWEEP_MS None None Mono NoGuard None False False,
     lane ''stalls'' STALL_SWEEP_MS None (Some ''CLAIM_SWEEP_MS'') Mono Skip None False False,
     lane ''idleNudge'' IDLE_NUDGE_SWEEP_MS None None Mono Skip None False False,
     lane ''mail'' MAIL_SWEEP_MS None None Mono NoGuard None False False,
     lane ''asks'' ASK_SWEEP_MS None None Mono NoGuard None False False,
     lane ''approvalPrune'' APPROVAL_PRUNE_MS None None Mono NoGuard None False False,
     lane ''digestBeat'' DIGEST_BEAT_MS None None Mono NoGuard None False True,
     lane ''childReclaim'' CHILD_RECLAIM_SWEEP_MS None None Mono NoGuard None False False,
     lane ''collect'' CHILD_RECLAIM_SWEEP_MS None (Some ''childReclaim'') Mono Skip None False False,
     lane ''archivedExpiry'' CHILD_RECLAIM_SWEEP_MS None (Some ''childReclaim'') Mono Skip None False False,
     lane ''deadCoordinator'' CHILD_RECLAIM_SWEEP_MS None (Some ''childReclaim'') Mono Join None False False,
     lane ''orphanTrees'' CHILD_RECLAIM_SWEEP_MS None (Some ''childReclaim'') Mono NoGuard None False False,
     lane ''delegation'' DIVERGENCE_SWEEP_MS None (Some ''DIVERGENCE_SWEEP_MS'') Mono Skip None False False,
     lane ''sleepRunDone'' STOP_DONE_SWEEP_MS None None Mono Skip None False False,
     lane ''sleepIdleHours'' HIBERNATE_SWEEP_MS None None Mono Skip None False False,
     lane ''rollIdle'' HIBERNATE_SWEEP_MS None (Some ''sleepIdleHours'') Mono Skip None False False,
     lane ''diskAlarm'' DISK_SWEEP_MS None None Mono NoGuard None False False,
     lane ''tmpCensus'' TMP_SWEEP_CENSUS_MS None None Mono NoGuard None False False,
     lane ''staleArchive'' STALE_ARCHIVE_SWEEP_MS None None Mono Skip None False False]"

definition laneRow :: "string \<Rightarrow> lane_row option" where
  "laneRow name = find (\<lambda>r. l_name r = name) LANE_SCHEDULE"

section \<open>One lane of the runner\<close>

record flight =
  fl_token :: nat
  fl_startedAt :: int

text \<open>\<open>s_next\<close> is where the next token comes from.\<close>

record lane_slot =
  s_stamp :: "int option"
  s_flight :: "flight option"
  s_again :: "nat option"
  s_next :: nat

definition neverRun :: "lane_row \<Rightarrow> int option" where
  "neverRun row = (if l_clock row = Wall \<and> \<not> l_startsDue row then Some 0 else None)"

definition new_slot :: "lane_row \<Rightarrow> lane_slot" where
  "new_slot row = \<lparr>s_stamp = neverRun row, s_flight = None, s_again = None, s_next = 0\<rparr>"

definition elapsed :: "lane_slot \<Rightarrow> int \<Rightarrow> int \<Rightarrow> bool" where
  "elapsed st now cadence = (case s_stamp st of None \<Rightarrow> True | Some s \<Rightarrow> now - s \<ge> cadence)"

definition due :: "lane_row \<Rightarrow> bool \<Rightarrow> int \<Rightarrow> lane_slot \<Rightarrow> bool" where
  "due row active now st =
     elapsed st now (if active then (case l_activeCadenceMs row of Some c \<Rightarrow> c | None \<Rightarrow> l_cadenceMs row)
                     else l_cadenceMs row)"

definition stamp :: "int \<Rightarrow> lane_slot \<Rightarrow> lane_slot" where
  "stamp now st = st\<lparr>s_stamp := Some now\<rparr>"

definition kick :: "lane_row \<Rightarrow> lane_slot \<Rightarrow> lane_slot" where
  "kick row st = st\<lparr>s_stamp := neverRun row\<rparr>"

definition restamp :: "int \<Rightarrow> int option \<Rightarrow> lane_slot \<Rightarrow> lane_slot" where
  "restamp now at st = (case at of None \<Rightarrow> stamp now st | Some a \<Rightarrow> st\<lparr>s_stamp := Some a\<rparr>)"

definition inFlight :: "lane_slot \<Rightarrow> nat option" where
  "inFlight st = map_option fl_token (s_flight st)"

definition requestRerun :: "lane_row \<Rightarrow> nat \<Rightarrow> lane_slot \<Rightarrow> lane_slot" where
  "requestRerun row again st =
     (if l_flight row = JoinRerun \<and> s_flight st \<noteq> None then st\<lparr>s_again := Some again\<rparr> else st)"

text \<open>\<open>None\<close> of \<open>run\<close> is \<open>NotRun\<close>; a run in flight is handed back by \<open>Joined\<close>.\<close>

datatype start_result = NotRun | Joined nat | Started nat

definition begin_run :: "int \<Rightarrow> int \<Rightarrow> lane_slot \<Rightarrow> start_result \<times> lane_slot" where
  "begin_run now now2 st0 =
     (let st = stamp now st0 in
      (Started (s_next st),
       st\<lparr>s_flight := Some \<lparr>fl_token = s_next st, fl_startedAt = now2\<rparr>, s_next := s_next st + 1\<rparr>))"

definition stuck :: "lane_row \<Rightarrow> int \<Rightarrow> flight \<Rightarrow> bool" where
  "stuck row now cur \<longleftrightarrow>
     l_flight row = Skip \<and> (case l_staleAfterMs row of None \<Rightarrow> False | Some a \<Rightarrow> now - fl_startedAt cur \<ge> a)"

definition start :: "lane_row \<Rightarrow> int \<Rightarrow> int \<Rightarrow> lane_slot \<Rightarrow> start_result \<times> lane_slot" where
  "start row now now2 st =
     (case s_flight st of
        None \<Rightarrow> begin_run now now2 st
      | Some cur \<Rightarrow>
          if l_flight row = Join \<or> l_flight row = JoinRerun then (Joined (fl_token cur), st)
          else if l_flight row = Skip \<and> \<not> stuck row now cur then (NotRun, st)
          else begin_run now now2 st)"

text \<open>The \<open>finally\<close> of a run: what it clears, and the rerun it calls.\<close>

definition settle :: "nat \<Rightarrow> lane_slot \<Rightarrow> nat option \<times> lane_slot" where
  "settle token st =
     (if inFlight st \<noteq> Some token then (None, st)
      else (s_again st, st\<lparr>s_flight := None, s_again := None\<rparr>))"

text \<open>Whether the caller of a failed run sees the rejection, or the runner catches it.\<close>

definition caller_sees_rejection :: "lane_row \<Rightarrow> bool" where
  "caller_sees_rejection row \<longleftrightarrow> \<not> l_warns row"

definition run :: "lane_row \<Rightarrow> bool \<Rightarrow> int \<Rightarrow> int \<Rightarrow> lane_slot \<Rightarrow> start_result \<times> lane_slot" where
  "run row active now now2 st = (if \<not> due row active now st then (NotRun, st) else start row now now2 st)"

definition runSync :: "lane_row \<Rightarrow> int \<Rightarrow> lane_slot \<Rightarrow> bool \<times> lane_slot" where
  "runSync row now st =
     (if \<not> elapsed st now (l_cadenceMs row) then (False, st) else (True, st\<lparr>s_stamp := Some now\<rparr>))"

text \<open>\<open>None\<close> is the thrown error: a warned or a skip row has no on-demand run.\<close>

definition runNow :: "lane_row \<Rightarrow> int \<Rightarrow> int \<Rightarrow> lane_slot \<Rightarrow> (start_result \<times> lane_slot) option" where
  "runNow row now now2 st =
     (if l_warns row then None
      else if l_flight row = Skip then None
      else Some (start row now now2 st))"

end
