(* ===== verification/LaneProps.thy ===== *)
theory LaneProps
  imports LaneRunner
begin

text \<open>
  What the lane runner promises: single flight, owner tokens and reruns as a machine of one
  lane, and the throttle of the beat.
\<close>

section \<open>The machine of one lane\<close>

text \<open>
  The slot, the clock the lane reads, the runs started and not yet settled, the instants the
  beat stamped (latest first) and the reruns called.
\<close>

record lane_world =
  w_slot :: lane_slot
  w_now :: int
  w_running :: "nat list"
  w_starts :: "int list"
  w_reruns :: "nat list"

definition new_world :: "lane_row \<Rightarrow> int \<Rightarrow> lane_world" where
  "new_world row t = \<lparr>w_slot = new_slot row, w_now = t, w_running = [], w_starts = [], w_reruns = []\<rparr>"

definition after_start :: "int \<Rightarrow> int \<Rightarrow> start_result \<times> lane_slot \<Rightarrow> lane_world \<Rightarrow> lane_world" where
  "after_start now now2 r w =
     (case fst r of
        Started t \<Rightarrow> w\<lparr>w_slot := snd r, w_now := now2, w_running := t # w_running w, w_starts := now # w_starts w\<rparr>
      | _ \<Rightarrow> w\<lparr>w_slot := snd r, w_now := now2\<rparr>)"

definition after_settle :: "nat \<Rightarrow> lane_world \<Rightarrow> lane_world" where
  "after_settle t w =
     (let (again, st) = settle t (w_slot w) in
      w\<lparr>w_slot := st, w_running := removeAll t (w_running w),
        w_reruns := (case again of None \<Rightarrow> w_reruns w | Some a \<Rightarrow> a # w_reruns w)\<rparr>)"

text \<open>The beat and what runs of the beat do; a clock reading never goes back.\<close>

inductive beat_step :: "lane_row \<Rightarrow> lane_world \<Rightarrow> lane_world \<Rightarrow> bool" for row where
  beat: "w_now w \<le> now \<Longrightarrow> now \<le> now2 \<Longrightarrow>
    beat_step row w (after_start now now2 (run row active now now2 (w_slot w)) w)"
| settled: "t \<in> set (w_running w) \<Longrightarrow> beat_step row w (after_settle t w)"
| asked: "beat_step row w (w\<lparr>w_slot := requestRerun row a (w_slot w)\<rparr>)"

text \<open>All operations: on-demand runs and the stamps that move the throttle too.\<close>

inductive lane_step :: "lane_row \<Rightarrow> lane_world \<Rightarrow> lane_world \<Rightarrow> bool" for row where
  of_beat: "beat_step row w w' \<Longrightarrow> lane_step row w w'"
| on_demand: "w_now w \<le> now \<Longrightarrow> now \<le> now2 \<Longrightarrow> runNow row now now2 (w_slot w) = Some r \<Longrightarrow>
    lane_step row w (after_start now now2 r w)"
| stamped: "w_now w \<le> now \<Longrightarrow> lane_step row w (w\<lparr>w_slot := stamp now (w_slot w), w_now := now\<rparr>)"
| kicked: "lane_step row w (w\<lparr>w_slot := kick row (w_slot w)\<rparr>)"
| restamped: "w_now w \<le> now \<Longrightarrow> lane_step row w (w\<lparr>w_slot := restamp now at (w_slot w), w_now := now\<rparr>)"
| synced: "lane_step row w (w\<lparr>w_slot := snd (runSync row now (w_slot w))\<rparr>)"

inductive_cases beat_stepE: "beat_step row w w'"
inductive_cases lane_stepE: "lane_step row w w'"

section \<open>Single flight\<close>

definition guarded :: "lane_row \<Rightarrow> bool" where
  "guarded row \<longleftrightarrow> l_flight row = Join \<or> l_flight row = JoinRerun \<or> (l_flight row = Skip \<and> l_staleAfterMs row = None)"

definition flight_inv :: "lane_row \<Rightarrow> lane_world \<Rightarrow> bool" where
  "flight_inv row w \<longleftrightarrow>
     (\<forall>t \<in> set (w_running w). t < s_next (w_slot w)) \<and> distinct (w_running w) \<and>
     (\<forall>t. inFlight (w_slot w) = Some t \<longrightarrow> t \<in> set (w_running w)) \<and>
     (guarded row \<longrightarrow> w_running w = (case inFlight (w_slot w) of None \<Rightarrow> [] | Some t \<Rightarrow> [t])) \<and>
     (s_again (w_slot w) \<noteq> None \<longrightarrow> inFlight (w_slot w) \<noteq> None \<and> l_flight row = JoinRerun)"

lemma begin_run_sel [simp]:
  "fst (begin_run now now2 st) = Started (s_next st)"
  "s_next (snd (begin_run now now2 st)) = Suc (s_next st)"
  "inFlight (snd (begin_run now now2 st)) = Some (s_next st)"
  "s_again (snd (begin_run now now2 st)) = s_again st"
  "s_stamp (snd (begin_run now now2 st)) = Some now"
  by (simp_all add: begin_run_def stamp_def inFlight_def)

lemma start_cases:
  "(start row now now2 st = begin_run now now2 st \<and>
      (\<forall>cur. s_flight st = Some cur \<longrightarrow> l_flight row = NoGuard \<or> stuck row now cur)) \<or>
   (\<exists>r. start row now now2 st = (r, st) \<and> (\<forall>t. r \<noteq> Started t))"
  by (cases "l_flight row") (auto simp: start_def split: option.splits)

lemma stuck_not_guarded: "stuck row now cur \<Longrightarrow> \<not> guarded row"
  by (auto simp: stuck_def guarded_def split: option.splits)

lemma flight_inv_start:
  assumes inv: "flight_inv row w"
  shows "flight_inv row (after_start now now2 (start row now now2 (w_slot w)) w)"
  using start_cases[of row now now2 "w_slot w"]
proof (elim disjE conjE exE)
  assume b: "start row now now2 (w_slot w) = begin_run now now2 (w_slot w)"
    and free: "\<forall>cur. s_flight (w_slot w) = Some cur \<longrightarrow> l_flight row = NoGuard \<or> stuck row now cur"
  have g: "inFlight (w_slot w) = None" if "guarded row"
    using free that by (cases "s_flight (w_slot w)") (auto simp: inFlight_def guarded_def stuck_def)
  have a: "l_flight row \<noteq> JoinRerun" if "inFlight (w_slot w) \<noteq> None"
    using free that by (auto simp: inFlight_def stuck_def)
  show ?thesis
    using inv g a by (auto simp: flight_inv_def after_start_def b)
next
  fix r assume "start row now now2 (w_slot w) = (r, w_slot w)" "\<forall>t. r \<noteq> Started t"
  with inv show ?thesis by (cases r) (auto simp: flight_inv_def after_start_def)
qed

lemma flight_inv_run:
  assumes "flight_inv row w"
  shows "flight_inv row (after_start now now2 (run row active now now2 (w_slot w)) w)"
proof (cases "due row active now (w_slot w)")
  case True
  with flight_inv_start[OF assms] show ?thesis by (simp add: run_def)
next
  case False
  with assms show ?thesis by (simp add: run_def after_start_def flight_inv_def)
qed

lemma flight_inv_settle:
  assumes "flight_inv row w"
  shows "flight_inv row (after_settle t w)"
  using assms
  by (auto simp: flight_inv_def after_settle_def settle_def inFlight_def Let_def distinct_removeAll
      split: option.splits if_splits)

lemma flight_inv_slot:
  assumes "flight_inv row w" "s_flight st = s_flight (w_slot w)" "s_next st = s_next (w_slot w)"
    "s_again st \<noteq> None \<Longrightarrow> s_again (w_slot w) \<noteq> None \<or> (inFlight (w_slot w) \<noteq> None \<and> l_flight row = JoinRerun)"
  shows "flight_inv row (w\<lparr>w_slot := st\<rparr>)" "flight_inv row (w\<lparr>w_slot := st, w_now := now\<rparr>)"
  using assms by (auto simp: flight_inv_def inFlight_def)

lemma flight_inv_beat: "flight_inv row w \<Longrightarrow> beat_step row w w' \<Longrightarrow> flight_inv row w'"
  by (erule beat_stepE)
    (auto intro!: flight_inv_run flight_inv_settle flight_inv_slot simp: requestRerun_def inFlight_def)

lemma flight_inv_step:
  assumes "flight_inv row w" "lane_step row w w'"
  shows "flight_inv row w'"
  using assms(2)
proof (cases rule: lane_step.cases)
  case of_beat
  then show ?thesis using assms(1) flight_inv_beat by blast
next
  case (on_demand now now2 r)
  then have "r = start row now now2 (w_slot w)" by (auto simp: runNow_def split: if_splits)
  then show ?thesis using flight_inv_start[OF assms(1)] on_demand by simp
qed (use assms(1) in \<open>auto intro!: flight_inv_slot simp: stamp_def kick_def restamp_def runSync_def
    split: option.splits\<close>)

interpretation lane_machine: inv_machine "\<lambda>w. \<exists>t. w = new_world row t" "lane_step row" "flight_inv row" for row
proof unfold_locales
  show "\<And>w. \<exists>t. w = new_world row t \<Longrightarrow> flight_inv row w"
    by (auto simp: flight_inv_def new_world_def new_slot_def inFlight_def)
qed (rule flight_inv_step)

text \<open>C26: A guarded lane has one run. On every state a lane reaches, a lane that joins, joins with
  rerun, or skips without a stuck age has at most one unsettled run, the one in flight, and a
  second caller starts nothing. A skip lane with a stuck age starts beside an unsettled run only
  when that run is older than the age; the abandoned run no longer owns the flight, so its
  settling changes nothing. A rerun asked for while a run is in flight is called by that run's
  settling, the last asker only, and once.\<close>

theorem lane_single_flight:
  assumes "(lane_step row)\<^sup>*\<^sup>* (new_world row t0) w" and "st = w_slot w"
  shows "(guarded row \<longrightarrow> length (w_running w) \<le> 1 \<and> (inFlight st = Some t \<longleftrightarrow> w_running w = [t]) \<and>
            (inFlight st = Some t \<longrightarrow> fst (start row now now2 st) \<in> {NotRun, Joined t})) \<and>
         (\<forall>cur u. s_flight st = Some cur \<and> l_flight row = Skip \<and> fst (start row now now2 st) = Started u \<longrightarrow>
            (\<exists>a. l_staleAfterMs row = Some a \<and> a \<le> now - fl_startedAt cur) \<and>
            settle (fl_token cur) (snd (start row now now2 st)) = (None, snd (start row now now2 st))) \<and>
         (l_flight row = JoinRerun \<and> inFlight st = Some t \<longrightarrow>
            fst (settle t (requestRerun row b (requestRerun row a st))) = Some b \<and>
            s_again (snd (settle t (requestRerun row b (requestRerun row a st)))) = None)"
proof -
  have inv: "flight_inv row w" using lane_machine.inv_reach[OF _ assms(1)] by blast
  have one: "guarded row \<longrightarrow> length (w_running w) \<le> 1 \<and> (inFlight st = Some t \<longleftrightarrow> w_running w = [t])"
    using inv by (auto simp: flight_inv_def assms(2) split: option.splits)
  have two: "fst (start row now now2 st) \<in> {NotRun, Joined t}" if "guarded row" "inFlight st = Some t"
    using that by (auto simp: start_def guarded_def inFlight_def stuck_def)
  have three: "(\<exists>a. l_staleAfterMs row = Some a \<and> a \<le> now - fl_startedAt cur) \<and>
      settle (fl_token cur) (snd (start row now now2 st)) = (None, snd (start row now now2 st))"
    if c: "s_flight st = Some cur" "l_flight row = Skip" and s: "fst (start row now now2 st) = Started u" for cur u
  proof -
    have st: "stuck row now cur" and b: "start row now now2 st = begin_run now now2 st"
      using c s by (auto simp: start_def split: if_splits)
    have "fl_token cur \<in> set (w_running w)" "\<forall>t \<in> set (w_running w). t < s_next st"
      using inv c(1) unfolding flight_inv_def inFlight_def assms(2) by simp_all
    then have "fl_token cur < s_next st" by simp
    then have "settle (fl_token cur) (snd (begin_run now now2 st)) = (None, snd (begin_run now now2 st))"
      by (simp add: settle_def)
    then show ?thesis using st by (simp add: b stuck_def split: option.splits)
  qed
  have four: "fst (settle t (requestRerun row b (requestRerun row a st))) = Some b \<and>
      s_again (snd (settle t (requestRerun row b (requestRerun row a st)))) = None"
    if "l_flight row = JoinRerun" "inFlight st = Some t"
    using that by (auto simp: settle_def requestRerun_def inFlight_def)
  show ?thesis
  proof (intro conjI[OF _ conjI])
    show "guarded row \<longrightarrow> length (w_running w) \<le> 1 \<and> (inFlight st = Some t \<longleftrightarrow> w_running w = [t]) \<and>
        (inFlight st = Some t \<longrightarrow> fst (start row now now2 st) \<in> {NotRun, Joined t})"
      using one two by simp
  qed (use three four in simp_all)
qed

theorem lane_single_flight_witness:
  "fst (start (lane ''inventory'' 60000 None None Mono JoinRerun None False False) 9 9
     (snd (run (lane ''inventory'' 60000 None None Mono JoinRerun None False False) False 5 5
       (new_slot (lane ''inventory'' 60000 None None Mono JoinRerun None False False))))) \<in> {NotRun, Joined 0}"
proof -
  let ?row = "lane ''inventory'' 60000 None None Mono JoinRerun None False False"
  let ?w = "after_start 5 5 (run ?row False 5 5 (w_slot (new_world ?row 0))) (new_world ?row 0)"
  have "lane_step ?row (new_world ?row 0) ?w"
    by (rule lane_step.of_beat, rule beat_step.beat) (simp_all add: new_world_def)
  then have r: "(lane_step ?row)\<^sup>*\<^sup>* (new_world ?row 0) ?w" by (rule r_into_rtranclp)
  have g: "guarded ?row" by (simp add: guarded_def lane_def)
  have s: "w_slot ?w = snd (run ?row False 5 5 (new_slot ?row))"
    by (simp add: after_start_def new_world_def split: start_result.splits)
  have f: "inFlight (w_slot ?w) = Some 0"
    unfolding s by (simp add: run_def due_def elapsed_def new_slot_def neverRun_def lane_def start_def begin_run_def
        stamp_def inFlight_def)
  show ?thesis
    using lane_single_flight[OF r refl, where t = 0 and now = 9 and ?now2.0 = 9] g f unfolding s by blast
qed

section \<open>The throttle\<close>

fun gaps_ok :: "int \<Rightarrow> int list \<Rightarrow> bool" where
  "gaps_ok c (a # b # xs) \<longleftrightarrow> a - b \<ge> c \<and> gaps_ok c (b # xs)"
| "gaps_ok c xs \<longleftrightarrow> True"

definition min_cadence :: "lane_row \<Rightarrow> int" where
  "min_cadence row = (case l_activeCadenceMs row of None \<Rightarrow> l_cadenceMs row | Some c \<Rightarrow> min c (l_cadenceMs row))"

definition throttle_inv :: "lane_row \<Rightarrow> lane_world \<Rightarrow> bool" where
  "throttle_inv row w \<longleftrightarrow> gaps_ok (min_cadence row) (w_starts w) \<and>
     (case w_starts w of [] \<Rightarrow> True | t # _ \<Rightarrow> s_stamp (w_slot w) = Some t)"

lemma due_gap: "due row active now st \<Longrightarrow> s_stamp st = Some t \<Longrightarrow> min_cadence row \<le> now - t"
  by (auto simp: due_def elapsed_def min_cadence_def split: if_splits option.splits)

lemma throttle_inv_beat:
  assumes inv: "throttle_inv row w" and step: "beat_step row w w'"
  shows "throttle_inv row w'"
  using step
proof (cases rule: beat_step.cases)
  case (beat now now2 active)
  show ?thesis
  proof (cases "due row active now (w_slot w)")
    case False
    with inv beat show ?thesis by (simp add: run_def after_start_def throttle_inv_def split: list.splits)
  next
    case True
    from start_cases[of row now now2 "w_slot w"] show ?thesis
    proof (elim disjE conjE exE)
      assume b: "start row now now2 (w_slot w) = begin_run now now2 (w_slot w)"
      have w': "w_starts w' = now # w_starts w" "s_stamp (w_slot w') = Some now"
        using True b beat by (simp_all add: run_def after_start_def)
      have "gaps_ok (min_cadence row) (now # w_starts w)"
        using inv True by (cases "w_starts w") (auto simp: throttle_inv_def dest: due_gap)
      with w' show ?thesis by (simp add: throttle_inv_def)
    next
      fix r assume "start row now now2 (w_slot w) = (r, w_slot w)" "\<forall>t. r \<noteq> Started t"
      with inv beat True show ?thesis by (cases r) (auto simp: run_def after_start_def throttle_inv_def split: list.splits)
    qed
  qed
qed (use inv in \<open>auto simp: throttle_inv_def after_settle_def settle_def requestRerun_def Let_def
    split: list.splits prod.splits\<close>)

interpretation beat_machine: inv_machine "\<lambda>w. \<exists>t. w = new_world row t" "beat_step row" "throttle_inv row" for row
proof unfold_locales
  show "\<And>w. \<exists>t. w = new_world row t \<Longrightarrow> throttle_inv row w"
    by (auto simp: throttle_inv_def new_world_def)
qed (rule throttle_inv_beat)

lemma schedule_cadences: "list_all (\<lambda>row. 5000 \<le> min_cadence row \<and> neverRun row = None) LANE_SCHEDULE"
  by (simp add: LANE_SCHEDULE_def lane_def min_cadence_def neverRun_def lane_constants)

text \<open>The beat is throttled. However often a lane's beat asks, with or without pending work, and
  whatever its runs do, two runs it starts are at least the lane's shorter cadence apart; and a
  lane of the schedule is due at its first beat, at any clock reading, and never starts twice
  within five seconds.\<close>

theorem lane_beat_throttled:
  assumes "(beat_step row)\<^sup>*\<^sup>* (new_world row t0) w"
  shows "gaps_ok (min_cadence row) (w_starts w) \<and>
         (row \<in> set LANE_SCHEDULE \<longrightarrow> 5000 \<le> min_cadence row \<and> (\<forall>active now. due row active now (new_slot row)))"
proof -
  have "throttle_inv row w" using beat_machine.inv_reach[OF _ assms] by blast
  moreover have "5000 \<le> min_cadence row \<and> neverRun row = None" if "row \<in> set LANE_SCHEDULE"
    using schedule_cadences that by (auto simp: list_all_iff)
  ultimately show ?thesis by (auto simp: throttle_inv_def due_def elapsed_def new_slot_def)
qed

theorem lane_beat_throttled_witness:
  "5000 \<le> min_cadence (lane ''caps'' CAPS_REFRESH_MS None None Mono NoGuard None False False)"
proof -
  let ?row = "lane ''caps'' CAPS_REFRESH_MS None None Mono NoGuard None False False"
  have "?row \<in> set LANE_SCHEDULE" by (simp add: LANE_SCHEDULE_def)
  with lane_beat_throttled[of ?row 0 "new_world ?row 0"] show ?thesis by blast
qed

end
