(* ===== verification/FleetTypes.thy ===== *)
theory FleetTypes
  imports Prelude
begin

text \<open>
  The words every part of the server says of a node: its role, its system, the state of its
  update lease and the phase it reports (\<open>shared/node-role.ts\<close>, \<open>shared/api.ts\<close>).
\<close>

datatype node_role = RServer | RFleet | RBoth
datatype node_os = Linux | Darwin | UnknownOs
datatype update_state = UIdle | UPending | UApplying | UReverted | UFailed | UUnknown
datatype update_phase =
  PQueued | PResolving | PFetching | PVerifying | PBackingUp | PInstalling | PRestarting | PChecking
| PRestoring | PDone | PReverted | PFailed | PUnknown

definition BUSY_UPDATE_STATES :: "update_state list" where
  "BUSY_UPDATE_STATES = [UPending, UApplying, UUnknown]"

definition IN_FLIGHT_UPDATE_PHASES :: "update_phase list" where
  "IN_FLIGHT_UPDATE_PHASES = [PQueued, PResolving, PFetching, PVerifying, PBackingUp, PInstalling, PRestarting,
     PChecking, PRestoring]"

definition SETTLED_UPDATE_STATES :: "update_state list" where
  "SETTLED_UPDATE_STATES = [UIdle, UReverted, UFailed]"

text \<open>\<open>Number.MAX_SAFE_INTEGER\<close>.\<close>

definition MAX_SAFE_INTEGER :: int where "MAX_SAFE_INTEGER = 2 ^ 53 - 1"

lemma settled_or_busy: "s \<in> set SETTLED_UPDATE_STATES \<longleftrightarrow> s \<notin> set BUSY_UPDATE_STATES"
  by (cases s) (simp_all add: SETTLED_UPDATE_STATES_def BUSY_UPDATE_STATES_def)

end
