(* ===== verification/TokenPolicy.thy ===== *)
theory TokenPolicy
  imports FleetTypes
begin

text \<open>
  The rotation policy of the box token (\<open>server/src/token/policy.ts\<close>), whole: the persisted
  state and the functions that change it, the gate, the one decision of a driver tick, the
  fold of a sync answer, the schedule, and boot recovery. A generation id, a digest, a node id
  are strings; an absent optional field and a null one are both \<open>None\<close> except for
  \<open>retiredPresentedAt\<close>, whose three readings are kept apart. A file's \<open>mtimeMs\<close> is an
  integer here. Left out: the schema number \<open>v\<close>, the file mode, and the \<open>fileProblem\<close>
  field, which no function of the policy reads or writes.
\<close>

section \<open>Timings\<close>

definition GRACE_MS :: int where "GRACE_MS = 5 * 60000"
definition GRACE_HARD_MS :: int where "GRACE_HARD_MS = 60 * 60000"
definition CONFIRM_DEADLINE_MS :: int where "CONFIRM_DEADLINE_MS = 5 * 60000"
definition BACKOFF_MIN_MS :: int where "BACKOFF_MIN_MS = 60000"
definition BACKOFF_MAX_MS :: int where "BACKOFF_MAX_MS = 60 * 60000"
definition HOLD_REPROBE_MS :: int where "HOLD_REPROBE_MS = 60 * 60000"
definition MAX_PENDING :: nat where "MAX_PENDING = 2"
definition PENDING_HARD_CAP :: nat where "PENDING_HARD_CAP = 3"
definition TOKEN_ROTATION_INTERVAL_MS :: int where "TOKEN_ROTATION_INTERVAL_MS = 7 * 24 * 60 * 60000"

section \<open>Persisted state\<close>

datatype token_origin = OAdopted | OMinted | ORotated

datatype owed_reason =
  OwAdopted | FleetBehind | ConfirmDeadline | RetiredWrittenBack | Recovered | AuxUnusable
| UnverifiableFiles | CodeUsed | ClaimMisbound | RetiredPresented

datatype token_hold =
  UpdateInFlight | AgentPredatesOp | VerbMissing | StaleClient | FleetRows | NodeIdUnmeasured
| LinkDown | PendingCap | NoCoord | RoleUnrecorded | MintFailed

datatype token_transport = Http | Https | UnmeasuredTransport

datatype recovery_source = FromPending | FromPrevious

record write_record =
  w_dev :: int
  w_ino :: int
  w_writtenAtMs :: int

record pending_gen =
  pg_id :: string
  pg_seq :: int
  pg_stagedAt :: int
  pg_handedOutAt :: "int option"
  pg_confirmBy :: "int option"
  pg_write :: write_record

record current_gen =
  cg_id :: "string option"
  cg_seq :: int
  cg_since :: int
  cg_write :: "write_record option"

record previous_gen =
  pv_id :: "string option"
  pv_seq :: int
  pv_graceUntil :: int
  pv_hardUntil :: int
  pv_currentPresented :: bool
  pv_write :: write_record

record last_sync =
  ly_at :: int
  ly_word :: string
  ly_transport :: token_transport

text \<open>\<open>k_retiredPresentedAt\<close>: \<open>None\<close> absent, \<open>Some None\<close> null, \<open>Some (Some t)\<close> a stamp.\<close>

record token_counters =
  k_previousPresented :: nat
  k_retiredPresented :: nat
  k_retiredPresentedAt :: "int option option"

record box_state =
  b_origin :: token_origin
  b_rotationOwed :: bool
  b_owedWhy :: "owed_reason option"
  b_current :: current_gen
  b_pending :: "pending_gen list"
  b_previous :: "previous_gen option"
  b_promoting :: "string option"
  b_recovering :: "recovery_source option"
  b_fleetConfirmed :: "string option"
  b_nextSeq :: int
  b_lastRotationAt :: "int option"
  b_failures :: nat
  b_lastFailure :: "string option"
  b_hold :: "token_hold option"
  b_holdNode :: "string option"
  b_lastSync :: "last_sync option"
  b_counters :: token_counters
  b_retiredRefusedAt :: "int option"
  b_mintFailedAt :: "int option"
  b_lastBootRecovery :: "(int \<times> recovery_source) option"
  b_retiring :: "(string \<times> int) list"

definition no_counters :: token_counters where
  "no_counters = \<lparr>k_previousPresented = 0, k_retiredPresented = 0, k_retiredPresentedAt = Some None\<rparr>"

text \<open>\<open>prior?.f ?? d\<close>.\<close>

definition from_prior :: "box_state option \<Rightarrow> (box_state \<Rightarrow> 'a) \<Rightarrow> 'a \<Rightarrow> 'a" where
  "from_prior prior f d = (case prior of None \<Rightarrow> d | Some s \<Rightarrow> f s)"

definition mintedState ::
  "int \<Rightarrow> write_record \<Rightarrow> box_state option \<Rightarrow> owed_reason option \<Rightarrow> string \<Rightarrow> box_state" where
  "mintedState now write prior owed i =
     (let sq = from_prior prior b_nextSeq 1 in
      \<lparr>b_origin = OMinted, b_rotationOwed = (owed \<noteq> None), b_owedWhy = owed,
       b_current = \<lparr>cg_id = Some i, cg_seq = sq, cg_since = now, cg_write = Some write\<rparr>,
       b_pending = from_prior prior b_pending [], b_previous = from_prior prior b_previous None,
       b_promoting = None, b_recovering = None, b_fleetConfirmed = None, b_nextSeq = sq + 1,
       b_lastRotationAt = from_prior prior b_lastRotationAt None, b_failures = 0, b_lastFailure = None,
       b_hold = None, b_holdNode = None, b_lastSync = from_prior prior b_lastSync None,
       b_counters = from_prior prior b_counters no_counters,
       b_retiredRefusedAt = from_prior prior b_retiredRefusedAt None, b_mintFailedAt = None,
       b_lastBootRecovery = from_prior prior b_lastBootRecovery None,
       b_retiring = from_prior prior b_retiring []\<rparr>)"

definition adoptedState :: "int \<Rightarrow> box_state option \<Rightarrow> box_state" where
  "adoptedState now prior =
     (let sq = from_prior prior b_nextSeq 1 in
      \<lparr>b_origin = OAdopted, b_rotationOwed = True, b_owedWhy = Some OwAdopted,
       b_current = \<lparr>cg_id = None, cg_seq = sq, cg_since = now, cg_write = None\<rparr>,
       b_pending = from_prior prior b_pending [], b_previous = from_prior prior b_previous None,
       b_promoting = None, b_recovering = None, b_fleetConfirmed = None, b_nextSeq = sq + 1,
       b_lastRotationAt = from_prior prior b_lastRotationAt None, b_failures = 0, b_lastFailure = None,
       b_hold = None, b_holdNode = None, b_lastSync = from_prior prior b_lastSync None,
       b_counters = from_prior prior b_counters no_counters,
       b_retiredRefusedAt = from_prior prior b_retiredRefusedAt None, b_mintFailedAt = None,
       b_lastBootRecovery = from_prior prior b_lastBootRecovery None,
       b_retiring = from_prior prior b_retiring []\<rparr>)"

definition owe :: "box_state \<Rightarrow> owed_reason \<Rightarrow> box_state" where
  "owe s why = (if b_rotationOwed s then s else s\<lparr>b_rotationOwed := True, b_owedWhy := Some why\<rparr>)"

section \<open>Retired values\<close>

definition retiringDigests :: "box_state \<Rightarrow> string list" where
  "retiringDigests s = map fst (b_retiring s)"

definition retiringRecorded :: "box_state \<Rightarrow> string \<Rightarrow> int \<Rightarrow> box_state" where
  "retiringRecorded s sha256 at =
     (if list_ex (\<lambda>e. fst e = sha256) (b_retiring s) then s
      else s\<lparr>b_retiring := b_retiring s @ [(sha256, at)]\<rparr>)"

definition retiringLanded :: "box_state \<Rightarrow> string list \<Rightarrow> box_state" where
  "retiringLanded s landed = s\<lparr>b_retiring := filter (\<lambda>e. fst e \<notin> set landed) (b_retiring s)\<rparr>"

datatype file_kind = Regular | Symlink | OtherKind

record file_meta =
  fm_dev :: int
  fm_ino :: int
  fm_mtimeMs :: int
  fm_kind :: file_kind

record file_like =
  fl_meta :: "file_meta option"
  fl_usable :: bool
  fl_placeholder :: bool
  fl_digest :: "string option"

definition provedWrite :: "file_like \<Rightarrow> write_record option \<Rightarrow> bool" where
  "provedWrite f w =
     (case (w, fl_meta f) of
        (Some r, Some m) \<Rightarrow> fm_kind m = Regular \<and> fm_dev m = w_dev r \<and> fm_ino m = w_ino r \<and>
                            fm_mtimeMs m \<le> w_writtenAtMs r
      | _ \<Rightarrow> False)"

definition foreignUnderUnusableRetired :: "bool \<Rightarrow> box_state option \<Rightarrow> file_like \<Rightarrow> bool" where
  "foreignUnderUnusableRetired retiredUnusable st cur =
     (if \<not> retiredUnusable then False
      else \<not> (case st of None \<Rightarrow> False | Some s \<Rightarrow> provedWrite cur (cg_write (b_current s))))"

definition retiredUnanswered :: "box_state \<Rightarrow> bool" where
  "retiredUnanswered s =
     (case k_retiredPresentedAt (b_counters s) of
        Some (Some at) \<Rightarrow> (case b_lastRotationAt s of None \<Rightarrow> True | Some l \<Rightarrow> at > l)
      | _ \<Rightarrow> False)"

definition clampRetiredStamp :: "int option option \<Rightarrow> int option \<Rightarrow> int \<Rightarrow> int option" where
  "clampRetiredStamp stored lastRotationAt now =
     (case stored of
        Some (Some t) \<Rightarrow>
          if t \<le> now then Some t
          else
            let unanswered = (case lastRotationAt of None \<Rightarrow> True | Some l \<Rightarrow> t > l) in
            Some (if unanswered then max now (case lastRotationAt of None \<Rightarrow> now | Some l \<Rightarrow> l + 1) else now)
      | _ \<Rightarrow> None)"

definition oweForRetiredPresentation :: "box_state \<Rightarrow> int \<Rightarrow> int option \<Rightarrow> int \<Rightarrow> box_state option" where
  "oweForRetiredPresentation s fresh lastOwedAt now =
     (if (fresh \<le> 0 \<and> \<not> retiredUnanswered s) \<or> b_rotationOwed s \<or> length (b_pending s) > 0 \<or> b_promoting s \<noteq> None
      then None
      else if (case lastOwedAt of None \<Rightarrow> False | Some t \<Rightarrow> now - t < HOLD_REPROBE_MS) then None
      else Some (owe s RetiredPresented))"

section \<open>The gate\<close>

record gate_node =
  gn_nodeId :: string
  gn_nodeIdMeasured :: bool
  gn_label :: string
  gn_role :: "node_role option"
  gn_reachable :: bool
  gn_os :: node_os
  gn_caps :: "string list"
  gn_agentOps :: "string list option"
  gn_updateState :: update_state
  gn_reportedPhase :: "update_phase option"

datatype role_source = Recorded | DerivedAbsent | DerivedInvalid
datatype fleet_mode = LocalFleet | RemoteFleet

record gate_input =
  gi_fleetMode :: fleet_mode
  gi_role :: node_role
  gi_roleSource :: role_source
  gi_agentEnvMarksFleet :: bool
  gi_nodes :: "gate_node list option"
  gi_linkUp :: bool
  gi_learned :: "(token_hold \<times> int) option"
  gi_lastReadyAt :: "int option"
  gi_handedOutUnconfirmed :: nat
  gi_pendingExit :: bool
  gi_mintFailed :: bool
  gi_now :: int

datatype gate_verdict =
  OpenRemote "string option"
| OpenBothLocal
| Held token_hold "string option"

definition TOKEN_SYNC_OP :: string where "TOKEN_SYNC_OP = ''token-sync''"

definition busy :: "gate_node \<Rightarrow> bool" where
  "busy n \<longleftrightarrow> gn_updateState n \<in> set BUSY_UPDATE_STATES \<or>
     (case gn_reportedPhase n of None \<Rightarrow> False | Some p \<Rightarrow> p \<in> set IN_FLIGHT_UPDATE_PHASES)"

definition bothRoleWriterArmed :: "gate_input \<Rightarrow> bool" where
  "bothRoleWriterArmed i \<longleftrightarrow> gi_role i = RBoth \<and> gi_roleSource i = Recorded \<and> gi_fleetMode i = LocalFleet \<and>
     \<not> gi_agentEnvMarksFleet i"

definition pendingExitOpen :: "pending_gen list \<Rightarrow> int \<Rightarrow> bool" where
  "pendingExitOpen pending now =
     (let handedOut = filter (\<lambda>p. pg_handedOutAt p \<noteq> None) pending in
      length handedOut = MAX_PENDING \<and>
      list_all (\<lambda>p. case pg_confirmBy p of None \<Rightarrow> False | Some c \<Rightarrow> now > c) handedOut)"

definition lacks_cap :: "gate_node \<Rightarrow> bool" where
  "lacks_cap n \<longleftrightarrow> gn_os n \<noteq> UnknownOs \<and> TOKEN_SYNC_OP \<notin> set (gn_caps n)"

definition learned_holds :: "gate_input \<Rightarrow> token_hold option" where
  "learned_holds i =
     (case gi_learned i of
        None \<Rightarrow> None
      | Some (h, at) \<Rightarrow>
          if \<not> (case gi_lastReadyAt i of None \<Rightarrow> False | Some r \<Rightarrow> r > at) \<and> gi_now i - at < HOLD_REPROBE_MS
          then Some h else None)"

text \<open>The rows a remote rotation could send to, and the verdict over the only one.\<close>

definition fleet_rows :: "gate_node list \<Rightarrow> gate_node list" where
  "fleet_rows nodes = filter (\<lambda>n. gn_role n = Some RFleet \<and> gn_reachable n) nodes"

definition fleet_verdict :: "gate_input \<Rightarrow> gate_node \<Rightarrow> gate_verdict" where
  "fleet_verdict i f =
     (if \<not> gn_nodeIdMeasured f then Held NodeIdUnmeasured (Some (gn_label f))
      else if \<not> gi_linkUp i then Held LinkDown (Some (gn_label f))
      else if (case gn_agentOps f of None \<Rightarrow> True | Some ops \<Rightarrow> TOKEN_SYNC_OP \<notin> set ops)
      then Held AgentPredatesOp (Some (gn_label f))
      else if lacks_cap f then Held VerbMissing (Some (gn_label f))
      else (case learned_holds i of
         Some h \<Rightarrow> Held h (Some (gn_label f))
       | None \<Rightarrow>
           if gi_handedOutUnconfirmed i \<ge> PENDING_HARD_CAP then Held PendingCap (Some (gn_label f))
           else if gi_handedOutUnconfirmed i \<ge> MAX_PENDING \<and> \<not> gi_pendingExit i
           then Held PendingCap (Some (gn_label f))
           else OpenRemote (Some (gn_nodeId f))))"

definition rotationGate :: "gate_input \<Rightarrow> gate_verdict" where
  "rotationGate i =
     (if gi_mintFailed i then Held MintFailed None
      else case gi_nodes i of
        None \<Rightarrow> Held NoCoord None
      | Some nodes \<Rightarrow>
          (let updating = find busy nodes in
           if gi_fleetMode i = LocalFleet then
             (if \<not> bothRoleWriterArmed i then Held RoleUnrecorded None
              else case updating of
                Some u \<Rightarrow> Held UpdateInFlight (Some (gn_label u))
              | None \<Rightarrow>
                  (case find (\<lambda>n. gn_role n = Some RBoth) nodes of
                     Some own \<Rightarrow> if lacks_cap own then Held VerbMissing (Some (gn_label own)) else OpenBothLocal
                   | None \<Rightarrow> OpenBothLocal))
           else case updating of
             Some u \<Rightarrow> Held UpdateInFlight (Some (gn_label u))
           | None \<Rightarrow>
               (case fleet_rows nodes of
                  [f] \<Rightarrow> fleet_verdict i f
                | _ \<Rightarrow> Held FleetRows None)))"

section \<open>One rotation\<close>

datatype generation_read = GenId string | GenAbsent | GenUnreadable

record generation_obs =
  go_read :: generation_read
  go_measuredAt :: int

datatype sync_word =
  BadCode | BusyWord | SpawnFailed | ClaimRefused | CodeUsedWord | WriteFailed | ProofFailed
| ProofUnmeasured | StaleClientWord

datatype lost_why = Timeout | Disconnected | Aborted

datatype sync_result =
  Synced string token_transport
| SyncRefused sync_word "string option"
| PredatesOp
| Unsent
| Lost lost_why

datatype stage_why = OwedWhy owed_reason | RotateNow | Scheduled

datatype promote_via = OpResult | GenerationRead | OwnWrite

datatype retire_why = GraceEnd | HardBound

datatype driver_action =
  NoAction
| HoldAction token_hold "string option"
| RetryMint
| Stage stage_why
| Send string string
| Promote string promote_via
| Retire retire_why
| ExtendGrace
| Backoff int

definition confirmedGeneration :: "box_state \<Rightarrow> generation_obs \<Rightarrow> string option" where
  "confirmedGeneration s obs =
     (case go_read obs of
        GenId i \<Rightarrow>
          (case find (\<lambda>p. pg_id p = i) (b_pending s) of
             Some g \<Rightarrow> (case pg_handedOutAt g of
                 Some h \<Rightarrow> if go_measuredAt obs > h then Some (pg_id g) else None
               | None \<Rightarrow> None)
           | None \<Rightarrow> None)
      | _ \<Rightarrow> None)"

datatype retire_due = NotDue | DueGrace | DueHard | DueExtend

definition retireDue :: "previous_gen \<Rightarrow> int \<Rightarrow> retire_due" where
  "retireDue prev now =
     (if now \<ge> pv_hardUntil prev then (if pv_currentPresented prev then DueGrace else DueHard)
      else if now < pv_graceUntil prev then NotDue
      else if pv_currentPresented prev then DueGrace else DueExtend)"

definition backoffMs :: "nat \<Rightarrow> int" where
  "backoffMs failures =
     (if failures = 0 then 0 else min (BACKOFF_MIN_MS * 2 ^ min (failures - 1) 30) BACKOFF_MAX_MS)"

definition scheduleAnchor :: "box_state \<Rightarrow> int" where
  "scheduleAnchor s = (case b_lastRotationAt s of Some t \<Rightarrow> t | None \<Rightarrow> cg_since (b_current s))"

definition scheduleDue :: "box_state \<Rightarrow> int \<Rightarrow> bool" where
  "scheduleDue s now =
     (let a = scheduleAnchor s in
      now - a \<ge> TOKEN_ROTATION_INTERVAL_MS \<or> a - now > TOKEN_ROTATION_INTERVAL_MS)"

definition nextScheduledAt :: "box_state \<Rightarrow> int \<Rightarrow> int" where
  "nextScheduledAt s now = (if scheduleDue s now then now else scheduleAnchor s + TOKEN_ROTATION_INTERVAL_MS)"

record action_input =
  ai_gate :: gate_verdict
  ai_generation :: "generation_obs option"
  ai_rotateRequested :: bool
  ai_backoffUntil :: "int option"
  ai_now :: int
  ai_retireHeld :: bool
  ai_scheduleBackoffUntil :: "int option"

definition before :: "int \<Rightarrow> int option \<Rightarrow> bool" where
  "before now t = (case t of None \<Rightarrow> False | Some u \<Rightarrow> now < u)"

definition handed_out :: "box_state \<Rightarrow> pending_gen list" where
  "handed_out s = filter (\<lambda>p. pg_handedOutAt p \<noteq> None) (b_pending s)"

definition fleet_behind :: "box_state \<Rightarrow> generation_obs option \<Rightarrow> bool" where
  "fleet_behind s gen =
     (case gen of
        None \<Rightarrow> False
      | Some g \<Rightarrow> cg_id (b_current s) \<noteq> None \<and> length (b_pending s) = 0 \<and>
          (case b_lastRotationAt s of None \<Rightarrow> True | Some t \<Rightarrow> go_measuredAt g > t) \<and>
          (case go_read g of GenAbsent \<Rightarrow> True | GenId i \<Rightarrow> Some i \<noteq> cg_id (b_current s) | GenUnreadable \<Rightarrow> False))"

definition stage_reason :: "box_state \<Rightarrow> action_input \<Rightarrow> stage_why option" where
  "stage_reason s i =
     (if b_rotationOwed s then Some (OwedWhy (case b_owedWhy s of Some w \<Rightarrow> w | None \<Rightarrow> OwAdopted))
      else if length (handed_out s) > 0 then Some (OwedWhy ConfirmDeadline)
      else if fleet_behind s (ai_generation i) then Some (OwedWhy FleetBehind)
      else if ai_rotateRequested i then Some RotateNow
      else if scheduleDue s (ai_now i) then Some Scheduled
      else None)"

text \<open>The last block of \<open>nextAction\<close>: what is staged once nothing is in flight.\<close>

definition stage_action :: "box_state \<Rightarrow> action_input \<Rightarrow> driver_action" where
  "stage_action s i =
     (if list_ex (\<lambda>p. case pg_confirmBy p of None \<Rightarrow> False | Some c \<Rightarrow> ai_now i \<le> c) (handed_out s) then NoAction
      else case stage_reason s i of
        None \<Rightarrow> NoAction
      | Some why \<Rightarrow>
          (case ai_gate i of
             Held h n \<Rightarrow> HoldAction h n
           | _ \<Rightarrow>
               if length (b_pending s) \<ge> PENDING_HARD_CAP then HoldAction PendingCap None
               else if before (ai_now i) (ai_backoffUntil i) \<and> \<not> ai_rotateRequested i
               then Backoff (the (ai_backoffUntil i))
               else if why = Scheduled \<and> before (ai_now i) (ai_scheduleBackoffUntil i)
               then Backoff (the (ai_scheduleBackoffUntil i))
               else Stage why))"

text \<open>From the previous value's grace to the staged value's send.\<close>

definition settle_action :: "box_state \<Rightarrow> action_input \<Rightarrow> driver_action" where
  "settle_action s i =
     (case (case b_previous s of
              None \<Rightarrow> None
            | Some pv \<Rightarrow>
                (case retireDue pv (ai_now i) of
                   DueGrace \<Rightarrow> if \<not> ai_retireHeld i then Some (Retire GraceEnd) else None
                 | DueHard \<Rightarrow> if \<not> ai_retireHeld i then Some (Retire HardBound) else None
                 | DueExtend \<Rightarrow> if \<not> b_rotationOwed s then Some ExtendGrace else None
                 | NotDue \<Rightarrow> None)) of
        Some a \<Rightarrow> a
      | None \<Rightarrow>
          (case find (\<lambda>p. pg_handedOutAt p = None) (b_pending s) of
             None \<Rightarrow> stage_action s i
           | Some st \<Rightarrow>
               (case ai_gate i of
                  Held h n \<Rightarrow> HoldAction h n
                | OpenRemote (Some n) \<Rightarrow> Send (pg_id st) n
                | _ \<Rightarrow> stage_action s i)))"

definition nextAction :: "box_state option \<Rightarrow> action_input \<Rightarrow> driver_action" where
  "nextAction st i =
     (case st of
        None \<Rightarrow> RetryMint
      | Some s \<Rightarrow>
          if (case ai_gate i of Held h _ \<Rightarrow> h = MintFailed | _ \<Rightarrow> False) then RetryMint
          else case b_promoting s of
            Some p \<Rightarrow> Promote p OpResult
          | None \<Rightarrow>
              (case (case ai_generation i of None \<Rightarrow> None | Some g \<Rightarrow> confirmedGeneration s g) of
                 Some c \<Rightarrow> Promote c GenerationRead
               | None \<Rightarrow>
                   (case (case b_previous s of
                            None \<Rightarrow> None
                          | Some pv \<Rightarrow> if ai_now i \<ge> pv_hardUntil pv \<and> \<not> ai_retireHeld i then Some pv else None) of
                      Some pv \<Rightarrow> Retire (if retireDue pv (ai_now i) = DueGrace then GraceEnd else HardBound)
                    | None \<Rightarrow>
                        (case (find (\<lambda>p. pg_handedOutAt p = None) (b_pending s), ai_gate i) of
                           (Some sg, OpenBothLocal) \<Rightarrow>
                             if before (ai_now i) (ai_backoffUntil i) then Backoff (the (ai_backoffUntil i))
                             else Promote (pg_id sg) OwnWrite
                         | _ \<Rightarrow> settle_action s i))))"

section \<open>The fold of a sync answer\<close>

record sync_fold =
  sf_state :: box_state
  sf_promote :: "string option"
  sf_learned :: "(token_hold \<times> int) option"

text \<open>The word the state stores for a refusal or a lost answer.\<close>

fun word_of :: "sync_word \<Rightarrow> string" where
  "word_of BadCode = ''bad-code''"
| "word_of BusyWord = ''busy''"
| "word_of SpawnFailed = ''spawn-failed''"
| "word_of ClaimRefused = ''claim-refused''"
| "word_of CodeUsedWord = ''code-used''"
| "word_of WriteFailed = ''write-failed''"
| "word_of ProofFailed = ''proof-failed''"
| "word_of ProofUnmeasured = ''proof-unmeasured''"
| "word_of StaleClientWord = ''stale-client''"

fun lost_word :: "lost_why \<Rightarrow> string" where
  "lost_word Timeout = ''timeout''"
| "lost_word Disconnected = ''disconnected''"
| "lost_word Aborted = ''aborted''"

definition isTokenVerbMissing :: "string option \<Rightarrow> bool" where
  "isTokenVerbMissing detail =
     (case detail of
        None \<Rightarrow> False
      | Some d \<Rightarrow> starts_with d ''ccrc: unknown argument: token'' \<or> starts_with d ''could not start the launcher'')"

definition dropUnclaimed :: "pending_gen \<Rightarrow> string \<Rightarrow> box_state \<Rightarrow> box_state" where
  "dropUnclaimed gen sent s =
     (if pg_handedOutAt gen = None then s\<lparr>b_pending := filter (\<lambda>p. pg_id p \<noteq> sent) (b_pending s)\<rparr> else s)"

definition failed :: "box_state \<Rightarrow> string \<Rightarrow> box_state" where
  "failed s w = s\<lparr>b_failures := b_failures s + 1, b_lastFailure := Some w\<rparr>"

definition applySyncResult :: "box_state \<Rightarrow> string \<Rightarrow> sync_result \<Rightarrow> int \<Rightarrow> sync_fold" where
  "applySyncResult s sent r now =
     (case find (\<lambda>p. pg_id p = sent) (b_pending s) of
        None \<Rightarrow> \<lparr>sf_state = s, sf_promote = None, sf_learned = None\<rparr>
      | Some gen \<Rightarrow>
          (let drop = dropUnclaimed gen sent;
               keep = (case b_lastSync s of Some l \<Rightarrow> ly_transport l | None \<Rightarrow> UnmeasuredTransport);
               synced = (\<lambda>w t. s\<lparr>b_lastSync := Some \<lparr>ly_at = now, ly_word = w, ly_transport = t\<rparr>\<rparr>) in
           case r of
             Synced g t \<Rightarrow>
               if g = sent \<and> pg_handedOutAt gen \<noteq> None
               then \<lparr>sf_state = (synced ''synced'' t)\<lparr>b_failures := 0, b_lastFailure := None\<rparr>,
                     sf_promote = Some sent, sf_learned = None\<rparr>
               else \<lparr>sf_state = drop (synced ''synced'' t), sf_promote = None, sf_learned = None\<rparr>
           | PredatesOp \<Rightarrow> \<lparr>sf_state = drop s, sf_promote = None, sf_learned = Some (AgentPredatesOp, now)\<rparr>
           | Unsent \<Rightarrow> \<lparr>sf_state = drop s, sf_promote = None, sf_learned = None\<rparr>
           | Lost why \<Rightarrow> \<lparr>sf_state = drop (failed s (lost_word why)), sf_promote = None, sf_learned = None\<rparr>
           | SyncRefused w detail \<Rightarrow>
               (let s' = synced (word_of w) keep in
                if w = StaleClientWord then \<lparr>sf_state = drop s', sf_promote = None, sf_learned = Some (StaleClient, now)\<rparr>
                else if w = SpawnFailed \<and> isTokenVerbMissing detail
                then \<lparr>sf_state = drop s', sf_promote = None, sf_learned = Some (VerbMissing, now)\<rparr>
                else if w = CodeUsedWord
                then \<lparr>sf_state = owe ((failed s' (word_of w))
                         \<lparr>b_pending := filter (\<lambda>p. pg_id p \<noteq> sent) (b_pending s)\<rparr>) CodeUsed,
                      sf_promote = None, sf_learned = None\<rparr>
                else \<lparr>sf_state = drop (failed s' (word_of w)), sf_promote = None, sf_learned = None\<rparr>)))"

definition stagedState :: "box_state \<Rightarrow> string \<Rightarrow> int \<Rightarrow> write_record \<Rightarrow> box_state" where
  "stagedState s i now write =
     s\<lparr>b_nextSeq := b_nextSeq s + 1,
       b_pending := b_pending s @ [\<lparr>pg_id = i, pg_seq = b_nextSeq s, pg_stagedAt = now, pg_handedOutAt = None,
                                    pg_confirmBy = None, pg_write = write\<rparr>]\<rparr>"

definition handedOutState :: "box_state \<Rightarrow> string \<Rightarrow> int \<Rightarrow> box_state" where
  "handedOutState s i at =
     s\<lparr>b_pending := map (\<lambda>p. if pg_id p = i
         then p\<lparr>pg_handedOutAt := Some at, pg_confirmBy := Some (at + CONFIRM_DEADLINE_MS)\<rparr> else p) (b_pending s)\<rparr>"

definition promotionPresentsCurrent :: "promote_via option \<Rightarrow> bool \<Rightarrow> bool" where
  "promotionPresentsCurrent via presented \<longleftrightarrow> via = Some OwnWrite \<or> presented"

text \<open>\<open>None\<close> is the thrown \<open>RangeError\<close>.\<close>

definition promotedState ::
  "box_state \<Rightarrow> string \<Rightarrow> int \<Rightarrow> write_record option \<Rightarrow> promote_via option \<Rightarrow> bool \<Rightarrow> box_state option" where
  "promotedState s i now previousWrite via presented =
     (case find (\<lambda>p. pg_id p = i) (b_pending s) of
        None \<Rightarrow> None
      | Some g \<Rightarrow> Some (s\<lparr>
          b_origin := ORotated, b_rotationOwed := False, b_owedWhy := None,
          b_current := \<lparr>cg_id = Some (pg_id g), cg_seq = pg_seq g, cg_since = now, cg_write = Some (pg_write g)\<rparr>,
          b_pending := filter (\<lambda>p. pg_handedOutAt p \<noteq> None \<and> pg_seq p > pg_seq g) (b_pending s),
          b_previous := (case previousWrite of
              None \<Rightarrow> None
            | Some w \<Rightarrow> Some \<lparr>pv_id = cg_id (b_current s), pv_seq = cg_seq (b_current s),
                pv_graceUntil = now + GRACE_MS, pv_hardUntil = now + GRACE_HARD_MS,
                pv_currentPresented = promotionPresentsCurrent via presented, pv_write = w\<rparr>),
          b_promoting := None, b_recovering := None, b_fleetConfirmed := Some (pg_id g),
          b_lastRotationAt := Some now, b_failures := 0, b_lastFailure := None, b_hold := None, b_holdNode := None\<rparr>))"

definition extendedGraceState :: "box_state \<Rightarrow> int \<Rightarrow> box_state" where
  "extendedGraceState s now =
     (case b_previous s of
        None \<Rightarrow> s
      | Some pv \<Rightarrow> owe (s\<lparr>b_previous := Some (pv\<lparr>pv_graceUntil := min (now + GRACE_MS) (pv_hardUntil pv)\<rparr>)\<rparr>)
                     FleetBehind)"

datatype box_phase = Unconfigured | Idle | Staged | HandedOut | Promoting | Grace | HeldPhase | FailedPhase

definition phaseOf :: "box_state option \<Rightarrow> token_hold option \<Rightarrow> bool \<Rightarrow> box_phase" where
  "phaseOf st hold hasCurrent =
     (if \<not> hasCurrent then Unconfigured
      else case st of
        None \<Rightarrow> Idle
      | Some s \<Rightarrow>
          if b_promoting s \<noteq> None then Promoting
          else if hold \<noteq> None then HeldPhase
          else if list_ex (\<lambda>p. pg_handedOutAt p \<noteq> None) (b_pending s) then HandedOut
          else if length (b_pending s) > 0 then Staged
          else if b_failures s > 0 then FailedPhase
          else if b_previous s \<noteq> None then Grace
          else Idle)"

section \<open>Boot recovery\<close>

datatype recovery_plan = RefuseRecovery | FinishPromotion string | RecoverPrevious

definition sibling :: "string list \<Rightarrow> file_like option \<Rightarrow> write_record option \<Rightarrow> bool" where
  "sibling retired f w =
     (case f of
        None \<Rightarrow> False
      | Some x \<Rightarrow> provedWrite x w \<and> fl_usable x \<and> \<not> fl_placeholder x \<and>
          (case fl_digest x of None \<Rightarrow> False | Some d \<Rightarrow> d \<notin> set retired))"

definition recoveryPlan ::
  "box_state option \<Rightarrow> file_like \<Rightarrow> file_like option \<Rightarrow> file_like option \<Rightarrow> string list \<Rightarrow> recovery_plan" where
  "recoveryPlan st cur pending previous retired =
     (case st of
        None \<Rightarrow> RefuseRecovery
      | Some s \<Rightarrow>
          if b_origin s = OAdopted then RefuseRecovery
          else if fl_meta cur \<noteq> None \<and> \<not> provedWrite cur (cg_write (b_current s)) then RefuseRecovery
          else
            (let finish = (case b_promoting s of
                None \<Rightarrow> None
              | Some i \<Rightarrow> (case find (\<lambda>p. pg_id p = i) (b_pending s) of
                    None \<Rightarrow> None
                  | Some g \<Rightarrow> if sibling retired pending (Some (pg_write g)) then Some (pg_id g) else None)) in
             case finish of
               Some i \<Rightarrow> FinishPromotion i
             | None \<Rightarrow>
                 (case b_previous s of
                    None \<Rightarrow> RefuseRecovery
                  | Some pv \<Rightarrow> if sibling retired previous (Some (pv_write pv)) then RecoverPrevious
                              else RefuseRecovery)))"

end
