(* ===== verification/TokenDoor.thy ===== *)
theory TokenDoor
  imports TokenPolicy "HOL-Library.Word"
begin

unbundle bit_operations_syntax

text \<open>
  The claim door (\<open>server/src/token/door.ts\<close>, the decisions of section "the claim door" of
  \<open>token/policy.ts\<close>, and the slot matcher \<open>token/digestSlots.ts\<close>). SHA-256, the random
  dummies of the empty slots and the holder's \<open>valueOf\<close> are parameters. The log lines and
  their throttles are left out; the alert lists the driver drains are kept.
\<close>

section \<open>The slot matcher\<close>

text \<open>The loop of \<open>matchDigestSlots\<close>: \<open>index |= (i + 1) * (hit & (found ^ 1)); found |= hit\<close>,
  over JavaScript's 32-bit integers.\<close>

fun match_loop :: "'a \<Rightarrow> 'a list \<Rightarrow> nat \<Rightarrow> 32 word \<Rightarrow> 32 word \<Rightarrow> 32 word" where
  "match_loop presented [] i index found = index"
| "match_loop presented (s # slots) i index found =
     (let hit = (if presented = s then 1 else 0) in
      match_loop presented slots (i + 1)
        (index OR (word_of_nat (i + 1) * (hit AND (found XOR 1))))
        (found OR hit))"

definition matchDigestSlots :: "'a \<Rightarrow> 'a list \<Rightarrow> int" where
  "matchDigestSlots presented slots = sint (match_loop presented slots 0 0 0) - 1"

section \<open>The decision\<close>

definition CLAIM_CODE_TTL_MS :: int where "CLAIM_CODE_TTL_MS = 60000"
definition CLAIM_MISS_BUDGET :: nat where "CLAIM_MISS_BUDGET = 30"
definition CLAIM_MISS_WINDOW_MS :: int where "CLAIM_MISS_WINDOW_MS = 60000"
definition BURNED_CODES_KEPT :: nat where "BURNED_CODES_KEPT = 8"
definition BURNED_CODE_KEEP_MS :: int where "BURNED_CODE_KEEP_MS = 10 * 60000"

record code_slot =
  cs_digest :: string
  cs_generation :: string
  cs_nodeId :: string
  cs_expiresAt :: int

record burned_code =
  bc_digest :: string
  bc_generation :: string
  bc_at :: int

record door_state =
  ds_live :: "code_slot list"
  ds_burned :: "burned_code list"
  ds_windowStart :: int
  ds_misses :: nat

datatype claim_match = Malformed | LiveAt nat | BurnedAt nat | NoMatch

datatype claim_reply =
  Reply200 string
| BadRequest
| NoClaim
| RateLimited
| WrongNode string
| CodeExpired string
| CodeWasUsed string

datatype claim_alert = AlertExpired string | AlertWrongNode string | AlertReplay string | AlertMisses nat

definition codeExpiresAt :: "int \<Rightarrow> int" where "codeExpiresAt issuedAt = issuedAt + CLAIM_CODE_TTL_MS"

definition keepBurned :: "burned_code list \<Rightarrow> int \<Rightarrow> burned_code list" where
  "keepBurned burned now =
     (let kept = filter (\<lambda>b. now - bc_at b < BURNED_CODE_KEEP_MS) burned in
      drop (length kept - BURNED_CODES_KEPT) kept)"

definition claimVerdict ::
  "door_state \<Rightarrow> claim_match \<Rightarrow> string \<Rightarrow> int \<Rightarrow> claim_reply \<times> door_state \<times> claim_alert option" where
  "claimVerdict st m nodeId now =
     (case m of
        LiveAt i \<Rightarrow>
          (let slot = ds_live st ! i;
               nxt = st\<lparr>ds_live := take i (ds_live st) @ drop (i + 1) (ds_live st),
                        ds_burned := keepBurned (ds_burned st @
                          [\<lparr>bc_digest = cs_digest slot, bc_generation = cs_generation slot, bc_at = now\<rparr>]) now\<rparr> in
           if now > cs_expiresAt slot
           then (CodeExpired (cs_generation slot), nxt, Some (AlertExpired (cs_generation slot)))
           else if cs_nodeId slot \<noteq> nodeId
           then (WrongNode (cs_generation slot), nxt, Some (AlertWrongNode (cs_generation slot)))
           else (Reply200 (cs_generation slot), nxt, None))
      | BurnedAt i \<Rightarrow>
          (let b = ds_burned st ! i in
           (CodeWasUsed (bc_generation b), st, Some (AlertReplay (bc_generation b))))
      | _ \<Rightarrow>
          (let fresh = now - ds_windowStart st \<ge> CLAIM_MISS_WINDOW_MS;
               cnt = (if fresh then 0 else ds_misses st) + 1;
               nxt = st\<lparr>ds_windowStart := (if fresh then now else ds_windowStart st), ds_misses := cnt\<rparr>;
               alert = Some (AlertMisses cnt) in
           if cnt > CLAIM_MISS_BUDGET then (RateLimited, nxt, alert)
           else if m = Malformed then (BadRequest, nxt, alert)
           else (NoClaim, nxt, alert)))"

section \<open>The door\<close>

definition url_char :: "char \<Rightarrow> bool" where
  "url_char c \<longleftrightarrow> (CHR ''A'' \<le> c \<and> c \<le> CHR ''Z'') \<or> (CHR ''a'' \<le> c \<and> c \<le> CHR ''z'') \<or>
     (CHR ''0'' \<le> c \<and> c \<le> CHR ''9'') \<or> c = CHR ''_'' \<or> c = CHR ''-''"

definition isClaimCode :: "string \<Rightarrow> bool" where
  "isClaimCode s \<longleftrightarrow> length s = 43 \<and> list_all url_char s"

definition NODE_ID_RE :: "string \<Rightarrow> bool" where
  "NODE_ID_RE s \<longleftrightarrow>
     (let parts = split_on (CHR ''-'') s in
      map length parts = [8, 4, 4, 4, 12] \<and> list_all (list_all hex_char) parts)"

record claim_door =
  cd_state :: door_state
  cd_expired :: "string list"
  cd_wrongNode :: "string list"
  cd_replays :: nat

definition new_door :: claim_door where
  "new_door = \<lparr>cd_state = \<lparr>ds_live = [], ds_burned = [], ds_windowStart = 0, ds_misses = 0\<rparr>,
     cd_expired = [], cd_wrongNode = [], cd_replays = 0\<rparr>"

text \<open>\<open>None\<close> is the thrown \<open>RangeError\<close>; the minted code is an argument.\<close>

definition issue :: "(string \<Rightarrow> string) \<Rightarrow> string \<Rightarrow> string \<Rightarrow> int \<Rightarrow> string \<Rightarrow> claim_door \<Rightarrow> claim_door option" where
  "issue sha256 generation nodeId now code d =
     (let live = filter (\<lambda>s. cs_generation s \<noteq> generation) (ds_live (cd_state d)) in
      if length live \<ge> MAX_PENDING then None
      else Some (d\<lparr>cd_state := (cd_state d)\<lparr>ds_live := live @
        [\<lparr>cs_digest = sha256 code, cs_generation = generation, cs_nodeId = nodeId,
          cs_expiresAt = codeExpiresAt now\<rparr>]\<rparr>\<rparr>))"

definition revoke :: "string \<Rightarrow> claim_door \<Rightarrow> claim_door" where
  "revoke generation d =
     d\<lparr>cd_state := (cd_state d)\<lparr>ds_live := filter (\<lambda>s. cs_generation s \<noteq> generation) (ds_live (cd_state d))\<rparr>\<rparr>"

definition slotDigest :: "(nat \<Rightarrow> string) \<Rightarrow> string list \<Rightarrow> nat \<Rightarrow> nat \<Rightarrow> string" where
  "slotDigest dummies xs off i = (if i < length xs then xs ! i else dummies (off + i))"

definition claim_slots :: "(nat \<Rightarrow> string) \<Rightarrow> door_state \<Rightarrow> string list" where
  "claim_slots dummies st =
     map (slotDigest dummies (map cs_digest (ds_live st)) 0) [0..<MAX_PENDING] @
     map (slotDigest dummies (map bc_digest (ds_burned st)) MAX_PENDING) [0..<BURNED_CODES_KEPT]"

definition door_match :: "(nat \<Rightarrow> string) \<Rightarrow> string \<Rightarrow> door_state \<Rightarrow> claim_match" where
  "door_match dummies digest st =
     (let i = matchDigestSlots digest (claim_slots dummies st) in
      if i < 0 then NoMatch
      else if nat i < MAX_PENDING then LiveAt (nat i)
      else BurnedAt (nat i - MAX_PENDING))"

definition report :: "claim_alert option \<Rightarrow> claim_door \<Rightarrow> claim_door" where
  "report alert d =
     (case alert of
        Some (AlertReplay _) \<Rightarrow> d\<lparr>cd_replays := cd_replays d + 1\<rparr>
      | Some (AlertExpired g) \<Rightarrow> d\<lparr>cd_expired := cd_expired d @ [g]\<rparr>
      | Some (AlertWrongNode g) \<Rightarrow> d\<lparr>cd_wrongNode := cd_wrongNode d @ [g]\<rparr>
      | _ \<Rightarrow> d)"

text \<open>The body: \<open>None\<close> stands for a field that is not a string.\<close>

record claim_body =
  cb_code :: "string option"
  cb_nodeId :: "string option"

datatype door_answer =
  HandOut string string string
| Refused claim_reply

definition well_shaped :: "claim_body \<Rightarrow> (string \<times> string) option" where
  "well_shaped b =
     (case (cb_code b, cb_nodeId b) of
        (Some c, Some n) \<Rightarrow> if isClaimCode c \<and> NODE_ID_RE n then Some (c, n) else None
      | _ \<Rightarrow> None)"

definition claimNow ::
  "(string \<Rightarrow> string) \<Rightarrow> (nat \<Rightarrow> string) \<Rightarrow> (string \<Rightarrow> string option) \<Rightarrow> claim_body \<Rightarrow> int \<Rightarrow> claim_door \<Rightarrow>
   door_answer \<times> claim_door" where
  "claimNow sha256 dummies valueOf body now d0 =
     (let st0 = (cd_state d0)\<lparr>ds_burned := keepBurned (ds_burned (cd_state d0)) now\<rparr>;
          shaped = well_shaped body;
          m = (case shaped of None \<Rightarrow> Malformed | Some (c, n) \<Rightarrow> door_match dummies (sha256 c) st0);
          presented = (case shaped of None \<Rightarrow> [] | Some (c, n) \<Rightarrow> n);
          (reply, st1, alert) = claimVerdict st0 m presented now;
          d1 = report alert (d0\<lparr>cd_state := st1\<rparr>) in
      case reply of
        Reply200 g \<Rightarrow>
          (case valueOf g of
             None \<Rightarrow> (Refused NoClaim, d1\<lparr>cd_expired := cd_expired d1 @ [g]\<rparr>)
           | Some v \<Rightarrow> (HandOut g v presented, d1))
      | _ \<Rightarrow> (Refused reply, d1))"

end
