(* ===== verification/TokenDoorProps.thy ===== *)
theory TokenDoorProps
  imports TokenDoor
begin

text \<open>
  What the claim door promises: the branch-free matcher finds the first equal slot, and a
  claim code is good for one hand-out, to its node, in time.
\<close>

section \<open>The matcher\<close>

lemma match_loop_found: "match_loop p slots i index 1 = index"
proof (induction slots arbitrary: i)
  case (Cons s slots)
  then show ?case by (cases "p = s") (simp_all add: Let_def)
qed simp

fun first_index :: "'a \<Rightarrow> 'a list \<Rightarrow> nat option" where
  "first_index p [] = None"
| "first_index p (s # ss) = (if p = s then Some 0 else map_option Suc (first_index p ss))"

lemma match_loop_spec:
  "match_loop p slots i 0 0 = (case first_index p slots of None \<Rightarrow> 0 | Some k \<Rightarrow> word_of_nat (i + k + 1))"
proof (induction slots arbitrary: i)
  case Nil
  then show ?case by simp
next
  case (Cons s slots)
  show ?case
  proof (cases "p = s")
    case True
    then show ?thesis by (simp add: Let_def match_loop_found)
  next
    case False
    then show ?thesis by (simp add: Let_def Cons split: option.splits)
  qed
qed

lemma first_index_less: "first_index p slots = Some k \<Longrightarrow> k < length slots \<and> slots ! k = p"
  by (induction slots arbitrary: k) (auto split: if_splits)

lemma first_index_None: "first_index p slots = None \<longleftrightarrow> p \<notin> set slots"
  by (induction slots) auto

lemma first_index_append:
  "first_index p (xs @ ys) =
     (case first_index p xs of Some k \<Rightarrow> Some k | None \<Rightarrow> map_option ((+) (length xs)) (first_index p ys))"
  by (induction xs; cases "first_index p ys") (auto split: option.splits)

lemma matchDigestSlots_spec:
  assumes "length slots < 2 ^ 31"
  shows "matchDigestSlots p slots = (case first_index p slots of None \<Rightarrow> -1 | Some k \<Rightarrow> int k)"
proof (cases "first_index p slots")
  case None
  then show ?thesis by (simp add: matchDigestSlots_def match_loop_spec)
next
  case (Some k)
  then have "k + 1 < 2 ^ 31" using first_index_less[OF Some] assms by simp
  then have "sint (word_of_nat (k + 1) :: 32 word) = int (k + 1)"
    unfolding signed_of_nat by (subst signed_take_bit_int_eq_self) simp_all
  then show ?thesis by (simp add: matchDigestSlots_def match_loop_spec Some)
qed

section \<open>One hand-out a code\<close>

text \<open>The door between claims, as far as one code \<open>c\<close> is concerned: other codes are issued
  (the mint never repeats a code, and digests of different codes differ), generations are
  revoked, and anything at all is claimed.\<close>

inductive door_step :: "(string \<Rightarrow> string) \<Rightarrow> (nat \<Rightarrow> string) \<Rightarrow> (string \<Rightarrow> string option) \<Rightarrow> string \<Rightarrow>
    claim_door \<Rightarrow> claim_door \<Rightarrow> bool" for sha256 dummies valueOf c where
  issued: "issue sha256 g n now code d = Some d' \<Longrightarrow> sha256 code \<noteq> sha256 c \<Longrightarrow>
    sha256 code \<notin> cs_digest ` set (ds_live (cd_state d)) \<Longrightarrow> door_step sha256 dummies valueOf c d d'"
| revoked: "door_step sha256 dummies valueOf c d (revoke g d)"
| claimed: "door_step sha256 dummies valueOf c d (snd (claimNow sha256 dummies valueOf body now d))"

inductive_cases door_stepE: "door_step sha256 dummies valueOf c d d'"

definition live_digests :: "claim_door \<Rightarrow> string list" where
  "live_digests d = map cs_digest (ds_live (cd_state d))"

definition door_inv :: "claim_door \<Rightarrow> bool" where
  "door_inv d \<longleftrightarrow> distinct (live_digests d) \<and> length (live_digests d) \<le> MAX_PENDING \<and>
     length (ds_burned (cd_state d)) \<le> BURNED_CODES_KEPT"

definition code_dead :: "(string \<Rightarrow> string) \<Rightarrow> string \<Rightarrow> claim_door \<Rightarrow> bool" where
  "code_dead sha256 c d \<longleftrightarrow> sha256 c \<notin> set (live_digests d)"

lemma keepBurned_length: "length (keepBurned bs now) \<le> BURNED_CODES_KEPT"
  by (simp add: keepBurned_def Let_def)

lemma report_state [simp]: "cd_state (report a d) = cd_state d"
  by (auto simp: report_def split: option.splits claim_alert.splits)

lemma claimVerdict_state:
  "ds_live (fst (snd (claimVerdict st m n now))) =
     (case m of LiveAt i \<Rightarrow> take i (ds_live st) @ drop (i + 1) (ds_live st) | _ \<Rightarrow> ds_live st)"
  "length (ds_burned st) \<le> BURNED_CODES_KEPT \<Longrightarrow>
   length (ds_burned (fst (snd (claimVerdict st m n now)))) \<le> BURNED_CODES_KEPT"
  by (cases m; auto simp: claimVerdict_def Let_def keepBurned_length)+

lemma claimNow_state:
  obtains m where
    "cd_state (snd (claimNow sha256 dummies valueOf body now d)) =
       fst (snd (claimVerdict ((cd_state d)\<lparr>ds_burned := keepBurned (ds_burned (cd_state d)) now\<rparr>) m
         (case well_shaped body of None \<Rightarrow> [] | Some (c, n) \<Rightarrow> n) now))"
    "m = (case well_shaped body of None \<Rightarrow> Malformed
          | Some (c, n) \<Rightarrow> door_match dummies (sha256 c) ((cd_state d)\<lparr>ds_burned := keepBurned (ds_burned (cd_state d)) now\<rparr>))"
  by (simp add: claimNow_def Let_def split: prod.splits claim_reply.splits option.splits)

lemma subseq_take_drop: "set (take i xs @ drop (i + 1) xs) \<subseteq> set xs"
  using set_take_subset[of i xs] set_drop_subset[of "i + 1" xs] by auto

lemma distinct_take_drop: "distinct xs \<Longrightarrow> distinct (take i xs @ drop (Suc i) xs)"
  by (auto simp: distinct_append set_take_disj_set_drop_if_distinct)

lemma live_after_claim:
  obtains i where "live_digests (snd (claimNow sha256 dummies valueOf body now d)) =
      take i (live_digests d) @ drop (i + 1) (live_digests d)"
    | "live_digests (snd (claimNow sha256 dummies valueOf body now d)) = live_digests d"
proof -
  obtain m where m: "cd_state (snd (claimNow sha256 dummies valueOf body now d)) =
       fst (snd (claimVerdict ((cd_state d)\<lparr>ds_burned := keepBurned (ds_burned (cd_state d)) now\<rparr>) m
         (case well_shaped body of None \<Rightarrow> [] | Some (c, n) \<Rightarrow> n) now))"
    using claimNow_state by blast
  show thesis
    using that unfolding live_digests_def m claimVerdict_state
    by (cases m) (simp_all add: take_map drop_map)
qed

lemma door_inv_claim: "door_inv d \<Longrightarrow> door_inv (snd (claimNow sha256 dummies valueOf body now d))"
proof -
  assume inv: "door_inv d"
  have "length (ds_burned (cd_state (snd (claimNow sha256 dummies valueOf body now d)))) \<le> BURNED_CODES_KEPT"
    by (rule claimNow_state [of sha256 dummies valueOf body now d])
      (simp add: claimVerdict_state keepBurned_length)
  moreover have "distinct (live_digests (snd (claimNow sha256 dummies valueOf body now d))) \<and>
      length (live_digests (snd (claimNow sha256 dummies valueOf body now d))) \<le> MAX_PENDING"
    using inv by (cases rule: live_after_claim[of sha256 dummies valueOf body now d])
      (auto simp: door_inv_def distinct_take_drop simp del: distinct_append)
  ultimately show ?thesis by (simp add: door_inv_def)
qed

lemma live_filter_digests:
  "set (map cs_digest (filter P xs)) \<subseteq> set (map cs_digest xs)"
  "distinct (map cs_digest xs) \<Longrightarrow> distinct (map cs_digest (filter P xs))"
  "length (map cs_digest (filter P xs)) \<le> length (map cs_digest xs)"
  by (auto simp: distinct_map_filter)

lemma door_inv_step: "door_inv d \<Longrightarrow> door_step sha256 dummies valueOf c d d' \<Longrightarrow> door_inv d'"
proof (erule door_stepE)
  fix g n now code
  assume inv: "door_inv d" and i: "issue sha256 g n now code d = Some d'"
    and f: "sha256 code \<notin> cs_digest ` set (ds_live (cd_state d))"
  from inv i f show ?thesis
    by (auto simp: issue_def door_inv_def live_digests_def Let_def distinct_map_filter split: if_splits)
next
  fix g assume "door_inv d" "d' = revoke g d"
  then show ?thesis
    by (auto simp: revoke_def door_inv_def live_digests_def distinct_map_filter
        intro: order_trans[OF length_filter_le])
qed (simp add: door_inv_claim)

lemma code_dead_step: "code_dead sha256 c d \<Longrightarrow> door_step sha256 dummies valueOf c d d' \<Longrightarrow> code_dead sha256 c d'"
proof (erule door_stepE)
  fix body now assume "code_dead sha256 c d" "d' = snd (claimNow sha256 dummies valueOf body now d)"
  then show ?thesis
    using subseq_take_drop[of _ "live_digests d"]
    by (cases rule: live_after_claim[of sha256 dummies valueOf body now d]) (auto simp: code_dead_def)
qed (auto simp: code_dead_def issue_def revoke_def live_digests_def Let_def split: if_splits)

interpretation door_machine: inv_machine "\<lambda>d. d = new_door" "door_step sha256 dummies valueOf c" door_inv
  for sha256 dummies valueOf c
proof unfold_locales
  show "\<And>d. d = new_door \<Longrightarrow> door_inv d"
    by (simp add: door_inv_def new_door_def live_digests_def)
qed (rule door_inv_step)

interpretation dead_code: inv_machine "code_dead sha256 c" "door_step sha256 dummies valueOf c" "code_dead sha256 c"
  for sha256 dummies valueOf c
  by unfold_locales (assumption | rule code_dead_step)+

text \<open>Where a match lands: the dummies never equal the presented digest.\<close>

lemma door_match_live:
  assumes m: "door_match dummies dg st = LiveAt i"
    and d: "\<And>k. dummies k \<noteq> dg"
  shows "i < length (ds_live st) \<and> cs_digest (ds_live st ! i) = dg"
proof -
  have l: "length (claim_slots dummies st) = 10"
    by (simp add: claim_slots_def MAX_PENDING_def BURNED_CODES_KEPT_def)
  have "length (claim_slots dummies st) < 2 ^ 31" unfolding l by simp
  from matchDigestSlots_spec[OF this, of dg] m
  have f: "first_index dg (claim_slots dummies st) = Some i" "i < MAX_PENDING"
    by (auto simp: door_match_def Let_def split: option.splits if_splits)
  from first_index_less[OF f(1)] f(2)
  have "slotDigest dummies (map cs_digest (ds_live st)) 0 i = dg"
    by (simp add: claim_slots_def nth_append)
  with d show ?thesis by (auto simp: slotDigest_def split: if_splits)
qed

lemma handOut_facts:
  assumes h: "fst (claimNow sha256 dummies valueOf body now d) = HandOut g v n"
    and d: "\<And>k c. dummies k \<noteq> sha256 c"
  shows "\<exists>c i. cb_code body = Some c \<and> cb_nodeId body = Some n \<and> i < length (ds_live (cd_state d)) \<and>
     cs_digest (ds_live (cd_state d) ! i) = sha256 c \<and> cs_generation (ds_live (cd_state d) ! i) = g \<and>
     cs_nodeId (ds_live (cd_state d) ! i) = n \<and> now \<le> cs_expiresAt (ds_live (cd_state d) ! i) \<and>
     valueOf g = Some v \<and>
     live_digests (snd (claimNow sha256 dummies valueOf body now d)) =
       take i (live_digests d) @ drop (i + 1) (live_digests d)"
proof -
  define st where "st = (cd_state d)\<lparr>ds_burned := keepBurned (ds_burned (cd_state d)) now\<rparr>"
  have lv: "ds_live st = ds_live (cd_state d)" by (simp add: st_def)
  show ?thesis
  proof (cases "well_shaped body")
    case None
    with h show ?thesis
      by (simp add: claimNow_def claimVerdict_def Let_def split: if_splits)
  next
    case (Some cn)
    then obtain c m where cn: "cn = (c, m)" and b: "cb_code body = Some c" "cb_nodeId body = Some m"
      by (auto simp: well_shaped_def split: option.splits if_splits)
    show ?thesis
    proof (cases "door_match dummies (sha256 c) st")
      case (LiveAt i)
      from door_match_live[OF this d] have i: "i < length (ds_live (cd_state d))"
        "cs_digest (ds_live (cd_state d) ! i) = sha256 c" by (simp_all add: lv)
      show ?thesis
        using h i b Some LiveAt lv unfolding cn
        by (intro exI[of _ c] exI[of _ i])
          (simp add: claimNow_def claimVerdict_def Let_def st_def [symmetric] live_digests_def take_map drop_map
            split: if_splits option.splits)
    qed (use h Some cn in \<open>simp_all add: claimNow_def claimVerdict_def Let_def st_def [symmetric] split: if_splits\<close>)
  qed
qed


text \<open>C27: A claim code is good for one hand-out, to its own node, in time. Whenever a reachable
  door hands a value out, the body carried a code the door issued, still live, bound to the
  node that presents it and not past its expiry, and the value is the one the holder keeps for
  that code's generation; and after that no claim carrying the same code is answered with a
  value, whatever is issued, revoked or claimed in between.\<close>

theorem claim_code_single_use:
  assumes dum: "\<And>k x. dummies k \<noteq> sha256 x"
    and reach: "(door_step sha256 dummies valueOf c0)\<^sup>*\<^sup>* new_door d"
    and h: "fst (claimNow sha256 dummies valueOf body now d) = HandOut g v n"
    and code: "cb_code body = Some c"
    and later: "(door_step sha256 dummies valueOf c)\<^sup>*\<^sup>* (snd (claimNow sha256 dummies valueOf body now d)) d'"
    and again: "cb_code body' = Some c"
  shows "(\<exists>s \<in> set (ds_live (cd_state d)). cs_digest s = sha256 c \<and> cs_generation s = g \<and> cs_nodeId s = n \<and>
            now \<le> cs_expiresAt s \<and> cb_nodeId body = Some n \<and> valueOf g = Some v) \<and>
         (\<nexists>g' v' n'. fst (claimNow sha256 dummies valueOf body' now' d') = HandOut g' v' n')"
proof -
  have inv: "door_inv d" using door_machine.inv_reach[OF refl reach] .
  from handOut_facts[OF h dum] code obtain i where i: "i < length (ds_live (cd_state d))"
    "cs_digest (ds_live (cd_state d) ! i) = sha256 c" "cs_generation (ds_live (cd_state d) ! i) = g"
    "cs_nodeId (ds_live (cd_state d) ! i) = n" "now \<le> cs_expiresAt (ds_live (cd_state d) ! i)"
    "cb_nodeId body = Some n" "valueOf g = Some v"
    and lv: "live_digests (snd (claimNow sha256 dummies valueOf body now d)) =
       take i (live_digests d) @ drop (i + 1) (live_digests d)"
    by auto
  have k: "i < length (live_digests d)" "live_digests d ! i = sha256 c"
    using i by (simp_all add: live_digests_def)
  have "distinct (live_digests d)" using inv by (simp add: door_inv_def)
  then have "sha256 c \<notin> set (take i (live_digests d) @ drop (i + 1) (live_digests d))"
    using k id_take_nth_drop[OF k(1)] by (metis Suc_eq_plus1 distinct_append distinct.simps(2) disjoint_insert(1)
        list.simps(15) set_append Un_iff)
  then have dead: "code_dead sha256 c (snd (claimNow sha256 dummies valueOf body now d))"
    by (simp add: code_dead_def lv)
  have dead': "code_dead sha256 c d'" by (rule dead_code.inv_steps[OF later dead])
  have "\<nexists>g' v' n'. fst (claimNow sha256 dummies valueOf body' now' d') = HandOut g' v' n'"
  proof
    assume "\<exists>g' v' n'. fst (claimNow sha256 dummies valueOf body' now' d') = HandOut g' v' n'"
    then obtain g' v' n' where "fst (claimNow sha256 dummies valueOf body' now' d') = HandOut g' v' n'" by blast
    from handOut_facts[OF this dum] again have "sha256 c \<in> set (live_digests d')"
      by (auto simp: live_digests_def) (metis image_eqI nth_mem)
    with dead' show False by (simp add: code_dead_def)
  qed
  then show ?thesis
    using i by (intro conjI bexI [of _ "ds_live (cd_state d) ! i"]) simp_all
qed

definition demo_sha :: "string \<Rightarrow> string" where "demo_sha s = CHR ''x'' # s"

definition demo_code :: string where "demo_code = replicate 43 (CHR ''a'')"

definition demo_node :: string where "demo_node = ''01234567-89ab-cdef-0123-456789abcdef''"

definition demo_body :: claim_body where
  "demo_body = \<lparr>cb_code = Some demo_code, cb_nodeId = Some demo_node\<rparr>"

definition demo_door :: claim_door where
  "demo_door = new_door\<lparr>cd_state := (cd_state new_door)\<lparr>ds_live :=
     [\<lparr>cs_digest = demo_sha demo_code, cs_generation = ''g1'', cs_nodeId = demo_node, cs_expiresAt = 60000\<rparr>]\<rparr>\<rparr>"

lemma demo_issue: "issue demo_sha ''g1'' demo_node 0 demo_code new_door = Some demo_door"
  by (simp add: issue_def demo_door_def new_door_def MAX_PENDING_def codeExpiresAt_def CLAIM_CODE_TTL_MS_def)

lemma demo_shaped: "well_shaped demo_body = Some (demo_code, demo_node)"
  by (simp add: well_shaped_def demo_body_def isClaimCode_def demo_code_def url_char_def list_all_length
      NODE_ID_RE_def demo_node_def) code_simp

lemma demo_hand_out:
  "fst (claimNow demo_sha (\<lambda>_. []) (\<lambda>_. Some ''v'') demo_body 5 demo_door) = HandOut ''g1'' ''v'' demo_node"
proof -
  have m: "door_match (\<lambda>_. []) (demo_sha demo_code) ((cd_state demo_door)\<lparr>ds_burned := []\<rparr>) = LiveAt 0"
    by (simp add: door_match_def matchDigestSlots_def claim_slots_def slotDigest_def demo_door_def new_door_def
        MAX_PENDING_def BURNED_CODES_KEPT_def upt_rec match_loop_found)
  have b: "keepBurned (ds_burned (cd_state demo_door)) 5 = []"
    by (simp add: demo_door_def new_door_def keepBurned_def)
  show ?thesis
    by (simp add: claimNow_def demo_shaped b m claimVerdict_def) (simp add: demo_door_def)
qed

theorem claim_code_single_use_witness:
  "fst (claimNow demo_sha (\<lambda>_. []) (\<lambda>_. Some ''v'') demo_body 5 demo_door) = HandOut ''g1'' ''v'' demo_node \<and>
   (\<nexists>g v n. fst (claimNow demo_sha (\<lambda>_. []) (\<lambda>_. Some ''v'') demo_body 6
      (snd (claimNow demo_sha (\<lambda>_. []) (\<lambda>_. Some ''v'') demo_body 5 demo_door))) = HandOut g v n)"
proof -
  have "door_step demo_sha (\<lambda>_. []) (\<lambda>_. Some ''v'') ''other'' new_door demo_door"
    by (rule door_step.issued[OF demo_issue])
      (auto simp: demo_sha_def demo_code_def new_door_def dest: arg_cong [of _ _ length])
  then have r: "(door_step demo_sha (\<lambda>_. []) (\<lambda>_. Some ''v'') ''other'')\<^sup>*\<^sup>* new_door demo_door"
    by (rule r_into_rtranclp)
  have c: "cb_code demo_body = Some demo_code" by (simp add: demo_body_def)
  have "\<And>k x. (\<lambda>_. []) k \<noteq> demo_sha x" by (simp add: demo_sha_def)
  from claim_code_single_use[OF this r demo_hand_out c rtranclp.rtrancl_refl c] demo_hand_out
  show ?thesis by blast
qed

text \<open>The branch-free matcher is a search. With fewer than 2^31 slots, the loop that folds every
  comparison into 32-bit numbers, without a branch, answers the index of the first slot equal
  to the presented digest, and -1 exactly when no slot is equal.\<close>

theorem matcher_finds_first:
  assumes "length slots < 2 ^ 31"
  shows "(matchDigestSlots p slots = -1 \<longleftrightarrow> p \<notin> set slots) \<and>
         (\<forall>k. matchDigestSlots p slots = int k \<longleftrightarrow>
            k < length slots \<and> slots ! k = p \<and> (\<forall>j < k. slots ! j \<noteq> p))"
proof -
  have first: "first_index p slots = Some k \<longleftrightarrow> k < length slots \<and> slots ! k = p \<and> (\<forall>j < k. slots ! j \<noteq> p)" for k
    by (induction slots arbitrary: k) (auto simp: nth_Cons All_less_Suc2 split: nat.splits if_splits)
  show ?thesis
    unfolding matchDigestSlots_spec[OF assms] first [symmetric] first_index_None [symmetric]
    by (auto split: option.splits)
qed

theorem matcher_finds_first_witness:
  "matchDigestSlots (3::nat) [7, 3, 3] = 1 \<and> matchDigestSlots (4::nat) [7, 3, 3] = -1"
proof -
  have l: "length [7, 3, 3 :: nat] < 2 ^ 31" by simp
  have "1 < length [7, 3, 3 :: nat] \<and> [7, 3, 3 :: nat] ! 1 = 3 \<and> (\<forall>j < 1. [7, 3, 3 :: nat] ! j \<noteq> 3)" by simp
  then have "matchDigestSlots (3::nat) [7, 3, 3] = int 1" using matcher_finds_first[OF l, of 3] by blast
  moreover have "(4::nat) \<notin> set [7, 3, 3]" by simp
  then have "matchDigestSlots (4::nat) [7, 3, 3] = -1" using matcher_finds_first[OF l, of 4] by blast
  ultimately show ?thesis by simp
qed

end
