(* ===== verification/TokenDriver.thy ===== *)
theory TokenDriver
  imports TokenPolicy
begin

text \<open>
  The state changes of the box-token driver (\<open>server/src/token/driver.ts\<close>). The driver's state
  is the persisted policy state and the facts it keeps in memory; the set \<open>dr_pend\<close> is the
  domain of its map \<open>pend\<close> from generation ids to values. What a file operation, the link, the
  clock or a random mint answers is an argument of the step. A step stands for the part of
  the method that changes the state; the door, the log lines, and the mirror in the holder are
  left out.
\<close>

record driver =
  dr_state :: box_state
  dr_pend :: "string set"
  dr_learned :: "(token_hold \<times> int) option"
  dr_backoffUntil :: "int option"
  dr_rotateRequested :: bool
  dr_scheduledGen :: "string option"
  dr_scheduleMisses :: nat
  dr_scheduleBackoffUntil :: "int option"
  dr_lastRotateStart :: "int option"

definition discard :: "string list \<Rightarrow> driver \<Rightarrow> driver" where
  "discard ids d =
     d\<lparr>dr_pend := dr_pend d - set ids,
       dr_state := (dr_state d)\<lparr>b_pending := filter (\<lambda>p. pg_id p \<notin> set ids) (b_pending (dr_state d))\<rparr>\<rparr>"

definition noteScheduleMiss :: "int \<Rightarrow> driver \<Rightarrow> driver" where
  "noteScheduleMiss now d =
     (let n = dr_scheduleMisses d + 1 in
      d\<lparr>dr_scheduleMisses := n, dr_scheduleBackoffUntil := Some (now + backoffMs n)\<rparr>)"

text \<open>\<open>write\<close> is the record of the pending file, \<open>None\<close> a write that failed.\<close>

definition stage :: "stage_why \<Rightarrow> int \<Rightarrow> string \<Rightarrow> write_record option \<Rightarrow> driver \<Rightarrow> bool \<times> driver" where
  "stage why now i write d =
     (case write of
        None \<Rightarrow>
          (let n = b_failures (dr_state d) + 1;
               d1 = d\<lparr>dr_rotateRequested := False, dr_backoffUntil := Some (now + backoffMs n)\<rparr>;
               d2 = (if why = Scheduled then noteScheduleMiss now d1 else d1) in
           (False, d2\<lparr>dr_state := failed (dr_state d2) ''mint-failed''\<rparr>))
      | Some rec \<Rightarrow>
          (let s = stagedState (dr_state d) i now rec;
               s = (case why of OwedWhy w \<Rightarrow> owe s w | _ \<Rightarrow> s) in
           (True, d\<lparr>dr_rotateRequested := False, dr_backoffUntil := None, dr_state := s,
                    dr_scheduledGen := (if why = Scheduled then Some i else dr_scheduledGen d),
                    dr_pend := insert i (dr_pend d)\<rparr>)))"

text \<open>\<open>commitHandOut\<close>: \<open>persisted\<close> is whether the record reached the disk; the value of a hand-out
  that did not is discarded. \<open>None\<close> is the thrown error of a generation that is not staged.\<close>

definition commitHandOut :: "string \<Rightarrow> int \<Rightarrow> bool \<Rightarrow> driver \<Rightarrow> (bool \<times> driver) option" where
  "commitHandOut i at persisted d =
     (if \<not> list_ex (\<lambda>p. pg_id p = i \<and> pg_handedOutAt p = None) (b_pending (dr_state d)) then None
      else
        let d1 = d\<lparr>dr_state := handedOutState (dr_state d) i at\<rparr> in
        Some (if persisted then (True, d1) else (False, discard [i] d1)))"

text \<open>The part of \<open>send\<close> after the link answered \<open>r\<close>: the state and the dropped values, the
  backoff after a counted failure, its reset after \<open>synced\<close>, and the schedule's own miss. The
  first component of the answer is the generation to promote.\<close>

definition take_fold :: "sync_fold \<Rightarrow> driver \<Rightarrow> driver" where
  "take_fold out d =
     (let s = dr_state d; s' = sf_state out;
          dropped = map pg_id (filter (\<lambda>p. pg_id p \<notin> set (map pg_id (b_pending s'))) (b_pending s)) in
      discard dropped (d\<lparr>dr_learned := (case sf_learned out of None \<Rightarrow> dr_learned d | Some l \<Rightarrow> Some l),
                         dr_state := s'\<rparr>))"

definition backoff_after :: "nat \<Rightarrow> nat \<Rightarrow> int \<Rightarrow> driver \<Rightarrow> driver" where
  "backoff_after before_failures failures now d =
     (if failures > before_failures then d\<lparr>dr_backoffUntil := Some (now + backoffMs failures)\<rparr> else d)"

definition reset_backoff :: "sync_result \<Rightarrow> driver \<Rightarrow> driver" where
  "reset_backoff r d = (case r of Synced _ _ \<Rightarrow> d\<lparr>dr_backoffUntil := None\<rparr> | _ \<Rightarrow> d)"

definition settle_scheduled :: "string \<Rightarrow> bool \<Rightarrow> int \<Rightarrow> driver \<Rightarrow> driver" where
  "settle_scheduled i promotes now d =
     (if dr_scheduledGen d \<noteq> Some i then d
      else let d' = d\<lparr>dr_scheduledGen := None\<rparr> in if promotes then d' else noteScheduleMiss now d')"

definition fold_send :: "string \<Rightarrow> sync_result \<Rightarrow> int \<Rightarrow> driver \<Rightarrow> string option \<times> driver" where
  "fold_send i r now d =
     (let out = applySyncResult (dr_state d) i r now in
      (sf_promote out,
       settle_scheduled i (sf_promote out \<noteq> None) now
         (reset_backoff r
           (backoff_after (b_failures (dr_state d)) (b_failures (sf_state out)) now (take_fold out d)))))"

text \<open>\<open>retireValue\<close>: the digest of the retired value when it could be read, the digests whose
  append landed, and whether the self-check refused the value.\<close>

definition retireValue :: "string option \<Rightarrow> string list \<Rightarrow> bool \<Rightarrow> int \<Rightarrow> driver \<Rightarrow> driver" where
  "retireValue digest landed refused now d =
     (let s = dr_state d;
          s = (case digest of None \<Rightarrow> s | Some g \<Rightarrow> retiringRecorded s g now);
          s = retiringLanded s landed in
      d\<lparr>dr_state := s\<lparr>b_previous := None,
          b_retiredRefusedAt := (if refused then Some now else b_retiredRefusedAt s)\<rparr>\<rparr>)"

text \<open>What the file steps of one promotion answered.\<close>

record promotion_io =
  io_ownWriteOk :: bool
  io_previousReadable :: bool
  io_digest :: "string option"
  io_landed :: "string list"
  io_refused :: bool
  io_swapped :: bool
  io_previousWrite :: "write_record option"
  io_currentWrite :: "write_record option"
  io_presented :: bool

datatype promotion_end = Abandoned | WriteFailedEnd | HeldEnd | Interrupted | Done

definition promote :: "string \<Rightarrow> promote_via \<Rightarrow> promotion_io \<Rightarrow> int \<Rightarrow> driver \<Rightarrow> promotion_end \<times> driver" where
  "promote i via io now d0 =
     (if i \<notin> dr_pend d0 \<or> \<not> list_ex (\<lambda>p. pg_id p = i) (b_pending (dr_state d0)) then
        (let d = discard [i] d0 in
         (Abandoned, d\<lparr>dr_state := owe ((dr_state d)\<lparr>b_promoting := None\<rparr>) Recovered\<rparr>))
      else if via = OwnWrite \<and> \<not> io_ownWriteOk io then
        (let f = b_failures (dr_state d0) + 1 in
         (WriteFailedEnd, d0\<lparr>dr_backoffUntil := Some (now + backoffMs f),
            dr_state := failed (dr_state d0) ''write-failed''\<rparr>))
      else if b_previous (dr_state d0) \<noteq> None \<and> \<not> io_previousReadable io then (HeldEnd, d0)
      else
        let d1 = (if b_previous (dr_state d0) \<noteq> None
                  then retireValue (io_digest io) (io_landed io) (io_refused io) now d0 else d0);
            d2 = d1\<lparr>dr_state := (dr_state d1)\<lparr>b_promoting := Some i\<rparr>\<rparr> in
        if \<not> io_swapped io then (Interrupted, d2)
        else
          (case promotedState ((dr_state d2)\<lparr>b_promoting := None\<rparr>) i now (io_previousWrite io) (Some via)
                  (io_presented io) of
             None \<Rightarrow> (Interrupted, d2)
           | Some nxt \<Rightarrow>
               (let nxt = (if via = OwnWrite then nxt\<lparr>b_fleetConfirmed := Some i\<rparr> else nxt);
                    nxt = (case io_currentWrite io of
                        None \<Rightarrow> nxt
                      | Some w \<Rightarrow> nxt\<lparr>b_current := (b_current nxt)\<lparr>cg_write := Some w\<rparr>\<rparr>);
                    left = map pg_id (filter (\<lambda>p. pg_id p \<noteq> i \<and> pg_id p \<notin> set (map pg_id (b_pending nxt)))
                             (b_pending (dr_state d2))) in
                (Done, d2\<lparr>dr_state := nxt, dr_pend := dr_pend d2 - set left - {i},
                          dr_scheduledGen := None, dr_scheduleMisses := 0, dr_scheduleBackoffUntil := None\<rparr>))))"

text \<open>\<open>retire\<close>: \<open>False\<close> is a retirement held because the previous file would not read.\<close>

definition retire :: "bool \<Rightarrow> string option \<Rightarrow> string list \<Rightarrow> bool \<Rightarrow> int \<Rightarrow> driver \<Rightarrow> bool \<times> driver" where
  "retire readable digest landed refused now d =
     (if \<not> readable then (False, d) else (True, retireValue digest landed refused now d))"

definition extend_grace :: "int \<Rightarrow> driver \<Rightarrow> driver" where
  "extend_grace now d = d\<lparr>dr_state := extendedGraceState (dr_state d) now\<rparr>"

definition retryMint :: "int \<Rightarrow> write_record \<Rightarrow> owed_reason \<Rightarrow> string \<Rightarrow> driver \<Rightarrow> driver" where
  "retryMint now rec owed i d = d\<lparr>dr_state := mintedState now rec (Some (dr_state d)) (Some owed) i\<rparr>"

text \<open>The door's alerts: staged values whose code was burned are dropped, handed-out ones kept.\<close>

definition drainDoorAlerts :: "string list \<Rightarrow> string list \<Rightarrow> driver \<Rightarrow> driver" where
  "drainDoorAlerts expired wrongNode d =
     (let s = (if wrongNode \<noteq> [] then owe (dr_state d) ClaimMisbound else dr_state d);
          gone = remdups (expired @ wrongNode);
          drop = filter (\<lambda>i. list_ex (\<lambda>p. pg_id p = i \<and> pg_handedOutAt p = None) (b_pending s)) gone in
      discard drop (d\<lparr>dr_state := s\<rparr>))"

definition noteRetiredPresentations :: "int \<Rightarrow> int option \<Rightarrow> int \<Rightarrow> driver \<Rightarrow> driver" where
  "noteRetiredPresentations fresh lastOwedAt now d =
     (case oweForRetiredPresentation (dr_state d) fresh lastOwedAt now of None \<Rightarrow> d | Some s \<Rightarrow> d\<lparr>dr_state := s\<rparr>)"

text \<open>\<open>noteCounters\<close>: the holder's counts, the base of the current value and the stamp's memory.\<close>

definition noteCounters :: "nat \<Rightarrow> nat \<Rightarrow> nat \<Rightarrow> nat \<Rightarrow> nat \<Rightarrow> int \<Rightarrow> driver \<Rightarrow> driver" where
  "noteCounters matchedCurrent matchedPrevious retired presentedBase retiredStampSeen now d =
     (let s = dr_state d;
          nxt = (case b_previous s of
              None \<Rightarrow> s
            | Some pv \<Rightarrow> if \<not> pv_currentPresented pv \<and> matchedCurrent > presentedBase
                        then s\<lparr>b_previous := Some (pv\<lparr>pv_currentPresented := True\<rparr>)\<rparr> else s);
          stored = k_retiredPresentedAt (b_counters s);
          at = (if retired > retiredStampSeen then Some now
                else if stored \<noteq> None then clampRetiredStamp stored (b_lastRotationAt s) now
                else if k_retiredPresented (b_counters s) > 0 then Some now else None) in
      d\<lparr>dr_state :=
          (if k_previousPresented (b_counters s) \<noteq> matchedPrevious \<or> k_retiredPresented (b_counters s) \<noteq> retired \<or>
              stored \<noteq> Some at
           then nxt\<lparr>b_counters := \<lparr>k_previousPresented = matchedPrevious, k_retiredPresented = retired,
                                   k_retiredPresentedAt = Some at\<rparr>\<rparr>
           else nxt)\<rparr>)"

definition setHold :: "(token_hold \<times> string option) option \<Rightarrow> driver \<Rightarrow> driver" where
  "setHold h d =
     d\<lparr>dr_state := (dr_state d)\<lparr>b_hold := map_option fst h,
         b_holdNode := (case h of None \<Rightarrow> None | Some (_, n) \<Rightarrow> n)\<rparr>\<rparr>"

definition ROTATE_NOW_MIN_INTERVAL_MS :: int where "ROTATE_NOW_MIN_INTERVAL_MS = 60000"

datatype rotate_answer = Started | JoinedRotation | RotateHeld token_hold "string option" | RotateLimited int

text \<open>\<open>Math.ceil(x / 1000)\<close> for \<open>x \<ge> 0\<close>.\<close>

definition ceil_s :: "int \<Rightarrow> int" where "ceil_s x = (x + 999) div 1000"

definition rotateNow :: "int \<Rightarrow> nat \<Rightarrow> gate_verdict \<Rightarrow> driver \<Rightarrow> rotate_answer \<times> driver" where
  "rotateNow now busy_count gate d =
     (if busy_count > 0 \<or> b_promoting (dr_state d) \<noteq> None then (JoinedRotation, d)
      else case gate of
        Held PendingCap n \<Rightarrow> (RotateHeld PendingCap n, d)
      | _ \<Rightarrow>
          (if (case dr_lastRotateStart d of None \<Rightarrow> False | Some t \<Rightarrow> now - t < ROTATE_NOW_MIN_INTERVAL_MS)
           then (RotateLimited (ceil_s (ROTATE_NOW_MIN_INTERVAL_MS - (now - the (dr_lastRotateStart d)))), d)
           else case gate of
             Held h n \<Rightarrow> (RotateHeld h n, d)
           | _ \<Rightarrow> (Started, d\<lparr>dr_rotateRequested := True, dr_lastRotateStart := Some now\<rparr>)))"

end
