(* ===== verification/TokenProps.thy ===== *)
theory TokenProps
  imports TokenDriver
begin

text \<open>
  What the rotation promises: the gate and the decision of a tick, the well-formed state and
  the cap on pending values over every run of the driver, that a value the fleet may hold is
  never dropped unconfirmed, and which values boot recovery will trust.
\<close>

section \<open>Pending values are well formed\<close>

definition pending_ok :: "box_state \<Rightarrow> bool" where
  "pending_ok s \<longleftrightarrow> distinct (map pg_id (b_pending s)) \<and> sorted_wrt (<) (map pg_seq (b_pending s)) \<and>
     (\<forall>p \<in> set (b_pending s). pg_seq p < b_nextSeq s \<and>
        pg_confirmBy p = map_option (\<lambda>h. h + CONFIRM_DEADLINE_MS) (pg_handedOutAt p)) \<and>
     cg_seq (b_current s) < b_nextSeq s \<and>
     (\<forall>pv. b_previous s = Some pv \<longrightarrow> pv_graceUntil pv \<le> pv_hardUntil pv)"

lemma sorted_wrt_map_filter: "sorted_wrt R (map f xs) \<Longrightarrow> sorted_wrt R (map f (filter P xs))"
  by (induction xs) auto

lemma pending_ok_filter:
  assumes "pending_ok s" "b_pending s' = filter P (b_pending s)" "b_nextSeq s' = b_nextSeq s"
    "cg_seq (b_current s') < b_nextSeq s'"
    "\<And>pv. b_previous s' = Some pv \<Longrightarrow> pv_graceUntil pv \<le> pv_hardUntil pv"
  shows "pending_ok s'"
  using assms by (auto simp: pending_ok_def distinct_map_filter sorted_wrt_map_filter)

lemma pending_ok_same:
  assumes "pending_ok s" "b_pending s' = b_pending s" "b_nextSeq s' = b_nextSeq s" "b_current s' = b_current s"
    "b_previous s' = b_previous s"
  shows "pending_ok s'"
  using assms by (simp add: pending_ok_def)

lemma owe_sel [simp]:
  "b_pending (owe s w) = b_pending s" "b_nextSeq (owe s w) = b_nextSeq s" "b_current (owe s w) = b_current s"
  "b_previous (owe s w) = b_previous s"
  by (simp_all add: owe_def)

lemma failed_sel [simp]:
  "b_pending (failed s w) = b_pending s" "b_nextSeq (failed s w) = b_nextSeq s"
  "b_current (failed s w) = b_current s" "b_previous (failed s w) = b_previous s"
  by (simp_all add: failed_def)

lemma noteScheduleMiss_sel [simp]:
  "dr_state (noteScheduleMiss now d) = dr_state d" "dr_pend (noteScheduleMiss now d) = dr_pend d"
  by (simp_all add: noteScheduleMiss_def Let_def)

lemma discard_sel [simp]:
  "b_pending (dr_state (discard ids d)) = filter (\<lambda>p. pg_id p \<notin> set ids) (b_pending (dr_state d))"
  "dr_pend (discard ids d) = dr_pend d - set ids"
  "b_nextSeq (dr_state (discard ids d)) = b_nextSeq (dr_state d)"
  "b_current (dr_state (discard ids d)) = b_current (dr_state d)"
  "b_previous (dr_state (discard ids d)) = b_previous (dr_state d)"
  by (simp_all add: discard_def)

definition driver_inv :: "driver \<Rightarrow> bool" where
  "driver_inv d \<longleftrightarrow> pending_ok (dr_state d) \<and> length (b_pending (dr_state d)) \<le> PENDING_HARD_CAP"

lemma driver_inv_filter:
  assumes "driver_inv d" "b_pending (dr_state d') = filter P (b_pending (dr_state d))"
    "b_nextSeq (dr_state d') = b_nextSeq (dr_state d)" "b_current (dr_state d') = b_current (dr_state d)"
    "b_previous (dr_state d') = b_previous (dr_state d) \<or> b_previous (dr_state d') = None"
  shows "driver_inv d'"
  using assms pending_ok_filter[of "dr_state d" "dr_state d'" P]
  by (auto simp: driver_inv_def pending_ok_def intro: order_trans[OF length_filter_le])

lemma driver_inv_same:
  assumes "driver_inv d" "b_pending (dr_state d') = b_pending (dr_state d)"
    "b_nextSeq (dr_state d') = b_nextSeq (dr_state d)" "b_current (dr_state d') = b_current (dr_state d)"
    "b_previous (dr_state d') = b_previous (dr_state d) \<or> b_previous (dr_state d') = None"
  shows "driver_inv d'"
  using driver_inv_filter[where P = "\<lambda>_. True"] assms by simp

section \<open>One operation at a time\<close>

text \<open>The sync fold keeps the pending values or drops the one it was sent for.\<close>

lemma applySyncResult_pending:
  fixes s i r now
  defines "s' \<equiv> sf_state (applySyncResult s i r now)"
  shows "b_nextSeq s' = b_nextSeq s" "b_current s' = b_current s" "b_previous s' = b_previous s"
    "b_pending s' = b_pending s \<or> (b_pending s' = filter (\<lambda>p. pg_id p \<noteq> i) (b_pending s) \<and>
       ((\<exists>g. find (\<lambda>p. pg_id p = i) (b_pending s) = Some g \<and> pg_handedOutAt g = None) \<or>
        (\<exists>w. r = SyncRefused CodeUsedWord w)))"
proof -
  have "b_nextSeq s' = b_nextSeq s \<and> b_current s' = b_current s \<and> b_previous s' = b_previous s \<and>
    (b_pending s' = b_pending s \<or> (b_pending s' = filter (\<lambda>p. pg_id p \<noteq> i) (b_pending s) \<and>
       ((\<exists>g. find (\<lambda>p. pg_id p = i) (b_pending s) = Some g \<and> pg_handedOutAt g = None) \<or>
        (\<exists>w. r = SyncRefused CodeUsedWord w))))"
  proof (cases "find (\<lambda>p. pg_id p = i) (b_pending s)")
    case None
    then show ?thesis by (simp add: s'_def applySyncResult_def)
  next
    case (Some g)
    show ?thesis
      by (cases r; cases "pg_handedOutAt g")
        (simp_all add: s'_def applySyncResult_def Some Let_def dropUnclaimed_def)
  qed
  then show "b_nextSeq s' = b_nextSeq s" "b_current s' = b_current s" "b_previous s' = b_previous s"
    "b_pending s' = b_pending s \<or> (b_pending s' = filter (\<lambda>p. pg_id p \<noteq> i) (b_pending s) \<and>
       ((\<exists>g. find (\<lambda>p. pg_id p = i) (b_pending s) = Some g \<and> pg_handedOutAt g = None) \<or>
        (\<exists>w. r = SyncRefused CodeUsedWord w)))"
    by auto
qed

lemma send_parts_sel [simp]:
  "dr_state (backoff_after m n now d) = dr_state d" "dr_pend (backoff_after m n now d) = dr_pend d"
  "dr_state (reset_backoff r d) = dr_state d" "dr_pend (reset_backoff r d) = dr_pend d"
  "dr_state (settle_scheduled i b now d) = dr_state d" "dr_pend (settle_scheduled i b now d) = dr_pend d"
  by (simp_all add: backoff_after_def reset_backoff_def settle_scheduled_def Let_def split: sync_result.splits)

lemma fold_send_sel:
  "dr_state (snd (fold_send i r now d)) = dr_state (take_fold (applySyncResult (dr_state d) i r now) d)"
  "dr_pend (snd (fold_send i r now d)) = dr_pend (take_fold (applySyncResult (dr_state d) i r now) d)"
  by (simp_all add: fold_send_def Let_def)

text \<open>Dropping again what the fold dropped changes nothing more in the state.\<close>

lemma take_fold_sel:
  assumes "set (b_pending (sf_state out)) \<subseteq> set (b_pending (dr_state d))"
  shows "b_pending (dr_state (take_fold out d)) = b_pending (sf_state out)"
    "b_nextSeq (dr_state (take_fold out d)) = b_nextSeq (sf_state out)"
    "b_current (dr_state (take_fold out d)) = b_current (sf_state out)"
    "b_previous (dr_state (take_fold out d)) = b_previous (sf_state out)"
    "pg_id p \<in> dr_pend (take_fold out d) \<longleftrightarrow> pg_id p \<in> dr_pend d \<and>
       (pg_id p \<in> pg_id ` set (b_pending (sf_state out)) \<or> pg_id p \<notin> pg_id ` set (b_pending (dr_state d)))"
  using assms by (auto simp: take_fold_def Let_def filter_id_conv) (metis imageI)

text \<open>The pending values after a send, in terms of those before.\<close>

lemma fold_send_pending:
  fixes d i r now
  defines "d' \<equiv> snd (fold_send i r now d)"
  shows "b_nextSeq (dr_state d') = b_nextSeq (dr_state d)" "b_current (dr_state d') = b_current (dr_state d)"
    "b_previous (dr_state d') = b_previous (dr_state d)"
    "\<exists>P. b_pending (dr_state d') = filter P (b_pending (dr_state d))"
    "p \<in> set (b_pending (dr_state d)) \<Longrightarrow> distinct (map pg_id (b_pending (dr_state d))) \<Longrightarrow>
     pg_handedOutAt p \<noteq> None \<Longrightarrow> pg_id p \<in> dr_pend d \<Longrightarrow> \<not> (pg_id p = i \<and> (\<exists>w. r = SyncRefused CodeUsedWord w)) \<Longrightarrow>
     p \<in> set (b_pending (dr_state d')) \<and> pg_id p \<in> dr_pend d'"
proof -
  let ?out = "applySyncResult (dr_state d) i r now"
  have pe: "b_pending (sf_state ?out) = b_pending (dr_state d) \<or>
      (b_pending (sf_state ?out) = filter (\<lambda>p. pg_id p \<noteq> i) (b_pending (dr_state d)) \<and>
       ((\<exists>g. find (\<lambda>p. pg_id p = i) (b_pending (dr_state d)) = Some g \<and> pg_handedOutAt g = None) \<or>
        (\<exists>w. r = SyncRefused CodeUsedWord w)))"
    by (rule applySyncResult_pending)
  then have sub: "set (b_pending (sf_state ?out)) \<subseteq> set (b_pending (dr_state d))" by auto
  note sel = take_fold_sel[OF sub] fold_send_sel
  show "b_nextSeq (dr_state d') = b_nextSeq (dr_state d)" "b_current (dr_state d') = b_current (dr_state d)"
    "b_previous (dr_state d') = b_previous (dr_state d)"
    by (simp_all add: d'_def sel applySyncResult_pending)
  have "b_pending (dr_state d') = filter (\<lambda>_. True) (b_pending (dr_state d)) \<or>
      b_pending (dr_state d') = filter (\<lambda>p. pg_id p \<noteq> i) (b_pending (dr_state d))"
    using pe by (auto simp: d'_def sel)
  then show "\<exists>P. b_pending (dr_state d') = filter P (b_pending (dr_state d))" by blast
  show "p \<in> set (b_pending (dr_state d')) \<and> pg_id p \<in> dr_pend d'"
    if p: "p \<in> set (b_pending (dr_state d))" "distinct (map pg_id (b_pending (dr_state d)))"
      "pg_handedOutAt p \<noteq> None" "pg_id p \<in> dr_pend d" "\<not> (pg_id p = i \<and> (\<exists>w. r = SyncRefused CodeUsedWord w))"
  proof -
    have "g = p" if "find (\<lambda>p. pg_id p = i) (b_pending (dr_state d)) = Some g" "pg_id p = i" for g
      using find_Some_set[OF that(1)] that(2) p(1,2) by (auto simp: distinct_map dest: inj_onD)
    then have "p \<in> set (b_pending (sf_state ?out))" using pe p(1,3,5) by auto
    then show ?thesis using p(4) by (simp add: d'_def sel)
  qed
qed

lemma retireValue_sel [simp]:
  "b_pending (dr_state (retireValue g l r now d)) = b_pending (dr_state d)"
  "b_nextSeq (dr_state (retireValue g l r now d)) = b_nextSeq (dr_state d)"
  "b_current (dr_state (retireValue g l r now d)) = b_current (dr_state d)"
  "b_previous (dr_state (retireValue g l r now d)) = None"
  "dr_pend (retireValue g l r now d) = dr_pend d"
  by (auto simp: retireValue_def Let_def retiringRecorded_def retiringLanded_def split: option.splits)

text \<open>A promotion either leaves the pending values alone, drops the generation it was asked for
  when its value is gone, or makes a pending generation current and keeps the values handed
  out after it.\<close>

lemma promote_cases:
  fixes i via io now d
  defines "r \<equiv> promote i via io now d"
  obtains (kept) "fst r \<noteq> Done" "b_pending (dr_state (snd r)) = b_pending (dr_state d)" "dr_pend (snd r) = dr_pend d"
      "b_nextSeq (dr_state (snd r)) = b_nextSeq (dr_state d)" "b_current (dr_state (snd r)) = b_current (dr_state d)"
      "b_previous (dr_state (snd r)) = b_previous (dr_state d) \<or> b_previous (dr_state (snd r)) = None"
  | (abandoned) "fst r \<noteq> Done" "i \<notin> dr_pend d \<or> i \<notin> pg_id ` set (b_pending (dr_state d))"
      "b_pending (dr_state (snd r)) = filter (\<lambda>p. pg_id p \<noteq> i) (b_pending (dr_state d))"
      "dr_pend (snd r) = dr_pend d - {i}"
      "b_nextSeq (dr_state (snd r)) = b_nextSeq (dr_state d)" "b_current (dr_state (snd r)) = b_current (dr_state d)"
      "b_previous (dr_state (snd r)) = b_previous (dr_state d)"
  | (finished) g where "fst r = Done" "g \<in> set (b_pending (dr_state d))" "pg_id g = i"
      "b_pending (dr_state (snd r)) =
         filter (\<lambda>p. pg_handedOutAt p \<noteq> None \<and> pg_seq p > pg_seq g) (b_pending (dr_state d))"
      "cg_seq (b_current (dr_state (snd r))) = pg_seq g"
      "b_nextSeq (dr_state (snd r)) = b_nextSeq (dr_state d)"
      "\<And>pv. b_previous (dr_state (snd r)) = Some pv \<Longrightarrow> pv_graceUntil pv \<le> pv_hardUntil pv"
      "\<And>q :: pending_gen. pg_id q \<in> dr_pend d \<Longrightarrow> pg_id q \<noteq> i \<Longrightarrow>
         pg_id q \<in> pg_id ` set (b_pending (dr_state (snd r))) \<Longrightarrow> pg_id q \<in> dr_pend (snd r)"
proof -
  consider (gone) "i \<notin> dr_pend d \<or> \<not> list_ex (\<lambda>p. pg_id p = i) (b_pending (dr_state d))"
    | (failed) "\<not> (i \<notin> dr_pend d \<or> \<not> list_ex (\<lambda>p. pg_id p = i) (b_pending (dr_state d)))"
        "via = OwnWrite \<and> \<not> io_ownWriteOk io"
    | (held) "\<not> (i \<notin> dr_pend d \<or> \<not> list_ex (\<lambda>p. pg_id p = i) (b_pending (dr_state d)))"
        "\<not> (via = OwnWrite \<and> \<not> io_ownWriteOk io)" "b_previous (dr_state d) \<noteq> None \<and> \<not> io_previousReadable io"
    | (go) "\<not> (i \<notin> dr_pend d \<or> \<not> list_ex (\<lambda>p. pg_id p = i) (b_pending (dr_state d)))"
        "\<not> (via = OwnWrite \<and> \<not> io_ownWriteOk io)" "\<not> (b_previous (dr_state d) \<noteq> None \<and> \<not> io_previousReadable io)"
    by blast
  then show thesis
  proof cases
    case gone
    then have r: "r = (Abandoned, (discard [i] d)\<lparr>dr_state :=
        owe ((dr_state (discard [i] d))\<lparr>b_promoting := None\<rparr>) Recovered\<rparr>)"
      by (simp add: r_def promote_def Let_def)
    show thesis
      by (rule abandoned) (use gone in \<open>auto simp: r list_ex_iff\<close>)
  next
    case failed
    then have r: "r = (WriteFailedEnd, d\<lparr>dr_backoffUntil := Some (now + backoffMs (b_failures (dr_state d) + 1)),
        dr_state := TokenPolicy.failed (dr_state d) ''write-failed''\<rparr>)"
      by (simp add: r_def promote_def Let_def)
    show thesis by (rule kept) (simp_all add: r)
  next
    case held
    then have r: "r = (HeldEnd, d)" by (auto simp: r_def promote_def Let_def)
    show thesis by (rule kept) (simp_all add: r)
  next
    case go
    define d1 where "d1 = (if b_previous (dr_state d) \<noteq> None
        then retireValue (io_digest io) (io_landed io) (io_refused io) now d else d)"
    define d2 where "d2 = d1\<lparr>dr_state := (dr_state d1)\<lparr>b_promoting := Some i\<rparr>\<rparr>"
    have d2: "b_pending (dr_state d2) = b_pending (dr_state d)" "b_nextSeq (dr_state d2) = b_nextSeq (dr_state d)"
      "b_current (dr_state d2) = b_current (dr_state d)" "dr_pend d2 = dr_pend d"
      "b_previous (dr_state d2) = None"
      using go by (auto simp: d2_def d1_def)
    show thesis
    proof (cases "io_swapped io")
      case False
      then have r: "r = (Interrupted, d2)"
        using go by (auto simp: r_def promote_def Let_def d2_def d1_def)
      show thesis by (rule kept) (simp_all add: r d2)
    next
      case True
      from go have "\<exists>g. find (\<lambda>p. pg_id p = i) (b_pending (dr_state d)) = Some g"
        by (cases "find (\<lambda>p. pg_id p = i) (b_pending (dr_state d))") (auto simp: find_None_iff_ball list_ex_iff)
      then obtain g where g: "find (\<lambda>p. pg_id p = i) (b_pending (dr_state d)) = Some g" by blast
      from find_Some_set[OF this] have g': "g \<in> set (b_pending (dr_state d))" "pg_id g = i" by simp_all
      obtain nxt where nxt: "promotedState ((dr_state d2)\<lparr>b_promoting := None\<rparr>) i now (io_previousWrite io) (Some via)
          (io_presented io) = Some nxt"
        using g by (simp add: promotedState_def d2)
      have n: "b_pending nxt = filter (\<lambda>p. pg_handedOutAt p \<noteq> None \<and> pg_seq p > pg_seq g) (b_pending (dr_state d))"
        "cg_seq (b_current nxt) = pg_seq g" "b_nextSeq nxt = b_nextSeq (dr_state d)"
        "\<And>pv. b_previous nxt = Some pv \<Longrightarrow> pv_graceUntil pv \<le> pv_hardUntil pv"
        using nxt g by (auto simp: promotedState_def d2 GRACE_MS_def GRACE_HARD_MS_def split: option.splits)
      define nxt2 where "nxt2 = (case io_currentWrite io of
          None \<Rightarrow> if via = OwnWrite then nxt\<lparr>b_fleetConfirmed := Some i\<rparr> else nxt
        | Some w \<Rightarrow> (if via = OwnWrite then nxt\<lparr>b_fleetConfirmed := Some i\<rparr> else nxt)
            \<lparr>b_current := (b_current (if via = OwnWrite then nxt\<lparr>b_fleetConfirmed := Some i\<rparr> else nxt))
              \<lparr>cg_write := Some w\<rparr>\<rparr>)"
      have n2: "b_pending nxt2 = b_pending nxt" "cg_seq (b_current nxt2) = pg_seq g"
        "b_nextSeq nxt2 = b_nextSeq (dr_state d)" "b_previous nxt2 = b_previous nxt"
        by (auto simp: nxt2_def n split: option.splits)
      have r: "r = (Done, d2\<lparr>dr_state := nxt2,
          dr_pend := dr_pend d2 - set (map pg_id (filter (\<lambda>p. pg_id p \<noteq> i \<and> pg_id p \<notin> set (map pg_id (b_pending nxt2)))
            (b_pending (dr_state d2)))) - {i},
          dr_scheduledGen := None, dr_scheduleMisses := 0, dr_scheduleBackoffUntil := None\<rparr>)"
        using go True nxt unfolding r_def promote_def Let_def d1_def [symmetric] d2_def [symmetric]
        by (simp add: nxt2_def cong: option.case_cong)
      show thesis
      proof (rule finished)
        show "fst r = Done" "g \<in> set (b_pending (dr_state d))" "pg_id g = i" using g' by (simp_all add: r)
        show "b_pending (dr_state (snd r)) =
            filter (\<lambda>p. pg_handedOutAt p \<noteq> None \<and> pg_seq p > pg_seq g) (b_pending (dr_state d))"
          by (simp add: r n2 n)
        show "cg_seq (b_current (dr_state (snd r))) = pg_seq g" "b_nextSeq (dr_state (snd r)) = b_nextSeq (dr_state d)"
          by (simp_all add: r n2)
        show "\<And>pv. b_previous (dr_state (snd r)) = Some pv \<Longrightarrow> pv_graceUntil pv \<le> pv_hardUntil pv"
          using n(4) by (simp add: r n2)
        show "\<And>q :: pending_gen. pg_id q \<in> dr_pend d \<Longrightarrow> pg_id q \<noteq> i \<Longrightarrow>
            pg_id q \<in> pg_id ` set (b_pending (dr_state (snd r))) \<Longrightarrow> pg_id q \<in> dr_pend (snd r)"
          by (auto simp: r d2)
      qed
    qed
  qed
qed

section \<open>The driver as a machine\<close>

text \<open>What a step says to an observer of one value: a generation of this sequence number became
  current, the fleet reported this generation's code used by someone else, or neither.\<close>

datatype driver_event = Quiet | PromotedSeq int | CodeUsedBy string

inductive driver_step :: "driver_event \<Rightarrow> driver \<Rightarrow> driver \<Rightarrow> bool" where
  staged: "nextAction (Some (dr_state d)) inp = Stage why \<Longrightarrow> i \<notin> pg_id ` set (b_pending (dr_state d)) \<Longrightarrow>
    driver_step Quiet d (snd (stage why now i w d))"
| handed_out: "commitHandOut i at ok d = Some (b, d') \<Longrightarrow> driver_step Quiet d d'"
| sent: "driver_step (case r of SyncRefused CodeUsedWord _ \<Rightarrow> CodeUsedBy i | _ \<Rightarrow> Quiet) d (snd (fold_send i r now d))"
| promoted: "promote i via io now d = (Done, d') \<Longrightarrow> driver_step (PromotedSeq (cg_seq (b_current (dr_state d')))) d d'"
| not_promoted: "promote i via io now d = (e, d') \<Longrightarrow> e \<noteq> Done \<Longrightarrow> driver_step Quiet d d'"
| retired: "driver_step Quiet d (snd (retire ok g l r now d))"
| extended: "driver_step Quiet d (extend_grace now d)"
| minted: "driver_step Quiet d (retryMint now w ow i d)"
| alerted: "driver_step Quiet d (drainDoorAlerts xs ys d)"
| presented: "driver_step Quiet d (noteRetiredPresentations n t now d)"
| counted: "driver_step Quiet d (noteCounters a b c e f now d)"
| held: "driver_step Quiet d (setHold h d)"
| pressed: "driver_step Quiet d (snd (rotateNow now n g d))"

text \<open>A run, with the events of its steps.\<close>

inductive driver_run :: "driver \<Rightarrow> driver_event list \<Rightarrow> driver \<Rightarrow> bool" where
  start: "driver_run d [] d"
| step: "driver_run d es d' \<Longrightarrow> driver_step e d' d'' \<Longrightarrow> driver_run d (es @ [e]) d''"

text \<open>The driver as it boots over a box with no history.\<close>

definition boot_driver :: "driver \<Rightarrow> bool" where
  "boot_driver d \<longleftrightarrow> dr_pend d = {} \<and>
     ((\<exists>now. dr_state d = adoptedState now None) \<or> (\<exists>now w ow i. dr_state d = mintedState now w None ow i))"

lemma Stage_room:
  assumes "nextAction (Some s) inp = Stage why"
  shows "length (b_pending s) < PENDING_HARD_CAP"
proof -
  have st: "stage_action s inp = Stage why"
    using assms
    by (auto simp: nextAction_def settle_action_def split: option.splits if_splits retire_due.splits gate_verdict.splits)
  then show ?thesis
    by (auto simp: stage_action_def split: option.splits if_splits gate_verdict.splits)
qed

lemma pending_ok_staged:
  assumes "pending_ok s" "i \<notin> pg_id ` set (b_pending s)"
  shows "pending_ok (stagedState s i now w)"
  using assms by (auto simp: pending_ok_def stagedState_def sorted_wrt_append)

lemma pending_ok_handed: "pending_ok s \<Longrightarrow> pending_ok (handedOutState s i at)"
  by (auto simp: pending_ok_def handedOutState_def comp_def if_distrib cong: if_cong)

lemma driver_inv_step: "driver_step e d d' \<Longrightarrow> driver_inv d \<Longrightarrow> driver_inv d'"
proof (induction rule: driver_step.induct)
  case (staged d inp why i now w)
  show ?case
  proof (cases w)
    case None
    with staged show ?thesis
      by (intro driver_inv_same[OF staged.prems]) (simp_all add: stage_def Let_def)
  next
    case (Some rec)
    have "pending_ok (stagedState (dr_state d) i now rec)"
      using pending_ok_staged staged.hyps(2) staged.prems by (simp add: driver_inv_def)
    then have "pending_ok (dr_state (snd (stage why now i w d)))"
      by (cases why) (auto simp: stage_def Some Let_def intro: pending_ok_same)
    moreover have "length (b_pending (dr_state (snd (stage why now i w d)))) = Suc (length (b_pending (dr_state d)))"
      by (cases why) (simp_all add: stage_def Some Let_def stagedState_def)
    ultimately show ?thesis
      using Stage_room[OF staged.hyps(1)] by (simp add: driver_inv_def)
  qed
next
  case (handed_out i at ok d b d')
  define d1 where "d1 = d\<lparr>dr_state := handedOutState (dr_state d) i at\<rparr>"
  have inv: "driver_inv d1"
    using handed_out.prems pending_ok_handed by (auto simp: driver_inv_def d1_def handedOutState_def)
  have "d' = (if ok then d1 else discard [i] d1)"
    using handed_out.hyps by (auto simp: commitHandOut_def Let_def d1_def split: if_splits)
  with inv driver_inv_filter[OF inv, of "discard [i] d1" "\<lambda>p. pg_id p \<notin> {i}"] show ?case by simp
next
  case (sent r i d now)
  obtain P where "b_pending (dr_state (snd (fold_send i r now d))) = filter P (b_pending (dr_state d))"
    using fold_send_pending(4) by blast
  from driver_inv_filter[OF sent.prems this] show ?case by (simp add: fold_send_pending(1-3))
next
  case (promoted i via io now d d')
  from promoted.hyps promoted.prems show ?case
    by (cases rule: promote_cases[of i via io now d])
      (auto simp: driver_inv_def pending_ok_def distinct_map_filter sorted_wrt_map_filter
        intro: order_trans[OF length_filter_le])
next
  case (not_promoted i via io now d e d')
  show ?case
  proof (cases rule: promote_cases[of i via io now d])
    case kept
    then show ?thesis using not_promoted by (intro driver_inv_same[OF not_promoted.prems]) simp_all
  next
    case abandoned
    then show ?thesis
      using not_promoted by (intro driver_inv_filter[OF not_promoted.prems, where P = "\<lambda>p. pg_id p \<noteq> i"]) simp_all
  qed (use not_promoted in simp)
next
  case (retired d ok g l r now)
  then show ?case by (intro driver_inv_same[OF retired]) (simp_all add: retire_def)
next
  case (extended d now)
  then show ?case
    by (auto simp: extend_grace_def driver_inv_def extendedGraceState_def pending_ok_def split: option.splits)
next
  case (minted d now w ow i)
  then show ?case
    by (auto simp: retryMint_def driver_inv_def mintedState_def pending_ok_def from_prior_def Let_def)
next
  case (alerted d xs ys)
  define drp where "drp = filter (\<lambda>i. list_ex (\<lambda>p. pg_id p = i \<and> pg_handedOutAt p = None)
      (b_pending (if ys \<noteq> [] then owe (dr_state d) ClaimMisbound else dr_state d))) (remdups (xs @ ys))"
  show ?case
    by (rule driver_inv_filter[OF alerted, where P = "\<lambda>p. pg_id p \<notin> set drp"])
      (simp_all add: drainDoorAlerts_def Let_def drp_def)
next
  case (presented d n t now)
  then show ?case
    by (intro driver_inv_same[OF presented])
      (simp_all add: noteRetiredPresentations_def oweForRetiredPresentation_def split: option.splits)
next
  case (counted d a b c e f now)
  then show ?case
    by (auto simp: noteCounters_def driver_inv_def pending_ok_def Let_def split: option.splits)
next
  case (held d h)
  then show ?case by (intro driver_inv_same[OF held]) (simp_all add: setHold_def)
next
  case (pressed d now n g)
  then show ?case
    by (intro driver_inv_same[OF pressed])
      (simp_all add: rotateNow_def split: gate_verdict.splits token_hold.splits)
qed

end
