(* ===== verification/TokenSafety.thy ===== *)
theory TokenSafety
  imports TokenProps
begin

text \<open>
  The properties of the rotation that rest on the driver machine of TokenProps: the exact
  opening of the gate, the decision of a tick, the bound on pending values over every run, the
  custody of a value the fleet may hold, and what boot recovery trusts.
\<close>

section \<open>The gate\<close>

text \<open>What one fleet node must offer.\<close>

definition node_ready :: "gate_node \<Rightarrow> bool" where
  "node_ready f \<longleftrightarrow> gn_nodeIdMeasured f \<and> (\<exists>ops. gn_agentOps f = Some ops \<and> TOKEN_SYNC_OP \<in> set ops) \<and>
     (gn_os f = UnknownOs \<or> TOKEN_SYNC_OP \<in> set (gn_caps f))"

definition room_to_hand_out :: "gate_input \<Rightarrow> bool" where
  "room_to_hand_out i \<longleftrightarrow> gi_handedOutUnconfirmed i < MAX_PENDING \<or>
     (gi_handedOutUnconfirmed i < PENDING_HARD_CAP \<and> gi_pendingExit i)"

lemma room_iff:
  "room_to_hand_out i \<longleftrightarrow> \<not> gi_handedOutUnconfirmed i \<ge> PENDING_HARD_CAP \<and>
     \<not> (gi_handedOutUnconfirmed i \<ge> MAX_PENDING \<and> \<not> gi_pendingExit i)"
  by (auto simp: room_to_hand_out_def PENDING_HARD_CAP_def MAX_PENDING_def)

lemma fleet_verdict_open:
  "fleet_verdict i f = OpenRemote n \<longleftrightarrow>
     n = Some (gn_nodeId f) \<and> node_ready f \<and> gi_linkUp i \<and> learned_holds i = None \<and> room_to_hand_out i"
  by (auto simp: fleet_verdict_def node_ready_def lacks_cap_def room_iff split: option.split)

lemma fleet_verdict_not_local [simp]: "fleet_verdict i f \<noteq> OpenBothLocal"
  by (auto simp: fleet_verdict_def split: option.split)

lemma rotationGate_remote:
  assumes "gi_fleetMode i = RemoteFleet" "\<not> gi_mintFailed i" "gi_nodes i = Some nodes" "find busy nodes = None"
  shows "rotationGate i = (case fleet_rows nodes of [f] \<Rightarrow> fleet_verdict i f | _ \<Rightarrow> Held FleetRows None)"
  by (simp add: rotationGate_def assms Let_def)

lemma rotationGate_local:
  assumes "gi_fleetMode i = LocalFleet" "\<not> gi_mintFailed i" "gi_nodes i = Some nodes"
  shows "rotationGate i =
    (if \<not> bothRoleWriterArmed i then Held RoleUnrecorded None
     else case find busy nodes of
       Some u \<Rightarrow> Held UpdateInFlight (Some (gn_label u))
     | None \<Rightarrow> (case find (\<lambda>n. gn_role n = Some RBoth) nodes of
         Some own \<Rightarrow> if lacks_cap own then Held VerbMissing (Some (gn_label own)) else OpenBothLocal
       | None \<Rightarrow> OpenBothLocal))"
  by (simp add: rotationGate_def assms Let_def)

lemma rotationGate_other:
  "gi_mintFailed i \<Longrightarrow> rotationGate i = Held MintFailed None"
  "\<not> gi_mintFailed i \<Longrightarrow> gi_nodes i = None \<Longrightarrow> rotationGate i = Held NoCoord None"
  "gi_fleetMode i = RemoteFleet \<Longrightarrow> \<not> gi_mintFailed i \<Longrightarrow> gi_nodes i = Some nodes \<Longrightarrow> find busy nodes = Some u \<Longrightarrow>
     rotationGate i = Held UpdateInFlight (Some (gn_label u))"
  by (simp_all add: rotationGate_def Let_def)

lemma gate_remote_open:
  "rotationGate i = OpenRemote n \<longleftrightarrow>
     \<not> gi_mintFailed i \<and> gi_fleetMode i = RemoteFleet \<and>
     (\<exists>nodes f. gi_nodes i = Some nodes \<and> find busy nodes = None \<and> fleet_rows nodes = [f] \<and>
        n = Some (gn_nodeId f) \<and> node_ready f \<and> gi_linkUp i \<and> learned_holds i = None \<and> room_to_hand_out i)"
proof (cases "gi_mintFailed i \<or> gi_nodes i = None")
  case True
  then show ?thesis using rotationGate_other(1,2)[of i] by (cases "gi_mintFailed i") simp_all
next
  case False
  then obtain nodes where nodes: "\<not> gi_mintFailed i" "gi_nodes i = Some nodes" by auto
  show ?thesis
  proof (cases "gi_fleetMode i")
    case LocalFleet
    with nodes show ?thesis by (simp add: rotationGate_local split: option.split)
  next
    case RemoteFleet
    show ?thesis
    proof (cases "find busy nodes")
      case (Some u)
      with nodes RemoteFleet show ?thesis by (simp add: rotationGate_other(3))
    next
      case None
      then show ?thesis
        by (simp add: rotationGate_remote[OF RemoteFleet nodes] nodes RemoteFleet fleet_verdict_open split: list.split)
    qed
  qed
qed

lemma gate_local_open:
  "rotationGate i = OpenBothLocal \<longleftrightarrow>
     \<not> gi_mintFailed i \<and> bothRoleWriterArmed i \<and>
     (\<exists>nodes. gi_nodes i = Some nodes \<and> find busy nodes = None \<and>
        (\<forall>own. find (\<lambda>n. gn_role n = Some RBoth) nodes = Some own \<longrightarrow> \<not> lacks_cap own))"
proof (cases "gi_mintFailed i \<or> gi_nodes i = None")
  case True
  then show ?thesis using rotationGate_other(1,2)[of i] by (cases "gi_mintFailed i") simp_all
next
  case False
  then obtain nodes where nodes: "\<not> gi_mintFailed i" "gi_nodes i = Some nodes" by auto
  show ?thesis
  proof (cases "gi_fleetMode i")
    case LocalFleet
    with nodes show ?thesis by (auto simp: rotationGate_local split: option.split)
  next
    case RemoteFleet
    then show ?thesis
      by (cases "find busy nodes")
        (simp_all add: rotationGate_remote[OF RemoteFleet nodes] rotationGate_other(3)[OF RemoteFleet nodes]
          bothRoleWriterArmed_def split: list.split)
  qed
qed

text \<open>The gate opens over the link exactly when no mint has failed, the roster is readable
  and no node of it is updating, exactly one reachable fleet node exists, its id was measured,
  its link is up, its agent advertises the operation, it holds the capability (or its system is
  unknown), no learned hold is still in force, and the pending bound leaves room; it then names
  that node. It opens locally exactly when the box records both roles in local mode and no node
  is updating or misses the capability.\<close>

theorem rotationGate_exact:
  "(rotationGate i = OpenRemote n \<longleftrightarrow>
      \<not> gi_mintFailed i \<and> gi_fleetMode i = RemoteFleet \<and>
      (\<exists>nodes f. gi_nodes i = Some nodes \<and> find busy nodes = None \<and> fleet_rows nodes = [f] \<and>
         n = Some (gn_nodeId f) \<and> node_ready f \<and> gi_linkUp i \<and> learned_holds i = None \<and> room_to_hand_out i)) \<and>
   (rotationGate i = OpenBothLocal \<longleftrightarrow>
      \<not> gi_mintFailed i \<and> bothRoleWriterArmed i \<and>
      (\<exists>nodes. gi_nodes i = Some nodes \<and> find busy nodes = None \<and>
         (\<forall>own. find (\<lambda>n. gn_role n = Some RBoth) nodes = Some own \<longrightarrow> \<not> lacks_cap own)))"
  using gate_remote_open gate_local_open by blast

definition demo_gate_node :: gate_node where
  "demo_gate_node = \<lparr>gn_nodeId = ''n1'', gn_nodeIdMeasured = True, gn_label = ''box'', gn_role = Some RFleet,
     gn_reachable = True, gn_os = Linux, gn_caps = [TOKEN_SYNC_OP], gn_agentOps = Some [TOKEN_SYNC_OP],
     gn_updateState = UIdle, gn_reportedPhase = None\<rparr>"

definition demo_gate :: gate_input where
  "demo_gate = \<lparr>gi_fleetMode = RemoteFleet, gi_role = RServer, gi_roleSource = Recorded, gi_agentEnvMarksFleet = False,
     gi_nodes = Some [demo_gate_node], gi_linkUp = True, gi_learned = None, gi_lastReadyAt = None,
     gi_handedOutUnconfirmed = 0, gi_pendingExit = False, gi_mintFailed = False, gi_now = 0\<rparr>"

theorem rotationGate_exact_witness: "rotationGate demo_gate = OpenRemote (Some ''n1'')"
proof -
  have "find busy [demo_gate_node] = None" by (simp add: busy_def demo_gate_node_def BUSY_UPDATE_STATES_def)
  moreover have "fleet_rows [demo_gate_node] = [demo_gate_node]" by (simp add: fleet_rows_def demo_gate_node_def)
  moreover have "node_ready demo_gate_node" by (simp add: node_ready_def demo_gate_node_def)
  ultimately show ?thesis
    using rotationGate_exact[of demo_gate "Some ''n1''"]
    by (simp add: demo_gate_def learned_holds_def room_to_hand_out_def MAX_PENDING_def)
      (simp add: demo_gate_node_def)
qed

section \<open>The decision of a tick\<close>

text \<open>What must hold of the state and the measurements for an action to be the one taken.\<close>

fun action_allowed :: "box_state \<Rightarrow> action_input \<Rightarrow> driver_action \<Rightarrow> bool" where
  "action_allowed s i (Stage why) \<longleftrightarrow>
     b_promoting s = None \<and> (\<forall>h n. ai_gate i \<noteq> Held h n) \<and> length (b_pending s) < PENDING_HARD_CAP \<and>
     stage_reason s i = Some why \<and>
     (\<forall>p \<in> set (handed_out s). \<forall>c. pg_confirmBy p = Some c \<longrightarrow> ai_now i > c)"
| "action_allowed s i (Promote g OpResult) \<longleftrightarrow> b_promoting s = Some g"
| "action_allowed s i (Promote g GenerationRead) \<longleftrightarrow>
     b_promoting s = None \<and>
     (\<exists>obs p h. ai_generation i = Some obs \<and> go_read obs = GenId g \<and> p \<in> set (b_pending s) \<and> pg_id p = g \<and>
        pg_handedOutAt p = Some h \<and> go_measuredAt obs > h)"
| "action_allowed s i (Promote g OwnWrite) \<longleftrightarrow>
     b_promoting s = None \<and> ai_gate i = OpenBothLocal \<and> \<not> before (ai_now i) (ai_backoffUntil i) \<and>
     (\<exists>p \<in> set (b_pending s). pg_id p = g \<and> pg_handedOutAt p = None)"
| "action_allowed s i (Send g n) \<longleftrightarrow>
     b_promoting s = None \<and> ai_gate i = OpenRemote (Some n) \<and>
     (\<exists>p \<in> set (b_pending s). pg_id p = g \<and> pg_handedOutAt p = None)"
| "action_allowed s i (Retire w) \<longleftrightarrow>
     b_promoting s = None \<and> \<not> ai_retireHeld i \<and>
     (\<exists>pv. b_previous s = Some pv \<and>
        (case w of GraceEnd \<Rightarrow> pv_currentPresented pv \<and> ai_now i \<ge> min (pv_graceUntil pv) (pv_hardUntil pv)
         | HardBound \<Rightarrow> \<not> pv_currentPresented pv \<and> ai_now i \<ge> pv_hardUntil pv))"
| "action_allowed s i ExtendGrace \<longleftrightarrow>
     \<not> b_rotationOwed s \<and> (\<exists>pv. b_previous s = Some pv \<and> \<not> pv_currentPresented pv \<and>
        pv_graceUntil pv \<le> ai_now i \<and> ai_now i < pv_hardUntil pv)"
| "action_allowed s i RetryMint \<longleftrightarrow> (\<exists>n. ai_gate i = Held MintFailed n)"
| "action_allowed s i (Backoff t) \<longleftrightarrow> ai_now i < t \<and> (ai_backoffUntil i = Some t \<or> ai_scheduleBackoffUntil i = Some t)"
| "action_allowed s i (HoldAction h n) \<longleftrightarrow>
     ai_gate i = Held h n \<or> h = PendingCap \<and> length (b_pending s) \<ge> PENDING_HARD_CAP"
| "action_allowed s i NoAction \<longleftrightarrow> True"

lemma before_Some: "before now t \<Longrightarrow> \<exists>u. t = Some u \<and> now < u"
  by (auto simp: before_def split: option.splits)

lemma before_the: "before now t \<Longrightarrow> now < the t \<and> (t = Some (the t))"
  by (auto dest: before_Some)

lemma stage_allowed: "b_promoting s = None \<Longrightarrow> action_allowed s i (stage_action s i)"
  by (cases "ai_gate i")
    (auto simp: stage_action_def list_ex_iff before_the not_le split: option.splits)

lemma settle_allowed:
  assumes "b_promoting s = None"
  shows "action_allowed s i (settle_action s i)"
proof -
  note st = stage_allowed[OF assms, of i]
  have tail: "action_allowed s i (case find (\<lambda>p. pg_handedOutAt p = None) (b_pending s) of
             None \<Rightarrow> stage_action s i
           | Some st \<Rightarrow> (case ai_gate i of
                  Held h n \<Rightarrow> HoldAction h n
                | OpenRemote (Some n) \<Rightarrow> Send (pg_id st) n
                | _ \<Rightarrow> stage_action s i))"
    using st assms by (auto dest!: find_Some_set split: option.split gate_verdict.split)
  show ?thesis
  proof (cases "b_previous s")
    case None
    with tail show ?thesis by (simp add: settle_action_def)
  next
    case (Some pv)
    show ?thesis
    proof (cases "retireDue pv (ai_now i)")
      case NotDue
      with Some tail show ?thesis by (simp add: settle_action_def)
    next
      case DueGrace
      then have "pv_currentPresented pv \<and> ai_now i \<ge> min (pv_graceUntil pv) (pv_hardUntil pv)"
        by (auto simp: retireDue_def split: if_splits)
      with Some DueGrace tail assms show ?thesis by (simp add: settle_action_def)
    next
      case DueHard
      then have "\<not> pv_currentPresented pv \<and> ai_now i \<ge> pv_hardUntil pv"
        by (auto simp: retireDue_def split: if_splits)
      with Some DueHard tail assms show ?thesis by (simp add: settle_action_def)
    next
      case DueExtend
      then have "\<not> pv_currentPresented pv \<and> pv_graceUntil pv \<le> ai_now i \<and> ai_now i < pv_hardUntil pv"
        by (auto simp: retireDue_def split: if_splits)
      with Some DueExtend tail show ?thesis by (simp add: settle_action_def)
    qed
  qed
qed

lemma confirmed_allowed:
  assumes "confirmedGeneration s obs = Some g"
  shows "\<exists>p h. go_read obs = GenId g \<and> p \<in> set (b_pending s) \<and> pg_id p = g \<and> pg_handedOutAt p = Some h \<and>
    go_measuredAt obs > h"
  using assms unfolding confirmedGeneration_def
  by (cases "go_read obs") (auto dest!: find_Some_set split: option.splits if_splits)

text \<open>\<open>nextAction\<close> in its order of precedence.\<close>

definition gate_mint_failed :: "action_input \<Rightarrow> bool" where
  "gate_mint_failed i \<longleftrightarrow> (\<exists>n. ai_gate i = Held MintFailed n)"

definition confirmed_of :: "box_state \<Rightarrow> action_input \<Rightarrow> string option" where
  "confirmed_of s i = (case ai_generation i of None \<Rightarrow> None | Some g \<Rightarrow> confirmedGeneration s g)"

lemma nextAction_ordered:
  "gate_mint_failed i \<Longrightarrow> nextAction (Some s) i = RetryMint"
  "\<not> gate_mint_failed i \<Longrightarrow> b_promoting s = Some p \<Longrightarrow> nextAction (Some s) i = Promote p OpResult"
  "\<not> gate_mint_failed i \<Longrightarrow> b_promoting s = None \<Longrightarrow> confirmed_of s i = Some c \<Longrightarrow>
     nextAction (Some s) i = Promote c GenerationRead"
  "\<not> gate_mint_failed i \<Longrightarrow> b_promoting s = None \<Longrightarrow> confirmed_of s i = None \<Longrightarrow> b_previous s = Some pv \<Longrightarrow>
     ai_now i \<ge> pv_hardUntil pv \<Longrightarrow> \<not> ai_retireHeld i \<Longrightarrow>
     nextAction (Some s) i = Retire (if pv_currentPresented pv then GraceEnd else HardBound)"
  by (auto simp: nextAction_def gate_mint_failed_def confirmed_of_def retireDue_def split: gate_verdict.splits)

lemma nextAction_rest:
  assumes "\<not> gate_mint_failed i" "b_promoting s = None" "confirmed_of s i = None"
    "\<And>pv. b_previous s = Some pv \<Longrightarrow> ai_now i \<ge> pv_hardUntil pv \<Longrightarrow> ai_retireHeld i"
  shows "nextAction (Some s) i =
    (case (find (\<lambda>p. pg_handedOutAt p = None) (b_pending s), ai_gate i) of
       (Some sg, OpenBothLocal) \<Rightarrow>
         if before (ai_now i) (ai_backoffUntil i) then Backoff (the (ai_backoffUntil i))
         else Promote (pg_id sg) OwnWrite
     | _ \<Rightarrow> settle_action s i)"
proof -
  have "\<not> (case ai_gate i of Held h _ \<Rightarrow> h = MintFailed | _ \<Rightarrow> False)"
    using assms(1) by (auto simp: gate_mint_failed_def split: gate_verdict.splits)
  moreover have "(case b_previous s of None \<Rightarrow> None
      | Some pv \<Rightarrow> if ai_now i \<ge> pv_hardUntil pv \<and> \<not> ai_retireHeld i then Some pv else None) = None"
    using assms(4) by (auto split: option.split)
  ultimately show ?thesis using assms(2,3) by (simp add: nextAction_def confirmed_of_def)
qed

lemma nextAction_allowed: "action_allowed s i (nextAction (Some s) i)"
proof (cases "gate_mint_failed i")
  case True
  then show ?thesis by (simp add: nextAction_ordered(1)) (simp add: gate_mint_failed_def)
next
  case ok: False
  show ?thesis
  proof (cases "b_promoting s")
    case (Some p)
    with ok show ?thesis by (simp add: nextAction_ordered(2))
  next
    case np: None
    show ?thesis
    proof (cases "confirmed_of s i")
      case (Some c)
      then obtain obs where "ai_generation i = Some obs" "confirmedGeneration s obs = Some c"
        by (auto simp: confirmed_of_def split: option.splits)
      with confirmed_allowed np show ?thesis
        by (auto simp: nextAction_ordered(3)[OF ok np Some])
    next
      case nc: None
      show ?thesis
      proof (cases "\<exists>pv. b_previous s = Some pv \<and> ai_now i \<ge> pv_hardUntil pv \<and> \<not> ai_retireHeld i")
        case True
        then obtain pv where "b_previous s = Some pv" "ai_now i \<ge> pv_hardUntil pv" "\<not> ai_retireHeld i" by blast
        with np show ?thesis by (auto simp: nextAction_ordered(4)[OF ok np nc])
      next
        case False
        then have "\<And>pv. b_previous s = Some pv \<Longrightarrow> ai_now i \<ge> pv_hardUntil pv \<Longrightarrow> ai_retireHeld i" by blast
        from nextAction_rest[OF ok np nc this] settle_allowed[OF np, of i] np show ?thesis
          by (auto simp: before_the dest!: find_Some_set split: option.splits gate_verdict.splits)
      qed
    qed
  qed
qed

text \<open>A tick's action is always one its state and measurements allow: a value is staged
  only through an open gate, under the cap, once every handed-out value is past its deadline;
  a promotion is the interrupted one, a handed-out generation the fleet was seen holding after
  its hand-out, or a staged one in local mode; a value is sent only while still staged and only
  to the node the gate names; a retirement needs its due time. And past the hard bound the
  previous value is retired whatever the gate says, unless its retirement is held, a mint has
  failed, or a promotion comes first.\<close>

theorem tick_decision:
  "action_allowed s i (nextAction (Some s) i) \<and> nextAction None i = RetryMint \<and>
   (\<forall>pv. b_previous s = Some pv \<and> ai_now i \<ge> pv_hardUntil pv \<and> \<not> ai_retireHeld i \<and> \<not> gate_mint_failed i \<and>
      b_promoting s = None \<and> confirmed_of s i = None \<longrightarrow>
      nextAction (Some s) i = Retire (if pv_currentPresented pv then GraceEnd else HardBound))"
  using nextAction_allowed[of s i] nextAction_ordered(4)[of i s] by (auto simp: nextAction_def)

definition demo_prev :: box_state where
  "demo_prev = (adoptedState 0 None)\<lparr>b_previous := Some \<lparr>pv_id = None, pv_seq = 0, pv_graceUntil = 5,
     pv_hardUntil = 10, pv_currentPresented = False, pv_write = \<lparr>w_dev = 1, w_ino = 1, w_writtenAtMs = 1\<rparr>\<rparr>\<rparr>"

definition demo_tick :: action_input where
  "demo_tick = \<lparr>ai_gate = Held LinkDown None, ai_generation = None, ai_rotateRequested = False, ai_backoffUntil = None,
     ai_now = 10, ai_retireHeld = False, ai_scheduleBackoffUntil = None\<rparr>"

theorem tick_decision_witness: "nextAction (Some demo_prev) demo_tick = Retire HardBound"
proof -
  have "b_promoting demo_prev = None" by (simp add: demo_prev_def adoptedState_def Let_def)
  then show ?thesis
    using tick_decision[of demo_prev demo_tick]
    by (simp add: demo_prev_def demo_tick_def gate_mint_failed_def confirmed_of_def)
qed

section \<open>The bound on pending values\<close>

lemma boot_driver_inv: "boot_driver d \<Longrightarrow> driver_inv d"
  by (auto simp: boot_driver_def driver_inv_def pending_ok_def adoptedState_def mintedState_def from_prior_def Let_def)

interpretation token_machine: inv_machine boot_driver "\<lambda>d d'. \<exists>e. driver_step e d d'" driver_inv
  by unfold_locales (auto intro: boot_driver_inv driver_inv_step)

lemma driver_run_steps: "driver_run d es d' \<Longrightarrow> (\<lambda>d d'. \<exists>e. driver_step e d d')\<^sup>*\<^sup>* d d'"
  by (induction rule: driver_run.induct) (auto intro: rtranclp.rtrancl_into_rtrancl)

text \<open>Over every run from boot there are at most three pending values, with distinct ids and
  strictly increasing sequence numbers below the next one to be given; a value has a confirmation
  deadline exactly when it was handed out, five minutes after that; and the previous value's
  grace never reaches past its hard bound.\<close>

theorem pending_bounded:
  assumes "boot_driver d" "driver_run d es d'"
  shows "length (b_pending (dr_state d')) \<le> 3 \<and> distinct (map pg_id (b_pending (dr_state d'))) \<and>
    sorted_wrt (<) (map pg_seq (b_pending (dr_state d'))) \<and>
    (\<forall>p \<in> set (b_pending (dr_state d')). pg_seq p < b_nextSeq (dr_state d') \<and>
       pg_confirmBy p = map_option (\<lambda>h. h + 5 * 60000) (pg_handedOutAt p)) \<and>
    (\<forall>pv. b_previous (dr_state d') = Some pv \<longrightarrow> pv_graceUntil pv \<le> pv_hardUntil pv)"
  using token_machine.inv_reach[OF assms(1) driver_run_steps[OF assms(2)]]
  by (simp add: driver_inv_def pending_ok_def PENDING_HARD_CAP_def CONFIRM_DEADLINE_MS_def)

text \<open>A run of two steps: a first value is staged through an open gate and handed out.\<close>

definition demo_write :: write_record where "demo_write = \<lparr>w_dev = 1, w_ino = 2, w_writtenAtMs = 3\<rparr>"

definition demo_driver :: driver where
  "demo_driver = \<lparr>dr_state = adoptedState 0 None, dr_pend = {}, dr_learned = None, dr_backoffUntil = None,
     dr_rotateRequested = False, dr_scheduledGen = None, dr_scheduleMisses = 0, dr_scheduleBackoffUntil = None,
     dr_lastRotateStart = None\<rparr>"

definition demo_open :: action_input where
  "demo_open = \<lparr>ai_gate = OpenRemote (Some ''n1''), ai_generation = None, ai_rotateRequested = False, ai_backoffUntil = None,
     ai_now = 10, ai_retireHeld = False, ai_scheduleBackoffUntil = None\<rparr>"

definition demo_staged :: driver where
  "demo_staged = snd (stage (OwedWhy OwAdopted) 10 ''g'' (Some demo_write) demo_driver)"

definition demo_handed :: driver where
  "demo_handed = demo_staged\<lparr>dr_state := handedOutState (dr_state demo_staged) ''g'' 20\<rparr>"

lemma demo_state [simp]:
  "b_pending (dr_state demo_staged) = [\<lparr>pg_id = ''g'', pg_seq = 2, pg_stagedAt = 10, pg_handedOutAt = None,
     pg_confirmBy = None, pg_write = demo_write\<rparr>]"
  "dr_pend demo_staged = {''g''}"
  "b_pending (dr_state demo_handed) = [\<lparr>pg_id = ''g'', pg_seq = 2, pg_stagedAt = 10, pg_handedOutAt = Some 20,
     pg_confirmBy = Some 300020, pg_write = demo_write\<rparr>]"
  "dr_pend demo_handed = {''g''}"
  by (simp_all add: demo_staged_def demo_handed_def stage_def Let_def demo_driver_def adoptedState_def from_prior_def
      stagedState_def owe_def handedOutState_def CONFIRM_DEADLINE_MS_def)

lemma demo_boot: "boot_driver demo_driver"
  by (auto simp: boot_driver_def demo_driver_def)

lemma demo_run: "driver_run demo_driver [Quiet, Quiet] demo_handed"
proof -
  have n: "nextAction (Some (dr_state demo_driver)) demo_open = Stage (OwedWhy OwAdopted)"
    by (simp add: nextAction_def demo_driver_def adoptedState_def from_prior_def Let_def demo_open_def settle_action_def
        stage_action_def handed_out_def stage_reason_def PENDING_HARD_CAP_def before_def)
  have "driver_step Quiet demo_driver demo_staged"
    unfolding demo_staged_def
    by (rule driver_step.staged[OF n]) (simp add: demo_driver_def adoptedState_def from_prior_def Let_def)
  moreover have "driver_step Quiet demo_staged demo_handed"
    by (rule driver_step.handed_out[of "''g''" 20 True _ True]) (simp add: commitHandOut_def demo_handed_def)
  ultimately show ?thesis
    using driver_run.step[OF driver_run.step[OF driver_run.start]] by fastforce
qed

theorem pending_bounded_witness: "length (b_pending (dr_state demo_handed)) \<le> 3"
  using pending_bounded[OF demo_boot demo_run] by simp

section \<open>Custody of a handed-out value\<close>

text \<open>The events that may end the custody of the value \<open>p\<close>: a generation at or after it became
  current, or the fleet answered that its code was used.\<close>

fun ends_custody :: "pending_gen \<Rightarrow> driver_event \<Rightarrow> bool" where
  "ends_custody p Quiet = False"
| "ends_custody p (PromotedSeq q) = (pg_seq p \<le> q)"
| "ends_custody p (CodeUsedBy i) = (pg_id p = i)"

definition in_custody :: "pending_gen \<Rightarrow> driver \<Rightarrow> bool" where
  "in_custody p d \<longleftrightarrow> p \<in> set (b_pending (dr_state d)) \<and> pg_handedOutAt p \<noteq> None \<and> pg_id p \<in> dr_pend d"

lemma in_custody_same:
  "in_custody p d \<Longrightarrow> b_pending (dr_state d') = b_pending (dr_state d) \<Longrightarrow> dr_pend d' = dr_pend d \<Longrightarrow> in_custody p d'"
  by (simp add: in_custody_def)

lemma in_custody_discard:
  "in_custody p d \<Longrightarrow> pg_id p \<notin> set ids \<Longrightarrow> in_custody p (discard ids d)"
  by (simp add: in_custody_def)

lemma staged_id_other:
  assumes "pending_ok s" "p \<in> set (b_pending s)" "pg_handedOutAt p \<noteq> None"
    "list_ex (\<lambda>p. pg_id p = i \<and> pg_handedOutAt p = None) (b_pending s)"
  shows "pg_id p \<noteq> i"
  using assms by (auto simp: pending_ok_def distinct_map list_ex_iff dest: inj_onD)

lemma custody_step:
  "driver_step e d d' \<Longrightarrow> driver_inv d \<Longrightarrow> in_custody p d \<Longrightarrow> \<not> ends_custody p e \<Longrightarrow> in_custody p d'"
proof (induction rule: driver_step.induct)
  case (staged d inp why i now w)
  then show ?case
    by (cases w; cases why) (simp_all add: stage_def Let_def in_custody_def stagedState_def)
next
  case (handed_out i at ok d b d')
  define d1 where "d1 = d\<lparr>dr_state := handedOutState (dr_state d) i at\<rparr>"
  have st: "list_ex (\<lambda>p. pg_id p = i \<and> pg_handedOutAt p = None) (b_pending (dr_state d))"
    "d' = (if ok then d1 else discard [i] d1)"
    using handed_out.hyps by (auto simp: commitHandOut_def Let_def d1_def split: if_splits)
  have ne: "pg_id p \<noteq> i"
    using staged_id_other[OF _ _ _ st(1)] handed_out.prems by (simp add: driver_inv_def in_custody_def)
  then have "in_custody p d1"
    using handed_out.prems(2) by (force simp: in_custody_def d1_def handedOutState_def)
  with ne st(2) show ?case by (simp add: in_custody_discard)
next
  case (sent r i d now)
  have "\<not> (pg_id p = i \<and> (\<exists>w. r = SyncRefused CodeUsedWord w))"
    using sent.prems(3) by auto
  then show ?case
    using fold_send_pending(5)[of p d i r now] sent.prems by (simp add: in_custody_def driver_inv_def pending_ok_def)
next
  case (promoted i via io now d d')
  show ?case
  proof (cases rule: promote_cases[of i via io now d])
    case (finished g)
    with promoted have gt: "pg_seq g < pg_seq p" by simp
    have "p \<noteq> g" using gt by auto
    then have "pg_id p \<noteq> i"
      using promoted.prems finished(2,3) by (auto simp: in_custody_def driver_inv_def pending_ok_def distinct_map dest: inj_onD)
    moreover have "p \<in> set (b_pending (dr_state (snd (promote i via io now d))))"
      using finished(4) gt promoted.prems(2) by (simp add: in_custody_def)
    ultimately show ?thesis
      using promoted finished(8)[of p] by (auto simp: in_custody_def)
  qed (use promoted in simp_all)
next
  case (not_promoted i via io now d e d')
  show ?case
  proof (cases rule: promote_cases[of i via io now d])
    case kept
    then show ?thesis using not_promoted by (auto intro: in_custody_same)
  next
    case abandoned
    then have "pg_id p \<noteq> i" using not_promoted.prems(2) by (auto simp: in_custody_def)
    with abandoned show ?thesis using not_promoted by (simp add: in_custody_def)
  qed (use not_promoted in simp)
next
  case (retired d ok g l r now)
  then show ?case by (auto simp: retire_def intro: in_custody_same)
next
  case (extended d now)
  then show ?case
    by (auto simp: extend_grace_def extendedGraceState_def intro: in_custody_same split: option.splits)
next
  case (minted d now w ow i)
  then show ?case by (simp add: retryMint_def in_custody_def mintedState_def from_prior_def Let_def)
next
  case (alerted d xs ys)
  define s where "s = (if ys \<noteq> [] then owe (dr_state d) ClaimMisbound else dr_state d)"
  define drp where "drp = filter (\<lambda>i. list_ex (\<lambda>p. pg_id p = i \<and> pg_handedOutAt p = None) (b_pending s)) (remdups (xs @ ys))"
  have s: "b_pending s = b_pending (dr_state d)" by (simp add: s_def)
  have "pg_id p \<notin> set drp"
    using staged_id_other alerted by (auto simp: drp_def s in_custody_def driver_inv_def)
  then have "in_custody p (discard drp (d\<lparr>dr_state := s\<rparr>))"
    using alerted by (intro in_custody_discard) (simp_all add: in_custody_def s)
  then show ?case by (simp add: drainDoorAlerts_def Let_def drp_def s_def)
next
  case (presented d n t now)
  then show ?case
    by (auto simp: noteRetiredPresentations_def oweForRetiredPresentation_def intro: in_custody_same split: option.splits if_splits)
next
  case (counted d a b c e f now)
  then show ?case
    by (intro in_custody_same[OF counted(2)]) (simp_all add: noteCounters_def Let_def split: option.splits)
next
  case (held d h)
  then show ?case by (intro in_custody_same[OF held(2)]) (simp_all add: setHold_def)
next
  case (pressed d now n g)
  then show ?case
    by (intro in_custody_same[OF pressed(2)]) (simp_all add: rotateNow_def split: gate_verdict.splits token_hold.splits)
qed

lemma custody_run:
  "driver_run d es d' \<Longrightarrow> driver_inv d \<Longrightarrow> in_custody p d \<Longrightarrow> \<forall>e \<in> set es. \<not> ends_custody p e \<Longrightarrow>
     in_custody p d' \<and> driver_inv d'"
  by (induction rule: driver_run.induct) (auto intro: custody_step driver_inv_step)

text \<open>C28: a value the fleet may hold is never lost. Along any run, a pending value that was handed
  out and is in memory stays pending, with its record unchanged, and in memory, through every
  send, refusal, lost answer, failed promotion, retirement, alert, restaging and mint, until a
  generation at or after it is promoted or the fleet answers that its code was used.\<close>

theorem handed_out_value_kept:
  assumes "boot_driver d0" "driver_run d0 es0 d" "p \<in> set (b_pending (dr_state d))" "pg_handedOutAt p \<noteq> None"
    "pg_id p \<in> dr_pend d" "driver_run d es d'" "\<forall>e \<in> set es. \<not> ends_custody p e"
  shows "p \<in> set (b_pending (dr_state d')) \<and> pg_id p \<in> dr_pend d'"
proof -
  have "driver_inv d" by (rule token_machine.inv_reach[OF assms(1) driver_run_steps[OF assms(2)]])
  then show ?thesis
    using custody_run[OF assms(6) _ _ assms(7)] assms(3-5) by (simp add: in_custody_def)
qed

theorem handed_out_value_kept_witness:
  "\<exists>p. pg_id p = ''g'' \<and> p \<in> set (b_pending (dr_state (snd (fold_send ''g'' (Lost Timeout) 30 demo_handed)))) \<and>
     ''g'' \<in> dr_pend (snd (fold_send ''g'' (Lost Timeout) 30 demo_handed))"
proof -
  have s: "driver_run demo_handed [Quiet] (snd (fold_send ''g'' (Lost Timeout) 30 demo_handed))"
    using driver_run.step[OF driver_run.start driver_step.sent[where r = "Lost Timeout" and i = "''g''" and d = demo_handed and now = 30]] by simp
  show ?thesis
    using handed_out_value_kept[OF demo_boot demo_run _ _ _ s, of "hd (b_pending (dr_state demo_handed))"]
    by (intro exI[of _ "hd (b_pending (dr_state demo_handed))"]) simp
qed

section \<open>Boot recovery\<close>

text \<open>A file on disk is the one this box wrote, carries a usable value, and the value was never
  retired.\<close>

definition trusted_file :: "string list \<Rightarrow> file_like option \<Rightarrow> write_record \<Rightarrow> bool" where
  "trusted_file retired f w \<longleftrightarrow>
     (\<exists>x m d. f = Some x \<and> fl_meta x = Some m \<and> fm_kind m = Regular \<and> fm_dev m = w_dev w \<and> fm_ino m = w_ino w \<and>
        fm_mtimeMs m \<le> w_writtenAtMs w \<and> fl_usable x \<and> \<not> fl_placeholder x \<and> fl_digest x = Some d \<and> d \<notin> set retired)"

lemma sibling_trusted: "sibling retired f (Some w) \<longleftrightarrow> trusted_file retired f w"
  by (cases f) (auto simp: sibling_def trusted_file_def provedWrite_def split: option.splits)

lemma provedWrite_Some: "provedWrite f w \<Longrightarrow> \<exists>r. w = Some r \<and> fl_meta f \<noteq> None"
  by (auto simp: provedWrite_def split: option.splits)

lemma recoveryPlan_cases:
  "recoveryPlan (Some s) cur pending previous retired =
     (if b_origin s = OAdopted \<or> (fl_meta cur \<noteq> None \<and> \<not> provedWrite cur (cg_write (b_current s))) then RefuseRecovery
      else if (\<exists>i g. b_promoting s = Some i \<and> find (\<lambda>p. pg_id p = i) (b_pending s) = Some g \<and>
                 trusted_file retired pending (pg_write g))
      then FinishPromotion (the (b_promoting s))
      else if (\<exists>pv. b_previous s = Some pv \<and> trusted_file retired previous (pv_write pv)) then RecoverPrevious
      else RefuseRecovery)"
  unfolding recoveryPlan_def Let_def
  by (cases "b_promoting s"; cases "b_previous s")
    (auto simp: sibling_trusted split: option.split dest: find_Some_set)

text \<open>C29: boot recovery takes a value from a sibling file only over a state it wrote itself and a
  current file that is absent or its own write, and only when that sibling is a regular file,
  the very inode the record names, not touched since, usable, not a placeholder and not
  retired; it finishes the interrupted promotion first, falls back to the previous value, and
  refuses only when neither can be trusted. A current file it did not write is called foreign
  whenever the retired list cannot be read.\<close>

theorem recovery_trusts_own_files:
  "(\<forall>i. recoveryPlan st cur pending previous retired = FinishPromotion i \<longleftrightarrow>
      (\<exists>s g. st = Some s \<and> b_origin s \<noteq> OAdopted \<and> (fl_meta cur = None \<or> provedWrite cur (cg_write (b_current s))) \<and>
         b_promoting s = Some i \<and> find (\<lambda>p. pg_id p = i) (b_pending s) = Some g \<and>
         trusted_file retired pending (pg_write g))) \<and>
   (recoveryPlan st cur pending previous retired = RecoverPrevious \<longleftrightarrow>
      (\<exists>s pv. st = Some s \<and> b_origin s \<noteq> OAdopted \<and> (fl_meta cur = None \<or> provedWrite cur (cg_write (b_current s))) \<and>
         b_previous s = Some pv \<and> trusted_file retired previous (pv_write pv) \<and>
         (\<nexists>i g. b_promoting s = Some i \<and> find (\<lambda>p. pg_id p = i) (b_pending s) = Some g \<and>
            trusted_file retired pending (pg_write g)))) \<and>
   (foreignUnderUnusableRetired True st cur \<longleftrightarrow>
      (\<nexists>s. st = Some s \<and> provedWrite cur (cg_write (b_current s))))"
proof (cases st)
  case None
  then show ?thesis by (simp add: recoveryPlan_def foreignUnderUnusableRetired_def)
next
  case (Some s)
  have f: "foreignUnderUnusableRetired True st cur \<longleftrightarrow>
      (\<nexists>s. st = Some s \<and> provedWrite cur (cg_write (b_current s)))"
    by (simp add: foreignUnderUnusableRetired_def Some)
  show ?thesis
    unfolding f unfolding Some recoveryPlan_cases by auto
qed

end
