(* ===== verification/LandingWords.thy ===== *)
theory LandingWords
  imports Prelude
begin

text \<open>
  The vocabulary of the landing lane (\<open>shared/landing.ts\<close>): the words, and the grammar of the
  details it writes to a run's history, each with its one writer and its one reader. A writer
  that throws \<open>RangeError\<close> answers \<open>None\<close>. A number is an \<open>int\<close>; \<open>Number(s)\<close> of a word of
  digits is exact here and rounded there, and both are beyond \<open>Number.isSafeInteger\<close> for the
  same words.
\<close>

section \<open>Words\<close>

datatype checks_word = CGreen | CRed | CPending | CNotReported | CUnverifiable | CUnmeasured

definition REQUIRED_CHECKS_PRECEDENCE :: "checks_word list" where
  "REQUIRED_CHECKS_PRECEDENCE = [CUnmeasured, CRed, CUnverifiable, CPending, CNotReported, CGreen]"

datatype checks_mail_word = MGreen | MRed | MStuck | MMoved | MLeft
datatype stuck_cause = CauseTimeout | CauseUnmeasured | CauseUnverifiable | CauseDisabled
datatype left_phase = LeftClosed | LeftDraft | LeftUnbound | LeftMerged
datatype checks_mode = ModeLive | ModeShadow | ModeOff

definition LANDING_CHECKS_STUCK_MS :: int where "LANDING_CHECKS_STUCK_MS = 2700000"

section \<open>Canonical numbers and hashes\<close>

definition MAX_SAFE :: int where "MAX_SAFE = 2 ^ 53 - 1"

definition isPositiveSafe :: "int \<Rightarrow> bool" where "isPositiveSafe n \<longleftrightarrow> 0 < n \<and> n \<le> MAX_SAFE"
definition isNonNegativeSafe :: "int \<Rightarrow> bool" where "isNonNegativeSafe n \<longleftrightarrow> 0 \<le> n \<and> n \<le> MAX_SAFE"

definition nonNegativeInt :: "string \<Rightarrow> int option" where
  "nonNegativeInt s =
     (if \<not> canonical_dec s then None
      else let n = int (undec s) in if n \<le> MAX_SAFE then Some n else None)"

definition positiveInt :: "string \<Rightarrow> int option" where
  "positiveInt s =
     (if \<not> (canonical_dec s \<and> hd s \<noteq> CHR ''0'') then None
      else let n = int (undec s) in if n \<le> MAX_SAFE then Some n else None)"

definition isFp12 :: "string \<Rightarrow> bool" where "isFp12 s \<longleftrightarrow> length s = 12 \<and> list_all hex_char s"
definition isHead40 :: "string \<Rightarrow> bool" where "isHead40 s \<longleftrightarrow> length s = 40 \<and> list_all hex_char s"

section \<open>The transition row's detail\<close>

fun mode_word :: "checks_mode \<Rightarrow> string" where
  "mode_word ModeLive = ''live''"
| "mode_word ModeShadow = ''shadow''"
| "mode_word ModeOff = ''off''"

definition mode_of :: "string \<Rightarrow> checks_mode option" where
  "mode_of s = find (\<lambda>m. mode_word m = s) [ModeLive, ModeShadow, ModeOff]"

definition MERGING_AT_PREFIX :: string where "MERGING_AT_PREFIX = ''merging-at:''"

record merging_at =
  ma_head :: string
  ma_pr :: "int option"
  ma_mode :: checks_mode

definition mergingAtDetail :: "string \<Rightarrow> int option \<Rightarrow> checks_mode \<Rightarrow> string option" where
  "mergingAtDetail head pr mode =
     (if \<not> isHead40 head then None
      else case pr of
        None \<Rightarrow> if mode \<noteq> ModeOff then None
                else Some (MERGING_AT_PREFIX @ head @ '':'' @ ''none'' @ '':'' @ mode_word mode)
      | Some n \<Rightarrow> if \<not> isPositiveSafe n then None
                  else Some (MERGING_AT_PREFIX @ head @ '':'' @ dec (nat n) @ '':'' @ mode_word mode))"

definition readMergingAtDetail :: "string \<Rightarrow> merging_at option" where
  "readMergingAtDetail detail =
     (if \<not> starts_with detail MERGING_AT_PREFIX then None
      else case split_on (CHR '':'') (drop (length MERGING_AT_PREFIX) detail) of
        [head, prText, modeText] \<Rightarrow>
          (if \<not> isHead40 head then None
           else case mode_of modeText of
             None \<Rightarrow> None
           | Some mode \<Rightarrow>
               if prText = ''none''
               then (if mode = ModeOff then Some \<lparr>ma_head = head, ma_pr = None, ma_mode = mode\<rparr> else None)
               else case positiveInt prText of
                 None \<Rightarrow> None
               | Some pr \<Rightarrow> Some \<lparr>ma_head = head, ma_pr = Some pr, ma_mode = mode\<rparr>)
      | _ \<Rightarrow> None)"

section \<open>The rows of an episode\<close>

definition CHECKS_ROW_PREFIX :: string where "CHECKS_ROW_PREFIX = ''landing:checks:''"
definition CHECKS_SHADOW_ROW_PREFIX :: string where "CHECKS_SHADOW_ROW_PREFIX = ''landing-shadow:checks:''"

datatype row_what = ROpen | RGreen | RRed | RStuck
datatype end_word = EMoved | ELeft
datatype read_what = What row_what | Ended end_word

fun end_text :: "end_word \<Rightarrow> string" where
  "end_text EMoved = ''moved''"
| "end_text ELeft = ''left''"

definition STUCK_READING_WORDS :: "string list" where
  "STUCK_READING_WORDS = [''pending'', ''not-reported'', ''unverifiable'', ''red'']"

definition isStuckReading :: "string \<Rightarrow> bool" where
  "isStuckReading s =
     (if s = ''unread'' then True
      else case cut_at (CHR ''@'') s of
        None \<Rightarrow> False
      | Some (w, fp) \<Rightarrow> w \<in> set STUCK_READING_WORDS \<and> isFp12 fp)"

definition row_head :: "int \<Rightarrow> bool \<Rightarrow> string" where
  "row_head e shadow = (if shadow then CHECKS_SHADOW_ROW_PREFIX else CHECKS_ROW_PREFIX) @ dec (nat e)"

definition checksRowDetail :: "int \<Rightarrow> int \<Rightarrow> row_what \<Rightarrow> string option \<Rightarrow> bool \<Rightarrow> string option" where
  "checksRowDetail e gen what sfx shadow =
     (if \<not> isPositiveSafe e then None
      else if \<not> isNonNegativeSafe gen then None
      else
        let head = row_head e shadow @ '':'' @ dec (nat gen) @ '':'' in
        case what of
          ROpen \<Rightarrow> if sfx \<noteq> None then None else Some (head @ ''open'')
        | RStuck \<Rightarrow> (case sfx of None \<Rightarrow> None
            | Some s \<Rightarrow> if \<not> isStuckReading s then None else Some (head @ ''stuck'' @ '':'' @ s))
        | RGreen \<Rightarrow> (case sfx of None \<Rightarrow> None | Some s \<Rightarrow> if \<not> isFp12 s then None else Some (head @ ''green'' @ ''@'' @ s))
        | RRed \<Rightarrow> (case sfx of None \<Rightarrow> None | Some s \<Rightarrow> if \<not> isFp12 s then None else Some (head @ ''red'' @ ''@'' @ s)))"

definition checksEndDetail :: "int \<Rightarrow> end_word \<Rightarrow> bool \<Rightarrow> string option" where
  "checksEndDetail e word shadow =
     (if \<not> isPositiveSafe e then None else Some (row_head e shadow @ '':'' @ end_text word))"

record checks_row_read =
  rr_shadow :: bool
  rr_e :: int
  rr_gen :: "int option"
  rr_what :: read_what
  rr_fp :: "string option"
  rr_reading :: "string option"

text \<open>The part after the prefix and the episode number.\<close>

definition read_tail :: "bool \<Rightarrow> int \<Rightarrow> string list \<Rightarrow> checks_row_read option" where
  "read_tail shadow e parts =
     (let row = \<lambda>gen what fp reading. \<lparr>rr_shadow = shadow, rr_e = e, rr_gen = gen, rr_what = what, rr_fp = fp, rr_reading = reading\<rparr> in
      case parts of
        [w] \<Rightarrow>
          if w = ''moved'' then Some (row None (Ended EMoved) None None)
          else if w = ''left'' then Some (row None (Ended ELeft) None None)
          else None
      | g # rest \<Rightarrow>
          (case nonNegativeInt g of
             None \<Rightarrow> None
           | Some gen \<Rightarrow>
               let tail = join_with (CHR '':'') rest in
               if tail = ''open'' then Some (row (Some gen) (What ROpen) None None)
               else if length rest = 1 then
                 (case cut_at (CHR ''@'') tail of
                    None \<Rightarrow> None
                  | Some (what, fp) \<Rightarrow>
                      if \<not> isFp12 fp then None
                      else if what = ''green'' then Some (row (Some gen) (What RGreen) (Some fp) None)
                      else if what = ''red'' then Some (row (Some gen) (What RRed) (Some fp) None)
                      else None)
               else if hd rest \<noteq> ''stuck'' then None
               else let reading = join_with (CHR '':'') (tl rest) in
                 if isStuckReading reading then Some (row (Some gen) (What RStuck) None (Some reading)) else None)
      | [] \<Rightarrow> None)"

definition readChecksRowDetail :: "string \<Rightarrow> checks_row_read option" where
  "readChecksRowDetail detail =
     (case (if starts_with detail CHECKS_ROW_PREFIX then Some (False, drop (length CHECKS_ROW_PREFIX) detail)
            else if starts_with detail CHECKS_SHADOW_ROW_PREFIX
            then Some (True, drop (length CHECKS_SHADOW_ROW_PREFIX) detail)
            else None) of
        None \<Rightarrow> None
      | Some (shadow, rest) \<Rightarrow>
          (case split_on (CHR '':'') rest of
             [] \<Rightarrow> None
           | eText # parts \<Rightarrow>
               (case positiveInt eText of None \<Rightarrow> None | Some e \<Rightarrow> read_tail shadow e parts)))"

section \<open>Reading back\<close>

lemma positiveInt_dec: "isPositiveSafe n \<Longrightarrow> positiveInt (dec (nat n)) = Some n"
  by (simp add: positiveInt_def isPositiveSafe_def hd_dec)

lemma nonNegativeInt_dec: "isNonNegativeSafe n \<Longrightarrow> nonNegativeInt (dec (nat n)) = Some n"
  by (simp add: nonNegativeInt_def isNonNegativeSafe_def)

lemma positiveInt_Some: "positiveInt s = Some n \<Longrightarrow> isPositiveSafe n \<and> s = dec (nat n)"
proof -
  assume a: "positiveInt s = Some n"
  then have s: "canonical_dec s" "hd s \<noteq> CHR ''0''" "n = int (undec s)" "n \<le> MAX_SAFE"
    by (auto simp: positiveInt_def Let_def split: if_splits)
  have "undec s \<noteq> 0"
  proof
    assume "undec s = 0"
    then have "s = dec 0" using dec_undec[OF s(1)] by simp
    then show False using s(2) by (simp add: dec.simps)
  qed
  then show ?thesis using s dec_undec[OF s(1)] by (simp add: isPositiveSafe_def)
qed

lemma nonNegativeInt_Some: "nonNegativeInt s = Some n \<Longrightarrow> isNonNegativeSafe n \<and> s = dec (nat n)"
  by (auto simp: nonNegativeInt_def isNonNegativeSafe_def Let_def dec_undec split: if_splits)

lemma mode_of_word [simp]: "mode_of (mode_word m) = Some m"
  by (cases m) (simp_all add: mode_of_def)

lemma mode_of_Some: "mode_of s = Some m \<Longrightarrow> s = mode_word m"
  by (auto simp: mode_of_def split: if_splits)

lemma hex_not_punct: "hex_char c \<Longrightarrow> c \<noteq> CHR '':'' \<and> c \<noteq> CHR ''@''"
  by (auto simp: hex_char_def less_eq_char_def)

lemma hash_no_punct: "isHead40 h \<or> isFp12 h \<Longrightarrow> CHR '':'' \<notin> set h \<and> CHR ''@'' \<notin> set h"
  using hex_not_punct by (auto simp: isHead40_def isFp12_def list_all_iff)

lemma dec_no_punct [simp]: "CHR '':'' \<notin> set (dec n)" "CHR ''@'' \<notin> set (dec n)"
  by (rule digit_not_in_dec, simp add: digit_char_def less_eq_char_def)+

lemma mode_no_colon [simp]: "CHR '':'' \<notin> set (mode_word m)"
  by (cases m) simp_all

lemma dec_not_none: "positiveInt ''none'' = None" "dec n \<noteq> ''none''"
proof -
  show "positiveInt ''none'' = None" by (simp add: positiveInt_def canonical_dec_def digit_char_def less_eq_char_def)
  show "dec n \<noteq> ''none''" using dec_digits[of n] by (auto simp: digit_char_def less_eq_char_def)
qed

lemma split_field: "c \<notin> set a \<Longrightarrow> split_on c (a @ c # b) = a # split_on c b"
  by (simp add: split_on_append_sep split_on_no_sep)

lemma split_fields_eq:
  "split_on c s = a # p # ps \<Longrightarrow> s = a @ c # join_with c (p # ps)"
  by (metis join_split_on join_with.simps(3))

lemma split_field_one: "split_on c s = [a] \<Longrightarrow> s = a"
  by (metis join_split_on join_with.simps(2))

lemma readMergingAt_write:
  assumes "mergingAtDetail h pr m = Some s"
  shows "readMergingAtDetail s = Some \<lparr>ma_head = h, ma_pr = pr, ma_mode = m\<rparr>"
proof -
  have h: "isHead40 h" using assms by (auto simp: mergingAtDetail_def split: if_splits)
  note nc = hash_no_punct[OF disjI1[OF h]]
  show ?thesis
  proof (cases pr)
    case None
    then have s: "s = MERGING_AT_PREFIX @ h @ CHR '':'' # ''none'' @ CHR '':'' # mode_word m" "m = ModeOff"
      using assms h by (auto simp: mergingAtDetail_def split: if_splits)
    have "split_on (CHR '':'') (h @ CHR '':'' # ''none'' @ CHR '':'' # mode_word m) = [h, ''none'', mode_word m]"
      using split_field[OF conjunct1[OF nc]] split_field[of "CHR '':''" "''none''"] by (simp add: split_on_no_sep)
    then show ?thesis using h None s(2) mode_of_word[of ModeOff] by (simp add: readMergingAtDetail_def s(1))
  next
    case (Some n)
    then have s: "s = MERGING_AT_PREFIX @ h @ CHR '':'' # dec (nat n) @ CHR '':'' # mode_word m" "isPositiveSafe n"
      using assms h by (auto simp: mergingAtDetail_def split: if_splits)
    have "split_on (CHR '':'') (h @ CHR '':'' # dec (nat n) @ CHR '':'' # mode_word m) = [h, dec (nat n), mode_word m]"
      using nc by (simp add: split_field split_on_no_sep)
    then show ?thesis using h Some s(2) by (simp add: readMergingAtDetail_def s(1) dec_not_none positiveInt_dec)
  qed
qed

lemma writeMergingAt_read:
  assumes "readMergingAtDetail s = Some r"
  shows "mergingAtDetail (ma_head r) (ma_pr r) (ma_mode r) = Some s"
proof -
  obtain z where z: "s = MERGING_AT_PREFIX @ z" and
    r: "(case split_on (CHR '':'') z of
        [head, prText, modeText] \<Rightarrow>
          (if \<not> isHead40 head then None
           else case mode_of modeText of
             None \<Rightarrow> None
           | Some mode \<Rightarrow>
               if prText = ''none''
               then (if mode = ModeOff then Some \<lparr>ma_head = head, ma_pr = None, ma_mode = mode\<rparr> else None)
               else case positiveInt prText of
                 None \<Rightarrow> None
               | Some pr \<Rightarrow> Some \<lparr>ma_head = head, ma_pr = Some pr, ma_mode = mode\<rparr>)
      | _ \<Rightarrow> None) = Some r"
    using assms by (auto simp: readMergingAtDetail_def prefix_def split: if_splits)
  then obtain h p m where sp: "split_on (CHR '':'') z = [h, p, m]"
    by (auto split: list.splits)
  then have z': "z = h @ CHR '':'' # p @ CHR '':'' # m"
    using split_fields_eq[OF sp] by simp
  from r sp obtain mo where m: "isHead40 h" "mode_of m = Some mo" by (auto split: if_splits option.splits)
  show ?thesis
  proof (cases "p = ''none''")
    case True
    with r sp m have "mo = ModeOff" "r = \<lparr>ma_head = h, ma_pr = None, ma_mode = mo\<rparr>" by (auto split: if_splits)
    with m True z z' mode_of_Some[OF m(2)] show ?thesis by (simp add: mergingAtDetail_def)
  next
    case False
    with r sp m obtain n where n: "positiveInt p = Some n" "r = \<lparr>ma_head = h, ma_pr = Some n, ma_mode = mo\<rparr>"
      by (auto split: option.splits)
    with m z z' mode_of_Some[OF m(2)] positiveInt_Some[OF n(1)] show ?thesis by (simp add: mergingAtDetail_def)
  qed
qed

text \<open>The writer that goes with a read row.\<close>

definition row_text :: "checks_row_read \<Rightarrow> string option" where
  "row_text r =
     (case (rr_what r, rr_gen r) of
        (Ended w, None) \<Rightarrow> if rr_fp r = None \<and> rr_reading r = None then checksEndDetail (rr_e r) w (rr_shadow r) else None
      | (What w, Some g) \<Rightarrow>
          (case w of
             RStuck \<Rightarrow> if rr_fp r = None then checksRowDetail (rr_e r) g w (rr_reading r) (rr_shadow r) else None
           | _ \<Rightarrow> if rr_reading r = None then checksRowDetail (rr_e r) g w (rr_fp r) (rr_shadow r) else None)
      | _ \<Rightarrow> None)"

lemma read_row_head:
  assumes "isPositiveSafe e"
  shows "readChecksRowDetail (row_head e sh @ CHR '':'' # t) = read_tail sh e (split_on (CHR '':'') t)"
  using assms
  by (cases sh) (simp_all add: readChecksRowDetail_def row_head_def CHECKS_ROW_PREFIX_def CHECKS_SHADOW_ROW_PREFIX_def
      split_field positiveInt_dec)

lemma read_row_head_conv:
  assumes "readChecksRowDetail s = Some r"
  shows "\<exists>sh e t. isPositiveSafe e \<and> s = row_head e sh @ CHR '':'' # t \<and> read_tail sh e (split_on (CHR '':'') t) = Some r"
proof -
  obtain sh z where z: "s = (if sh then CHECKS_SHADOW_ROW_PREFIX else CHECKS_ROW_PREFIX) @ z"
    "(case split_on (CHR '':'') z of [] \<Rightarrow> None
      | eText # parts \<Rightarrow> (case positiveInt eText of None \<Rightarrow> None | Some e \<Rightarrow> read_tail sh e parts)) = Some r"
  proof -
    consider "starts_with s CHECKS_ROW_PREFIX" | "\<not> starts_with s CHECKS_ROW_PREFIX" "starts_with s CHECKS_SHADOW_ROW_PREFIX"
      using assms by (force simp: readChecksRowDetail_def split: if_splits)
    then show thesis
      by cases (use assms that[of False] that[of True] in \<open>auto simp: readChecksRowDetail_def prefix_def\<close>)
  qed
  then obtain et parts e where e: "split_on (CHR '':'') z = et # parts" "positiveInt et = Some e" "read_tail sh e parts = Some r"
    by (auto split: list.splits option.splits)
  from e(3) obtain p ps where parts: "parts = p # ps" by (cases parts) (simp_all add: read_tail_def Let_def)
  from split_fields_eq[OF e(1)[unfolded parts]] have zz: "z = et @ CHR '':'' # join_with (CHR '':'') parts" by (simp add: parts)
  have js: "split_on (CHR '':'') (join_with (CHR '':'') parts) = parts"
  proof -
    have "CHR '':'' \<notin> set et" using e(1) set_split_on[of et "CHR '':''" z] by simp
    from split_field[OF this] e(1) zz show ?thesis by simp
  qed
  show ?thesis
    using z(1) e(2,3) positiveInt_Some[OF e(2)] zz js
    by (intro exI[of _ sh] exI[of _ e] exI[of _ "join_with (CHR '':'') parts"]) (simp add: row_head_def)
qed

lemma stuck_reading_no_colon: "isStuckReading s \<Longrightarrow> CHR '':'' \<notin> set s"
  using hash_no_punct
  by (fastforce simp: isStuckReading_def cut_at_Some STUCK_READING_WORDS_def split: if_splits option.splits)

lemma read_row_write:
  assumes "row_text r = Some s"
  shows "readChecksRowDetail s = Some r"
proof (cases "rr_what r")
  case (Ended w)
  with assms have "rr_gen r = None" "rr_fp r = None" "rr_reading r = None" "isPositiveSafe (rr_e r)"
    "s = row_head (rr_e r) (rr_shadow r) @ CHR '':'' # end_text w"
    by (auto simp: row_text_def checksEndDetail_def split: option.splits if_splits)
  with Ended show ?thesis
    by (cases w; cases r) (simp_all add: read_row_head read_tail_def split_on_no_sep Let_def)
next
  case (What w)
  with assms obtain g where g: "rr_gen r = Some g" by (auto simp: row_text_def split: option.splits)
  with assms What have e: "isPositiveSafe (rr_e r)" "isNonNegativeSafe g"
    by (auto simp: row_text_def checksRowDetail_def split: row_what.splits if_splits)
  let ?h = "row_head (rr_e r) (rr_shadow r) @ CHR '':'' # dec (nat g) @ CHR '':'' # []"
  show ?thesis
  proof (cases w)
    case ROpen
    with assms What g e have "s = ?h @ ''open''" "rr_fp r = None" "rr_reading r = None"
      by (auto simp: row_text_def checksRowDetail_def split: if_splits)
    with What g e ROpen show ?thesis
      by (cases r) (simp add: read_row_head read_tail_def split_field split_on_no_sep nonNegativeInt_dec Let_def)
  next
    case RGreen
    with assms What g e obtain fp where "s = ?h @ ''green@'' @ fp" "rr_fp r = Some fp" "isFp12 fp" "rr_reading r = None"
      by (auto simp: row_text_def checksRowDetail_def split: if_splits option.splits)
    with What g e RGreen hash_no_punct[OF disjI2, of fp] cut_at_append[of "CHR ''@''" "''green''" fp] show ?thesis
      by (cases r) (simp add: read_row_head read_tail_def split_field split_on_no_sep nonNegativeInt_dec Let_def)
  next
    case RRed
    with assms What g e obtain fp where "s = ?h @ ''red@'' @ fp" "rr_fp r = Some fp" "isFp12 fp" "rr_reading r = None"
      by (auto simp: row_text_def checksRowDetail_def split: if_splits option.splits)
    with What g e RRed hash_no_punct[OF disjI2, of fp] cut_at_append[of "CHR ''@''" "''red''" fp] show ?thesis
      by (cases r) (simp add: read_row_head read_tail_def split_field split_on_no_sep nonNegativeInt_dec Let_def)
  next
    case RStuck
    with assms What g e obtain x where x: "s = ?h @ ''stuck:'' @ x" "rr_reading r = Some x" "isStuckReading x" "rr_fp r = None"
      by (auto simp: row_text_def checksRowDetail_def split: if_splits option.splits)
    with What g e RStuck stuck_reading_no_colon[OF x(3)] split_field[of "CHR '':''" "''stuck''" x] show ?thesis
      by (cases r) (simp add: read_row_head read_tail_def split_field split_on_no_sep nonNegativeInt_dec Let_def)
  qed
qed

lemma join_with_no_sep: "c \<notin> set (join_with c (x # xs)) \<Longrightarrow> xs = []"
  by (cases xs) auto

lemma write_read_tail:
  assumes "read_tail sh e (split_on (CHR '':'') t) = Some r" "isPositiveSafe e"
  shows "row_text r = Some (row_head e sh @ CHR '':'' # t)"
proof (cases "split_on (CHR '':'') t")
  case Nil
  then show ?thesis by simp
next
  case (Cons g rest)
  show ?thesis
  proof (cases rest)
    case Nil
    with Cons have t: "t = g" using split_field_one by metis
    with assms Cons Nil consider "g = ''moved''" "r = \<lparr>rr_shadow = sh, rr_e = e, rr_gen = None, rr_what = Ended EMoved, rr_fp = None, rr_reading = None\<rparr>"
      | "g = ''left''" "r = \<lparr>rr_shadow = sh, rr_e = e, rr_gen = None, rr_what = Ended ELeft, rr_fp = None, rr_reading = None\<rparr>"
      by (auto simp: read_tail_def split: if_splits)
    then show ?thesis by cases (simp_all add: t row_text_def checksEndDetail_def assms(2))
  next
    case (Cons x xs)
    note sp = \<open>split_on (CHR '':'') t = g # rest\<close>[unfolded Cons]
    define tail where "tail = join_with (CHR '':'') (x # xs)"
    have t: "t = g @ CHR '':'' # tail" using split_fields_eq[OF sp] by (simp add: tail_def)
    have gc: "CHR '':'' \<notin> set g" using sp set_split_on[of g "CHR '':''" t] by simp
    have xc: "CHR '':'' \<notin> set x" using sp set_split_on[of x "CHR '':''" t] by simp
    have xs: "split_on (CHR '':'') tail = x # xs" using split_field[OF gc] sp t by simp
    obtain n where n: "nonNegativeInt g = Some n"
      using assms(1) sp by (auto simp: read_tail_def Let_def split: option.splits)
    note g = nonNegativeInt_Some[OF n]
    note rd = assms(1)[unfolded sp read_tail_def Let_def, simplified n, simplified, folded tail_def]
    show ?thesis
    proof (cases "tail = ''open''")
      case True
      with rd have "r = \<lparr>rr_shadow = sh, rr_e = e, rr_gen = Some n, rr_what = What ROpen, rr_fp = None, rr_reading = None\<rparr>"
        by (simp add: n)
      then show ?thesis using g assms(2) by (simp add: row_text_def checksRowDetail_def t True Let_def)
    next
      case no: False
      show ?thesis
      proof (cases "xs = []")
        case True
        with rd no obtain w fp where w: "cut_at (CHR ''@'') tail = Some (w, fp)" "isFp12 fp" "w = ''green'' \<or> w = ''red''"
          "r = \<lparr>rr_shadow = sh, rr_e = e, rr_gen = Some n, rr_what = What (if w = ''green'' then RGreen else RRed),
             rr_fp = Some fp, rr_reading = None\<rparr>"
          by (auto simp: n split: option.splits if_splits)
        then have "tail = w @ CHR ''@'' # fp" by (simp add: cut_at_Some)
        then show ?thesis using g assms(2) w by (auto simp: row_text_def checksRowDetail_def t Let_def)
      next
        case False
        with rd no have st: "x = ''stuck''" "isStuckReading (join_with (CHR '':'') xs)"
          "r = \<lparr>rr_shadow = sh, rr_e = e, rr_gen = Some n, rr_what = What RStuck, rr_fp = None,
             rr_reading = Some (join_with (CHR '':'') xs)\<rparr>"
          by (auto simp: n split: if_splits)
        from False have "tail = ''stuck'' @ CHR '':'' # join_with (CHR '':'') xs"
          by (cases xs) (simp_all add: tail_def st(1))
        then show ?thesis using g assms(2) st by (simp add: row_text_def checksRowDetail_def t Let_def)
      qed
    qed
  qed
qed

lemma write_row_read: "readChecksRowDetail s = Some r \<Longrightarrow> row_text r = Some s"
  using read_row_head_conv[of s r] write_read_tail by blast

text \<open>C30: the details of the landing lane have one spelling. A transition detail reads back as the
  episode it was written for, and every detail the reader accepts is exactly the one the writer
  writes for what was read; the same holds for every row of an episode, shadow or live, opened,
  green, red, stuck, moved or left.\<close>

theorem landing_detail_round_trip:
  "(readMergingAtDetail s = Some \<lparr>ma_head = h, ma_pr = pr, ma_mode = m\<rparr> \<longleftrightarrow> mergingAtDetail h pr m = Some s) \<and>
   (readChecksRowDetail s = Some r \<longleftrightarrow> row_text r = Some s)"
  using readMergingAt_write[of h pr m s] writeMergingAt_read[of s "\<lparr>ma_head = h, ma_pr = pr, ma_mode = m\<rparr>"]
    read_row_write[of r s] write_row_read[of s r]
  by auto

end
