(* ===== verification/Landing.thy ===== *)
theory Landing
  imports LandingWords
begin

text \<open>
  The deciders of the landing lane (\<open>server/src/coord/landing.ts\<close>): the notice a measured line
  asks for and the next step of that notice, the verdict of the required checks, the fold of
  an episode's generations, the act a line asks for, the mode and the gate. The digest is a
  parameter. The text of a mail or a record is prose: it is kept here as the values it is built
  from (\<open>brief\<close> and \<open>notice_body\<close>), and so are the log details of a read that failed.
\<close>

section \<open>What a line asks for\<close>

datatype landing_notice = NDequeued | NMerged

text \<open>The queue word: only \<open>dequeued\<close> is told apart from the others.\<close>

record queue_read =
  qr_state :: string
  qr_at :: "string option"

record landing_line =
  ll_sessionId :: string
  ll_workspace :: string
  ll_number :: "int option"
  ll_phase :: "string option"
  ll_queue :: "queue_read option"

type_synonym latch_key = string

text \<open>\<open>String(n)\<close> of an integer.\<close>

definition dec_int :: "int \<Rightarrow> string" where
  "dec_int n = (if n < 0 then CHR ''-'' # dec (nat (- n)) else dec (nat n))"

definition dequeuedSubject :: "int \<Rightarrow> string option \<Rightarrow> string" where
  "dequeuedSubject pr at = ''dequeued:#'' @ dec_int pr @ (case at of None \<Rightarrow> [] | Some t \<Rightarrow> ''@'' @ t)"

definition mergedSubject :: "int \<Rightarrow> string" where
  "mergedSubject pr = ''merged:#'' @ dec_int pr"

record landing_ask =
  la_notice :: landing_notice
  la_key :: latch_key
  la_number :: int
  la_at :: "string option"
  la_sessionId :: string
  la_workspace :: string

definition landingAsk :: "landing_line \<Rightarrow> latch_key set \<Rightarrow> landing_ask option" where
  "landingAsk l latched =
     (let dequeued = (case ll_queue l of None \<Rightarrow> False | Some q \<Rightarrow> qr_state q = ''dequeued'') in
      case ll_number l of
        None \<Rightarrow> None
      | Some n \<Rightarrow>
          if \<not> dequeued \<and> ll_phase l \<noteq> Some ''merged'' then None
          else
            let at = (if dequeued then (case ll_queue l of None \<Rightarrow> None | Some q \<Rightarrow> qr_at q) else None);
                notice = (if dequeued then NDequeued else NMerged);
                key = ll_sessionId l @ ''#'' @ dec_int n @ '':'' @ (if dequeued then ''dequeued'' else ''merged'') @ ''@'' @
                  (case at of None \<Rightarrow> [] | Some t \<Rightarrow> t) in
            if key \<in> latched then None
            else Some \<lparr>la_notice = notice, la_key = key, la_number = n, la_at = at,
                       la_sessionId = ll_sessionId l, la_workspace = ll_workspace l\<rparr>)"

section \<open>The next step of a notice\<close>

datatype 'a read_result = ReadOk 'a | ReadFailed

datatype told_who = NoCoordinator | Coordinator string | CoordinatorUnread

record landing_facts =
  lf_runs :: "int option read_result option"
  lf_coordinator :: "told_who option"
  lf_runState :: "string option read_result option"
  lf_told :: "bool option"
  lf_head :: "string option option"

definition no_facts :: landing_facts where
  "no_facts = \<lparr>lf_runs = None, lf_coordinator = None, lf_runState = None, lf_told = None, lf_head = None\<rparr>"

datatype brief = DequeueBrief string int "string option" | MergedBrief string int "string option"

record landing_mail =
  lm_toId :: string
  lm_runId :: int
  lm_subject :: string
  lm_body :: brief

text \<open>The record's body names the PR, the removal's time and the coordinator mailed.\<close>

type_synonym notice_body = "int \<times> string option \<times> string option"

record landing_record =
  lr_workspace :: string
  lr_body :: notice_body
  lr_runId :: "int option"
  lr_dedupeKey :: latch_key

datatype landing_step =
  ReadRuns
| ReadCoordinator int
| ReadRunState int
| ReadToldMail int string string
| ReadHead int
| ReadToldFeed latch_key notice_body
| Defer
| Latch
| Deliver "landing_mail option" "landing_record option"

definition merged_step :: "landing_ask \<Rightarrow> int option \<Rightarrow> string option \<Rightarrow> landing_facts \<Rightarrow> landing_step" where
  "merged_step a run coordinator f =
     (case (run, coordinator) of
        (Some r, Some c) \<Rightarrow>
          (case lf_runState f of
             None \<Rightarrow> ReadRunState r
           | Some ReadFailed \<Rightarrow> Defer
           | Some (ReadOk st) \<Rightarrow>
               if st \<noteq> Some ''merging'' then Latch
               else
                 (case lf_told f of
                    None \<Rightarrow> ReadToldMail r c (mergedSubject (la_number a))
                  | Some True \<Rightarrow> Latch
                  | Some False \<Rightarrow>
                      (case lf_head f of
                         None \<Rightarrow> ReadHead r
                       | Some h \<Rightarrow> Deliver (Some \<lparr>lm_toId = c, lm_runId = r, lm_subject = mergedSubject (la_number a),
                             lm_body = MergedBrief (la_sessionId a) (la_number a) h\<rparr>) None)))
      | _ \<Rightarrow> Latch)"

definition dequeued_deliver ::
  "landing_ask \<Rightarrow> int option \<Rightarrow> string option \<Rightarrow> string option \<Rightarrow> landing_step" where
  "dequeued_deliver a run coordinator head =
     Deliver
       (case (run, coordinator) of
          (Some r, Some c) \<Rightarrow> Some \<lparr>lm_toId = c, lm_runId = r, lm_subject = dequeuedSubject (la_number a) (la_at a),
             lm_body = DequeueBrief (la_sessionId a) (la_number a) head\<rparr>
        | _ \<Rightarrow> None)
       (Some \<lparr>lr_workspace = la_workspace a, lr_body = (la_number a, la_at a, coordinator), lr_runId = run,
              lr_dedupeKey = la_key a\<rparr>)"

definition dequeued_step :: "landing_ask \<Rightarrow> int option \<Rightarrow> string option \<Rightarrow> landing_facts \<Rightarrow> landing_step" where
  "dequeued_step a run coordinator f =
     (case lf_told f of
        None \<Rightarrow>
          (case (run, coordinator) of
             (Some r, Some c) \<Rightarrow> ReadToldMail r c (dequeuedSubject (la_number a) (la_at a))
           | _ \<Rightarrow> ReadToldFeed (la_key a) (la_number a, la_at a, coordinator))
      | Some True \<Rightarrow> Latch
      | Some False \<Rightarrow>
          (case (run, coordinator) of
             (Some r, Some c) \<Rightarrow>
               (case lf_runState f of
                  None \<Rightarrow> ReadRunState r
                | Some ReadFailed \<Rightarrow> Defer
                | Some (ReadOk st) \<Rightarrow>
                    if st = Some ''merging''
                    then (case lf_head f of None \<Rightarrow> ReadHead r | Some h \<Rightarrow> dequeued_deliver a run coordinator h)
                    else dequeued_deliver a run coordinator None)
           | _ \<Rightarrow> dequeued_deliver a run coordinator None))"

definition landingVerdict :: "landing_ask \<Rightarrow> landing_facts \<Rightarrow> landing_step" where
  "landingVerdict a f =
     (case lf_runs f of
        None \<Rightarrow> ReadRuns
      | Some ReadFailed \<Rightarrow> Defer
      | Some (ReadOk run) \<Rightarrow>
          (case (run, lf_coordinator f) of
             (Some r, None) \<Rightarrow> ReadCoordinator r
           | (_, c) \<Rightarrow>
               let who = (case run of None \<Rightarrow> NoCoordinator | Some _ \<Rightarrow> (case c of None \<Rightarrow> NoCoordinator | Some w \<Rightarrow> w)) in
               (case who of
                  CoordinatorUnread \<Rightarrow> Defer
                | _ \<Rightarrow>
                    let coordinator = (case who of Coordinator x \<Rightarrow> Some x | _ \<Rightarrow> None) in
                    if la_notice a = NMerged then merged_step a run coordinator f
                    else dequeued_step a run coordinator f)))"

section \<open>The loop of a sweep\<close>

text \<open>\<open>sweepLanding\<close> in \<open>server/src/watch.ts\<close>: what each read of the loop would answer, the read a
  step asks for recorded in the facts (\<open>None\<close>: the step is an end), and the loop.\<close>

record landing_env =
  en_runs :: "int option read_result"
  en_coordinator :: "int \<Rightarrow> told_who"
  en_runState :: "int \<Rightarrow> string option read_result"
  en_toldMail :: "int \<Rightarrow> string \<Rightarrow> string \<Rightarrow> bool"
  en_head :: "int \<Rightarrow> string option"
  en_toldFeed :: "latch_key \<Rightarrow> notice_body \<Rightarrow> bool"

fun landing_read :: "landing_env \<Rightarrow> landing_step \<Rightarrow> landing_facts \<Rightarrow> landing_facts option" where
  "landing_read env ReadRuns f = Some (f\<lparr>lf_runs := Some (en_runs env)\<rparr>)"
| "landing_read env (ReadCoordinator r) f = Some (f\<lparr>lf_coordinator := Some (en_coordinator env r)\<rparr>)"
| "landing_read env (ReadRunState r) f = Some (f\<lparr>lf_runState := Some (en_runState env r)\<rparr>)"
| "landing_read env (ReadToldMail r c s) f = Some (f\<lparr>lf_told := Some (en_toldMail env r c s)\<rparr>)"
| "landing_read env (ReadHead r) f = Some (f\<lparr>lf_head := Some (en_head env r)\<rparr>)"
| "landing_read env (ReadToldFeed k b) f = Some (f\<lparr>lf_told := Some (en_toldFeed env k b)\<rparr>)"
| "landing_read env Defer f = None"
| "landing_read env Latch f = None"
| "landing_read env (Deliver m r) f = None"

definition miss :: "'a option \<Rightarrow> nat" where
  "miss x = (case x of None \<Rightarrow> 1 | Some _ \<Rightarrow> 0)"

definition missing_facts :: "landing_facts \<Rightarrow> nat" where
  "missing_facts f = miss (lf_runs f) + miss (lf_coordinator f) + miss (lf_runState f) + miss (lf_told f) + miss (lf_head f)"

lemma miss_simps [simp]: "miss None = 1" "miss (Some x) = 0"
  by (simp_all add: miss_def)

text \<open>Every read a step asks for is one whose fact is missing.\<close>

fun asks_missing :: "landing_facts \<Rightarrow> landing_step \<Rightarrow> bool" where
  "asks_missing f ReadRuns \<longleftrightarrow> lf_runs f = None"
| "asks_missing f (ReadCoordinator r) \<longleftrightarrow> lf_coordinator f = None"
| "asks_missing f (ReadRunState r) \<longleftrightarrow> lf_runState f = None"
| "asks_missing f (ReadToldMail r c s) \<longleftrightarrow> lf_told f = None"
| "asks_missing f (ReadHead r) \<longleftrightarrow> lf_head f = None"
| "asks_missing f (ReadToldFeed k b) \<longleftrightarrow> lf_told f = None"
| "asks_missing f Defer \<longleftrightarrow> True"
| "asks_missing f Latch \<longleftrightarrow> True"
| "asks_missing f (Deliver m r) \<longleftrightarrow> True"

lemma merged_step_missing: "asks_missing f (merged_step a run c f)"
  unfolding merged_step_def by (simp split: option.split read_result.split bool.split)

lemma dequeued_deliver_missing [simp]: "asks_missing f (dequeued_deliver a run c h)"
  by (simp add: dequeued_deliver_def)

lemma dequeued_step_missing: "asks_missing f (dequeued_step a run c f)"
  unfolding dequeued_step_def by (simp split: option.split read_result.split bool.split)

lemma landingVerdict_missing: "asks_missing f (landingVerdict a f)"
  unfolding landingVerdict_def Let_def
  by (simp add: merged_step_missing dequeued_step_missing split: option.split read_result.split told_who.split)

lemma landing_read_missing:
  "landing_read env (landingVerdict a f) f = Some f' \<Longrightarrow> missing_facts f' < missing_facts f"
  using landingVerdict_missing[of f a]
  by (cases "landingVerdict a f") (clarsimp simp: missing_facts_def)+

function landing_loop :: "landing_env \<Rightarrow> landing_ask \<Rightarrow> landing_facts \<Rightarrow> landing_step" where
  "landing_loop env a f =
     (case landing_read env (landingVerdict a f) f of
        None \<Rightarrow> landingVerdict a f
      | Some f' \<Rightarrow> landing_loop env a f')"
  by pat_completeness auto

termination
  by (relation "measure (\<lambda>(env, a, f). missing_facts f)") (auto dest: landing_read_missing)

declare landing_loop.simps [simp del]

text \<open>One line of a sweep: what is delivered and the latch afterwards.\<close>

definition sweep_line ::
  "landing_env \<Rightarrow> landing_line \<Rightarrow> latch_key set \<Rightarrow> (landing_mail option \<times> landing_record option) option \<times> latch_key set" where
  "sweep_line env l latched =
     (case landingAsk l latched of
        None \<Rightarrow> (None, latched)
      | Some a \<Rightarrow>
          (case landing_loop env a no_facts of
             Deliver m r \<Rightarrow> (Some (m, r), insert (la_key a) latched)
           | Latch \<Rightarrow> (None, insert (la_key a) latched)
           | _ \<Rightarrow> (None, latched)))"

section \<open>The required verdict\<close>

record pr_required =
  pr_name :: string
  pr_state :: string
  pr_checkId :: "nat option"
  pr_runId :: "nat option"

record pr_landing_line =
  pl_bound :: bool
  pl_number :: "int option"
  pl_state :: "string option"
  pl_isDraft :: bool
  pl_head :: "string option"
  pl_required :: "pr_required list"
  pl_requiredCut :: bool
  pl_rulesNamed :: "string list"
  pl_protectionNamed :: "string list"
  pl_pinnedNames :: "string list"
  pl_landedInTrain :: bool
  pl_unmeasured :: "string list"

text \<open>\<open>toLowerCase\<close> on code units under 256.\<close>

definition lower_char :: "char \<Rightarrow> char" where
  "lower_char c =
     (let n = of_char c :: nat in
      if (65 \<le> n \<and> n \<le> 90) \<or> (192 \<le> n \<and> n \<le> 222 \<and> n \<noteq> 215) then char_of (n + 32) else c)"

definition RUN_RUNNING :: "string list" where
  "RUN_RUNNING = ['''', ''pending'', ''queued'', ''in_progress'', ''waiting'', ''requested'']"

definition RUN_PASSING :: "string list" where
  "RUN_PASSING = [''success'', ''neutral'', ''skipped'']"

definition contextWord :: "pr_required \<Rightarrow> checks_word" where
  "contextWord r =
     (let st = map lower_char (pr_state r) in
      if pr_checkId r \<noteq> None then
        (if st \<in> set RUN_RUNNING then CPending else if st \<in> set RUN_PASSING then CGreen else CRed)
      else if st = ''success'' then CGreen
      else if st = ''failure'' \<or> st = ''error'' then CRed
      else if st = ''pending'' \<or> st = ''expected'' \<or> st = '''' then CPending
      else CUnmeasured)"

text \<open>\<open>REQUIRED_CHECKS_PRECEDENCE.indexOf(w)\<close>: every word is in the list.\<close>

definition precedence :: "checks_word \<Rightarrow> nat" where
  "precedence w = length (takeWhile (\<lambda>x. x \<noteq> w) REQUIRED_CHECKS_PRECEDENCE)"

definition stronger :: "checks_word \<Rightarrow> checks_word \<Rightarrow> checks_word" where
  "stronger a b = (if precedence a \<le> precedence b then a else b)"

record required_verdict =
  rv_word :: checks_word
  rv_fp :: string
  rv_failing :: "(string \<times> nat option) list"

text \<open>\<open>String(x)\<close> of a number or null.\<close>

definition js_string :: "nat option \<Rightarrow> string" where
  "js_string x = (case x of None \<Rightarrow> ''null'' | Some n \<Rightarrow> dec n)"

definition nl :: char where "nl = char_of (10 :: nat)"

text \<open>The failing contexts, once per name and run, in the order of the line.\<close>

fun failing_of :: "pr_required list \<Rightarrow> string set \<Rightarrow> (string \<times> nat option) list" where
  "failing_of [] seen = []"
| "failing_of (r # rs) seen =
     (let key = pr_name r @ [nl] @ js_string (pr_runId r) in
      if contextWord r = CRed \<and> key \<notin> seen
      then (pr_name r, pr_runId r) # failing_of rs (insert key seen)
      else failing_of rs seen)"

definition name_word :: "pr_landing_line \<Rightarrow> string \<Rightarrow> checks_word" where
  "name_word line name =
     (let own = filter (\<lambda>r. pr_name r = name) (pl_required line);
          w = foldl (\<lambda>w r. stronger w (contextWord r)) (if own = [] then CNotReported else CGreen) own in
      if own \<noteq> [] \<and> name \<in> set (pl_pinnedNames line) \<and> list_all (\<lambda>r. pr_checkId r = None) own
      then stronger w CUnverifiable else w)"

definition required_names :: "pr_landing_line \<Rightarrow> string list" where
  "required_names line =
     foldl push_new [] (map pr_name (pl_required line) @ pl_rulesNamed line @ pl_protectionNamed line)"

definition requiredChecksVerdict :: "pr_landing_line \<Rightarrow> (string \<Rightarrow> string) \<Rightarrow> required_verdict" where
  "requiredChecksVerdict line digest =
     (let pairs = sort (map (\<lambda>r. pr_name r @ ''='' @ js_string (pr_checkId r))
                        (filter (\<lambda>r. pr_checkId r \<noteq> None) (pl_required line)));
          fp = take 12 (digest (join_with nl pairs));
          failing = sort_key fst (failing_of (pl_required line) {}) in
      if \<not> pl_bound line \<or> length (pl_unmeasured line) > 0 \<or> pl_requiredCut line
      then \<lparr>rv_word = CUnmeasured, rv_fp = fp, rv_failing = failing\<rparr>
      else \<lparr>rv_word = foldl (\<lambda>w name. stronger w (name_word line name)) CGreen (required_names line),
            rv_fp = fp, rv_failing = failing\<rparr>)"

section \<open>The edge fold\<close>

record checks_row =
  cr_gen :: int
  cr_what :: row_what
  cr_fp :: "string option"
  cr_reading :: "string option"
  cr_atMs :: int

record checks_read =
  ck_word :: checks_word
  ck_fp :: string

record checks_mail_ask =
  cm_gen :: int
  cm_word :: checks_mail_word
  cm_cause :: "stuck_cause option"

record checks_fold =
  cf_write :: "checks_row list"
  cf_mail :: "checks_mail_ask option"
  cf_dueAtMs :: "int option"

fun checks_text :: "checks_word \<Rightarrow> string" where
  "checks_text CGreen = ''green''"
| "checks_text CRed = ''red''"
| "checks_text CPending = ''pending''"
| "checks_text CNotReported = ''not-reported''"
| "checks_text CUnverifiable = ''unverifiable''"
| "checks_text CUnmeasured = ''unmeasured''"

definition readingOf :: "checks_read option \<Rightarrow> string" where
  "readingOf read =
     (case read of
        None \<Rightarrow> ''unread''
      | Some r \<Rightarrow>
          if \<not> isFp12 (ck_fp r) then ''unread''
          else if ck_word r \<in> {CPending, CNotReported, CUnverifiable, CRed} then checks_text (ck_word r) @ ''@'' @ ck_fp r
          else ''unread'')"

definition parseReading :: "string option \<Rightarrow> string option \<times> string option" where
  "parseReading reading =
     (case reading of
        None \<Rightarrow> (None, None)
      | Some s \<Rightarrow>
          if s = ''unread'' then (None, None)
          else (case cut_at (CHR ''@'') s of None \<Rightarrow> (None, None) | Some (w, fp) \<Rightarrow> (Some w, Some fp)))"

definition gen_of :: "checks_row list \<Rightarrow> int" where
  "gen_of rows = int (length (filter (\<lambda>r. cr_what r = ROpen) rows)) - 1"

definition open_of :: "checks_row list \<Rightarrow> checks_row option" where
  "open_of rows = find (\<lambda>r. cr_gen r = gen_of rows \<and> cr_what r = ROpen) rows"

definition edge_of :: "checks_row list \<Rightarrow> checks_row option" where
  "edge_of rows = find (\<lambda>r. cr_gen r = gen_of rows \<and> (cr_what r = RGreen \<or> cr_what r = RRed)) rows"

definition stuck_of :: "checks_row list \<Rightarrow> checks_row option" where
  "stuck_of rows = find (\<lambda>r. cr_gen r = gen_of rows \<and> cr_what r = RStuck) rows"

definition dueOf :: "checks_row list \<Rightarrow> int option" where
  "dueOf rows =
     (case (stuck_of rows, open_of rows) of
        (None, Some op) \<Rightarrow>
          (case edge_of rows of
             Some e \<Rightarrow> if cr_what e = RRed then Some (cr_atMs e + LANDING_CHECKS_STUCK_MS) else None
           | None \<Rightarrow> Some (cr_atMs op + LANDING_CHECKS_STUCK_MS))
      | _ \<Rightarrow> None)"

definition open_row :: "int \<Rightarrow> int \<Rightarrow> checks_row" where
  "open_row gen at = \<lparr>cr_gen = gen, cr_what = ROpen, cr_fp = None, cr_reading = None, cr_atMs = at\<rparr>"

definition settled_word :: "checks_word \<Rightarrow> bool" where
  "settled_word w \<longleftrightarrow> w = CGreen \<or> w = CRed"

definition settle_row :: "checks_read \<Rightarrow> int \<Rightarrow> int \<Rightarrow> checks_row" where
  "settle_row read gen now =
     \<lparr>cr_gen = gen, cr_what = (if ck_word read = CGreen then RGreen else RRed), cr_fp = Some (ck_fp read),
      cr_reading = None, cr_atMs = now\<rparr>"

definition settle_mail :: "checks_read \<Rightarrow> int \<Rightarrow> checks_mail_ask" where
  "settle_mail read gen = \<lparr>cm_gen = gen, cm_word = (if ck_word read = CGreen then MGreen else MRed), cm_cause = None\<rparr>"

text \<open>What an answered read writes over the rows so far, and the mail it asks for: nothing, a new
  generation, a new generation settled at once, or the current one settled.\<close>

definition answer_rows :: "checks_row list \<Rightarrow> checks_read \<Rightarrow> int \<Rightarrow> checks_row list \<times> checks_mail_ask option" where
  "answer_rows rows read now =
     (let w = ck_word read; gen = gen_of rows; nxt = gen + 1;
          opened = ([open_row nxt now], None);
          opened_settled = ([open_row nxt now, settle_row read nxt now], Some (settle_mail read nxt)) in
      case edge_of rows of
        None \<Rightarrow>
          (case stuck_of rows of
             Some st \<Rightarrow>
               let (srWord, srFp) = parseReading (cr_reading st) in
               if settled_word w then opened_settled
               else if (w = CPending \<and> srWord \<noteq> Some ''pending'') \<or>
                       ((w = CPending \<or> w = CNotReported) \<and> Some (ck_fp read) \<noteq> srFp) then opened
               else ([], None)
           | None \<Rightarrow>
               if settled_word w then ([settle_row read gen now], Some (settle_mail read gen)) else ([], None))
      | Some e \<Rightarrow>
          if w = CPending \<or> w = CNotReported then opened
          else if settled_word w \<and> (w \<noteq> (if cr_what e = RGreen then CGreen else CRed) \<or> Some (ck_fp read) \<noteq> cr_fp e)
          then opened_settled
          else ([], None))"

text \<open>The bound, when no mail is due yet.\<close>

definition stuck_rows ::
  "checks_row list \<Rightarrow> checks_read option \<Rightarrow> int \<Rightarrow> stuck_cause option \<Rightarrow> checks_row list \<times> checks_mail_ask option" where
  "stuck_rows rows answered now forced =
     (case (open_of rows, stuck_of rows) of
        (Some op, None) \<Rightarrow>
          if (case edge_of rows of Some e \<Rightarrow> cr_what e = RGreen | None \<Rightarrow> False) then ([], None)
          else
            let unverifiable = edge_of rows = None \<and>
                  (case answered of Some r \<Rightarrow> ck_word r = CUnverifiable | None \<Rightarrow> False);
                due = (case edge_of rows of Some e \<Rightarrow> cr_atMs e + LANDING_CHECKS_STUCK_MS
                                          | None \<Rightarrow> cr_atMs op + LANDING_CHECKS_STUCK_MS) in
            if unverifiable \<or> now \<ge> due then
              let cause = (if unverifiable then CauseUnverifiable
                           else case forced of Some c \<Rightarrow> c
                                             | None \<Rightarrow> if answered \<noteq> None then CauseTimeout else CauseUnmeasured) in
              ([\<lparr>cr_gen = gen_of rows, cr_what = RStuck, cr_fp = None, cr_reading = Some (readingOf answered),
                 cr_atMs = now\<rparr>],
               Some \<lparr>cm_gen = gen_of rows, cm_word = MStuck, cm_cause = Some cause\<rparr>)
            else ([], None)
      | _ \<Rightarrow> ([], None))"

definition foldChecks ::
  "checks_row list \<Rightarrow> checks_read option \<Rightarrow> int \<Rightarrow> int \<Rightarrow> stuck_cause option \<Rightarrow> checks_fold" where
  "foldChecks rows read now episodeAt forced =
     (let w0 = (if list_ex (\<lambda>r. cr_what r = ROpen) rows then [] else [open_row 0 episodeAt]);
          answered = (case read of Some r \<Rightarrow> if ck_word r \<noteq> CUnmeasured then Some r else None | None \<Rightarrow> None);
          (w1, mail1) = (case answered of None \<Rightarrow> ([], None) | Some r \<Rightarrow> answer_rows (rows @ w0) r now);
          (w2, mail2) = (if mail1 = None then stuck_rows (rows @ w0 @ w1) answered now forced else ([], mail1)) in
      \<lparr>cf_write = w0 @ w1 @ w2, cf_mail = mail2, cf_dueAtMs = dueOf (rows @ w0 @ w1 @ w2)\<rparr>)"

definition checksEdge :: "checks_row list \<Rightarrow> checks_read \<Rightarrow> int \<Rightarrow> int \<Rightarrow> checks_fold" where
  "checksEdge rows read now episodeAt = foldChecks rows (Some read) now episodeAt None"

definition stuckOnly :: "checks_row list \<Rightarrow> int \<Rightarrow> int \<Rightarrow> stuck_cause \<Rightarrow> checks_fold" where
  "stuckOnly rows now episodeAt cause = foldChecks rows None now episodeAt (Some cause)"

section \<open>The act of a line, the mode and the gate\<close>

record landing_episode =
  ep_pr :: int
  ep_head :: string

datatype line_act = ActUnmeasured | ActEdge | ActMoved string | ActLeft left_phase

definition landingLineAct :: "landing_episode \<Rightarrow> pr_landing_line option \<Rightarrow> line_act" where
  "landingLineAct episode line =
     (case line of
        None \<Rightarrow> ActUnmeasured
      | Some l \<Rightarrow>
          if length (pl_unmeasured l) > 0 then ActUnmeasured
          else if \<not> pl_bound l \<or> pl_number l \<noteq> Some (ep_pr episode) then ActLeft LeftUnbound
          else if pl_state l = Some ''MERGED'' \<or> (pl_state l = Some ''CLOSED'' \<and> pl_landedInTrain l) then ActLeft LeftMerged
          else if pl_state l = Some ''CLOSED'' then ActLeft LeftClosed
          else
            (case pl_head l of
               None \<Rightarrow> ActUnmeasured
             | Some h \<Rightarrow>
                 if pl_state l \<noteq> Some ''OPEN'' \<or> \<not> isHead40 h then ActUnmeasured
                 else if pl_isDraft l then ActLeft LeftDraft
                 else if h = ep_head episode then ActEdge else ActMoved h))"

datatype marker_state = MarkerClear | MarkerSet | MarkerUnmeasurable

record switch_reading =
  sw_landing_disabled :: marker_state
  sw_landing_checks_live :: marker_state

definition checksModeAt :: "switch_reading \<Rightarrow> bool \<Rightarrow> int option \<Rightarrow> string option \<Rightarrow> checks_mode" where
  "checksModeAt switches capable prNumber prPhase =
     (if sw_landing_disabled switches \<noteq> MarkerClear \<or> sw_landing_checks_live switches = MarkerUnmeasurable then ModeOff
      else if \<not> capable \<or> prNumber = None \<or> prPhase \<noteq> Some ''open'' then ModeOff
      else if sw_landing_checks_live switches = MarkerSet then ModeLive else ModeShadow)"

datatype checks_gate = GateEnabled | GateDisabled | GateUnmeasurable

definition checksGate :: "switch_reading \<Rightarrow> checks_gate" where
  "checksGate switches =
     (case sw_landing_disabled switches of
        MarkerSet \<Rightarrow> GateDisabled
      | MarkerUnmeasurable \<Rightarrow> GateUnmeasurable
      | MarkerClear \<Rightarrow> GateEnabled)"

end
