(* ===== verification/LandingProps.thy ===== *)
theory LandingProps
  imports Landing
begin

text \<open>
  What the landing lane promises: which notice is delivered, to whom and when it is latched;
  when the required checks are green; the shape of an episode's generations, one mail per edge,
  and a bound that never passes in silence.
\<close>

section \<open>The notice of a line\<close>

text \<open>The run and the coordinator that would be told, when every read of them answered.\<close>

definition told_pair :: "landing_env \<Rightarrow> (int \<times> string) option" where
  "told_pair env =
     (case en_runs env of
        ReadOk (Some r) \<Rightarrow> (case en_coordinator env r of Coordinator c \<Rightarrow> Some (r, c) | _ \<Rightarrow> None)
      | _ \<Rightarrow> None)"

definition pair_unread :: "landing_env \<Rightarrow> bool" where
  "pair_unread env \<longleftrightarrow> en_runs env = ReadFailed \<or> (\<exists>r. en_runs env = ReadOk (Some r) \<and> en_coordinator env r = CoordinatorUnread)"

definition run_of :: "landing_env \<Rightarrow> int option" where
  "run_of env = (case en_runs env of ReadOk x \<Rightarrow> x | ReadFailed \<Rightarrow> None)"

definition merged_end :: "landing_env \<Rightarrow> landing_ask \<Rightarrow> landing_step" where
  "merged_end env a =
     (case told_pair env of
        None \<Rightarrow> Latch
      | Some (r, c) \<Rightarrow>
          (case en_runState env r of
             ReadFailed \<Rightarrow> Defer
           | ReadOk st \<Rightarrow>
               if st \<noteq> Some ''merging'' \<or> en_toldMail env r c (mergedSubject (la_number a)) then Latch
               else Deliver (Some \<lparr>lm_toId = c, lm_runId = r, lm_subject = mergedSubject (la_number a),
                      lm_body = MergedBrief (la_sessionId a) (la_number a) (en_head env r)\<rparr>) None))"

definition dequeued_end :: "landing_env \<Rightarrow> landing_ask \<Rightarrow> landing_step" where
  "dequeued_end env a =
     (case told_pair env of
        None \<Rightarrow>
          if en_toldFeed env (la_key a) (la_number a, la_at a, None) then Latch
          else dequeued_deliver a (run_of env) None None
      | Some (r, c) \<Rightarrow>
          if en_toldMail env r c (dequeuedSubject (la_number a) (la_at a)) then Latch
          else
            (case en_runState env r of
               ReadFailed \<Rightarrow> Defer
             | ReadOk st \<Rightarrow> dequeued_deliver a (Some r) (Some c) (if st = Some ''merging'' then en_head env r else None)))"

definition notice_end :: "landing_env \<Rightarrow> landing_ask \<Rightarrow> landing_step" where
  "notice_end env a =
     (if pair_unread env then Defer else if la_notice a = NMerged then merged_end env a else dequeued_end env a)"

text \<open>One unfolding of the loop, guarded so that the facts decide how far it goes.\<close>

lemma loop_read:
  "landing_read env (landingVerdict a f) f = Some f' \<Longrightarrow> landing_loop env a f = landing_loop env a f'"
  by (subst landing_loop.simps) simp

lemma loop_end:
  "landing_read env (landingVerdict a f) f = None \<Longrightarrow> landing_loop env a f = landingVerdict a f"
  by (subst landing_loop.simps) simp

definition facts4 :: "int option \<Rightarrow> told_who option \<Rightarrow> string option read_result option \<Rightarrow> bool option \<Rightarrow> string option option \<Rightarrow> landing_facts" where
  "facts4 run c st told h = \<lparr>lf_runs = Some (ReadOk run), lf_coordinator = c, lf_runState = st, lf_told = told, lf_head = h\<rparr>"

lemma loop_start:
  "en_runs env = ReadFailed \<Longrightarrow> landing_loop env a no_facts = Defer"
  "en_runs env = ReadOk run \<Longrightarrow> landing_loop env a no_facts = landing_loop env a (facts4 run None None None None)"
proof -
  have v: "landingVerdict a no_facts = ReadRuns" by (simp add: landingVerdict_def no_facts_def)
  show "landing_loop env a no_facts = Defer" if "en_runs env = ReadFailed"
    using loop_read[of env a no_facts] loop_end[of env a "no_facts\<lparr>lf_runs := Some ReadFailed\<rparr>"] that v
    by (simp add: landingVerdict_def no_facts_def)
  show "landing_loop env a no_facts = landing_loop env a (facts4 run None None None None)" if "en_runs env = ReadOk run"
    using loop_read[of env a no_facts] that v by (simp add: facts4_def no_facts_def)
qed

lemma verdict_facts4:
  "landingVerdict a (facts4 (Some r) None st told h) = ReadCoordinator r"
  "landingVerdict a (facts4 (Some r) (Some CoordinatorUnread) st told h) = Defer"
  "landingVerdict a (facts4 (Some r) (Some NoCoordinator) st told h) =
     (if la_notice a = NMerged then merged_step a (Some r) None (facts4 (Some r) (Some NoCoordinator) st told h)
      else dequeued_step a (Some r) None (facts4 (Some r) (Some NoCoordinator) st told h))"
  "landingVerdict a (facts4 (Some r) (Some (Coordinator c)) st told h) =
     (if la_notice a = NMerged then merged_step a (Some r) (Some c) (facts4 (Some r) (Some (Coordinator c)) st told h)
      else dequeued_step a (Some r) (Some c) (facts4 (Some r) (Some (Coordinator c)) st told h))"
  "landingVerdict a (facts4 None w st told h) =
     (if la_notice a = NMerged then merged_step a None None (facts4 None w st told h)
      else dequeued_step a None None (facts4 None w st told h))"
  by (simp_all add: landingVerdict_def facts4_def Let_def)

lemma facts4_sel [simp]:
  "lf_runState (facts4 run c st told h) = st" "lf_told (facts4 run c st told h) = told" "lf_head (facts4 run c st told h) = h"
  "(facts4 run c st told h)\<lparr>lf_coordinator := c'\<rparr> = facts4 run c' st told h"
  "(facts4 run c st told h)\<lparr>lf_runState := st'\<rparr> = facts4 run c st' told h"
  "(facts4 run c st told h)\<lparr>lf_told := told'\<rparr> = facts4 run c st told' h"
  "(facts4 run c st told h)\<lparr>lf_head := h'\<rparr> = facts4 run c st told h'"
  by (simp_all add: facts4_def)

lemmas loop_facts4 = landing_loop.simps [of env a "facts4 run c st told h" for env a run c st told h]

lemma merged_loop:
  assumes "la_notice a = NMerged" "en_runs env = ReadOk (Some r)" "en_coordinator env r = Coordinator c"
  shows "landing_loop env a (facts4 (Some r) (Some (Coordinator c)) None None None) = merged_end env a"
proof (cases "en_runState env r")
  case ReadFailed
  with assms show ?thesis by (simp add: loop_facts4 verdict_facts4 merged_step_def merged_end_def told_pair_def)
next
  case (ReadOk st)
  show ?thesis
  proof (cases "st = Some ''merging''")
    case False
    with assms ReadOk show ?thesis by (simp add: loop_facts4 verdict_facts4 merged_step_def merged_end_def told_pair_def)
  next
    case True
    with assms ReadOk show ?thesis
      by (cases "en_toldMail env r c (mergedSubject (la_number a))")
        (simp_all add: loop_facts4 verdict_facts4 merged_step_def merged_end_def told_pair_def)
  qed
qed

lemma dequeued_loop:
  assumes "la_notice a = NDequeued" "en_runs env = ReadOk (Some r)" "en_coordinator env r = Coordinator c"
  shows "landing_loop env a (facts4 (Some r) (Some (Coordinator c)) None None None) = dequeued_end env a"
proof (cases "en_toldMail env r c (dequeuedSubject (la_number a) (la_at a))")
  case True
  with assms show ?thesis by (simp add: loop_facts4 verdict_facts4 dequeued_step_def dequeued_end_def told_pair_def)
next
  case no: False
  show ?thesis
  proof (cases "en_runState env r")
    case ReadFailed
    with assms no show ?thesis by (simp add: loop_facts4 verdict_facts4 dequeued_step_def dequeued_end_def told_pair_def)
  next
    case (ReadOk st)
    with assms no show ?thesis
      by (cases "st = Some ''merging''")
        (simp_all add: loop_facts4 verdict_facts4 dequeued_step_def dequeued_end_def told_pair_def dequeued_deliver_def)
  qed
qed

text \<open>Nobody to tell by mail: no open run, or one without a coordinator.\<close>

lemma untold_loop:
  assumes "told_pair env = None" "run_of env = run" "lf_told f = None"
  shows "la_notice a = NMerged \<Longrightarrow> merged_step a run None f = notice_end env a \<or> pair_unread env"
    "la_notice a = NMerged \<Longrightarrow> merged_step a run None f = Latch"
    "dequeued_step a run None f = ReadToldFeed (la_key a) (la_number a, la_at a, None)"
    "lf_told g = Some b \<Longrightarrow> dequeued_step a run None g = (if b then Latch else dequeued_deliver a run None None)"
  using assms
  by (auto simp: merged_step_def dequeued_step_def notice_end_def merged_end_def split: option.splits bool.splits)

lemma landing_loop_end: "landing_loop env a no_facts = notice_end env a"
proof (cases "en_runs env")
  case ReadFailed
  then show ?thesis by (simp add: loop_start(1) notice_end_def pair_unread_def)
next
  case runs: (ReadOk run)
  note st = loop_start(2)[OF runs, of a]
  show ?thesis
  proof (cases run)
    case None
    with runs have n: "told_pair env = None" "\<not> pair_unread env" "run_of env = None"
      by (simp_all add: told_pair_def pair_unread_def run_of_def)
    show ?thesis
      unfolding st None
      using n by (cases "la_notice a"; cases "en_toldFeed env (la_key a) (la_number a, la_at a, None)")
        (simp_all add: loop_facts4 verdict_facts4 merged_step_def dequeued_step_def notice_end_def merged_end_def
          dequeued_end_def dequeued_deliver_def)
  next
    case (Some r)
    have one: "landing_loop env a (facts4 (Some r) None None None None) =
        landing_loop env a (facts4 (Some r) (Some (en_coordinator env r)) None None None)"
      by (simp add: loop_facts4[of env a "Some r" None] verdict_facts4)
    show ?thesis
    proof (cases "en_coordinator env r")
      case CoordinatorUnread
      with runs Some show ?thesis
        unfolding st Some one by (simp add: loop_facts4 verdict_facts4 notice_end_def pair_unread_def)
    next
      case NoCoordinator
      with runs Some have n: "told_pair env = None" "\<not> pair_unread env" "run_of env = Some r"
        by (simp_all add: told_pair_def pair_unread_def run_of_def)
      show ?thesis
        unfolding st Some one NoCoordinator
        using n by (cases "la_notice a"; cases "en_toldFeed env (la_key a) (la_number a, la_at a, None)")
          (simp_all add: loop_facts4 verdict_facts4 merged_step_def dequeued_step_def notice_end_def merged_end_def
            dequeued_end_def dequeued_deliver_def)
    next
      case (Coordinator c)
      with runs Some have "\<not> pair_unread env" by (simp add: pair_unread_def)
      then show ?thesis
        unfolding st Some one Coordinator
        using merged_loop[OF _ runs[unfolded Some] Coordinator, of a] dequeued_loop[OF _ runs[unfolded Some] Coordinator, of a]
        by (cases "la_notice a") (simp_all add: notice_end_def)
    qed
  qed
qed

text \<open>What the sweep promises of the ask \<open>a\<close> of one line, and the latch afterwards.\<close>

definition line_outcome ::
  "landing_env \<Rightarrow> latch_key set \<Rightarrow> landing_ask \<Rightarrow> (landing_mail option \<times> landing_record option) option \<times> latch_key set" where
  "line_outcome env latched a =
     (if pair_unread env then (None, latched)
       else case told_pair env of
         None \<Rightarrow>
           (if la_notice a = NMerged \<or> en_toldFeed env (la_key a) (la_number a, la_at a, None)
            then None
            else Some (None, Some \<lparr>lr_workspace = la_workspace a, lr_body = (la_number a, la_at a, None),
                   lr_runId = run_of env, lr_dedupeKey = la_key a\<rparr>),
            insert (la_key a) latched)
       | Some (r, c) \<Rightarrow>
           let subject = (if la_notice a = NMerged then mergedSubject (la_number a)
                          else dequeuedSubject (la_number a) (la_at a)) in
           if la_notice a = NDequeued \<and> en_toldMail env r c subject then (None, insert (la_key a) latched)
           else case en_runState env r of
             ReadFailed \<Rightarrow> (None, latched)
           | ReadOk st \<Rightarrow>
               (if la_notice a = NMerged \<and> (st \<noteq> Some ''merging'' \<or> en_toldMail env r c subject) then None
                else Some (Some \<lparr>lm_toId = c, lm_runId = r, lm_subject = subject,
                     lm_body = (if la_notice a = NMerged then MergedBrief (la_sessionId a) (la_number a) (en_head env r)
                       else DequeueBrief (la_sessionId a) (la_number a)
                              (if st = Some ''merging'' then en_head env r else None))\<rparr>,
                   if la_notice a = NMerged then None
                   else Some \<lparr>lr_workspace = la_workspace a, lr_body = (la_number a, la_at a, Some c),
                          lr_runId = Some r, lr_dedupeKey = la_key a\<rparr>),
                insert (la_key a) latched))"

lemma line_outcome_end:
  "line_outcome env latched a = (case notice_end env a of
      Deliver m r \<Rightarrow> (Some (m, r), insert (la_key a) latched)
    | Latch \<Rightarrow> (None, insert (la_key a) latched)
    | _ \<Rightarrow> (None, latched))"
  unfolding line_outcome_def notice_end_def
  by (cases "la_notice a"; cases "told_pair env")
    (auto simp: merged_end_def dequeued_end_def dequeued_deliver_def Let_def split: read_result.split option.split)

text \<open>C31: what one line of the landing sweep does. A line whose key is latched, or that is neither
  dequeued nor merged, does nothing. A merge is mailed exactly when an open run with a
  coordinator waits at merging and was not told before; a dequeue is always recorded unless
  it was told before, and mailed when a coordinator is named; the brief carries the recorded
  head only of a run still at merging. A read that failed latches nothing, so the next
  sweep asks again; every other end latches the key, after which the same line asks nothing.\<close>

theorem landing_notice_exact:
  "(landingAsk l latched = None \<longrightarrow> sweep_line env l latched = (None, latched)) \<and>
   (\<forall>a. landingAsk l latched = Some a \<longrightarrow>
      la_key a \<notin> latched \<and> landingAsk l (insert (la_key a) latched) = None \<and>
      sweep_line env l latched = line_outcome env latched a)"
proof -
  have "la_key a \<notin> latched \<and> landingAsk l (insert (la_key a) latched) = None" if "landingAsk l latched = Some a" for a
    using that by (auto simp: landingAsk_def Let_def split: option.splits if_splits)
  moreover have "sweep_line env l latched = line_outcome env latched a" if "landingAsk l latched = Some a" for a
    using that by (simp add: sweep_line_def landing_loop_end line_outcome_end)
  ultimately show ?thesis by (auto simp: sweep_line_def)
qed

definition demo_line :: landing_line where
  "demo_line = \<lparr>ll_sessionId = ''s'', ll_workspace = ''w'', ll_number = Some 7, ll_phase = None,
     ll_queue = Some \<lparr>qr_state = ''dequeued'', qr_at = None\<rparr>\<rparr>"

definition demo_env :: landing_env where
  "demo_env = \<lparr>en_runs = ReadOk (Some 3), en_coordinator = (\<lambda>_. Coordinator ''boss''),
     en_runState = (\<lambda>_. ReadOk (Some ''working'')), en_toldMail = (\<lambda>_ _ _. False), en_head = (\<lambda>_. Some ''h''),
     en_toldFeed = (\<lambda>_ _. False)\<rparr>"

theorem landing_notice_exact_witness:
  "\<exists>m r. fst (sweep_line demo_env demo_line {}) = Some (Some m, Some r) \<and> lm_toId m = ''boss'' \<and>
     lm_body m = DequeueBrief ''s'' 7 None"
proof -
  obtain a where a: "landingAsk demo_line {} = Some a" "la_notice a = NDequeued" "la_sessionId a = ''s''" "la_number a = 7"
    by (simp add: landingAsk_def demo_line_def)
  with landing_notice_exact[of demo_line "{}" demo_env]
  have "sweep_line demo_env demo_line {} = line_outcome demo_env {} a" by simp
  then show ?thesis
    by (simp add: line_outcome_def pair_unread_def told_pair_def demo_env_def a Let_def)
qed

section \<open>The required checks\<close>

lemma precedence_simps [simp]:
  "precedence CUnmeasured = 0" "precedence CRed = 1" "precedence CUnverifiable = 2" "precedence CPending = 3"
  "precedence CNotReported = 4" "precedence CGreen = 5"
  by (simp_all add: precedence_def REQUIRED_CHECKS_PRECEDENCE_def)

lemma stronger_iff:
  "stronger a b = CGreen \<longleftrightarrow> a = CGreen \<and> b = CGreen"
  "stronger a b = CUnmeasured \<longleftrightarrow> a = CUnmeasured \<or> b = CUnmeasured"
  "stronger a b = CRed \<longleftrightarrow> (a = CRed \<or> b = CRed) \<and> a \<noteq> CUnmeasured \<and> b \<noteq> CUnmeasured"
  by (cases a; cases b; simp add: stronger_def)+

lemma foldl_stronger:
  "foldl (\<lambda>w x. stronger w (f x)) w xs = CGreen \<longleftrightarrow> w = CGreen \<and> (\<forall>x \<in> set xs. f x = CGreen)"
  "foldl (\<lambda>w x. stronger w (f x)) w xs = CUnmeasured \<longleftrightarrow> w = CUnmeasured \<or> (\<exists>x \<in> set xs. f x = CUnmeasured)"
  "foldl (\<lambda>w x. stronger w (f x)) w xs = CRed \<longleftrightarrow>
     (w = CRed \<or> (\<exists>x \<in> set xs. f x = CRed)) \<and> w \<noteq> CUnmeasured \<and> (\<forall>x \<in> set xs. f x \<noteq> CUnmeasured)"
  by (induction xs arbitrary: w) (auto simp: stronger_iff)

text \<open>The word of one required name.\<close>

lemma name_word_iff:
  "name_word line n = CGreen \<longleftrightarrow>
     (\<exists>r \<in> set (pl_required line). pr_name r = n) \<and>
     (\<forall>r \<in> set (pl_required line). pr_name r = n \<longrightarrow> contextWord r = CGreen) \<and>
     (n \<in> set (pl_pinnedNames line) \<longrightarrow> (\<exists>r \<in> set (pl_required line). pr_name r = n \<and> pr_checkId r \<noteq> None))"
  "name_word line n = CUnmeasured \<longleftrightarrow> (\<exists>r \<in> set (pl_required line). pr_name r = n \<and> contextWord r = CUnmeasured)"
  "name_word line n = CRed \<longleftrightarrow>
     (\<exists>r \<in> set (pl_required line). pr_name r = n \<and> contextWord r = CRed) \<and>
     (\<forall>r \<in> set (pl_required line). pr_name r = n \<longrightarrow> contextWord r \<noteq> CUnmeasured)"
proof -
  define own where "own = filter (\<lambda>r. pr_name r = n) (pl_required line)"
  define w where "w = foldl (\<lambda>w r. stronger w (contextWord r)) (if own = [] then CNotReported else CGreen) own"
  have nw: "name_word line n =
      (if own \<noteq> [] \<and> n \<in> set (pl_pinnedNames line) \<and> list_all (\<lambda>r. pr_checkId r = None) own
       then stronger w CUnverifiable else w)"
    by (simp add: name_word_def own_def w_def Let_def)
  have own: "own = [] \<longleftrightarrow> \<not> (\<exists>r \<in> set (pl_required line). pr_name r = n)" "set own = {r \<in> set (pl_required line). pr_name r = n}"
    by (auto simp: own_def filter_empty_conv)
  have w: "w = CGreen \<longleftrightarrow> own \<noteq> [] \<and> (\<forall>r \<in> set own. contextWord r = CGreen)"
    "w = CUnmeasured \<longleftrightarrow> (\<exists>r \<in> set own. contextWord r = CUnmeasured)"
    "w = CRed \<longleftrightarrow> (\<exists>r \<in> set own. contextWord r = CRed) \<and> (\<forall>r \<in> set own. contextWord r \<noteq> CUnmeasured)"
    by (auto simp: w_def foldl_stronger)
  show "name_word line n = CGreen \<longleftrightarrow>
     (\<exists>r \<in> set (pl_required line). pr_name r = n) \<and>
     (\<forall>r \<in> set (pl_required line). pr_name r = n \<longrightarrow> contextWord r = CGreen) \<and>
     (n \<in> set (pl_pinnedNames line) \<longrightarrow> (\<exists>r \<in> set (pl_required line). pr_name r = n \<and> pr_checkId r \<noteq> None))"
    unfolding nw using own w(1) by (auto simp: stronger_iff list_all_iff)
  show "name_word line n = CUnmeasured \<longleftrightarrow> (\<exists>r \<in> set (pl_required line). pr_name r = n \<and> contextWord r = CUnmeasured)"
    unfolding nw using own w(2) by (auto simp: stronger_iff)
  show "name_word line n = CRed \<longleftrightarrow>
     (\<exists>r \<in> set (pl_required line). pr_name r = n \<and> contextWord r = CRed) \<and>
     (\<forall>r \<in> set (pl_required line). pr_name r = n \<longrightarrow> contextWord r \<noteq> CUnmeasured)"
    unfolding nw using own w(2,3) by (auto simp: stronger_iff)
qed

lemma set_required_names:
  "set (required_names line) = pr_name ` set (pl_required line) \<union> set (pl_rulesNamed line) \<union> set (pl_protectionNamed line)"
  by (auto simp: required_names_def)

lemma set_failing_of:
  "set (failing_of rs seen) \<subseteq> {(pr_name r, pr_runId r) | r. r \<in> set rs \<and> contextWord r = CRed}"
  by (induction rs seen rule: failing_of.induct) (auto simp: Let_def)

lemma failing_of_Nil:
  "failing_of rs {} = [] \<longleftrightarrow> (\<forall>r \<in> set rs. contextWord r \<noteq> CRed)"
  by (induction rs) (auto simp: Let_def)

text \<open>A head is called green exactly when its line binds, every source answered, nothing was cut,
  and every name the contexts, the rules or the branch protection require is reported, all its
  contexts pass, and one pinned to an App shows as a check run; it is red exactly when the line
  is readable, some context of it is red and none is of an unknown state. What is listed as
  failing is a red context of the line, and nothing is listed only when none is red.\<close>

theorem required_verdict_exact:
  fixes line digest
  defines "v \<equiv> requiredChecksVerdict line digest"
    and "readable \<equiv> pl_bound line \<and> pl_unmeasured line = [] \<and> \<not> pl_requiredCut line"
  shows "(rv_word v = CGreen \<longleftrightarrow> readable \<and>
      (\<forall>n \<in> pr_name ` set (pl_required line) \<union> set (pl_rulesNamed line) \<union> set (pl_protectionNamed line).
         (\<exists>r \<in> set (pl_required line). pr_name r = n) \<and>
         (\<forall>r \<in> set (pl_required line). pr_name r = n \<longrightarrow> contextWord r = CGreen) \<and>
         (n \<in> set (pl_pinnedNames line) \<longrightarrow> (\<exists>r \<in> set (pl_required line). pr_name r = n \<and> pr_checkId r \<noteq> None)))) \<and>
    (rv_word v = CRed \<longleftrightarrow> readable \<and> (\<exists>r \<in> set (pl_required line). contextWord r = CRed) \<and>
      (\<forall>r \<in> set (pl_required line). contextWord r \<noteq> CUnmeasured)) \<and>
    set (rv_failing v) \<subseteq> {(pr_name r, pr_runId r) | r. r \<in> set (pl_required line) \<and> contextWord r = CRed} \<and>
    (rv_failing v = [] \<longleftrightarrow> (\<forall>r \<in> set (pl_required line). contextWord r \<noteq> CRed))"
proof -
  have word: "rv_word v = (if readable then foldl (\<lambda>w name. stronger w (name_word line name)) CGreen (required_names line)
      else CUnmeasured)"
    by (simp add: v_def readable_def requiredChecksVerdict_def Let_def)
  have failing: "rv_failing v = sort_key fst (failing_of (pl_required line) {})"
    by (simp add: v_def requiredChecksVerdict_def Let_def)
  have nil: "sort_key fst (failing_of (pl_required line) {}) = [] \<longleftrightarrow> failing_of (pl_required line) {} = []"
    by (metis set_empty set_sort)
  have red: "(\<exists>n \<in> set (required_names line). name_word line n = CRed) \<and> (\<forall>n \<in> set (required_names line). name_word line n \<noteq> CUnmeasured)
      \<longleftrightarrow> (\<exists>r \<in> set (pl_required line). contextWord r = CRed) \<and> (\<forall>r \<in> set (pl_required line). contextWord r \<noteq> CUnmeasured)"
    unfolding name_word_iff set_required_names by auto
  have "rv_word v = CGreen \<longleftrightarrow> readable \<and> (\<forall>n \<in> set (required_names line). name_word line n = CGreen)"
    by (simp add: word foldl_stronger)
  moreover have "rv_word v = CRed \<longleftrightarrow> readable \<and> (\<exists>r \<in> set (pl_required line). contextWord r = CRed) \<and>
      (\<forall>r \<in> set (pl_required line). contextWord r \<noteq> CUnmeasured)"
    using red by (simp add: word foldl_stronger)
  moreover have "set (rv_failing v) \<subseteq> {(pr_name r, pr_runId r) | r. r \<in> set (pl_required line) \<and> contextWord r = CRed}"
    using set_failing_of by (simp add: failing)
  moreover have "rv_failing v = [] \<longleftrightarrow> (\<forall>r \<in> set (pl_required line). contextWord r \<noteq> CRed)"
    by (simp add: failing nil failing_of_Nil)
  ultimately show ?thesis by (simp add: name_word_iff set_required_names)
qed

text \<open>A required name that nothing reports is never green.\<close>

theorem required_verdict_exact_witness:
  "rv_word (requiredChecksVerdict \<lparr>pl_bound = True, pl_number = Some 7, pl_state = Some ''OPEN'', pl_isDraft = False,
     pl_head = None, pl_required = [], pl_requiredCut = False, pl_rulesNamed = [''build''], pl_protectionNamed = [],
     pl_pinnedNames = [], pl_landedInTrain = False, pl_unmeasured = []\<rparr> (\<lambda>s. s)) \<noteq> CGreen"
  using required_verdict_exact[of "\<lparr>pl_bound = True, pl_number = Some 7, pl_state = Some ''OPEN'', pl_isDraft = False,
     pl_head = None, pl_required = [], pl_requiredCut = False, pl_rulesNamed = [''build''], pl_protectionNamed = [],
     pl_pinnedNames = [], pl_landedInTrain = False, pl_unmeasured = []\<rparr>" "\<lambda>s. s"] by simp

end
