(* ===== verification/LandingEdges.thy ===== *)
theory LandingEdges
  imports Landing
begin

text \<open>
  The episode of the checks lane over all its passes: the generations its rows make up, the
  mails that go with them, and the bound that never passes in silence.
\<close>

section \<open>Well-formed rows\<close>

definition edge_row :: "checks_row \<Rightarrow> bool" where
  "edge_row r \<longleftrightarrow> cr_what r = RGreen \<or> cr_what r = RRed"

definition rows_ok :: "checks_row list \<Rightarrow> bool" where
  "rows_ok rows \<longleftrightarrow>
     map cr_gen (filter (\<lambda>r. cr_what r = ROpen) rows) = map int [0..<nat (gen_of rows + 1)] \<and>
     (\<forall>r \<in> set rows. 0 \<le> cr_gen r \<and> cr_gen r \<le> gen_of rows) \<and>
     distinct (map cr_gen (filter edge_row rows)) \<and> distinct (map cr_gen (filter (\<lambda>r. cr_what r = RStuck) rows)) \<and>
     (\<forall>r \<in> set rows. \<forall>s \<in> set rows. cr_what r = RGreen \<longrightarrow> cr_what s = RStuck \<longrightarrow> cr_gen r \<noteq> cr_gen s)"

lemma gen_of_append [simp]:
  "gen_of (rows @ [r]) = (if cr_what r = ROpen then gen_of rows + 1 else gen_of rows)"
  by (simp add: gen_of_def)

lemma gen_of_ge: "- 1 \<le> gen_of rows"
  by (simp add: gen_of_def)

lemma open_row_sel [simp]:
  "cr_gen (open_row g t) = g" "cr_what (open_row g t) = ROpen" "cr_atMs (open_row g t) = t"
  by (simp_all add: open_row_def)

lemma settle_row_sel [simp]:
  "cr_gen (settle_row r g t) = g" "cr_atMs (settle_row r g t) = t"
  "cr_what (settle_row r g t) \<noteq> ROpen" "cr_what (settle_row r g t) \<noteq> RStuck"
  "cr_what (settle_row r g t) = (if ck_word r = CGreen then RGreen else RRed)"
  by (simp_all add: settle_row_def)

lemma edge_of_None: "edge_of rows = None \<longleftrightarrow> (\<forall>r \<in> set rows. cr_gen r = gen_of rows \<longrightarrow> \<not> edge_row r)"
  by (auto simp: edge_of_def find_None_iff_ball edge_row_def)

lemma stuck_of_None: "stuck_of rows = None \<longleftrightarrow> (\<forall>r \<in> set rows. cr_gen r = gen_of rows \<longrightarrow> cr_what r \<noteq> RStuck)"
  by (auto simp: stuck_of_def find_None_iff_ball)

lemma edge_of_Some: "edge_of rows = Some e \<Longrightarrow> e \<in> set rows \<and> cr_gen e = gen_of rows \<and> edge_row e"
  by (auto simp: edge_of_def edge_row_def dest: find_Some_set)

lemma rows_ok_open:
  assumes "rows_ok rows"
  shows "rows_ok (rows @ [open_row (gen_of rows + 1) t])"
proof -
  have "nat (gen_of rows + 1 + 1) = Suc (nat (gen_of rows + 1))" using gen_of_ge[of rows] by simp
  with assms gen_of_ge[of rows] show ?thesis by (auto simp: rows_ok_def edge_row_def)
qed

lemma rows_ok_settle:
  assumes "rows_ok rows" "0 \<le> gen_of rows" "edge_of rows = None" "stuck_of rows = None"
  shows "rows_ok (rows @ [settle_row read (gen_of rows) now])"
proof -
  have "gen_of rows \<notin> set (map cr_gen (filter edge_row rows))" using assms(3) by (auto simp: edge_of_None)
  moreover have "\<forall>s \<in> set rows. cr_what s = RStuck \<longrightarrow> cr_gen s \<noteq> gen_of rows" using assms(4) by (auto simp: stuck_of_None)
  ultimately show ?thesis
    using assms(1,2) by (auto simp: rows_ok_def edge_row_def)
qed

lemma rows_ok_stuck:
  assumes "rows_ok rows" "0 \<le> gen_of rows" "stuck_of rows = None" "\<And>e. edge_of rows = Some e \<Longrightarrow> cr_what e \<noteq> RGreen"
    "cr_what s = RStuck" "cr_gen s = gen_of rows"
  shows "rows_ok (rows @ [s])"
proof -
  have st: "gen_of rows \<notin> set (map cr_gen (filter (\<lambda>r. cr_what r = RStuck) rows))" using assms(3) by (auto simp: stuck_of_None)
  have gr: "cr_gen r \<noteq> gen_of rows" if r: "r \<in> set rows" "cr_what r = RGreen" for r
  proof
    assume g: "cr_gen r = gen_of rows"
    then obtain e where e: "edge_of rows = Some e"
      using r by (cases "edge_of rows") (auto simp: edge_of_None edge_row_def)
    from edge_of_Some[OF e] have "e = r"
      using assms(1) r g by (auto simp: rows_ok_def edge_row_def distinct_map inj_on_def)
    with assms(4)[OF e] r show False by simp
  qed
  show ?thesis
    using assms(1,2,5,6) st gr by (auto simp: rows_ok_def edge_row_def)
qed

text \<open>The current generation after each kind of row.\<close>

lemma fresh_gen:
  assumes "rows_ok rows" "rows' = rows @ [open_row (gen_of rows + 1) t]"
  shows "gen_of rows' = gen_of rows + 1" "0 \<le> gen_of rows'" "edge_of rows' = None" "stuck_of rows' = None"
    "open_of rows' = Some (open_row (gen_of rows + 1) t)"
proof -
  show g: "gen_of rows' = gen_of rows + 1" "0 \<le> gen_of rows'" using gen_of_ge[of rows] by (simp_all add: assms(2))
  have lt: "\<forall>r \<in> set rows. cr_gen r \<noteq> gen_of rows + 1" using assms(1) by (auto simp: rows_ok_def)
  then show "edge_of rows' = None" "stuck_of rows' = None"
    by (auto simp: edge_of_None stuck_of_None assms(2) edge_row_def)
  have "find (\<lambda>r. cr_gen r = gen_of rows + 1 \<and> cr_what r = ROpen) rows = None"
    using lt by (auto simp: find_None_iff_ball)
  then show "open_of rows' = Some (open_row (gen_of rows + 1) t)"
    by (simp add: open_of_def assms(2) find_append)
qed

lemma open_of_exists:
  assumes "rows_ok rows" "0 \<le> gen_of rows"
  shows "\<exists>op. open_of rows = Some op"
proof (cases "open_of rows")
  case None
  then have "gen_of rows \<notin> set (map cr_gen (filter (\<lambda>r. cr_what r = ROpen) rows))"
    by (auto simp: open_of_def find_None_iff_ball)
  moreover have "gen_of rows \<in> set (map int [0..<nat (gen_of rows + 1)])"
    using assms(2) by (auto simp: image_iff intro!: bexI[of _ "nat (gen_of rows)"])
  ultimately show ?thesis using assms(1) by (metis rows_ok_def)
qed auto

lemma settled_gen:
  assumes "edge_of rows = None" "stuck_of rows = None" "rows' = rows @ [settle_row read (gen_of rows) now]"
  shows "gen_of rows' = gen_of rows" "edge_of rows' = Some (settle_row read (gen_of rows) now)" "stuck_of rows' = None"
    "open_of rows' = open_of rows"
  using assms by (auto simp: edge_of_def stuck_of_def open_of_def find_append split: option.splits)

lemma stuck_gen:
  assumes "cr_what s = RStuck" "cr_gen s = gen_of rows"
  shows "stuck_of (rows @ [s]) \<noteq> None"
  using assms by (auto simp: stuck_of_None)

section \<open>One pass\<close>

text \<open>The mail that goes with a row: none with an opened generation.\<close>

definition row_mail :: "checks_row \<Rightarrow> (int \<times> checks_mail_word) list" where
  "row_mail r =
     (case cr_what r of
        ROpen \<Rightarrow> []
      | RGreen \<Rightarrow> [(cr_gen r, MGreen)]
      | RRed \<Rightarrow> [(cr_gen r, MRed)]
      | RStuck \<Rightarrow> [(cr_gen r, MStuck)])"

definition mail_keys :: "checks_mail_ask option \<Rightarrow> (int \<times> checks_mail_word) list" where
  "mail_keys m = (case m of None \<Rightarrow> [] | Some a \<Rightarrow> [(cm_gen a, cm_word a)])"

definition pass_ok :: "checks_row list \<Rightarrow> int \<Rightarrow> checks_row list \<Rightarrow> checks_mail_ask option \<Rightarrow> bool" where
  "pass_ok rows now w m \<longleftrightarrow> rows_ok (rows @ w) \<and> 0 \<le> gen_of (rows @ w) \<and> concat (map row_mail w) = mail_keys m \<and>
     (m \<noteq> None \<longrightarrow> (\<forall>t. dueOf (rows @ w) = Some t \<longrightarrow> now < t))"

lemma row_mail_sel [simp]:
  "row_mail (open_row g t) = []"
  "settled_word (ck_word r) \<Longrightarrow> row_mail (settle_row r g t) = mail_keys (Some (settle_mail r g))"
  by (auto simp: row_mail_def mail_keys_def settle_mail_def settled_word_def)

lemma mail_keys_None [simp]: "mail_keys None = []"
  by (simp add: mail_keys_def)

lemma settled_due:
  assumes "edge_of rows = None" "stuck_of rows = None"
  shows "dueOf (rows @ [settle_row read (gen_of rows) now]) = Some t \<Longrightarrow> now < t"
  using settled_gen[OF assms refl, of read now]
  by (auto simp: dueOf_def LANDING_CHECKS_STUCK_MS_def split: option.splits if_splits)

lemma pass_ok_opened: "rows_ok rows \<Longrightarrow> pass_ok rows now [open_row (gen_of rows + 1) now] None"
  using fresh_gen[of rows] rows_ok_open by (simp add: pass_ok_def gen_of_ge)

lemma pass_ok_opened_settled:
  assumes "rows_ok rows" "settled_word (ck_word read)"
  shows "pass_ok rows now [open_row (gen_of rows + 1) now, settle_row read (gen_of rows + 1) now]
     (Some (settle_mail read (gen_of rows + 1)))"
proof -
  let ?rows = "rows @ [open_row (gen_of rows + 1) now]"
  note fg = fresh_gen[OF assms(1) refl, of now]
  have "rows_ok (?rows @ [settle_row read (gen_of ?rows) now])"
    using rows_ok_settle[OF rows_ok_open[OF assms(1)] fg(2-4)] by simp
  moreover have "dueOf (?rows @ [settle_row read (gen_of ?rows) now]) = Some t \<Longrightarrow> now < t" for t
    by (rule settled_due[OF fg(3,4)])
  moreover have "0 \<le> gen_of rows + 1" using gen_of_ge[of rows] by simp
  ultimately show ?thesis using fg(1) assms(2)
    using gen_of_append[of ?rows "settle_row read (gen_of ?rows) now"]
    by (simp add: pass_ok_def)
qed

lemma pass_ok_settled:
  assumes "rows_ok rows" "0 \<le> gen_of rows" "edge_of rows = None" "stuck_of rows = None" "settled_word (ck_word read)"
  shows "pass_ok rows now [settle_row read (gen_of rows) now] (Some (settle_mail read (gen_of rows)))"
  using assms rows_ok_settle[OF assms(1-4)] settled_due[OF assms(3,4)] by (simp add: pass_ok_def)

lemma answer_pass:
  assumes "rows_ok rows" "0 \<le> gen_of rows"
  shows "pass_ok rows now (fst (answer_rows rows read now)) (snd (answer_rows rows read now))"
proof -
  have none: "pass_ok rows now [] None" using assms by (simp add: pass_ok_def)
  show ?thesis
  proof (cases "edge_of rows")
    case None
    show ?thesis
    proof (cases "stuck_of rows")
      case stuck: None
      with None none pass_ok_settled[OF assms None stuck] show ?thesis
        by (simp add: answer_rows_def Let_def)
    next
      case (Some st)
      with None none pass_ok_opened[OF assms(1)] pass_ok_opened_settled[OF assms(1)] show ?thesis
        by (simp add: answer_rows_def Let_def split: prod.split)
    qed
  next
    case (Some e)
    with none pass_ok_opened[OF assms(1)] pass_ok_opened_settled[OF assms(1)] show ?thesis
      by (simp add: answer_rows_def Let_def)
  qed
qed

text \<open>After the bound was weighed nothing is overdue.\<close>

lemma stuck_pass:
  assumes "rows_ok rows" "0 \<le> gen_of rows"
  shows "pass_ok rows now (fst (stuck_rows rows answered now forced)) (snd (stuck_rows rows answered now forced)) \<and>
    (\<forall>t. dueOf (rows @ fst (stuck_rows rows answered now forced)) = Some t \<longrightarrow> now < t)"
proof -
  obtain op where op: "open_of rows = Some op" using open_of_exists[OF assms] by blast
  show ?thesis
  proof (cases "stuck_of rows")
    case (Some st)
    with op assms show ?thesis by (simp add: stuck_rows_def pass_ok_def dueOf_def)
  next
    case None
    show ?thesis
    proof (cases "\<exists>e. edge_of rows = Some e \<and> cr_what e = RGreen")
      case True
      with op None assms show ?thesis by (auto simp: stuck_rows_def pass_ok_def dueOf_def)
    next
      case ng: False
      define unv where "unv \<longleftrightarrow> edge_of rows = None \<and> (case answered of Some r \<Rightarrow> ck_word r = CUnverifiable | None \<Rightarrow> False)"
      define due where "due = (case edge_of rows of Some e \<Rightarrow> cr_atMs e + LANDING_CHECKS_STUCK_MS
                                          | None \<Rightarrow> cr_atMs op + LANDING_CHECKS_STUCK_MS)"
      define s where "s = \<lparr>cr_gen = gen_of rows, cr_what = RStuck, cr_fp = None, cr_reading = Some (readingOf answered), cr_atMs = now\<rparr>"
      define cause where "cause = (if unv then CauseUnverifiable
          else case forced of Some c \<Rightarrow> c | None \<Rightarrow> if answered \<noteq> None then CauseTimeout else CauseUnmeasured)"
      have ngc: "(case edge_of rows of Some e \<Rightarrow> cr_what e = RGreen | None \<Rightarrow> False) = False"
        using ng by (cases "edge_of rows") auto
      have st: "stuck_rows rows answered now forced =
          (if unv \<or> due \<le> now then ([s], Some \<lparr>cm_gen = gen_of rows, cm_word = MStuck, cm_cause = Some cause\<rparr>) else ([], None))"
        by (simp only: stuck_rows_def op None prod.case option.case ngc if_False Let_def
            flip: unv_def due_def s_def cause_def)
      have s: "cr_what s = RStuck" "cr_gen s = gen_of rows" by (simp_all add: s_def)
      have ng': "\<And>e. edge_of rows = Some e \<Longrightarrow> cr_what e \<noteq> RGreen" using ng by blast
      have "rows_ok (rows @ [s])" by (rule rows_ok_stuck[OF assms None ng' s])
      moreover have "dueOf (rows @ [s]) = None" using stuck_gen[OF s] by (auto simp: dueOf_def)
      moreover have "row_mail s = [(gen_of rows, MStuck)]" using s by (simp add: row_mail_def)
      moreover have "dueOf rows = Some due"
        using op None ng' edge_of_Some[of rows]
        by (auto simp: dueOf_def due_def edge_row_def split: option.split)
      ultimately show ?thesis
        using assms s(1) by (auto simp: st pass_ok_def mail_keys_def)
    qed
  qed
qed

lemma fold_pass:
  assumes "rows_ok rows"
  shows "rows_ok (rows @ cf_write (foldChecks rows read now ep forced)) \<and>
    concat (map row_mail (cf_write (foldChecks rows read now ep forced))) = mail_keys (cf_mail (foldChecks rows read now ep forced)) \<and>
    (\<forall>t. cf_dueAtMs (foldChecks rows read now ep forced) = Some t \<longrightarrow> now < t)"
proof -
  define w0 where "w0 = (if list_ex (\<lambda>r. cr_what r = ROpen) rows then [] else [open_row 0 ep])"
  define answered where "answered = (case read of Some r \<Rightarrow> if ck_word r \<noteq> CUnmeasured then Some r else None | None \<Rightarrow> None)"
  define a where "a = (case answered of None \<Rightarrow> ([], None) | Some r \<Rightarrow> answer_rows (rows @ w0) r now)"
  define b where "b = (if snd a = None then stuck_rows (rows @ w0 @ fst a) answered now forced else ([], snd a))"
  have f: "foldChecks rows read now ep forced =
      \<lparr>cf_write = w0 @ fst a @ fst b, cf_mail = snd b, cf_dueAtMs = dueOf (rows @ w0 @ fst a @ fst b)\<rparr>"
    by (simp only: foldChecks_def Let_def case_prod_beta flip: w0_def answered_def a_def b_def)
  have base: "rows_ok (rows @ w0)" "0 \<le> gen_of (rows @ w0)" "concat (map row_mail w0) = []"
  proof -
    have "filter (\<lambda>r. cr_what r = ROpen) rows = [] \<longleftrightarrow> \<not> list_ex (\<lambda>r. cr_what r = ROpen) rows"
      by (auto simp: filter_empty_conv list_ex_iff)
    then have "gen_of rows = - 1 \<longleftrightarrow> \<not> list_ex (\<lambda>r. cr_what r = ROpen) rows" by (simp add: gen_of_def)
    then show "rows_ok (rows @ w0)" "0 \<le> gen_of (rows @ w0)" "concat (map row_mail w0) = []"
      using assms rows_ok_open[OF assms, of ep] gen_of_ge[of rows] by (auto simp: w0_def)
  qed
  have a: "pass_ok (rows @ w0) now (fst a) (snd a)"
    using answer_pass[OF base(1,2)] base(1,2) by (auto simp: a_def pass_ok_def split: option.split)
  show ?thesis
  proof (cases "snd a")
    case (Some m)
    with a base show ?thesis by (simp add: f b_def pass_ok_def)
  next
    case None
    with a have ra: "rows_ok (rows @ w0 @ fst a)" "0 \<le> gen_of (rows @ w0 @ fst a)" "concat (map row_mail (fst a)) = []"
      by (simp_all add: pass_ok_def)
    with stuck_pass[OF ra(1,2), of now answered forced] None base show ?thesis by (simp add: f b_def pass_ok_def)
  qed
qed

section \<open>An episode\<close>

text \<open>The rows an episode has written and the mails it has asked for, pass by pass: a pass that read
  the line, or a pass that only weighs the bound, each at any time and with any answer.\<close>

inductive episode :: "checks_row list \<Rightarrow> (int \<times> checks_mail_word) list \<Rightarrow> bool" where
  entered: "episode [] []"
| read_pass: "episode rows mails \<Longrightarrow> f = checksEdge rows read now at \<Longrightarrow>
    episode (rows @ cf_write f) (mails @ mail_keys (cf_mail f))"
| bound_pass: "episode rows mails \<Longrightarrow> f = stuckOnly rows now at cause \<Longrightarrow>
    episode (rows @ cf_write f) (mails @ mail_keys (cf_mail f))"

lemma rows_ok_Nil: "rows_ok []"
  by (simp add: rows_ok_def gen_of_def)

lemma episode_rows: "episode rows mails \<Longrightarrow> rows_ok rows \<and> mails = concat (map row_mail rows)"
proof (induction rule: episode.induct)
  case entered
  show ?case by (simp add: rows_ok_Nil)
next
  case (read_pass rows mails f read now at)
  with fold_pass[of rows "Some read" now at None] show ?case by (simp add: checksEdge_def)
next
  case (bound_pass rows mails f now at cause)
  with fold_pass[of rows None now at "Some cause"] show ?case by (simp add: stuckOnly_def)
qed

lemma row_mail_what:
  "cr_what r = ROpen \<Longrightarrow> row_mail r = []" "cr_what r = RGreen \<Longrightarrow> row_mail r = [(cr_gen r, MGreen)]"
  "cr_what r = RRed \<Longrightarrow> row_mail r = [(cr_gen r, MRed)]" "cr_what r = RStuck \<Longrightarrow> row_mail r = [(cr_gen r, MStuck)]"
  by (simp_all add: row_mail_def)

lemma in_row_mail:
  "(g, w) \<in> set (row_mail r) \<longleftrightarrow> cr_gen r = g \<and> (cr_what r = RGreen \<and> w = MGreen \<or> cr_what r = RRed \<and> w = MRed \<or>
        cr_what r = RStuck \<and> w = MStuck)"
  by (cases "cr_what r") (auto simp: row_mail_what)

lemma set_row_mail:
  "(g, w) \<in> set (concat (map row_mail rows)) \<longleftrightarrow>
     (\<exists>r \<in> set rows. cr_gen r = g \<and> (cr_what r = RGreen \<and> w = MGreen \<or> cr_what r = RRed \<and> w = MRed \<or>
        cr_what r = RStuck \<and> w = MStuck))"
  by (induction rows) (auto simp: in_row_mail)

lemma distinct_row_mail:
  "distinct (map cr_gen (filter edge_row rows)) \<Longrightarrow> distinct (map cr_gen (filter (\<lambda>r. cr_what r = RStuck) rows)) \<Longrightarrow>
     distinct (concat (map row_mail rows))"
proof (induction rows)
  case (Cons r rows)
  have d: "distinct (concat (map row_mail rows))"
    using Cons by (auto split: if_splits)
  show ?case
  proof (cases "cr_what r")
    case ROpen
    with d show ?thesis by (simp add: row_mail_what)
  next
    case RGreen
    then have e: "edge_row r" by (simp add: edge_row_def)
    have "cr_gen r \<notin> cr_gen ` {x \<in> set rows. edge_row x}" using Cons.prems(1) e by simp
    then have "(cr_gen r, MGreen) \<notin> set (concat (map row_mail rows))"
      unfolding set_row_mail by (auto simp: edge_row_def image_iff)
    with d RGreen show ?thesis by (simp add: row_mail_what)
  next
    case RRed
    then have e: "edge_row r" by (simp add: edge_row_def)
    have "cr_gen r \<notin> cr_gen ` {x \<in> set rows. edge_row x}" using Cons.prems(1) e by simp
    then have "(cr_gen r, MRed) \<notin> set (concat (map row_mail rows))"
      unfolding set_row_mail by (auto simp: edge_row_def image_iff)
    with d RRed show ?thesis by (simp add: row_mail_what)
  next
    case RStuck
    have "cr_gen r \<notin> cr_gen ` {x \<in> set rows. cr_what x = RStuck}" using Cons.prems(2) RStuck by simp
    then have "(cr_gen r, MStuck) \<notin> set (concat (map row_mail rows))"
      unfolding set_row_mail by (auto simp: image_iff)
    with d RStuck show ?thesis by (simp add: row_mail_what)
  qed
qed simp

text \<open>C32: over all its passes an episode opens the generations 0, 1, 2, ... in order and once each;
  its mails are, one for one and in order, its settled and stuck rows; so no generation is
  mailed green, red or stuck twice, never both green and red, and never stuck once it is green.\<close>

theorem generations_mailed_once:
  assumes "episode rows mails"
  shows "map cr_gen (filter (\<lambda>r. cr_what r = ROpen) rows) = map int [0..<nat (gen_of rows + 1)] \<and>
    mails = concat (map row_mail rows) \<and> distinct mails \<and>
    (\<forall>g. \<not> ((g, MGreen) \<in> set mails \<and> (g, MRed) \<in> set mails) \<and> \<not> ((g, MGreen) \<in> set mails \<and> (g, MStuck) \<in> set mails))"
proof -
  from episode_rows[OF assms] have ok: "rows_ok rows" and m: "mails = concat (map row_mail rows)" by auto
  have one: "r = s" if "r \<in> set rows" "s \<in> set rows" "edge_row r" "edge_row s" "cr_gen r = cr_gen s" for r s
    using ok that by (auto simp: rows_ok_def distinct_map inj_on_def)
  have "\<not> ((g, MGreen) \<in> set mails \<and> (g, MRed) \<in> set mails)" for g
    unfolding m set_row_mail using one by (auto simp: edge_row_def) (metis row_what.distinct(7))
  moreover have "\<not> ((g, MGreen) \<in> set mails \<and> (g, MStuck) \<in> set mails)" for g
    unfolding m set_row_mail using ok by (auto simp: rows_ok_def)
  ultimately show ?thesis
    using ok m distinct_row_mail[of rows] by (simp add: rows_ok_def)
qed

definition demo_red :: checks_read where "demo_red = \<lparr>ck_word = CRed, ck_fp = ''aaaaaaaaaaaa''\<rparr>"

lemma demo_pass: "episode (cf_write (checksEdge [] demo_red 10 0)) (mail_keys (cf_mail (checksEdge [] demo_red 10 0)))"
  using episode.read_pass[OF episode.entered refl, of demo_red 10 0] by simp

lemma demo_pass_eval:
  "cf_write (checksEdge [] demo_red 10 0) = [open_row 0 0, settle_row demo_red 0 10]"
  "cf_mail (checksEdge [] demo_red 10 0) = Some (settle_mail demo_red 0)"
  by (simp_all add: checksEdge_def foldChecks_def demo_red_def answer_rows_def edge_of_def stuck_of_def gen_of_def
      settled_word_def)

theorem generations_mailed_once_witness:
  "distinct (mail_keys (cf_mail (checksEdge [] demo_red 10 0)))"
  using generations_mailed_once[OF demo_pass] by blast

section \<open>The bound\<close>

lemma foldChecks_due: "cf_dueAtMs (foldChecks rows read now at forced) = dueOf (rows @ cf_write (foldChecks rows read now at forced))"
  by (simp add: foldChecks_def Let_def split: prod.split)

lemma stuck_rows_quiet: "snd (stuck_rows rows answered now forced) = None \<Longrightarrow> fst (stuck_rows rows answered now forced) = []"
  by (auto simp: stuck_rows_def Let_def split: option.splits if_splits)

lemma stuckOnly_quiet:
  assumes "cf_mail (stuckOnly rows now at cause) = None" "open_of rows = Some op"
  shows "cf_write (stuckOnly rows now at cause) = []"
proof -
  have "list_ex (\<lambda>r. cr_what r = ROpen) rows"
    using assms(2) find_Some_set[of _ rows op] by (auto simp: open_of_def list_ex_iff)
  with assms(1) show ?thesis
    by (simp add: stuckOnly_def foldChecks_def Let_def case_prod_beta stuck_rows_quiet)
qed



end
