(* ===== verification/UpdateTags.thy ===== *)
theory UpdateTags
  imports Prelude
begin

text \<open>
  Release tags: the comparator of \<open>shared/semver.ts\<close> and \<open>isReleaseTag\<close> of \<open>shared/api.ts\<close>. A thrown
  \<open>RangeError\<close> is \<open>None\<close>.
\<close>

section \<open>The comparator\<close>

text \<open>The shape \<open>v<digits>.<digits>.<digits>\<close>.\<close>

definition isReleaseTag :: "string \<Rightarrow> bool" where
  "isReleaseTag s \<longleftrightarrow>
     (case s of
        c # rest \<Rightarrow> c = CHR ''v'' \<and>
          (let parts = split_on (CHR ''.'') rest in
           length parts = 3 \<and> list_all (\<lambda>p. p \<noteq> [] \<and> list_all digit_char p) parts)
      | [] \<Rightarrow> False)"

text \<open>Leading zeros, all but the last character.\<close>

fun strip_zeros :: "string \<Rightarrow> string" where
  "strip_zeros (c # d # cs) = (if c = CHR ''0'' then strip_zeros (d # cs) else c # d # cs)"
| "strip_zeros s = s"

definition digitsOf :: "string \<Rightarrow> (string \<times> string \<times> string) option" where
  "digitsOf s =
     (case s of
        [] \<Rightarrow> None
      | c # rest \<Rightarrow>
          if c \<noteq> CHR ''v'' then None
          else (case split_on (CHR ''.'') rest of
             [x, y, z] \<Rightarrow>
               if list_all (\<lambda>p. p \<noteq> [] \<and> list_all digit_char p) [x, y, z]
               then Some (strip_zeros x, strip_zeros y, strip_zeros z) else None
           | _ \<Rightarrow> None))"

fun compare_parts :: "(string \<times> string) list \<Rightarrow> int" where
  "compare_parts [] = 0"
| "compare_parts ((p, q) # rest) =
     (if length p \<noteq> length q then (if length p > length q then 1 else -1)
      else if p \<noteq> q then (if p > q then 1 else -1)
      else compare_parts rest)"

definition compareReleaseTags :: "string \<Rightarrow> string \<Rightarrow> int option" where
  "compareReleaseTags a b =
     (case (digitsOf a, digitsOf b) of
        (Some (x1, x2, x3), Some (y1, y2, y3)) \<Rightarrow> Some (compare_parts [(x1, y1), (x2, y2), (x3, y3)])
      | _ \<Rightarrow> None)"

definition isNewerTag :: "string \<Rightarrow> string \<Rightarrow> bool option" where
  "isNewerTag a b = map_option (\<lambda>c. c = 1) (compareReleaseTags a b)"

text \<open>The loop of \<open>newestTag\<close>: \<open>Some None\<close> is the answer \<open>null\<close>.\<close>

fun newest_from :: "string option \<Rightarrow> string list \<Rightarrow> string option option" where
  "newest_from best [] = Some best"
| "newest_from None (t # ts) = (case digitsOf t of None \<Rightarrow> None | Some _ \<Rightarrow> newest_from (Some t) ts)"
| "newest_from (Some b) (t # ts) =
     (case compareReleaseTags t b of
        None \<Rightarrow> None
      | Some c \<Rightarrow> newest_from (Some (if c = 1 then t else b)) ts)"

definition newestTag :: "string list \<Rightarrow> string option option" where
  "newestTag tags = newest_from None tags"

section \<open>The comparator is the order of the version numbers\<close>

definition version :: "string \<Rightarrow> nat \<times> nat \<times> nat" where
  "version s =
     (case split_on (CHR ''.'') (tl s) of
        [x, y, z] \<Rightarrow> (undec x, undec y, undec z)
      | _ \<Rightarrow> (0, 0, 0))"

lemma isReleaseTag_parts:
  "isReleaseTag s \<longleftrightarrow> (\<exists>x y z. s = CHR ''v'' # x @ CHR ''.'' # y @ CHR ''.'' # z \<and>
     split_on (CHR ''.'') (tl s) = [x, y, z] \<and> list_all (\<lambda>p. p \<noteq> [] \<and> list_all digit_char p) [x, y, z])"
proof
  assume t: "isReleaseTag s"
  then obtain rest where s: "s = CHR ''v'' # rest" by (auto simp: isReleaseTag_def split: list.splits)
  with t obtain x y z where p: "split_on (CHR ''.'') rest = [x, y, z]"
    by (auto simp: isReleaseTag_def Let_def length_Suc_conv numeral_3_eq_3)
  then have "rest = x @ CHR ''.'' # y @ CHR ''.'' # z" by (metis join_split_on join_with.simps(2,3))
  with s p t show "\<exists>x y z. s = CHR ''v'' # x @ CHR ''.'' # y @ CHR ''.'' # z \<and>
     split_on (CHR ''.'') (tl s) = [x, y, z] \<and> list_all (\<lambda>p. p \<noteq> [] \<and> list_all digit_char p) [x, y, z]"
    by (simp add: isReleaseTag_def Let_def)
next
  assume "\<exists>x y z. s = CHR ''v'' # x @ CHR ''.'' # y @ CHR ''.'' # z \<and>
     split_on (CHR ''.'') (tl s) = [x, y, z] \<and> list_all (\<lambda>p. p \<noteq> [] \<and> list_all digit_char p) [x, y, z]"
  then show "isReleaseTag s" by (auto simp: isReleaseTag_def)
qed

lemma digitsOf_None: "digitsOf s = None \<longleftrightarrow> \<not> isReleaseTag s"
  by (auto simp: digitsOf_def isReleaseTag_def Let_def length_Suc_conv numeral_3_eq_3 split: list.splits if_splits)

lemma undec_Cons: "undec (c # s) = (of_char c - 48) * 10 ^ length s + undec s"
proof (induction s rule: rev_induct)
  case Nil
  then show ?case by (simp add: undec_def)
next
  case (snoc d s)
  have "undec (c # s @ [d]) = undec ((c # s) @ [d])" by simp
  also have "\<dots> = undec (c # s) * 10 + (of_char d - 48)" by (rule undec_snoc)
  finally show ?case using snoc by (simp add: algebra_simps)
qed

lemma undec_Nil [simp]: "undec [] = 0"
  by (simp add: undec_def)

lemma undec_less: "list_all digit_char s \<Longrightarrow> undec s < 10 ^ length s"
proof (induction s)
  case (Cons c s)
  then have d: "of_char c - 48 < (10 :: nat)" and s: "undec s < 10 ^ length s" using digit_of_char by auto
  then have "(of_char c - 48) * 10 ^ length s + undec s < (of_char c - 48) * 10 ^ length s + 10 ^ length s" by simp
  also have "\<dots> = (of_char c - 48 + 1) * 10 ^ length s" by simp
  also have "\<dots> \<le> 10 * 10 ^ length s" using d by (intro mult_le_mono1) simp
  finally show ?case by (simp add: undec_Cons)
qed simp

lemma strip_zeros_sel:
  assumes "s \<noteq> []" "list_all digit_char s"
  shows "undec (strip_zeros s) = undec s" "list_all digit_char (strip_zeros s)" "strip_zeros s \<noteq> []"
    "hd (strip_zeros s) = CHR ''0'' \<longrightarrow> length (strip_zeros s) = 1"
  using assms by (induction s rule: strip_zeros.induct) (auto simp: undec_Cons)

text \<open>Canonical digit strings are ordered by length and then by code unit, as their numbers are.\<close>

lemma digit_order:
  assumes "digit_char c" "digit_char d"
  shows "c < d \<longleftrightarrow> of_char c - 48 < of_char d - (48 :: nat)"
  using assms by (auto simp: digit_char_def less_char_def less_eq_char_def)

lemma undec_same_length:
  "length p = length q \<Longrightarrow> list_all digit_char p \<Longrightarrow> list_all digit_char q \<Longrightarrow>
     (p < q \<longleftrightarrow> undec p < undec q) \<and> (p = q \<longleftrightarrow> undec p = undec q)"
proof (induction p q rule: list_induct2)
  case (Cons c p d q)
  let ?c = "of_char c - 48 :: nat" and ?d = "of_char d - 48 :: nat"
  have b: "undec p < 10 ^ length p" "undec q < 10 ^ length p"
    using Cons.prems undec_less[of p] undec_less[of q] Cons.hyps by simp_all
  have cd: "c < d \<longleftrightarrow> ?c < ?d" "d < c \<longleftrightarrow> ?d < ?c" using Cons.prems digit_order by auto
  consider "c = d" | "?c < ?d" "c < d" | "?d < ?c" "d < c" using cd by (meson not_less_iff_gr_or_eq)
  then show ?case
  proof cases
    case 1
    with Cons show ?thesis by (simp add: undec_Cons)
  next
    case 2
    then have "(?c + 1) * 10 ^ length p \<le> ?d * 10 ^ length p" by (intro mult_le_mono1) simp
    then have "?c * 10 ^ length p + undec p < ?d * 10 ^ length p + undec q" using b(1) by simp
    with 2 Cons.hyps show ?thesis by (auto simp: undec_Cons)
  next
    case 3
    then have "(?d + 1) * 10 ^ length p \<le> ?c * 10 ^ length p" by (intro mult_le_mono1) simp
    then have "?d * 10 ^ length p + undec q < ?c * 10 ^ length p + undec p" using b(2) by simp
    with 3 Cons.hyps show ?thesis by (auto simp: undec_Cons)
  qed
qed simp

lemma undec_shorter:
  assumes "length p < length q" "list_all digit_char p" "list_all digit_char q" "p \<noteq> []" "hd q = CHR ''0'' \<longrightarrow> length q = 1"
  shows "undec p < undec q"
proof -
  have "0 < length p" using assms(4) by simp
  then have "2 \<le> length q" using assms(1) by linarith
  then obtain c s where q: "q = c # s" "s \<noteq> []" by (cases q; cases "tl q") auto
  then have "c \<noteq> CHR ''0''" "digit_char c" using assms(3,5) by auto
  then have "of_char c - 48 \<noteq> (0 :: nat)"
    using digit_of_char[of c] digit_sel(3)[of 0] by auto
  then have "1 * 10 ^ length s \<le> (of_char c - 48) * (10 :: nat) ^ length s" by (intro mult_le_mono1) simp
  from trans_le_add1[OF this[unfolded mult_1], of "undec s"] have "10 ^ length s \<le> undec q"
    unfolding q(1) undec_Cons .
  moreover have "undec p < 10 ^ length p" by (rule undec_less[OF assms(2)])
  moreover have "(10 :: nat) ^ length p \<le> 10 ^ length s" using assms(1) q by (intro power_increasing) auto
  ultimately show ?thesis by linarith
qed

lemma compare_part:
  assumes "p \<noteq> []" "list_all digit_char p" "q \<noteq> []" "list_all digit_char q"
  defines "p' \<equiv> strip_zeros p" and "q' \<equiv> strip_zeros q"
  shows "(if length p' \<noteq> length q' then (if length p' > length q' then 1 else -1)
      else if p' \<noteq> q' then (if p' > q' then 1 else -1) else c) =
    (if undec p > undec q then 1 else if undec p < undec q then -1 else (c :: int))"
proof -
  note s = strip_zeros_sel[OF assms(1,2)] strip_zeros_sel[OF assms(3,4)]
  have u: "undec p = undec p'" "undec q = undec q'" using s by (simp_all add: p'_def q'_def)
  consider "length p' < length q'" | "length q' < length p'" | "length p' = length q'" by linarith
  then show ?thesis
  proof cases
    case 1
    then have "undec p' < undec q'" using s by (intro undec_shorter) (simp_all add: p'_def q'_def)
    with 1 show ?thesis by (simp add: u)
  next
    case 2
    then have "undec q' < undec p'" using s by (intro undec_shorter) (simp_all add: p'_def q'_def)
    with 2 show ?thesis by (simp add: u)
  next
    case 3
    then have "(p' < q' \<longleftrightarrow> undec p' < undec q') \<and> (p' = q' \<longleftrightarrow> undec p' = undec q')"
      using s by (intro undec_same_length) (simp_all add: p'_def q'_def)
    with 3 show ?thesis by (auto simp: u)
  qed
qed

lemma digitsOf_version:
  assumes "isReleaseTag s"
  obtains x y z where "digitsOf s = Some (strip_zeros x, strip_zeros y, strip_zeros z)" "version s = (undec x, undec y, undec z)"
    "x \<noteq> []" "list_all digit_char x" "y \<noteq> []" "list_all digit_char y" "z \<noteq> []" "list_all digit_char z"
  using assms unfolding isReleaseTag_parts
  by (auto simp: digitsOf_def version_def)

lemma compare_version:
  assumes "isReleaseTag a" "isReleaseTag b"
  shows "compareReleaseTags a b =
    Some (if version b < version a then 1 else if version a < version b then -1 else 0)"
proof -
  obtain x y z where a: "digitsOf a = Some (strip_zeros x, strip_zeros y, strip_zeros z)" "version a = (undec x, undec y, undec z)"
    "x \<noteq> []" "list_all digit_char x" "y \<noteq> []" "list_all digit_char y" "z \<noteq> []" "list_all digit_char z"
    by (rule digitsOf_version[OF assms(1)])
  obtain u v w where b: "digitsOf b = Some (strip_zeros u, strip_zeros v, strip_zeros w)" "version b = (undec u, undec v, undec w)"
    "u \<noteq> []" "list_all digit_char u" "v \<noteq> []" "list_all digit_char v" "w \<noteq> []" "list_all digit_char w"
    by (rule digitsOf_version[OF assms(2)])
  show ?thesis
    unfolding compareReleaseTags_def a(1) b(1)
    by (simp only: option.case prod.case compare_parts.simps compare_part[OF a(3,4) b(3,4)] compare_part[OF a(5,6) b(5,6)]
        compare_part[OF a(7,8) b(7,8)]) (auto simp: a(2) b(2) less_prod_def')
qed

lemma compare_None: "compareReleaseTags a b = None \<longleftrightarrow> \<not> (isReleaseTag a \<and> isReleaseTag b)"
proof (cases "isReleaseTag a \<and> isReleaseTag b")
  case True
  then show ?thesis by (simp add: compare_version)
next
  case False
  then show ?thesis
    unfolding compareReleaseTags_def using digitsOf_None[of a] digitsOf_None[of b] by (auto split: option.splits)
qed

lemma isNewerTag_iff: "isReleaseTag a \<Longrightarrow> isReleaseTag b \<Longrightarrow> isNewerTag a b = Some (version b < version a)"
  by (auto simp: isNewerTag_def compare_version)

lemma newest_from_None: "newest_from (Some b) ts = None \<longleftrightarrow> \<not> (\<forall>t \<in> set ts. isReleaseTag t)" if "isReleaseTag b"
  using that
proof (induction ts arbitrary: b)
  case (Cons t ts)
  show ?case
  proof (cases "isReleaseTag t")
    case True
    with Cons show ?thesis by (simp add: compare_version)
  next
    case False
    then have "compareReleaseTags t b = None" by (simp add: compare_None)
    with False show ?thesis by simp
  qed
qed simp

lemma newest_from_Some:
  "isReleaseTag b \<Longrightarrow> \<forall>t \<in> set ts. isReleaseTag t \<Longrightarrow>
     \<exists>m. newest_from (Some b) ts = Some (Some m) \<and> m \<in> set (b # ts) \<and> (\<forall>t \<in> set (b # ts). version t \<le> version m) \<and>
       find (\<lambda>t. version t = version m) (b # ts) = Some m"
proof (induction ts arbitrary: b)
  case (Cons t ts)
  let ?b = "if version b < version t then t else b"
  have st: "newest_from (Some b) (t # ts) = newest_from (Some ?b) ts" "isReleaseTag ?b"
    using Cons.prems by (auto simp: compare_version)
  from Cons.IH[OF st(2)] Cons.prems(2) obtain m where m: "newest_from (Some ?b) ts = Some (Some m)" "m \<in> set (?b # ts)"
    "\<forall>t \<in> set (?b # ts). version t \<le> version m" "find (\<lambda>t. version t = version m) (?b # ts) = Some m" by auto
  show ?case
  proof (intro exI conjI)
    show "newest_from (Some b) (t # ts) = Some (Some m)" using st(1) m(1) by simp
    show "m \<in> set (b # t # ts)" using m(2) by (auto split: if_splits)
    show "\<forall>x \<in> set (b # t # ts). version x \<le> version m" using m(3) by (auto split: if_splits)
    show "find (\<lambda>t. version t = version m) (b # t # ts) = Some m" using m(3,4) by (auto split: if_splits)
  qed
qed simp

text \<open>C34: tags are ordered as version numbers. The comparator answers for every two release tags,
  and for nothing else, the order of their three numbers, whatever their leading zeros and
  however long; it is strict exactly on different versions; and the newest tag of a list of
  tags is a greatest one, the first of its version, none for the empty list.\<close>

theorem tag_order_numeric:
  "(isReleaseTag a \<and> isReleaseTag b \<longrightarrow> compareReleaseTags a b =
      Some (if version b < version a then 1 else if version a < version b then -1 else 0)) \<and>
   (\<not> (isReleaseTag a \<and> isReleaseTag b) \<longrightarrow> compareReleaseTags a b = None) \<and>
   newestTag [] = Some None \<and>
   ((\<forall>t \<in> set (u # us). isReleaseTag t) \<longrightarrow>
      (\<exists>m. newestTag (u # us) = Some (Some m) \<and> m \<in> set (u # us) \<and> (\<forall>t \<in> set (u # us). version t \<le> version m) \<and>
         find (\<lambda>t. version t = version m) (u # us) = Some m)) \<and>
   (\<not> (\<forall>t \<in> set (u # us). isReleaseTag t) \<longrightarrow> newestTag (u # us) = None)"
proof (intro conjI impI)
  show "compareReleaseTags a b = Some (if version b < version a then 1 else if version a < version b then -1 else 0)"
    if "isReleaseTag a \<and> isReleaseTag b" using that by (simp add: compare_version)
  show "compareReleaseTags a b = None" if "\<not> (isReleaseTag a \<and> isReleaseTag b)"
    using that compare_None by blast
  show "newestTag [] = Some None" by (simp add: newestTag_def)
  have u: "newestTag (u # us) = (if isReleaseTag u then newest_from (Some u) us else None)"
    using digitsOf_None[of u] by (auto simp: newestTag_def split: option.split)
  show "\<exists>m. newestTag (u # us) = Some (Some m) \<and> m \<in> set (u # us) \<and> (\<forall>t \<in> set (u # us). version t \<le> version m) \<and>
         find (\<lambda>t. version t = version m) (u # us) = Some m"
    if "\<forall>t \<in> set (u # us). isReleaseTag t"
    using that newest_from_Some[of u us] by (simp add: u)
  show "newestTag (u # us) = None" if "\<not> (\<forall>t \<in> set (u # us). isReleaseTag t)"
    using that newest_from_None[of u us] by (auto simp: u)
qed

theorem tag_order_numeric_witness: "compareReleaseTags ''v0.0.010'' ''v0.0.9'' = Some 1"
proof -
  have p: "split_on (CHR ''.'') ''0.0.010'' = [''0'', ''0'', ''010'']" "split_on (CHR ''.'') ''0.0.9'' = [''0'', ''0'', ''9'']"
    by simp_all
  have "isReleaseTag ''v0.0.010'' \<and> isReleaseTag ''v0.0.9''"
    by (simp add: isReleaseTag_def p Let_def digit_char_def less_eq_char_def)
  moreover have "version ''v0.0.9'' < version ''v0.0.010''"
    by (simp add: version_def p undec_def less_prod_def')
  ultimately show ?thesis using tag_order_numeric[of "''v0.0.010''" "''v0.0.9''"] by simp
qed

end
