(* ===== verification/UpdateResolve.thy ===== *)
theory UpdateResolve
  imports UpdateTags
begin

text \<open>
  The resolver of the tag a node should run (\<open>server/src/update/resolve.ts\<close>), but for the
  ingress guard, the rendered projection and the advisory list of blockers (UpdateProjection). The sentence
  of a resolution is kept as the case it names with its arguments. A tag comparison in this
  file is always made between two release tags, so \<open>newer\<close> reads its answer.
\<close>

section \<open>Inputs\<close>

datatype update_channel = Stable | Dev
datatype auto_mode = AutoOff | AutoStable | AutoChannel
datatype tag_file_read = FloorRead | FloorAbsent | FloorUnmeasured

record eligibility_row =
  er_tag :: string
  er_channel :: "update_channel option"
  er_bundleListed :: bool
  er_yanked :: bool

record intent_view =
  iv_channel :: "update_channel option"
  iv_pinnedTag :: "string option"
  iv_auto :: auto_mode

record resolve_input =
  ri_currentVersion :: "string option"
  ri_highestVersion :: "string option"
  ri_floorRead :: tag_file_read
  ri_nodeIntent :: "intent_view option"
  ri_fleetIntent :: "intent_view option"
  ri_releases :: "eligibility_row list"
  ri_refused :: "string set"

datatype ineligible_why =
  NotInCatalogue | NoBundleListed | Yanked | RefusedByThisNode | NotOnStable | UnknownReleaseChannel

datatype resolve_detail =
  PinnedAtOrBelowFloor string string
| NotNewerThanFloor string string
| AtNewest string update_channel
| RolledBack string string
| NoFloor
| FloorNotMeasured
| PinnedIneligible string ineligible_why
| NoEligible update_channel
| UnknownChannel
| NoIntent

record resolution =
  rs_channel :: "update_channel option"
  rs_desiredTag :: "string option"
  rs_resolveDetail :: "resolve_detail option"
  rs_desiredStable :: "string option"
  rs_desiredDev :: "string option"
  rs_auto :: auto_mode

section \<open>The resolver\<close>

definition newer :: "string \<Rightarrow> string \<Rightarrow> bool" where
  "newer a b \<longleftrightarrow> isNewerTag a b = Some True"

definition tag_or_none :: "string option \<Rightarrow> string option" where
  "tag_or_none v = (case v of None \<Rightarrow> None | Some t \<Rightarrow> if isReleaseTag t then Some t else None)"

definition floorOf :: "string option \<Rightarrow> string option \<Rightarrow> string option" where
  "floorOf highestVersion currentVersion =
     (case (tag_or_none highestVersion, tag_or_none currentVersion) of
        (None, current) \<Rightarrow> current
      | (Some highest, None) \<Rightarrow> Some highest
      | (Some highest, Some current) \<Rightarrow> Some (if newer current highest then current else highest))"

definition ineligibleWhy :: "eligibility_row option \<Rightarrow> update_channel \<Rightarrow> string set \<Rightarrow> ineligible_why option" where
  "ineligibleWhy row channel refused =
     (case row of
        None \<Rightarrow> Some NotInCatalogue
      | Some r \<Rightarrow>
          if \<not> isReleaseTag (er_tag r) then Some NotInCatalogue
          else if er_yanked r then Some Yanked
          else if \<not> er_bundleListed r then Some NoBundleListed
          else if er_tag r \<in> refused then Some RefusedByThisNode
          else (case er_channel r of
             None \<Rightarrow> Some UnknownReleaseChannel
           | Some c \<Rightarrow> if channel = Stable \<and> c \<noteq> Stable then Some NotOnStable else None))"

text \<open>The stable sort by the comparator, newest first: an element goes before the ones it is not
  older than.\<close>

fun insert_tag :: "string \<Rightarrow> string list \<Rightarrow> string list" where
  "insert_tag t [] = [t]"
| "insert_tag t (x # xs) = (if newer x t then x # insert_tag t xs else t # x # xs)"

definition eligibleTags :: "eligibility_row list \<Rightarrow> update_channel \<Rightarrow> string set \<Rightarrow> string list" where
  "eligibleTags releases channel refused =
     foldr insert_tag (map er_tag (filter (\<lambda>r. ineligibleWhy (Some r) channel refused = None) releases)) []"

definition resolveOnChannel ::
  "update_channel \<Rightarrow> string option \<Rightarrow> resolve_input \<Rightarrow> string option \<times> resolve_detail option" where
  "resolveOnChannel channel pin inp =
     (if ri_highestVersion inp = None \<and> ri_floorRead inp = FloorUnmeasured then (None, Some FloorNotMeasured)
      else case floorOf (ri_highestVersion inp) (ri_currentVersion inp) of
        None \<Rightarrow> (None, Some NoFloor)
      | Some floor \<Rightarrow>
          (case pin of
             Some p \<Rightarrow>
               (case ineligibleWhy (find (\<lambda>r. er_tag r = p) (ri_releases inp)) channel (ri_refused inp) of
                  Some why \<Rightarrow> (None, Some (PinnedIneligible p why))
                | None \<Rightarrow> if \<not> newer p floor then (None, Some (PinnedAtOrBelowFloor p floor)) else (Some p, None))
           | None \<Rightarrow>
               (case eligibleTags (ri_releases inp) channel (ri_refused inp) of
                  [] \<Rightarrow> (None, Some (NoEligible channel))
                | newest # _ \<Rightarrow>
                    if newer newest floor then (Some newest, None)
                    else (case tag_or_none (ri_currentVersion inp) of
                       None \<Rightarrow> (None, Some (NotNewerThanFloor newest floor))
                     | Some current \<Rightarrow>
                         if current = newest \<and> floor = current then (None, Some (AtNewest current channel))
                         else if newer floor current then (None, Some (RolledBack current floor))
                         else (None, Some (NotNewerThanFloor newest floor))))))"

definition resolves_nothing :: "resolve_detail \<Rightarrow> auto_mode \<Rightarrow> resolution" where
  "resolves_nothing detail auto = \<lparr>rs_channel = None, rs_desiredTag = None, rs_resolveDetail = Some detail,
     rs_desiredStable = None, rs_desiredDev = None, rs_auto = auto\<rparr>"

definition resolveNodeIntent :: "resolve_input \<Rightarrow> resolution" where
  "resolveNodeIntent inp =
     (case (case ri_nodeIntent inp of None \<Rightarrow> ri_fleetIntent inp | Some r \<Rightarrow> Some r) of
        None \<Rightarrow> resolves_nothing NoIntent AutoOff
      | Some row \<Rightarrow>
          (case iv_channel row of
             None \<Rightarrow> resolves_nothing UnknownChannel (iv_auto row)
           | Some channel \<Rightarrow>
               let mine = resolveOnChannel channel (iv_pinnedTag row) inp in
               \<lparr>rs_channel = Some channel, rs_desiredTag = fst mine, rs_resolveDetail = snd mine,
                rs_desiredStable = fst (resolveOnChannel Stable (iv_pinnedTag row) inp),
                rs_desiredDev = fst (resolveOnChannel Dev (iv_pinnedTag row) inp), rs_auto = iv_auto row\<rparr>))"

section \<open>What is resolved\<close>

lemma newer_iff: "isReleaseTag a \<Longrightarrow> isReleaseTag b \<Longrightarrow> newer a b \<longleftrightarrow> version b < version a"
  by (simp add: newer_def isNewerTag_iff)

lemma tag_or_none_Some: "tag_or_none v = Some t \<longleftrightarrow> v = Some t \<and> isReleaseTag t"
  by (auto simp: tag_or_none_def split: option.splits)

lemma floorOf_Some:
  assumes "floorOf h c = Some f"
  shows "isReleaseTag f \<and> (h = Some f \<or> c = Some f) \<and>
    (\<forall>t. isReleaseTag t \<and> (h = Some t \<or> c = Some t) \<longrightarrow> version t \<le> version f)"
proof (cases "tag_or_none h"; cases "tag_or_none c")
  fix a b assume ab: "tag_or_none h = Some a" "tag_or_none c = Some b"
  with assms newer_iff[of b a] show ?thesis
    by (auto simp: floorOf_def tag_or_none_Some split: if_splits)
qed (use assms in \<open>auto simp: floorOf_def tag_or_none_Some tag_or_none_def split: option.splits if_splits\<close>)

text \<open>A release a node may be moved to on a channel.\<close>

definition eligible :: "eligibility_row \<Rightarrow> update_channel \<Rightarrow> string set \<Rightarrow> bool" where
  "eligible r channel refused \<longleftrightarrow> isReleaseTag (er_tag r) \<and> \<not> er_yanked r \<and> er_bundleListed r \<and>
     er_tag r \<notin> refused \<and> (er_channel r = Some Stable \<or> (channel = Dev \<and> er_channel r = Some Dev))"

lemma ineligibleWhy_None: "ineligibleWhy row channel refused = None \<longleftrightarrow> (\<exists>r. row = Some r \<and> eligible r channel refused)"
  by (cases row; cases channel)
    (auto simp: ineligibleWhy_def eligible_def split: option.splits update_channel.splits,
      (metis update_channel.exhaust)+)

lemma set_insert_tag [simp]: "set (insert_tag t xs) = insert t (set xs)"
  by (induction xs) auto

lemma set_eligibleTags:
  "set (eligibleTags releases channel refused) = er_tag ` {r \<in> set releases. eligible r channel refused}"
proof -
  have "set (foldr insert_tag ts []) = set ts" for ts by (induction ts) auto
  then show ?thesis by (auto simp: eligibleTags_def ineligibleWhy_None)
qed

lemma eligibleTags_sorted:
  assumes "eligibleTags releases channel refused = t # ts"
  shows "\<forall>u \<in> set ts. version u \<le> version t"
proof -
  have ins: "sorted_wrt (\<lambda>a b. version b \<le> version a) (insert_tag t xs)"
    if "sorted_wrt (\<lambda>a b. version b \<le> version a) xs" "isReleaseTag t" "\<forall>x \<in> set xs. isReleaseTag x" for t xs
    using that by (induction xs) (auto simp: newer_iff intro: order_trans[OF _ less_imp_le] dest: leI)
  have f: "sorted_wrt (\<lambda>a b. version b \<le> version a) (foldr insert_tag ts []) \<and> (\<forall>x \<in> set (foldr insert_tag ts []). isReleaseTag x)"
    if "\<forall>x \<in> set ts. isReleaseTag x" for ts
    using that ins by (induction ts) auto
  have "sorted_wrt (\<lambda>a b. version b \<le> version a) (eligibleTags releases channel refused)"
    unfolding eligibleTags_def by (rule conjunct1[OF f]) (auto simp: ineligibleWhy_None eligible_def)
  with assms show ?thesis by simp
qed

lemma above_floor:
  assumes "floorOf h c = Some f" "newer t f" "isReleaseTag t" "isReleaseTag v" "h = Some v \<or> c = Some v"
  shows "version v < version t"
proof -
  have f: "isReleaseTag f" "version v \<le> version f" using floorOf_Some[OF assms(1)] assms(4,5) by blast+
  with newer_iff[OF assms(3) f(1)] assms(2) have "version f < version t" by simp
  with f(2) show ?thesis by (rule order.strict_trans1)
qed

lemma resolve_pinned:
  assumes "fst (resolveOnChannel channel (Some p) inp) = Some t"
  shows "t = p \<and> (\<exists>r \<in> set (ri_releases inp). er_tag r = t \<and> eligible r channel (ri_refused inp)) \<and>
    (\<exists>f. floorOf (ri_highestVersion inp) (ri_currentVersion inp) = Some f \<and> newer t f)"
proof -
  from assms obtain f where f: "floorOf (ri_highestVersion inp) (ri_currentVersion inp) = Some f"
    by (auto simp: resolveOnChannel_def split: if_splits option.splits)
  with assms have p: "t = p" "newer p f" "ineligibleWhy (find (\<lambda>r. er_tag r = p) (ri_releases inp)) channel (ri_refused inp) = None"
    by (auto simp: resolveOnChannel_def split: if_splits option.splits)
  then obtain r where r: "find (\<lambda>r. er_tag r = p) (ri_releases inp) = Some r" "eligible r channel (ri_refused inp)"
    by (auto simp: ineligibleWhy_None)
  from find_Some_set[OF r(1)] r(2) p f show ?thesis by auto
qed

lemma resolve_newest:
  assumes "fst (resolveOnChannel channel None inp) = Some t"
  shows "(\<exists>r \<in> set (ri_releases inp). er_tag r = t \<and> eligible r channel (ri_refused inp)) \<and>
    (\<exists>f. floorOf (ri_highestVersion inp) (ri_currentVersion inp) = Some f \<and> newer t f) \<and>
    (\<forall>r \<in> set (ri_releases inp). eligible r channel (ri_refused inp) \<longrightarrow> version (er_tag r) \<le> version t)"
proof -
  let ?el = "eligibleTags (ri_releases inp) channel (ri_refused inp)"
  from assms obtain f where f: "floorOf (ri_highestVersion inp) (ri_currentVersion inp) = Some f"
    by (auto simp: resolveOnChannel_def split: if_splits option.splits)
  with assms obtain ts where l: "?el = t # ts" "newer t f"
    by (auto simp: resolveOnChannel_def split: if_splits option.splits list.splits)
  have "version (er_tag r) \<le> version t" if "r \<in> set (ri_releases inp)" "eligible r channel (ri_refused inp)" for r
  proof -
    have "er_tag r \<in> set ?el" using that by (auto simp: set_eligibleTags)
    with eligibleTags_sorted[OF l(1)] show ?thesis by (auto simp: l)
  qed
  moreover have "t \<in> set ?el" by (simp add: l)
  ultimately show ?thesis using f l(2) by (auto simp: set_eligibleTags)
qed

lemma resolve_nothing:
  assumes "fst (resolveOnChannel channel None inp) = None"
    "\<not> (ri_highestVersion inp = None \<and> ri_floorRead inp = FloorUnmeasured)"
    "floorOf (ri_highestVersion inp) (ri_currentVersion inp) = Some f"
    "r \<in> set (ri_releases inp)" "eligible r channel (ri_refused inp)"
  shows "version (er_tag r) \<le> version f"
proof -
  let ?el = "eligibleTags (ri_releases inp) channel (ri_refused inp)"
  from assms(4,5) have mem: "er_tag r \<in> set ?el" by (auto simp: set_eligibleTags)
  then obtain m ms where l: "?el = m # ms" by (cases ?el) auto
  have "\<not> newer m f" using assms(1-3) l by (auto simp: resolveOnChannel_def split: if_splits)
  moreover have "m \<in> set ?el" by (simp add: l)
  then have "isReleaseTag m" by (auto simp: set_eligibleTags eligible_def)
  ultimately have "version m \<le> version f" using newer_iff[of m f] floorOf_Some[OF assms(3)] by (simp add: not_less)
  with eligibleTags_sorted[OF l] mem show ?thesis by (auto simp: l intro: order_trans)
qed

text \<open>C35: the resolver never names a tag that would move a node down or that it may not run, and
  names one whenever there is one. What it desires is in the catalogue and eligible on the
  channel, and strictly newer than the floor file and than what the node runs; a pin is the
  only tag it then names, and without one it names a newest eligible release; and it names
  nothing only when the floor is unknown, the pin is not eligible or not newer, or no eligible
  release is newer than the floor. The intent row of the node decides whenever it exists.\<close>

theorem resolver_never_moves_down:
  "(\<forall>t. fst (resolveOnChannel channel pin inp) = Some t \<longrightarrow>
      (\<exists>r \<in> set (ri_releases inp). er_tag r = t \<and> eligible r channel (ri_refused inp)) \<and>
      (\<forall>v. isReleaseTag v \<and> (ri_highestVersion inp = Some v \<or> ri_currentVersion inp = Some v) \<longrightarrow> version v < version t) \<and>
      (pin = None \<or> pin = Some t) \<and>
      (pin = None \<longrightarrow> (\<forall>r \<in> set (ri_releases inp). eligible r channel (ri_refused inp) \<longrightarrow> version (er_tag r) \<le> version t))) \<and>
   (fst (resolveOnChannel channel None inp) = None \<longrightarrow>
      (ri_highestVersion inp = None \<and> ri_floorRead inp = FloorUnmeasured) \<or>
      floorOf (ri_highestVersion inp) (ri_currentVersion inp) = None \<or>
      (\<exists>f. floorOf (ri_highestVersion inp) (ri_currentVersion inp) = Some f \<and>
         (\<forall>r \<in> set (ri_releases inp). eligible r channel (ri_refused inp) \<longrightarrow> version (er_tag r) \<le> version f))) \<and>
   (\<forall>row. ri_nodeIntent inp = Some row \<longrightarrow>
      rs_desiredTag (resolveNodeIntent inp) =
        (case iv_channel row of None \<Rightarrow> None | Some c \<Rightarrow> fst (resolveOnChannel c (iv_pinnedTag row) inp)))"
proof (intro conjI allI impI)
  fix t assume t: "fst (resolveOnChannel channel pin inp) = Some t"
  have s: "(\<exists>r \<in> set (ri_releases inp). er_tag r = t \<and> eligible r channel (ri_refused inp)) \<and>
    (\<exists>f. floorOf (ri_highestVersion inp) (ri_currentVersion inp) = Some f \<and> newer t f) \<and> (pin = None \<or> pin = Some t)"
    using t resolve_pinned resolve_newest by (cases pin) blast+
  then show "\<exists>r \<in> set (ri_releases inp). er_tag r = t \<and> eligible r channel (ri_refused inp)" "pin = None \<or> pin = Some t"
    by auto
  show "version v < version t"
    if "isReleaseTag v \<and> (ri_highestVersion inp = Some v \<or> ri_currentVersion inp = Some v)" for v
    using s that above_floor by (auto simp: eligible_def)
  show "\<forall>r \<in> set (ri_releases inp). eligible r channel (ri_refused inp) \<longrightarrow> version (er_tag r) \<le> version t" if "pin = None"
    using resolve_newest t that by blast
next
  assume n: "fst (resolveOnChannel channel None inp) = None"
  show "(ri_highestVersion inp = None \<and> ri_floorRead inp = FloorUnmeasured) \<or>
      floorOf (ri_highestVersion inp) (ri_currentVersion inp) = None \<or>
      (\<exists>f. floorOf (ri_highestVersion inp) (ri_currentVersion inp) = Some f \<and>
         (\<forall>r \<in> set (ri_releases inp). eligible r channel (ri_refused inp) \<longrightarrow> version (er_tag r) \<le> version f))"
    using resolve_nothing[OF n] by (cases "floorOf (ri_highestVersion inp) (ri_currentVersion inp)") blast+
next
  fix row assume "ri_nodeIntent inp = Some row"
  then show "rs_desiredTag (resolveNodeIntent inp) =
        (case iv_channel row of None \<Rightarrow> None | Some c \<Rightarrow> fst (resolveOnChannel c (iv_pinnedTag row) inp))"
    by (auto simp: resolveNodeIntent_def resolves_nothing_def Let_def split: option.split)
qed

definition demo_resolve :: resolve_input where
  "demo_resolve = \<lparr>ri_currentVersion = Some ''v1.0.0'', ri_highestVersion = None, ri_floorRead = FloorAbsent,
     ri_nodeIntent = None, ri_fleetIntent = None,
     ri_releases = [\<lparr>er_tag = ''v1.0.1'', er_channel = Some Stable, er_bundleListed = True, er_yanked = False\<rparr>],
     ri_refused = {}\<rparr>"

lemma demo_tags: "isReleaseTag ''v1.0.0''" "isReleaseTag ''v1.0.1''"
  by (simp_all add: isReleaseTag_def Let_def digit_char_def less_eq_char_def)

theorem resolver_never_moves_down_witness:
  "version ''v1.0.0'' < version ''v1.0.1'' \<and> fst (resolveOnChannel Stable None demo_resolve) = Some ''v1.0.1''"
proof -
  have v: "version ''v1.0.0'' < version ''v1.0.1''" by (simp add: version_def undec_def less_prod_def')
  then have "fst (resolveOnChannel Stable None demo_resolve) = Some ''v1.0.1''"
    by (simp add: resolveOnChannel_def demo_resolve_def floorOf_def tag_or_none_def demo_tags eligibleTags_def
        ineligibleWhy_def newer_iff)
  with resolver_never_moves_down[of Stable None demo_resolve] demo_tags(1) show ?thesis
    by (simp add: demo_resolve_def)
qed

end
