(* ===== verification/UpdateDispatch.thy ===== *)
theory UpdateDispatch
  imports FleetTypes UpdateResolve
begin

text \<open>
  The update dispatcher (\<open>server/src/update/dispatch.ts\<close> with the shared rules of
  \<open>shared/update-move.ts\<close>): who halts the fleet, why a node may not be moved, the one move of a
  run, the answer of the operation, the deadline of a lease and the follow-through of the
  server box. A sentence is prose: a refusal is kept as its word and the row it names.
\<close>

section \<open>Rows\<close>

datatype provenance_state = Verified | Unverified | ProvenanceUnknown
datatype request_kind = UpdateKind | RollbackKind
datatype stamp_read = StampOk | StampOther string
datatype move_source = RequestSource | AutoSource

datatype dispatch_refusal =
  RefUnknownTag | RefNotNewer | RefRefusedByNode | RefStampUnread | RefFloorUnread | RefNoDetachCap
| RefNoUpdateGate | RefNoRollbackCap | RefAgentPredates | RefHalted | RefWaitingForFleet | RefNoBundle

definition DETACH_CAP :: string where "DETACH_CAP = ''detach''"
definition ROLLBACK_CAP :: string where "ROLLBACK_CAP = ''rollback''"
definition UPDATE_GATE_CAP :: string where "UPDATE_GATE_CAP = ''update-gate''"
definition UPDATE_OP :: string where "UPDATE_OP = ''update''"
definition PROVENANCE_DETAIL_PREFIX :: string where "PROVENANCE_DETAIL_PREFIX = ''provenance:''"
definition UPDATE_DEADLINE_HARD_CAP_FACTOR :: int where "UPDATE_DEADLINE_HARD_CAP_FACTOR = 4"

record dispatch_row =
  dw_nodeId :: string
  dw_role :: "node_role option"
  dw_label :: string
  dw_currentVersion :: "string option"
  dw_highestVersion :: "string option"
  dw_floorRead :: tag_file_read
  dw_stampRead :: stamp_read
  dw_caps :: "string list"
  dw_agentOps :: "string list option"
  dw_reachable :: bool
  dw_updateState :: update_state
  dw_updateTarget :: "string option"
  dw_updateStartedAt :: "int option"
  dw_updateDetail :: "string option"
  dw_reportedUpdatedAt :: "int option"
  dw_channel :: "update_channel option"
  dw_desiredTag :: "string option"
  dw_provenance :: provenance_state
  dw_requestedTag :: "string option"
  dw_requestedKind :: "request_kind option"
  dw_requestedAt :: "int option"

record node_view =
  nv_row :: dispatch_row
  nv_auto :: auto_mode
  nv_refusedTags :: "string set"

record intended_move =
  im_kind :: request_kind
  im_target :: string
  im_source :: move_source

text \<open>What the version of a node reads as, and the words of a move: unversioned, or from what to what.\<close>

datatype current = Versioned string | Unversioned | Unread
datatype move_words = UnversionedWords | FromWords move_source request_kind current string

record dispatch_move =
  dm_nodeId :: string
  dm_kind :: request_kind
  dm_target :: string
  dm_source :: move_source
  dm_viaLink :: bool
  dm_detail :: move_words

text \<open>The row a refusal names besides its own: its label, its tag, and whether by its auto.\<close>

type_synonym refusal_blocker = "string \<times> string option \<times> bool"

record planned_refusal =
  pr_nodeId :: string
  pr_refusal :: dispatch_refusal
  pr_blocker :: "refusal_blocker option"

record fleet_gate =
  fg_haltedBy :: "string list"
  fg_leaseHeldBy :: "string option"

record dispatch_plan =
  dp_gate :: fleet_gate
  dp_move :: "dispatch_move option"
  dp_refusals :: "planned_refusal list"
  dp_met :: "(string \<times> string) list"

section \<open>The gate\<close>

definition isSettled :: "update_state \<Rightarrow> bool" where "isSettled s \<longleftrightarrow> s \<in> set SETTLED_UPDATE_STATES"

definition isHaltingUpdate :: "update_state \<Rightarrow> string option \<Rightarrow> bool" where
  "isHaltingUpdate state detail =
     (if \<not> isSettled state \<or> state = UIdle then False
      else if state = UFailed \<and> (case detail of None \<Rightarrow> False | Some d \<Rightarrow> starts_with d PROVENANCE_DETAIL_PREFIX) then False
      else True)"

definition isHalting :: "dispatch_row \<Rightarrow> bool" where
  "isHalting row = isHaltingUpdate (dw_updateState row) (dw_updateDetail row)"

definition fleetGate :: "dispatch_row list \<Rightarrow> fleet_gate" where
  "fleetGate rows =
     (let sorted = sort_key dw_nodeId rows in
      \<lparr>fg_haltedBy = map dw_nodeId (filter isHalting sorted),
       fg_leaseHeldBy = map_option dw_nodeId (find (\<lambda>r. \<not> isSettled (dw_updateState r)) sorted)\<rparr>)"

definition autoPermits :: "auto_mode \<Rightarrow> update_channel option \<Rightarrow> bool" where
  "autoPermits auto channel =
     (case auto of AutoOff \<Rightarrow> False | AutoStable \<Rightarrow> channel = Some Stable | AutoChannel \<Rightarrow> channel \<noteq> None)"

definition stampUnread :: "stamp_read \<Rightarrow> string option \<Rightarrow> bool" where
  "stampUnread sr currentVersion \<longleftrightarrow>
     sr \<noteq> StampOk \<or> (case currentVersion of None \<Rightarrow> False | Some v \<Rightarrow> \<not> isReleaseTag v)"

definition currentOf :: "dispatch_row \<Rightarrow> current" where
  "currentOf row =
     (if stampUnread (dw_stampRead row) (dw_currentVersion row) then Unread
      else (case dw_currentVersion row of None \<Rightarrow> Unversioned | Some v \<Rightarrow> Versioned v))"

definition agentPredatesUpdateOp :: "string list option \<Rightarrow> bool" where
  "agentPredatesUpdateOp agentOps = (case agentOps of None \<Rightarrow> False | Some ops \<Rightarrow> UPDATE_OP \<notin> set ops)"

definition updateTargetListed :: "eligibility_row option \<Rightarrow> bool" where
  "updateTargetListed row = (case row of None \<Rightarrow> False | Some r \<Rightarrow> er_bundleListed r \<and> \<not> er_yanked r)"

definition rollbackTargetRefusal :: "eligibility_row option \<Rightarrow> provenance_state \<Rightarrow> dispatch_refusal option" where
  "rollbackTargetRefusal release provenance =
     (case release of
        None \<Rightarrow> Some RefUnknownTag
      | Some r \<Rightarrow> if \<not> er_bundleListed r \<and> provenance = Verified then Some RefNoBundle else None)"

definition intendedMove :: "node_view \<Rightarrow> intended_move option" where
  "intendedMove v =
     (let r = nv_row v in
      case dw_requestedTag r of
        Some t \<Rightarrow>
          (case dw_requestedKind r of
             None \<Rightarrow> None
           | Some k \<Rightarrow> Some \<lparr>im_kind = k, im_target = t, im_source = RequestSource\<rparr>)
      | None \<Rightarrow>
          if autoPermits (nv_auto v) (dw_channel r)
          then map_option (\<lambda>t. \<lparr>im_kind = UpdateKind, im_target = t, im_source = AutoSource\<rparr>) (dw_desiredTag r)
          else None)"

definition releaseRowFor :: "eligibility_row list \<Rightarrow> string \<Rightarrow> eligibility_row option" where
  "releaseRowFor releases tag = (if isReleaseTag tag then find (\<lambda>r. er_tag r = tag) releases else None)"

section \<open>Why a node may not be moved\<close>

definition target_refusal :: "dispatch_row \<Rightarrow> intended_move \<Rightarrow> eligibility_row option \<Rightarrow> dispatch_refusal option" where
  "target_refusal row m known =
     (if im_kind m = UpdateKind then
        (if currentOf row = Unread then Some RefStampUnread
         else if dw_highestVersion row = None \<and> dw_floorRead row = FloorUnmeasured then Some RefFloorUnread
         else if isReleaseTag (im_target m) \<and>
                 (case floorOf (dw_highestVersion row) (dw_currentVersion row) of
                    None \<Rightarrow> False | Some f \<Rightarrow> \<not> newer (im_target m) f)
         then Some RefNotNewer
         else if \<not> updateTargetListed known then Some RefUnknownTag else None)
      else rollbackTargetRefusal known (dw_provenance row))"

definition moveRefusal :: "node_view \<Rightarrow> intended_move \<Rightarrow> eligibility_row list \<Rightarrow> fleet_gate \<Rightarrow> dispatch_refusal option" where
  "moveRefusal v m releases gate =
     (let row = nv_row v in
      if length (fg_haltedBy gate) > 0 then Some RefHalted
      else case target_refusal row m (releaseRowFor releases (im_target m)) of
        Some w \<Rightarrow> Some w
      | None \<Rightarrow>
          if im_target m \<in> nv_refusedTags v then Some RefRefusedByNode
          else if DETACH_CAP \<notin> set (dw_caps row) then Some RefNoDetachCap
          else if im_kind m = RollbackKind \<and> ROLLBACK_CAP \<notin> set (dw_caps row) then Some RefNoRollbackCap
          else if im_source m = AutoSource \<and> UPDATE_GATE_CAP \<notin> set (dw_caps row) then Some RefNoUpdateGate
          else if agentPredatesUpdateOp (dw_agentOps row) then Some RefAgentPredates
          else None)"

section \<open>The plan\<close>

definition dispatchRank :: "node_role option \<Rightarrow> nat" where
  "dispatchRank role = (case role of Some RFleet \<Rightarrow> 0 | Some RServer \<Rightarrow> 1 | Some RBoth \<Rightarrow> 1 | None \<Rightarrow> 2)"

text \<open>The order of \<open>compareDispatchOrder\<close>: rank, then label, then node id.\<close>

definition dispatch_key :: "node_view \<Rightarrow> nat \<times> string \<times> string" where
  "dispatch_key v = (dispatchRank (dw_role (nv_row v)), dw_label (nv_row v), dw_nodeId (nv_row v))"

definition knownRefusedAsk :: "eligibility_row list \<Rightarrow> node_view \<Rightarrow> bool" where
  "knownRefusedAsk releases v =
     (case dw_requestedTag (nv_row v) of
        None \<Rightarrow> False
      | Some t \<Rightarrow> dw_requestedKind (nv_row v) = Some RollbackKind \<and>
          rollbackTargetRefusal (releaseRowFor releases t) (dw_provenance (nv_row v)) \<noteq> None)"

definition fleet_ask :: "eligibility_row list \<Rightarrow> node_view \<Rightarrow> bool" where
  "fleet_ask releases v =
     (dispatchRank (dw_role (nv_row v)) = 0 \<and>
      (case dw_requestedTag (nv_row v) of None \<Rightarrow> False | Some t \<Rightarrow> t \<notin> nv_refusedTags v) \<and> \<not> knownRefusedAsk releases v)"

definition fleet_auto :: "eligibility_row list \<Rightarrow> node_view \<Rightarrow> bool" where
  "fleet_auto releases v =
     (dispatchRank (dw_role (nv_row v)) = 0 \<and> autoPermits (nv_auto v) (dw_channel (nv_row v)) \<and>
      (case dw_desiredTag (nv_row v) of None \<Rightarrow> False | Some t \<Rightarrow> t \<notin> nv_refusedTags v) \<and> \<not> knownRefusedAsk releases v)"

text \<open>The refusal of one considered node, the wait for the fleet included, with the row it names.\<close>

definition row_refusal ::
  "eligibility_row list \<Rightarrow> fleet_gate \<Rightarrow> node_view option \<Rightarrow> node_view option \<Rightarrow> node_view option \<Rightarrow>
   node_view \<Rightarrow> intended_move \<Rightarrow> (dispatch_refusal \<times> refusal_blocker option) option" where
  "row_refusal releases gate halted ask auto v m =
     (case moveRefusal v m releases gate of
        Some w \<Rightarrow> Some (w, if w = RefHalted then map_option (\<lambda>h. (dw_label (nv_row h), None, False)) halted else None)
      | None \<Rightarrow>
          if dispatchRank (dw_role (nv_row v)) \<noteq> 0 then
            (case ask of
               Some a \<Rightarrow> Some (RefWaitingForFleet, Some (dw_label (nv_row a), dw_requestedTag (nv_row a), False))
             | None \<Rightarrow>
                 if im_source m = AutoSource
                 then map_option (\<lambda>a. (RefWaitingForFleet, Some (dw_label (nv_row a), dw_desiredTag (nv_row a), True))) auto
                 else None)
          else None)"

definition is_met :: "node_view \<Rightarrow> intended_move \<Rightarrow> bool" where
  "is_met v m \<longleftrightarrow> im_source m = RequestSource \<and> dw_updateState (nv_row v) = UIdle \<and> dw_stampRead (nv_row v) = StampOk \<and>
     dw_currentVersion (nv_row v) = Some (im_target m)"

definition considered :: "node_view \<Rightarrow> bool" where
  "considered v \<longleftrightarrow> isSettled (dw_updateState (nv_row v)) \<and> dw_reachable (nv_row v)"

definition moveDetail :: "dispatch_row \<Rightarrow> intended_move \<Rightarrow> move_words" where
  "moveDetail row m =
     (if im_kind m = UpdateKind \<and> currentOf row = Unversioned then UnversionedWords
      else FromWords (im_source m) (im_kind m) (currentOf row) (im_target m))"

definition move_of :: "node_view \<Rightarrow> intended_move \<Rightarrow> dispatch_move" where
  "move_of v m = \<lparr>dm_nodeId = dw_nodeId (nv_row v), dm_kind = im_kind m, dm_target = im_target m, dm_source = im_source m,
     dm_viaLink = (dw_agentOps (nv_row v) \<noteq> None), dm_detail = moveDetail (nv_row v) m\<rparr>"

text \<open>The loop over the ordered rows.\<close>

fun plan_rows ::
  "(node_view \<Rightarrow> intended_move \<Rightarrow> (dispatch_refusal \<times> refusal_blocker option) option) \<Rightarrow> bool \<Rightarrow> node_view list \<Rightarrow>
   dispatch_move option \<Rightarrow> dispatch_move option \<times> planned_refusal list \<times> (string \<times> string) list" where
  "plan_rows refusal held [] move = (move, [], [])"
| "plan_rows refusal held (v # vs) move =
     (if \<not> considered v then plan_rows refusal held vs move
      else case intendedMove v of
        None \<Rightarrow> plan_rows refusal held vs move
      | Some m \<Rightarrow>
          if is_met v m then
            (case plan_rows refusal held vs move of
               (mv, rs, ms) \<Rightarrow> (mv, rs, (dw_nodeId (nv_row v), im_target m) # ms))
          else case refusal v m of
            Some (w, b) \<Rightarrow>
              (case plan_rows refusal held vs move of
                 (mv, rs, ms) \<Rightarrow>
                   (mv, if dw_updateState (nv_row v) = UIdle
                        then \<lparr>pr_nodeId = dw_nodeId (nv_row v), pr_refusal = w, pr_blocker = b\<rparr> # rs else rs, ms))
          | None \<Rightarrow> plan_rows refusal held vs (if move = None \<and> \<not> held then Some (move_of v m) else move))"

definition planDispatch :: "node_view list \<Rightarrow> eligibility_row list \<Rightarrow> dispatch_plan" where
  "planDispatch nodes releases =
     (let gate = fleetGate (map nv_row nodes);
          ordered = sort_key dispatch_key nodes;
          ask = find (fleet_ask releases) ordered;
          auto = find (fleet_auto releases) ordered;
          halted = (case fg_haltedBy gate of [] \<Rightarrow> None | h # _ \<Rightarrow> find (\<lambda>v. dw_nodeId (nv_row v) = h) ordered);
          (move, refusals, met) =
            plan_rows (row_refusal releases gate halted ask auto) (fg_leaseHeldBy gate \<noteq> None) ordered None in
      \<lparr>dp_gate = gate, dp_move = move, dp_refusals = refusals, dp_met = met\<rparr>)"

section \<open>The answer, the deadline, the follow-through\<close>

datatype reached = NeverReached | MaybeReached

datatype op_answer = OpAccepted | OpRefused string | OpTransport reached

datatype answer_action = HoldLease | ReleaseIdle | ReleaseFailed

definition UPDATE_OP_ERRORS :: "string list" where
  "UPDATE_OP_ERRORS = [''bad-tag'', ''bad-kind'', ''busy'', ''spawn-failed'', ''not-queued'']"

definition classifyOpAnswer :: "op_answer \<Rightarrow> bool \<Rightarrow> answer_action" where
  "classifyOpAnswer a advertised =
     (case a of
        OpAccepted \<Rightarrow> HoldLease
      | OpTransport MaybeReached \<Rightarrow> HoldLease
      | OpTransport NeverReached \<Rightarrow> ReleaseIdle
      | OpRefused err \<Rightarrow>
          if err = ''bad-request'' then (if advertised then ReleaseFailed else ReleaseIdle)
          else if err \<notin> set UPDATE_OP_ERRORS then ReleaseFailed
          else if err = ''busy'' \<or> err = ''not-queued'' then ReleaseIdle
          else ReleaseFailed)"

definition deadlineExpired :: "dispatch_row \<Rightarrow> int \<Rightarrow> int \<Rightarrow> bool" where
  "deadlineExpired row now deadlineMs =
     (if isSettled (dw_updateState row) then False
      else if (case dw_updateStartedAt row of None \<Rightarrow> False
               | Some s \<Rightarrow> now - s \<ge> UPDATE_DEADLINE_HARD_CAP_FACTOR * deadlineMs) then True
      else case (dw_updateStartedAt row, dw_reportedUpdatedAt row) of
        (None, None) \<Rightarrow> True
      | (Some s, None) \<Rightarrow> now - s > deadlineMs
      | (None, Some r) \<Rightarrow> now - r > deadlineMs
      | (Some s, Some r) \<Rightarrow> now - max s r > deadlineMs)"

definition leaseHolder :: "dispatch_row list \<Rightarrow> string \<Rightarrow> int \<Rightarrow> string option" where
  "leaseHolder rows label startedAt =
     (case filter (\<lambda>r. dw_label r = label \<and> dw_updateStartedAt r = Some startedAt \<and> \<not> isSettled (dw_updateState r)) rows of
        [r] \<Rightarrow> Some (dw_nodeId r)
      | _ \<Rightarrow> None)"

record landed_move =
  lv_nodeId :: string
  lv_label :: string
  lv_target :: string

datatype follow_step = FollowRequest string string | FollowNote string dispatch_refusal

definition follow_update :: "string \<Rightarrow> intended_move" where
  "follow_update tag = \<lparr>im_kind = UpdateKind, im_target = tag, im_source = RequestSource\<rparr>"

definition follow_row :: "landed_move \<Rightarrow> eligibility_row list \<Rightarrow> fleet_gate \<Rightarrow> node_view \<Rightarrow> follow_step list" where
  "follow_row landed releases gate v =
     (let row = nv_row v in
      if dispatchRank (dw_role row) = 0 \<or> dw_nodeId row = lv_nodeId landed then []
      else if dw_updateState row \<noteq> UIdle \<or> dw_requestedTag row \<noteq> None then []
      else if (case floorOf (dw_highestVersion row) (dw_currentVersion row) of
                 None \<Rightarrow> False | Some f \<Rightarrow> \<not> newer (lv_target landed) f) then []
      else case moveRefusal v (follow_update (lv_target landed)) releases gate of
        None \<Rightarrow> [FollowRequest (dw_nodeId row) (lv_target landed)]
      | Some w \<Rightarrow> [FollowNote (dw_nodeId row) w])"

definition followSteps :: "landed_move \<Rightarrow> node_view list \<Rightarrow> eligibility_row list \<Rightarrow> follow_step list" where
  "followSteps landed nodes releases =
     (if \<not> isReleaseTag (lv_target landed) then []
      else concat (map (follow_row landed releases (fleetGate (map nv_row nodes))) (sort_key dispatch_key nodes)))"

end
