(* ===== verification/UpdateProps.thy ===== *)
theory UpdateProps
  imports UpdateDispatch
begin

text \<open>
  What a plan of the dispatcher promises: the loop of \<open>planDispatch\<close> is three filters of the
  ordered rows; a move it names is safe for the node and for the fleet; a lease ends.
\<close>

section \<open>The loop is three filters\<close>

text \<open>The fate of one row: passed over, met, refused with its words, or cleared for its move.\<close>

datatype fate = Passed | Met string | Refused dispatch_refusal "refusal_blocker option" | Cleared dispatch_move

definition fate_of ::
  "(node_view \<Rightarrow> intended_move \<Rightarrow> (dispatch_refusal \<times> refusal_blocker option) option) \<Rightarrow> node_view \<Rightarrow> fate" where
  "fate_of refusal v =
     (case (considered v, intendedMove v) of
        (True, Some m) \<Rightarrow>
          if is_met v m then Met (im_target m)
          else (case refusal v m of Some (w, b) \<Rightarrow> Refused w b | None \<Rightarrow> Cleared (move_of v m))
      | _ \<Rightarrow> Passed)"

fun met_entry :: "node_view \<Rightarrow> fate \<Rightarrow> (string \<times> string) option" where
  "met_entry v (Met t) = Some (dw_nodeId (nv_row v), t)"
| "met_entry v _ = None"

fun note_entry :: "node_view \<Rightarrow> fate \<Rightarrow> planned_refusal option" where
  "note_entry v (Refused w b) =
     (if dw_updateState (nv_row v) = UIdle
      then Some \<lparr>pr_nodeId = dw_nodeId (nv_row v), pr_refusal = w, pr_blocker = b\<rparr> else None)"
| "note_entry v _ = None"

fun cleared_move :: "fate \<Rightarrow> dispatch_move option" where
  "cleared_move (Cleared m) = Some m"
| "cleared_move _ = None"

definition first_cleared :: "(node_view \<Rightarrow> fate) \<Rightarrow> node_view list \<Rightarrow> dispatch_move option" where
  "first_cleared fate vs = (case List.map_filter (cleared_move \<circ> fate) vs of [] \<Rightarrow> None | m # _ \<Rightarrow> Some m)"

lemma first_cleared_simps [simp]:
  "first_cleared f [] = None"
  "first_cleared f (v # vs) = (case cleared_move (f v) of None \<Rightarrow> first_cleared f vs | Some m \<Rightarrow> Some m)"
  by (simp_all add: first_cleared_def List.map_filter_simps split: option.split)

lemma plan_rows_filters:
  "plan_rows refusal held vs move =
     ((case move of Some m \<Rightarrow> Some m | None \<Rightarrow> if held then None else first_cleared (fate_of refusal) vs),
      List.map_filter (\<lambda>v. note_entry v (fate_of refusal v)) vs,
      List.map_filter (\<lambda>v. met_entry v (fate_of refusal v)) vs)"
proof (induction vs arbitrary: move)
  case Nil
  then show ?case by (simp add: List.map_filter_simps split: option.split)
next
  case (Cons v vs)
  show ?case
  proof (cases "considered v")
    case False
    then show ?thesis by (cases move) (simp_all add: Cons.IH fate_of_def List.map_filter_simps)
  next
    case c: True
    show ?thesis
    proof (cases "intendedMove v")
      case None
      with c show ?thesis by (cases move) (simp_all add: Cons.IH fate_of_def List.map_filter_simps)
    next
      case (Some m)
      with c show ?thesis
        by (cases move; cases "refusal v m") (simp_all add: Cons.IH fate_of_def List.map_filter_simps split: prod.split)
    qed
  qed
qed

lemma first_cleared_Some:
  assumes "first_cleared f vs = Some m"
  obtains us v ws where "vs = us @ v # ws" "f v = Cleared m" "\<forall>u \<in> set us. cleared_move (f u) = None"
  using assms
proof (induction vs arbitrary: thesis)
  case (Cons v vs)
  show ?case
  proof (cases "cleared_move (f v)")
    case None
    with Cons.prems(2) have "first_cleared f vs = Some m" by simp
    then obtain us w ws where "vs = us @ w # ws" "f w = Cleared m" "\<forall>u \<in> set us. cleared_move (f u) = None"
      using Cons.IH by blast
    with None show ?thesis by (intro Cons.prems(1)[of "v # us" w ws]) auto
  next
    case (Some k)
    with Cons.prems(2) have "f v = Cleared m" by (cases "f v") auto
    then show ?thesis by (intro Cons.prems(1)[of "[]" v vs]) auto
  qed
qed simp

lemma first_cleared_None: "first_cleared f vs = None \<longleftrightarrow> (\<forall>v \<in> set vs. cleared_move (f v) = None)"
  by (induction vs) (auto split: option.split)

section \<open>The gate of a plan\<close>

lemma haltedBy_Nil: "fg_haltedBy (fleetGate rows) = [] \<longleftrightarrow> (\<forall>r \<in> set rows. \<not> isHalting r)"
  by (auto simp: fleetGate_def Let_def filter_empty_conv)

lemma leaseHeld_None: "fg_leaseHeldBy (fleetGate rows) = None \<longleftrightarrow> (\<forall>r \<in> set rows. isSettled (dw_updateState r))"
  by (auto simp: fleetGate_def Let_def find_None_iff)

text \<open>The refusals of a plan, with the fleet rows they name read off the ordered rows.\<close>

definition plan_refusal ::
  "node_view list \<Rightarrow> eligibility_row list \<Rightarrow> node_view \<Rightarrow> intended_move \<Rightarrow>
   (dispatch_refusal \<times> refusal_blocker option) option" where
  "plan_refusal nodes releases =
     (let gate = fleetGate (map nv_row nodes); ordered = sort_key dispatch_key nodes in
      row_refusal releases gate
        (case fg_haltedBy gate of [] \<Rightarrow> None | h # _ \<Rightarrow> find (\<lambda>v. dw_nodeId (nv_row v) = h) ordered)
        (find (fleet_ask releases) ordered) (find (fleet_auto releases) ordered))"

definition plan_fate :: "node_view list \<Rightarrow> eligibility_row list \<Rightarrow> node_view \<Rightarrow> fate" where
  "plan_fate nodes releases = fate_of (plan_refusal nodes releases)"

lemma planDispatch_sel:
  "dp_gate (planDispatch nodes releases) = fleetGate (map nv_row nodes)"
  "dp_move (planDispatch nodes releases) =
     (if fg_leaseHeldBy (fleetGate (map nv_row nodes)) \<noteq> None then None
      else first_cleared (plan_fate nodes releases) (sort_key dispatch_key nodes))"
  "dp_refusals (planDispatch nodes releases) =
     List.map_filter (\<lambda>v. note_entry v (plan_fate nodes releases v)) (sort_key dispatch_key nodes)"
  "dp_met (planDispatch nodes releases) =
     List.map_filter (\<lambda>v. met_entry v (plan_fate nodes releases v)) (sort_key dispatch_key nodes)"
  by (simp_all add: planDispatch_def Let_def plan_rows_filters plan_fate_def plan_refusal_def)

lemma row_refusal_None:
  "row_refusal releases gate halted ask auto v m = None \<longleftrightarrow>
     moveRefusal v m releases gate = None \<and>
     (dispatchRank (dw_role (nv_row v)) \<noteq> 0 \<longrightarrow> ask = None \<and> (im_source m = AutoSource \<longrightarrow> auto = None))"
  by (simp add: row_refusal_def split: option.split)

lemma fate_of_Cleared:
  "fate_of refusal v = Cleared mv \<longleftrightarrow>
     (\<exists>m. considered v \<and> intendedMove v = Some m \<and> \<not> is_met v m \<and> mv = move_of v m \<and> refusal v m = None)"
  by (cases "considered v") (auto simp: fate_of_def split: option.splits if_splits)

lemma plan_fate_Cleared:
  "plan_fate nodes releases v = Cleared mv \<longleftrightarrow>
     (\<exists>m. considered v \<and> intendedMove v = Some m \<and> \<not> is_met v m \<and> mv = move_of v m \<and>
        moveRefusal v m releases (fleetGate (map nv_row nodes)) = None \<and>
        (dispatchRank (dw_role (nv_row v)) \<noteq> 0 \<longrightarrow>
           (\<forall>u \<in> set nodes. \<not> fleet_ask releases u) \<and>
           (im_source m = AutoSource \<longrightarrow> (\<forall>u \<in> set nodes. \<not> fleet_auto releases u))))"
  by (simp add: plan_fate_def fate_of_Cleared plan_refusal_def Let_def row_refusal_None find_None_iff_ball)

section \<open>What clears a node\<close>

lemma releaseRowFor_Some:
  assumes "releaseRowFor releases tag = Some r"
  shows "isReleaseTag tag \<and> r \<in> set releases \<and> er_tag r = tag"
  using assms find_Some_set by (fastforce simp: releaseRowFor_def split: if_splits)

lemma currentOf_Unread: "currentOf row = Unread \<longleftrightarrow> stampUnread (dw_stampRead row) (dw_currentVersion row)"
  by (simp add: currentOf_def split: option.split)

lemma update_target_cleared:
  assumes "target_refusal row m (releaseRowFor releases (im_target m)) = None" "im_kind m = UpdateKind"
  shows "(\<exists>r \<in> set releases. er_tag r = im_target m \<and> er_bundleListed r \<and> \<not> er_yanked r) \<and> isReleaseTag (im_target m) \<and>
    \<not> stampUnread (dw_stampRead row) (dw_currentVersion row) \<and>
    \<not> (dw_highestVersion row = None \<and> dw_floorRead row = FloorUnmeasured) \<and>
    (\<forall>t. isReleaseTag t \<and> (dw_highestVersion row = Some t \<or> dw_currentVersion row = Some t) \<longrightarrow>
       version t < version (im_target m))"
proof -
  let ?fl = "floorOf (dw_highestVersion row) (dw_currentVersion row)"
  from assms have l: "updateTargetListed (releaseRowFor releases (im_target m))"
    and s: "\<not> stampUnread (dw_stampRead row) (dw_currentVersion row)"
      "\<not> (dw_highestVersion row = None \<and> dw_floorRead row = FloorUnmeasured)"
    by (auto simp: target_refusal_def currentOf_Unread split: if_splits)
  then obtain r where r: "releaseRowFor releases (im_target m) = Some r" "er_bundleListed r" "\<not> er_yanked r"
    by (auto simp: updateTargetListed_def split: option.splits)
  from releaseRowFor_Some[OF r(1)] have t: "isReleaseTag (im_target m)" by simp
  have f: "newer (im_target m) f" if "?fl = Some f" for f
    using assms t that by (auto simp: target_refusal_def split: if_splits)
  have "version v < version (im_target m)"
    if v: "isReleaseTag v" "dw_highestVersion row = Some v \<or> dw_currentVersion row = Some v" for v
  proof -
    have "?fl \<noteq> None" using v by (auto simp: floorOf_def tag_or_none_def split: option.splits)
    then obtain f where "?fl = Some f" by blast
    from above_floor[OF this f[OF this] t v] show ?thesis .
  qed
  with r releaseRowFor_Some[OF r(1)] s show ?thesis by blast
qed

lemma rollback_target_cleared:
  assumes "target_refusal row m (releaseRowFor releases (im_target m)) = None" "im_kind m = RollbackKind"
  shows "\<exists>r \<in> set releases. er_tag r = im_target m \<and> (dw_provenance row = Verified \<longrightarrow> er_bundleListed r)"
  using assms releaseRowFor_Some
  by (fastforce simp: target_refusal_def rollbackTargetRefusal_def split: option.splits if_splits)

lemma moveRefusal_None:
  "moveRefusal v m releases gate = None \<longleftrightarrow>
     fg_haltedBy gate = [] \<and> target_refusal (nv_row v) m (releaseRowFor releases (im_target m)) = None \<and>
     im_target m \<notin> nv_refusedTags v \<and> DETACH_CAP \<in> set (dw_caps (nv_row v)) \<and>
     (im_kind m = RollbackKind \<longrightarrow> ROLLBACK_CAP \<in> set (dw_caps (nv_row v))) \<and>
     (im_source m = AutoSource \<longrightarrow> UPDATE_GATE_CAP \<in> set (dw_caps (nv_row v))) \<and>
     \<not> agentPredatesUpdateOp (dw_agentOps (nv_row v))"
  by (auto simp: moveRefusal_def Let_def split: option.splits)

text \<open>A cleared node may take its move, and no fleet row is to go first.\<close>

definition may_take :: "node_view list \<Rightarrow> eligibility_row list \<Rightarrow> node_view \<Rightarrow> intended_move \<Rightarrow> bool" where
  "may_take nodes releases v m \<longleftrightarrow>
     considered v \<and> intendedMove v = Some m \<and> \<not> is_met v m \<and> im_target m \<notin> nv_refusedTags v \<and>
     DETACH_CAP \<in> set (dw_caps (nv_row v)) \<and>
     (im_source m = AutoSource \<longrightarrow> UPDATE_GATE_CAP \<in> set (dw_caps (nv_row v))) \<and>
     (im_kind m = RollbackKind \<longrightarrow> ROLLBACK_CAP \<in> set (dw_caps (nv_row v)) \<and>
        (\<exists>r \<in> set releases. er_tag r = im_target m \<and> (dw_provenance (nv_row v) = Verified \<longrightarrow> er_bundleListed r))) \<and>
     (im_kind m = UpdateKind \<longrightarrow>
        (\<exists>r \<in> set releases. er_tag r = im_target m \<and> er_bundleListed r \<and> \<not> er_yanked r) \<and>
        (\<forall>t. isReleaseTag t \<and> (dw_highestVersion (nv_row v) = Some t \<or> dw_currentVersion (nv_row v) = Some t) \<longrightarrow>
           version t < version (im_target m))) \<and>
     (dispatchRank (dw_role (nv_row v)) \<noteq> 0 \<longrightarrow>
        (\<forall>u \<in> set nodes. \<not> fleet_ask releases u) \<and>
        (im_source m = AutoSource \<longrightarrow> (\<forall>u \<in> set nodes. \<not> fleet_auto releases u)))"

lemma cleared_may_take:
  assumes "plan_fate nodes releases v = Cleared mv"
  shows "\<exists>m. may_take nodes releases v m \<and> mv = move_of v m \<and> (\<forall>u \<in> set nodes. \<not> isHalting (nv_row u))"
proof -
  from assms obtain m where m: "considered v" "intendedMove v = Some m" "\<not> is_met v m" "mv = move_of v m"
    "moveRefusal v m releases (fleetGate (map nv_row nodes)) = None"
    "dispatchRank (dw_role (nv_row v)) \<noteq> 0 \<longrightarrow>
           (\<forall>u \<in> set nodes. \<not> fleet_ask releases u) \<and>
           (im_source m = AutoSource \<longrightarrow> (\<forall>u \<in> set nodes. \<not> fleet_auto releases u))"
    by (auto simp: plan_fate_Cleared)
  from m(5) have t: "target_refusal (nv_row v) m (releaseRowFor releases (im_target m)) = None"
    "\<forall>u \<in> set nodes. \<not> isHalting (nv_row u)"
    by (simp_all add: moveRefusal_None haltedBy_Nil)
  have "may_take nodes releases v m"
    unfolding may_take_def using m moveRefusal_None[THEN iffD1, OF m(5)]
      update_target_cleared[OF t(1)] rollback_target_cleared[OF t(1)] by blast
  with m t show ?thesis by blast
qed


section \<open>A concrete fleet\<close>

definition demo_release :: "string \<Rightarrow> eligibility_row" where
  "demo_release tag = \<lparr>er_tag = tag, er_channel = Some Stable, er_bundleListed = True, er_yanked = False\<rparr>"

definition demo_row :: "string \<Rightarrow> node_role \<Rightarrow> string option \<Rightarrow> dispatch_row" where
  "demo_row nid role asked = \<lparr>dw_nodeId = nid, dw_role = Some role, dw_label = nid, dw_currentVersion = Some ''v1.0.0'',
     dw_highestVersion = None, dw_floorRead = FloorAbsent, dw_stampRead = StampOk, dw_caps = [DETACH_CAP],
     dw_agentOps = Some [UPDATE_OP], dw_reachable = True, dw_updateState = UIdle, dw_updateTarget = None, dw_updateStartedAt = None,
     dw_updateDetail = None, dw_reportedUpdatedAt = None, dw_channel = Some Stable, dw_desiredTag = None,
     dw_provenance = Verified, dw_requestedTag = asked, dw_requestedKind = map_option (\<lambda>_. UpdateKind) asked, dw_requestedAt = None\<rparr>"

definition demo_view :: "dispatch_row \<Rightarrow> node_view" where
  "demo_view r = \<lparr>nv_row = r, nv_auto = AutoOff, nv_refusedTags = {}\<rparr>"

lemma demo_newer: "newer ''v1.0.1'' ''v1.0.0''"
  by (simp add: newer_iff demo_tags version_def undec_def less_prod_def')

lemmas demo_fleet_defs = demo_row_def demo_view_def demo_release_def

lemma demo_row_gate:
  "isSettled (dw_updateState (demo_row nid role asked))" "\<not> isHalting (demo_row nid role asked)"
  by (simp_all add: demo_row_def isSettled_def isHalting_def isHaltingUpdate_def SETTLED_UPDATE_STATES_def)

definition demo_asked :: node_view where "demo_asked = demo_view (demo_row ''f'' RFleet (Some ''v1.0.1''))"

lemma demo_refusal:
  "moveRefusal (demo_view (demo_row nid role asked)) (follow_update ''v1.0.1'') [demo_release ''v1.0.1''] gate =
     (if fg_haltedBy gate = [] then None else Some RefHalted)"
  by (simp add: moveRefusal_def target_refusal_def demo_fleet_defs follow_update_def Let_def currentOf_Unread stampUnread_def demo_tags
      floorOf_def tag_or_none_def demo_newer releaseRowFor_def updateTargetListed_def agentPredatesUpdateOp_def)

lemma demo_intended: "intendedMove demo_asked = Some (follow_update ''v1.0.1'')"
  by (simp add: intendedMove_def demo_asked_def demo_fleet_defs follow_update_def Let_def)

lemma demo_plan:
  "dp_move (planDispatch [demo_asked] [demo_release ''v1.0.1'']) = Some (move_of demo_asked (follow_update ''v1.0.1''))"
proof -
  let ?n = "[demo_asked]" and ?r = "[demo_release ''v1.0.1'']"
  have g: "fg_leaseHeldBy (fleetGate (map nv_row ?n)) = None" "fg_haltedBy (fleetGate (map nv_row ?n)) = []"
    using demo_row_gate by (simp_all add: leaseHeld_None haltedBy_Nil demo_asked_def demo_view_def)
  have "plan_fate ?n ?r demo_asked = Cleared (move_of demo_asked (follow_update ''v1.0.1''))"
    unfolding plan_fate_Cleared
    using g(2) demo_refusal[of "''f''" RFleet "Some ''v1.0.1''"] demo_intended demo_row_gate(1)
    by (auto simp: demo_asked_def considered_def is_met_def dispatchRank_def demo_view_def demo_row_def follow_update_def)
  with g(1) show ?thesis by (simp add: planDispatch_sel)
qed


section \<open>What a plan says of every row\<close>

lemma set_map_filter_iff: "y \<in> set (List.map_filter f xs) \<longleftrightarrow> (\<exists>x \<in> set xs. f x = Some y)"
  by (induction xs) (auto simp: List.map_filter_simps split: option.splits)

lemma subseq_map_filter:
  "(\<And>x y. f x = Some y \<Longrightarrow> h y = g x) \<Longrightarrow> subseq (map h (List.map_filter f xs)) (map g xs)"
  by (induction xs) (auto simp: List.map_filter_simps split: option.splits)

lemma fate_of_Met:
  "fate_of refusal v = Met t \<longleftrightarrow> (\<exists>m. considered v \<and> intendedMove v = Some m \<and> is_met v m \<and> t = im_target m)"
  by (cases "considered v") (auto simp: fate_of_def split: option.splits if_splits)

lemma fate_of_Refused:
  "fate_of refusal v = Refused w b \<longleftrightarrow>
     (\<exists>m. considered v \<and> intendedMove v = Some m \<and> \<not> is_met v m \<and> refusal v m = Some (w, b))"
  by (cases "considered v") (auto simp: fate_of_def split: option.splits if_splits)

lemma met_entry_Some: "met_entry v f = Some e \<longleftrightarrow> (\<exists>t. f = Met t \<and> e = (dw_nodeId (nv_row v), t))"
  by (cases f) auto

lemma note_entry_Some:
  "note_entry v f = Some p \<longleftrightarrow>
     dw_updateState (nv_row v) = UIdle \<and> pr_nodeId p = dw_nodeId (nv_row v) \<and> f = Refused (pr_refusal p) (pr_blocker p)"
  by (cases f; cases p) auto

lemma cleared_move_None: "cleared_move f = None \<longleftrightarrow> (\<forall>m. f \<noteq> Cleared m)"
  by (cases f) auto

text \<open>The halting row a refusal names: of those with the least node id, one in dispatch order.\<close>

lemma sorted_map_sort_filter: "sorted (map f (filter P (sort_key f xs)))"
  by (simp add: sorted_filter)

lemma haltedBy_hd:
  assumes "fg_haltedBy (fleetGate rows) = h # hs"
  shows "(\<exists>r \<in> set rows. isHalting r \<and> dw_nodeId r = h) \<and> (\<forall>r \<in> set rows. isHalting r \<longrightarrow> h \<le> dw_nodeId r)"
proof -
  let ?l = "filter isHalting (sort_key dw_nodeId rows)"
  have l: "map dw_nodeId ?l = h # hs" using assms by (simp add: fleetGate_def Let_def)
  have "sorted (map dw_nodeId ?l)" by (rule sorted_map_sort_filter)
  then have "\<forall>x \<in> set (map dw_nodeId ?l). h \<le> x" unfolding l by simp
  moreover have "h \<in> set (map dw_nodeId ?l)" unfolding l by simp
  ultimately show ?thesis by auto
qed

lemma plan_refusal_halted:
  assumes "u \<in> set nodes" "isHalting (nv_row u)" "plan_refusal nodes releases v m = Some (w, b)"
  shows "w = RefHalted \<and> (\<exists>k \<in> set nodes. \<exists>x \<in> set nodes. b = Some (dw_label (nv_row k), None, False) \<and>
     dw_nodeId (nv_row k) = dw_nodeId (nv_row x) \<and> isHalting (nv_row x) \<and>
     (\<forall>y \<in> set nodes. isHalting (nv_row y) \<longrightarrow> dw_nodeId (nv_row x) \<le> dw_nodeId (nv_row y)))"
proof -
  let ?g = "fleetGate (map nv_row nodes)" and ?o = "sort_key dispatch_key nodes"
  have "fg_haltedBy ?g \<noteq> []" using assms(1,2) by (auto simp: haltedBy_Nil)
  then obtain h hs where h: "fg_haltedBy ?g = h # hs" by (cases "fg_haltedBy ?g") auto
  from haltedBy_hd[OF h] obtain x where x: "x \<in> set nodes" "isHalting (nv_row x)" "dw_nodeId (nv_row x) = h"
    "\<forall>y \<in> set nodes. isHalting (nv_row y) \<longrightarrow> h \<le> dw_nodeId (nv_row y)" by auto
  then have "find (\<lambda>v. dw_nodeId (nv_row v) = h) ?o \<noteq> None" by (auto simp: find_None_iff_ball)
  then obtain k where f: "find (\<lambda>v. dw_nodeId (nv_row v) = h) ?o = Some k" by blast
  from find_Some_set[OF f] have k: "k \<in> set nodes" "dw_nodeId (nv_row k) = h" by auto
  have "moveRefusal v m releases ?g = Some RefHalted" by (simp add: moveRefusal_def Let_def h)
  then have "plan_refusal nodes releases v m = Some (RefHalted, Some (dw_label (nv_row k), None, False))"
    by (simp add: plan_refusal_def Let_def row_refusal_def h f)
  with assms(3) have "w = RefHalted" "b = Some (dw_label (nv_row k), None, False)" by simp_all
  moreover have "\<exists>x \<in> set nodes. dw_nodeId (nv_row k) = dw_nodeId (nv_row x) \<and> isHalting (nv_row x) \<and>
     (\<forall>y \<in> set nodes. isHalting (nv_row y) \<longrightarrow> dw_nodeId (nv_row x) \<le> dw_nodeId (nv_row y))"
    using k(2) x by (intro bexI[of _ x]) simp_all
  ultimately show ?thesis using k(1) by blast
qed

definition wants_move :: "node_view \<Rightarrow> intended_move \<Rightarrow> bool" where
  "wants_move v m \<longleftrightarrow> considered v \<and> intendedMove v = Some m"

text \<open>What a plan says of every row. The met requests are exactly those of the considered rows
  that already run what they ask; the notes are exactly the considered idle rows that are
  refused, each once and in dispatch order; a row in another settled state is never noted. A
  halted fleet moves nothing and every note says who halts it; otherwise nothing moves only
  when a lease is held or when every row that wants a move is met or refused.\<close>

theorem dispatch_plan_exact:
  "(\<forall>n t. (n, t) \<in> set (dp_met (planDispatch nodes releases)) \<longleftrightarrow>
        (\<exists>v \<in> set nodes. \<exists>m. wants_move v m \<and> is_met v m \<and> n = dw_nodeId (nv_row v) \<and> t = im_target m)) \<and>
    (\<forall>p. p \<in> set (dp_refusals (planDispatch nodes releases)) \<longleftrightarrow>
        (\<exists>v \<in> set nodes. \<exists>m. wants_move v m \<and> \<not> is_met v m \<and> dw_updateState (nv_row v) = UIdle \<and>
           pr_nodeId p = dw_nodeId (nv_row v) \<and> plan_refusal nodes releases v m = Some (pr_refusal p, pr_blocker p))) \<and>
    subseq (map pr_nodeId (dp_refusals (planDispatch nodes releases))) (map (dw_nodeId \<circ> nv_row) (sort_key dispatch_key nodes)) \<and>
    (\<forall>u \<in> set nodes. isHalting (nv_row u) \<longrightarrow>
        dp_move (planDispatch nodes releases) = None \<and>
        (\<forall>p \<in> set (dp_refusals (planDispatch nodes releases)). pr_refusal p = RefHalted \<and>
           (\<exists>k \<in> set nodes. \<exists>x \<in> set nodes. pr_blocker p = Some (dw_label (nv_row k), None, False) \<and>
              dw_nodeId (nv_row k) = dw_nodeId (nv_row x) \<and> isHalting (nv_row x) \<and>
              (\<forall>y \<in> set nodes. isHalting (nv_row y) \<longrightarrow> dw_nodeId (nv_row x) \<le> dw_nodeId (nv_row y))))) \<and>
    (dp_move (planDispatch nodes releases) = None \<longleftrightarrow>
        (\<exists>u \<in> set nodes. \<not> isSettled (dw_updateState (nv_row u))) \<or>
        (\<forall>v \<in> set nodes. \<forall>m. wants_move v m \<longrightarrow> is_met v m \<or> plan_refusal nodes releases v m \<noteq> None))"
proof -
  let ?p = "planDispatch nodes releases" and ?o = "sort_key dispatch_key nodes"
  have met: "\<forall>n t. (n, t) \<in> set (dp_met ?p) \<longleftrightarrow>
        (\<exists>v \<in> set nodes. \<exists>m. wants_move v m \<and> is_met v m \<and> n = dw_nodeId (nv_row v) \<and> t = im_target m)"
    by (auto simp: planDispatch_sel set_map_filter_iff met_entry_Some plan_fate_def fate_of_Met wants_move_def)
  have noted: "\<forall>p. p \<in> set (dp_refusals ?p) \<longleftrightarrow>
        (\<exists>v \<in> set nodes. \<exists>m. wants_move v m \<and> \<not> is_met v m \<and> dw_updateState (nv_row v) = UIdle \<and>
           pr_nodeId p = dw_nodeId (nv_row v) \<and> plan_refusal nodes releases v m = Some (pr_refusal p, pr_blocker p))"
    by (auto simp: planDispatch_sel set_map_filter_iff note_entry_Some plan_fate_def fate_of_Refused wants_move_def)
  have sub: "subseq (map pr_nodeId (dp_refusals ?p)) (map (dw_nodeId \<circ> nv_row) ?o)"
    unfolding planDispatch_sel by (rule subseq_map_filter) (simp add: note_entry_Some)
  have none: "dp_move ?p = None \<longleftrightarrow> (\<exists>u \<in> set nodes. \<not> isSettled (dw_updateState (nv_row u))) \<or>
        (\<forall>v \<in> set nodes. \<forall>m. wants_move v m \<longrightarrow> is_met v m \<or> plan_refusal nodes releases v m \<noteq> None)"
    by (auto simp: planDispatch_sel leaseHeld_None first_cleared_None cleared_move_None plan_fate_def fate_of_Cleared wants_move_def)
  have halted: "plan_refusal nodes releases v m \<noteq> None" if "u \<in> set nodes" "isHalting (nv_row u)" for u v m
    using that by (auto simp: plan_refusal_def Let_def row_refusal_None moveRefusal_None haltedBy_Nil)
  have hp: "pr_refusal p = RefHalted \<and>
           (\<exists>k \<in> set nodes. \<exists>x \<in> set nodes. pr_blocker p = Some (dw_label (nv_row k), None, False) \<and>
              dw_nodeId (nv_row k) = dw_nodeId (nv_row x) \<and> isHalting (nv_row x) \<and>
              (\<forall>y \<in> set nodes. isHalting (nv_row y) \<longrightarrow> dw_nodeId (nv_row x) \<le> dw_nodeId (nv_row y)))"
    if u: "u \<in> set nodes" "isHalting (nv_row u)" and p: "p \<in> set (dp_refusals ?p)" for u p
  proof -
    from p noted obtain v m where "plan_refusal nodes releases v m = Some (pr_refusal p, pr_blocker p)" by blast
    from plan_refusal_halted[OF u this] show ?thesis .
  qed
  have mv: "dp_move ?p = None" if "u \<in> set nodes" "isHalting (nv_row u)" for u
    using none halted[OF that] by blast
  from met noted sub none show ?thesis using hp mv by blast
qed

text \<open>A server box that failed halts the fleet: the ask of the fleet box waits.\<close>

definition demo_failed :: node_view where
  "demo_failed = demo_view ((demo_row ''g'' RServer None)\<lparr>dw_updateState := UFailed, dw_updateDetail := None\<rparr>)"

lemma demo_failed_halts: "isHalting (nv_row demo_failed)"
  by (simp add: demo_failed_def demo_view_def isHalting_def isHaltingUpdate_def isSettled_def SETTLED_UPDATE_STATES_def)

theorem dispatch_plan_exact_witness:
  "dp_move (planDispatch [demo_asked, demo_failed] []) = None \<and>
   (\<exists>p \<in> set (dp_refusals (planDispatch [demo_asked, demo_failed] [])).
      pr_nodeId p = ''f'' \<and> pr_refusal p = RefHalted \<and> pr_blocker p = Some (''g'', None, False))"
proof -
  let ?n = "[demo_asked, demo_failed]"
  have a: "wants_move demo_asked (follow_update ''v1.0.1'')" "\<not> is_met demo_asked (follow_update ''v1.0.1'')"
    "dw_updateState (nv_row demo_asked) = UIdle" "dw_nodeId (nv_row demo_asked) = ''f''"
    "\<not> isHalting (nv_row demo_asked)"
    using demo_intended demo_row_gate
    by (simp_all add: wants_move_def considered_def is_met_def demo_asked_def demo_view_def follow_update_def, simp_all add: demo_row_def)
  have ids: "dw_label (nv_row demo_failed) = ''g''" "dw_nodeId (nv_row demo_failed) = ''g''"
    by (simp_all add: demo_failed_def demo_view_def demo_row_def)
  have "plan_refusal ?n [] demo_asked (follow_update ''v1.0.1'') \<noteq> None"
    using demo_failed_halts by (auto simp: plan_refusal_def Let_def row_refusal_None moveRefusal_None haltedBy_Nil)
  then obtain w b where wb: "plan_refusal ?n [] demo_asked (follow_update ''v1.0.1'') = Some (w, b)" by auto
  define p :: planned_refusal where "p = \<lparr>pr_nodeId = ''f'', pr_refusal = w, pr_blocker = b\<rparr>"
  note x = dispatch_plan_exact[of ?n "[]"]
  have p: "p \<in> set (dp_refusals (planDispatch ?n []))"
    by (rule iffD2[OF spec[OF x[THEN conjunct2, THEN conjunct1]]], intro bexI[of _ demo_asked] exI[of _ "follow_update ''v1.0.1''"])
      (use a wb in \<open>simp_all add: p_def\<close>)
  have "dp_move (planDispatch ?n []) = None \<and>
     (\<forall>p \<in> set (dp_refusals (planDispatch ?n [])). pr_refusal p = RefHalted \<and>
        (\<exists>k \<in> set ?n. \<exists>y \<in> set ?n. pr_blocker p = Some (dw_label (nv_row k), None, False) \<and>
           dw_nodeId (nv_row k) = dw_nodeId (nv_row y) \<and> isHalting (nv_row y) \<and>
           (\<forall>z \<in> set ?n. isHalting (nv_row z) \<longrightarrow> dw_nodeId (nv_row y) \<le> dw_nodeId (nv_row z))))"
    by (rule mp[OF bspec[OF x[THEN conjunct2, THEN conjunct2, THEN conjunct2, THEN conjunct1], of demo_failed]])
      (simp_all add: demo_failed_halts)
  with p have "dp_move (planDispatch ?n []) = None" "pr_refusal p = RefHalted" "pr_blocker p = Some (''g'', None, False)"
    using a(4,5) ids by auto
  with p show ?thesis by (intro conjI bexI[of _ p]) (simp_all add: p_def)
qed

section \<open>The lease ends\<close>

lemma dated_expiry:
  assumes "\<not> isSettled (dw_updateState row)" "dw_updateStartedAt row = Some s"
  shows "deadlineExpired row t d \<longleftrightarrow>
    s + 4 * d \<le> t \<or> (case dw_reportedUpdatedAt row of None \<Rightarrow> s | Some r \<Rightarrow> max s r) + d + 1 \<le> t"
  using assms by (cases "dw_reportedUpdatedAt row") (simp_all add: deadlineExpired_def UPDATE_DEADLINE_HARD_CAP_FACTOR_def, linarith+)

text \<open>C36: when a lease is given up. A settled row never expires and a busy row that nothing ever
  dated expires at once. A dated lease has one instant from which it is expired for good: more
  than one deadline after the start and at most four, whatever the report claims (a report may
  be dated far in the future); with no report it is the first instant past the deadline.\<close>

theorem lease_deadline_window:
  assumes "0 < d"
  shows "(isSettled (dw_updateState row) \<longrightarrow> \<not> deadlineExpired row now d) \<and>
    (\<not> isSettled (dw_updateState row) \<and> dw_updateStartedAt row = None \<and> dw_reportedUpdatedAt row = None \<longrightarrow>
       deadlineExpired row now d) \<and>
    (\<forall>s. \<not> isSettled (dw_updateState row) \<and> dw_updateStartedAt row = Some s \<longrightarrow>
       (\<exists>T. s + d < T \<and> T \<le> s + UPDATE_DEADLINE_HARD_CAP_FACTOR * d \<and>
          (\<forall>t. deadlineExpired row t d \<longleftrightarrow> T \<le> t) \<and>
          (dw_reportedUpdatedAt row = None \<longrightarrow> T = s + d + 1)))"
proof (intro conjI allI impI)
  fix s assume b: "\<not> isSettled (dw_updateState row) \<and> dw_updateStartedAt row = Some s"
  let ?T = "min (s + 4 * d) ((case dw_reportedUpdatedAt row of None \<Rightarrow> s | Some r \<Rightarrow> max s r) + d + 1)"
  have "s + d < ?T \<and> ?T \<le> s + UPDATE_DEADLINE_HARD_CAP_FACTOR * d \<and> (\<forall>t. deadlineExpired row t d \<longleftrightarrow> ?T \<le> t) \<and>
      (dw_reportedUpdatedAt row = None \<longrightarrow> ?T = s + d + 1)"
    using b assms by (cases "dw_reportedUpdatedAt row")
      (simp_all add: dated_expiry UPDATE_DEADLINE_HARD_CAP_FACTOR_def min_le_iff_disj, arith?)
  then show "\<exists>T. s + d < T \<and> T \<le> s + UPDATE_DEADLINE_HARD_CAP_FACTOR * d \<and>
          (\<forall>t. deadlineExpired row t d \<longleftrightarrow> T \<le> t) \<and> (dw_reportedUpdatedAt row = None \<longrightarrow> T = s + d + 1)" by (rule exI)
qed (simp_all add: deadlineExpired_def)

definition demo_busy :: dispatch_row where
  "demo_busy = (demo_row ''f'' RFleet None)\<lparr>dw_updateState := UPending, dw_updateStartedAt := Some 1000,
     dw_reportedUpdatedAt := Some 999999\<rparr>"

theorem lease_deadline_window_witness: "\<exists>T. 1010 < T \<and> T \<le> 1040 \<and> (\<forall>t. deadlineExpired demo_busy t 10 \<longleftrightarrow> T \<le> t)"
  using lease_deadline_window[of 10 demo_busy]
  by (auto simp: demo_busy_def isSettled_def SETTLED_UPDATE_STATES_def UPDATE_DEADLINE_HARD_CAP_FACTOR_def)

section \<open>The server follows the fleet\<close>

text \<open>A server row the follow-through looks at.\<close>

definition follower :: "landed_move \<Rightarrow> node_view \<Rightarrow> bool" where
  "follower landed v \<longleftrightarrow> dispatchRank (dw_role (nv_row v)) \<noteq> 0 \<and> dw_nodeId (nv_row v) \<noteq> lv_nodeId landed \<and>
     dw_updateState (nv_row v) = UIdle \<and> dw_requestedTag (nv_row v) = None"

definition above_row :: "landed_move \<Rightarrow> node_view \<Rightarrow> bool" where
  "above_row landed v \<longleftrightarrow> (\<forall>f. floorOf (dw_highestVersion (nv_row v)) (dw_currentVersion (nv_row v)) = Some f \<longrightarrow>
     newer (lv_target landed) f)"

text \<open>The row once the request of a step is written to it.\<close>

definition with_request :: "string \<Rightarrow> node_view \<Rightarrow> node_view" where
  "with_request tag v = v\<lparr>nv_row := (nv_row v)\<lparr>dw_requestedTag := Some tag, dw_requestedKind := Some UpdateKind\<rparr>\<rparr>"

lemma set_follow_row:
  "set (follow_row landed releases gate v) =
     (if follower landed v \<and> above_row landed v
      then {case moveRefusal v (follow_update (lv_target landed)) releases gate of
              None \<Rightarrow> FollowRequest (dw_nodeId (nv_row v)) (lv_target landed)
            | Some w \<Rightarrow> FollowNote (dw_nodeId (nv_row v)) w}
      else {})"
  by (auto simp: follow_row_def Let_def follower_def above_row_def split: option.splits)

lemma set_followSteps:
  "set (followSteps landed nodes releases) =
     (if isReleaseTag (lv_target landed)
      then (\<Union>v \<in> set nodes. set (follow_row landed releases (fleetGate (map nv_row nodes)) v)) else {})"
  by (simp add: followSteps_def)

lemma with_request_moves:
  "intendedMove (with_request tag v) = Some (follow_update tag)"
  "moveRefusal (with_request tag v) m releases gate = moveRefusal v m releases gate"
  by (simp_all add: with_request_def intendedMove_def follow_update_def moveRefusal_def target_refusal_def currentOf_def Let_def
      cong: if_cong option.case_cong)

lemma with_request_gate:
  "isHalting (nv_row (with_request tag v)) = isHalting (nv_row v)"
  "isSettled (dw_updateState (nv_row (with_request tag v))) = isSettled (dw_updateState (nv_row v))"
  by (simp_all add: with_request_def isHalting_def)

text \<open>C37: the follow-through asks the server where the fleet went and nowhere else. A request is
  written exactly for the idle server rows with no ask of their own that the dispatcher would
  clear, always for the tag that landed and strictly above what the row runs; once written, it
  is the move the row intends, and the dispatcher does not refuse it. A row is told why it cannot
  follow exactly when the dispatcher refuses it for another reason than not being newer.\<close>

theorem follow_through_exact:
  "(\<forall>n t. FollowRequest n t \<in> set (followSteps landed nodes releases) \<longleftrightarrow>
      (\<exists>v \<in> set nodes. follower landed v \<and> n = dw_nodeId (nv_row v) \<and> t = lv_target landed \<and> isReleaseTag t \<and>
         moveRefusal v (follow_update t) releases (fleetGate (map nv_row nodes)) = None)) \<and>
   (\<forall>v \<in> set nodes. \<forall>t. moveRefusal v (follow_update t) releases (fleetGate (map nv_row nodes)) = None \<longrightarrow>
      intendedMove (with_request t v) = Some (follow_update t) \<and>
      moveRefusal (with_request t v) (follow_update t) releases (fleetGate (map nv_row nodes)) = None \<and>
      (\<forall>u. isReleaseTag u \<and> (dw_highestVersion (nv_row v) = Some u \<or> dw_currentVersion (nv_row v) = Some u) \<longrightarrow>
         version u < version t)) \<and>
   (\<forall>n w. FollowNote n w \<in> set (followSteps landed nodes releases) \<longrightarrow> w \<noteq> RefNotNewer \<and>
      (\<exists>v \<in> set nodes. follower landed v \<and> n = dw_nodeId (nv_row v) \<and>
         moveRefusal v (follow_update (lv_target landed)) releases (fleetGate (map nv_row nodes)) = Some w))"
proof (intro conjI allI ballI)
  let ?g = "fleetGate (map nv_row nodes)"
  fix n t
  have cleared: "above_row landed v \<and> isReleaseTag (lv_target landed)"
    if "moveRefusal v (follow_update (lv_target landed)) releases ?g = None" for v
  proof -
    from that have r: "target_refusal (nv_row v) (follow_update (lv_target landed))
        (releaseRowFor releases (lv_target landed)) = None"
      by (simp add: moveRefusal_None follow_update_def)
    from update_target_cleared[of "nv_row v" "follow_update (lv_target landed)" releases] r
    have "isReleaseTag (lv_target landed)" by (simp add: follow_update_def)
    with r show ?thesis by (auto simp: target_refusal_def follow_update_def above_row_def split: if_splits)
  qed
  show "FollowRequest n t \<in> set (followSteps landed nodes releases) \<longleftrightarrow>
      (\<exists>v \<in> set nodes. follower landed v \<and> n = dw_nodeId (nv_row v) \<and> t = lv_target landed \<and> isReleaseTag t \<and>
         moveRefusal v (follow_update t) releases ?g = None)"
    using cleared by (fastforce simp: set_followSteps set_follow_row split: option.splits if_splits)
next
  fix v t assume "v \<in> set nodes"
  show "moveRefusal v (follow_update t) releases (fleetGate (map nv_row nodes)) = None \<longrightarrow>
      intendedMove (with_request t v) = Some (follow_update t) \<and>
      moveRefusal (with_request t v) (follow_update t) releases (fleetGate (map nv_row nodes)) = None \<and>
      (\<forall>u. isReleaseTag u \<and> (dw_highestVersion (nv_row v) = Some u \<or> dw_currentVersion (nv_row v) = Some u) \<longrightarrow>
         version u < version t)"
    using update_target_cleared[of "nv_row v" "follow_update t" releases]
    by (simp add: with_request_moves moveRefusal_None follow_update_def)
next
  fix n w
  have "w \<noteq> RefNotNewer" if "moveRefusal v (follow_update t) releases gate = Some w" "above_row landed v" "t = lv_target landed" for v t gate
    using that by (auto simp: moveRefusal_def target_refusal_def follow_update_def above_row_def Let_def
        split: if_splits option.splits)
  then show "FollowNote n w \<in> set (followSteps landed nodes releases) \<longrightarrow> w \<noteq> RefNotNewer \<and>
      (\<exists>v \<in> set nodes. follower landed v \<and> n = dw_nodeId (nv_row v) \<and>
         moveRefusal v (follow_update (lv_target landed)) releases (fleetGate (map nv_row nodes)) = Some w)"
    by (fastforce simp: set_followSteps set_follow_row split: option.splits if_splits)
qed

definition demo_landed :: landed_move where "demo_landed = \<lparr>lv_nodeId = ''f'', lv_label = ''f'', lv_target = ''v1.0.1''\<rparr>"

theorem follow_through_exact_witness:
  "FollowRequest ''s'' ''v1.0.1'' \<in> set (followSteps demo_landed [demo_view (demo_row ''s'' RServer None)] [demo_release ''v1.0.1''])"
proof -
  let ?v = "demo_view (demo_row ''s'' RServer None)"
  have "fg_haltedBy (fleetGate (map nv_row [?v])) = []" by (simp add: haltedBy_Nil demo_view_def demo_row_gate)
  then have "moveRefusal ?v (follow_update ''v1.0.1'') [demo_release ''v1.0.1''] (fleetGate (map nv_row [?v])) = None"
    by (simp add: demo_refusal)
  moreover have "follower demo_landed ?v" "dw_nodeId (nv_row ?v) = ''s''"
    by (simp_all add: follower_def demo_landed_def demo_view_def demo_row_def dispatchRank_def)
  ultimately show ?thesis
    using follow_through_exact[of demo_landed "[?v]" "[demo_release ''v1.0.1'']"] demo_tags(2) by (auto simp: demo_landed_def)
qed

end
