(* ===== verification/UpdateFlow.thy ===== *)
theory UpdateFlow
  imports UpdateProps
begin

text \<open>
  The resolver and the dispatcher together: what the resolver writes on a row is what the
  dispatcher may send, and once it landed the resolver wants nothing more.
\<close>

text \<open>A row of the inventory that carries the answer of the resolver on the same measurements, with no
  request standing.\<close>

definition resolved_view :: "resolve_input \<Rightarrow> node_view \<Rightarrow> bool" where
  "resolved_view inp v \<longleftrightarrow>
     dw_currentVersion (nv_row v) = ri_currentVersion inp \<and> dw_highestVersion (nv_row v) = ri_highestVersion inp \<and>
     dw_floorRead (nv_row v) = ri_floorRead inp \<and> nv_refusedTags v = ri_refused inp \<and>
     dw_channel (nv_row v) = rs_channel (resolveNodeIntent inp) \<and>
     dw_desiredTag (nv_row v) = rs_desiredTag (resolveNodeIntent inp) \<and>
     nv_auto v = rs_auto (resolveNodeIntent inp) \<and> dw_requestedTag (nv_row v) = None"

definition auto_update :: "string \<Rightarrow> intended_move" where
  "auto_update tag = \<lparr>im_kind = UpdateKind, im_target = tag, im_source = AutoSource\<rparr>"

lemma desired_on_channel:
  assumes "rs_desiredTag (resolveNodeIntent inp) = Some t"
  obtains c pin where "fst (resolveOnChannel c pin inp) = Some t"
    "\<And>cur. rs_desiredTag (resolveNodeIntent (inp\<lparr>ri_currentVersion := cur\<rparr>)) =
       fst (resolveOnChannel c pin (inp\<lparr>ri_currentVersion := cur\<rparr>))"
  using assms by (auto simp: resolveNodeIntent_def resolves_nothing_def Let_def split: option.splits)

lemma resolved_facts:
  assumes "fst (resolveOnChannel c pin inp) = Some t"
  shows "(\<exists>r \<in> set (ri_releases inp). er_tag r = t \<and> eligible r c (ri_refused inp)) \<and>
    (\<exists>f. floorOf (ri_highestVersion inp) (ri_currentVersion inp) = Some f \<and> newer t f) \<and>
    \<not> (ri_highestVersion inp = None \<and> ri_floorRead inp = FloorUnmeasured) \<and>
    (pin = None \<longrightarrow> (\<forall>r \<in> set (ri_releases inp). eligible r c (ri_refused inp) \<longrightarrow> version (er_tag r) \<le> version t)) \<and>
    (\<forall>p. pin = Some p \<longrightarrow> t = p)"
proof -
  have "\<not> (ri_highestVersion inp = None \<and> ri_floorRead inp = FloorUnmeasured)"
    using assms by (auto simp: resolveOnChannel_def)
  with assms show ?thesis
    using resolve_newest[of c inp t] resolve_pinned[of c _ inp t] by (cases pin) blast+
qed

lemma find_distinct: "distinct (map f xs) \<Longrightarrow> x \<in> set xs \<Longrightarrow> find (\<lambda>y. f y = f x) xs = Some x"
  by (induction xs) (auto simp: image_iff)

lemma target_of_resolved:
  assumes "distinct (map er_tag (ri_releases inp))" "resolved_view inp v" "rs_desiredTag (resolveNodeIntent inp) = Some t"
  shows "target_refusal (nv_row v) (auto_update t) (releaseRowFor (ri_releases inp) t) =
      (if stampUnread (dw_stampRead (nv_row v)) (dw_currentVersion (nv_row v)) then Some RefStampUnread else None) \<and>
    t \<notin> nv_refusedTags v"
proof -
  from desired_on_channel[OF assms(3)] obtain c pin where c: "fst (resolveOnChannel c pin inp) = Some t" by metis
  from resolved_facts[OF c] obtain r f where r: "r \<in> set (ri_releases inp)" "er_tag r = t" "eligible r c (ri_refused inp)"
    and f: "floorOf (ri_highestVersion inp) (ri_currentVersion inp) = Some f" "newer t f"
      "\<not> (ri_highestVersion inp = None \<and> ri_floorRead inp = FloorUnmeasured)" by blast
  from find_distinct[OF assms(1) r(1)] r have "releaseRowFor (ri_releases inp) t = Some r"
    by (simp add: releaseRowFor_def eligible_def)
  moreover have "updateTargetListed (Some r)" "t \<notin> ri_refused inp" using r by (auto simp: updateTargetListed_def eligible_def)
  moreover have v: "dw_currentVersion (nv_row v) = ri_currentVersion inp" "dw_highestVersion (nv_row v) = ri_highestVersion inp"
    "dw_floorRead (nv_row v) = ri_floorRead inp" "nv_refusedTags v = ri_refused inp"
    using assms(2) by (simp_all add: resolved_view_def)
  ultimately show ?thesis
    using f(1,2,3) by (simp add: target_refusal_def auto_update_def currentOf_Unread v del: de_Morgan_conj)
qed

lemma version_floor: "floorOf h (Some t) = Some f \<Longrightarrow> isReleaseTag t \<Longrightarrow> version t \<le> version f"
  using floorOf_Some by blast

lemma resolves_no_more:
  assumes "rs_desiredTag (resolveNodeIntent inp) = Some t"
  shows "rs_desiredTag (resolveNodeIntent (inp\<lparr>ri_currentVersion := Some t\<rparr>)) = None"
proof (rule ccontr)
  let ?i = "inp\<lparr>ri_currentVersion := Some t\<rparr>"
  from desired_on_channel[OF assms] obtain c pin where c: "fst (resolveOnChannel c pin inp) = Some t"
    and e: "rs_desiredTag (resolveNodeIntent ?i) = fst (resolveOnChannel c pin ?i)" by metis
  assume "rs_desiredTag (resolveNodeIntent ?i) \<noteq> None"
  with e obtain u where u: "fst (resolveOnChannel c pin ?i) = Some u" by auto
  note a = resolved_facts[OF c] and b = resolved_facts[OF u]
  from a have t: "isReleaseTag t" by (auto simp: eligible_def)
  from b have ut: "isReleaseTag u" by (auto simp: eligible_def)
  from b obtain f where f: "floorOf (ri_highestVersion inp) (Some t) = Some f" "newer u f" by auto
  have "version t < version u"
    using above_floor[OF f(1) f(2) ut t] by simp
  moreover have "version u \<le> version t"
  proof (cases pin)
    case None
    with a b show ?thesis by auto
  next
    case (Some p)
    with a b show ?thesis by auto
  qed
  ultimately show False by simp
qed

text \<open>C3: the resolver and the dispatcher agree, and automatic updates converge. On the measurements the
  resolver read, a row with no request and a permitting auto intends exactly the tag resolved for
  it; the dispatcher never refuses that tag as unknown, not newer, unmeasured or refused by
  the node, only for a halt, an unread stamp or a capability the node or its agent lacks; with no
  tag resolved it intends nothing; and once the node runs the tag, nothing more is resolved.\<close>

theorem auto_update_converges:
  assumes "distinct (map er_tag (ri_releases inp))" "resolved_view inp v"
  shows "(\<forall>t. rs_desiredTag (resolveNodeIntent inp) = Some t \<longrightarrow>
        (autoPermits (nv_auto v) (dw_channel (nv_row v)) \<longrightarrow> intendedMove v = Some (auto_update t)) \<and>
        (moveRefusal v (auto_update t) (ri_releases inp) gate = None \<longleftrightarrow>
           fg_haltedBy gate = [] \<and> \<not> stampUnread (dw_stampRead (nv_row v)) (dw_currentVersion (nv_row v)) \<and>
           DETACH_CAP \<in> set (dw_caps (nv_row v)) \<and> UPDATE_GATE_CAP \<in> set (dw_caps (nv_row v)) \<and>
           \<not> agentPredatesUpdateOp (dw_agentOps (nv_row v))) \<and>
        (\<forall>w. moveRefusal v (auto_update t) (ri_releases inp) gate = Some w \<longrightarrow>
           w \<in> {RefHalted, RefStampUnread, RefNoDetachCap, RefNoUpdateGate, RefAgentPredates}) \<and>
        rs_desiredTag (resolveNodeIntent (inp\<lparr>ri_currentVersion := Some t\<rparr>)) = None) \<and>
    (rs_desiredTag (resolveNodeIntent inp) = None \<longrightarrow> intendedMove v = None)"
proof (intro conjI allI impI)
  fix t assume t: "rs_desiredTag (resolveNodeIntent inp) = Some t"
  note f = target_of_resolved[OF assms t]
  show "intendedMove v = Some (auto_update t)" if "autoPermits (nv_auto v) (dw_channel (nv_row v))"
    using that assms(2) t by (simp add: intendedMove_def Let_def resolved_view_def auto_update_def)
  have s: "im_kind (auto_update t) = UpdateKind" "im_target (auto_update t) = t" "im_source (auto_update t) = AutoSource"
    by (simp_all add: auto_update_def)
  show "moveRefusal v (auto_update t) (ri_releases inp) gate = None \<longleftrightarrow>
           fg_haltedBy gate = [] \<and> \<not> stampUnread (dw_stampRead (nv_row v)) (dw_currentVersion (nv_row v)) \<and>
           DETACH_CAP \<in> set (dw_caps (nv_row v)) \<and> UPDATE_GATE_CAP \<in> set (dw_caps (nv_row v)) \<and>
           \<not> agentPredatesUpdateOp (dw_agentOps (nv_row v))"
    using f by (auto simp: moveRefusal_None s split: if_splits)
  show "w \<in> {RefHalted, RefStampUnread, RefNoDetachCap, RefNoUpdateGate, RefAgentPredates}"
    if "moveRefusal v (auto_update t) (ri_releases inp) gate = Some w" for w
    using that f by (auto simp: moveRefusal_def Let_def s split: if_splits option.splits)
  show "rs_desiredTag (resolveNodeIntent (inp\<lparr>ri_currentVersion := Some t\<rparr>)) = None" by (rule resolves_no_more[OF t])
next
  assume "rs_desiredTag (resolveNodeIntent inp) = None"
  with assms(2) show "intendedMove v = None" by (simp add: intendedMove_def Let_def resolved_view_def)
qed

text \<open>A node on v1.0.0 whose intent follows stable, with v1.0.1 in the catalogue.\<close>

definition demo_inventory :: resolve_input where
  "demo_inventory = demo_resolve\<lparr>ri_nodeIntent := Some \<lparr>iv_channel = Some Stable, iv_pinnedTag = None, iv_auto = AutoStable\<rparr>\<rparr>"

definition demo_auto :: node_view where
  "demo_auto = \<lparr>nv_row = (demo_row ''f'' RFleet None)\<lparr>dw_desiredTag := Some ''v1.0.1'',
     dw_caps := [DETACH_CAP, UPDATE_GATE_CAP]\<rparr>, nv_auto = AutoStable, nv_refusedTags = {}\<rparr>"

lemma demo_inventory_resolves:
  "rs_desiredTag (resolveNodeIntent demo_inventory) = Some ''v1.0.1'' \<and>
   rs_channel (resolveNodeIntent demo_inventory) = Some Stable \<and> rs_auto (resolveNodeIntent demo_inventory) = AutoStable"
proof -
  have "fst (resolveOnChannel Stable None demo_inventory) = Some ''v1.0.1''"
    using demo_newer
    by (simp add: resolveOnChannel_def demo_inventory_def demo_resolve_def floorOf_def tag_or_none_def demo_tags
        eligibleTags_def ineligibleWhy_def)
  moreover have "ri_nodeIntent demo_inventory = Some \<lparr>iv_channel = Some Stable, iv_pinnedTag = None, iv_auto = AutoStable\<rparr>"
    by (simp add: demo_inventory_def)
  ultimately show ?thesis by (simp add: resolveNodeIntent_def Let_def)
qed

theorem auto_update_converges_witness:
  "intendedMove demo_auto = Some (auto_update ''v1.0.1'') \<and>
   moveRefusal demo_auto (auto_update ''v1.0.1'') (ri_releases demo_inventory) \<lparr>fg_haltedBy = [], fg_leaseHeldBy = None\<rparr> = None"
proof -
  have v: "resolved_view demo_inventory demo_auto"
    using demo_inventory_resolves
    by (simp add: resolved_view_def demo_auto_def demo_row_def) (simp add: demo_inventory_def demo_resolve_def)
  have d: "distinct (map er_tag (ri_releases demo_inventory))" by (simp add: demo_inventory_def demo_resolve_def)
  have c: "DETACH_CAP \<in> set (dw_caps (nv_row demo_auto))" "UPDATE_GATE_CAP \<in> set (dw_caps (nv_row demo_auto))"
    "\<not> agentPredatesUpdateOp (dw_agentOps (nv_row demo_auto))" "autoPermits (nv_auto demo_auto) (dw_channel (nv_row demo_auto))"
    "\<not> stampUnread (dw_stampRead (nv_row demo_auto)) (dw_currentVersion (nv_row demo_auto))"
    using demo_tags by (simp_all add: demo_auto_def demo_row_def agentPredatesUpdateOp_def autoPermits_def stampUnread_def)
  show ?thesis
    using auto_update_converges[OF d v, of "\<lparr>fg_haltedBy = [], fg_leaseHeldBy = None\<rparr>"] demo_inventory_resolves c by simp
qed

end
