(* ===== verification/UpdateProjection.thy ===== *)
theory UpdateProjection
  imports UpdateResolve UpdateDispatch
begin

text \<open>
  The rest of \<open>server/src/update/resolve.ts\<close>: the guard of the tags that enter the catalogue, the
  document rendered for a node and the advisory list of blockers. A thrown \<open>RangeError\<close> is
  \<open>None\<close>; a number is an integer.
\<close>

section \<open>The guard of the tags\<close>

definition RELEASE_TAG_INGRESS_MAX_BYTES :: nat where "RELEASE_TAG_INGRESS_MAX_BYTES = 64"
definition RELEASE_TAG_COMPONENT_MAX_DIGITS :: nat where "RELEASE_TAG_COMPONENT_MAX_DIGITS = 18"

text \<open>The length of a string in UTF-8: two bytes for a code from 128 on.\<close>

definition utf8_length :: "string \<Rightarrow> nat" where
  "utf8_length s = sum_list (map (\<lambda>c. if (of_char c :: nat) < 128 then 1 else 2) s)"

definition isIngestibleReleaseTag :: "string \<Rightarrow> bool" where
  "isIngestibleReleaseTag v =
     (if \<not> isReleaseTag v then False
      else if utf8_length v > RELEASE_TAG_INGRESS_MAX_BYTES then False
      else list_all (\<lambda>p. (p = ''0'' \<or> hd p \<noteq> CHR ''0'') \<and> length p \<le> RELEASE_TAG_COMPONENT_MAX_DIGITS)
             (split_on (CHR ''.'') (tl v)))"

section \<open>The document\<close>

definition PROJECTION_LEASE_S :: int where "PROJECTION_LEASE_S = 15 * 60"
definition UNIX_SECONDS_MAX :: int where "UNIX_SECONDS_MAX = 99999999999"

record projection_doc =
  pd_epoch :: int
  pd_issued :: int
  pd_lease :: int
  pd_channel :: update_channel
  pd_desired :: "string option"
  pd_desiredStable :: "string option"
  pd_desiredDev :: "string option"
  pd_auto :: auto_mode

datatype rendered_projection = RenderedDoc projection_doc string | NoChannel resolve_detail

fun channel_word :: "update_channel \<Rightarrow> string" where
  "channel_word Stable = ''stable''"
| "channel_word Dev = ''dev''"

fun auto_word :: "auto_mode \<Rightarrow> string" where
  "auto_word AutoOff = ''off''"
| "auto_word AutoStable = ''stable''"
| "auto_word AutoChannel = ''channel''"

definition tag_word :: "string option \<Rightarrow> string" where
  "tag_word t = (case t of None \<Rightarrow> ''none'' | Some s \<Rightarrow> s)"

definition projection_lines :: "projection_doc \<Rightarrow> string list" where
  "projection_lines d =
     [''epoch '' @ dec (nat (pd_epoch d)),
      ''issued '' @ dec (nat (pd_issued d)),
      ''lease '' @ dec (nat (pd_lease d)),
      ''channel '' @ channel_word (pd_channel d),
      ''desired '' @ tag_word (pd_desired d),
      ''desired-stable '' @ tag_word (pd_desiredStable d),
      ''desired-dev '' @ tag_word (pd_desiredDev d),
      ''auto '' @ auto_word (pd_auto d),
      ''end'']"

definition renderProjection :: "resolution \<Rightarrow> int \<Rightarrow> int \<Rightarrow> rendered_projection option" where
  "renderProjection r epoch issuedAtS =
     (if \<bar>epoch\<bar> > MAX_SAFE_INTEGER \<or> epoch < 0 then None
      else if \<bar>issuedAtS\<bar> > MAX_SAFE_INTEGER \<or> issuedAtS < 0 \<or> issuedAtS > UNIX_SECONDS_MAX then None
      else if list_ex (\<lambda>t. case t of None \<Rightarrow> False | Some s \<Rightarrow> \<not> isReleaseTag s)
                [rs_desiredTag r, rs_desiredStable r, rs_desiredDev r] then None
      else (case rs_channel r of
        None \<Rightarrow> Some (NoChannel (case rs_resolveDetail r of None \<Rightarrow> UnknownChannel | Some d \<Rightarrow> d))
      | Some channel \<Rightarrow>
          (let doc = \<lparr>pd_epoch = epoch, pd_issued = issuedAtS, pd_lease = issuedAtS + PROJECTION_LEASE_S,
                      pd_channel = channel, pd_desired = rs_desiredTag r, pd_desiredStable = rs_desiredStable r,
                      pd_desiredDev = rs_desiredDev r, pd_auto = rs_auto r\<rparr> in
           Some (RenderedDoc doc (join_with (CHR 0x0A) (projection_lines doc) @ [CHR 0x0A])))))"

definition carriesUpdateGate :: "string list \<Rightarrow> bool" where
  "carriesUpdateGate caps \<longleftrightarrow> UPDATE_GATE_CAP \<in> set caps"

definition FLEET_SCOPE :: string where "FLEET_SCOPE = ''*''"

definition autoGateBlockers :: "string \<Rightarrow> (string \<times> string list) list \<Rightarrow> string list" where
  "autoGateBlockers scope nodes =
     map fst (filter (\<lambda>(n, caps). (scope = FLEET_SCOPE \<or> n = scope) \<and> \<not> carriesUpdateGate caps) nodes)"

section \<open>A tag that entered has one spelling\<close>

lemma ingestible_parts:
  assumes "isIngestibleReleaseTag v"
  obtains x y z where "v = CHR ''v'' # x @ CHR ''.'' # y @ CHR ''.'' # z" "version v = (undec x, undec y, undec z)"
    "\<forall>p \<in> {x, y, z}. canonical_dec p \<and> length p \<le> RELEASE_TAG_COMPONENT_MAX_DIGITS"
proof -
  from assms have "isReleaseTag v" by (simp add: isIngestibleReleaseTag_def split: if_splits)
  then obtain x y z where p: "v = CHR ''v'' # x @ CHR ''.'' # y @ CHR ''.'' # z"
    "split_on (CHR ''.'') (tl v) = [x, y, z]" "list_all (\<lambda>p. p \<noteq> [] \<and> list_all digit_char p) [x, y, z]"
    unfolding isReleaseTag_parts by blast
  moreover have "list_all (\<lambda>p. (p = ''0'' \<or> hd p \<noteq> CHR ''0'') \<and> length p \<le> RELEASE_TAG_COMPONENT_MAX_DIGITS) [x, y, z]"
    using assms p(2) by (simp add: isIngestibleReleaseTag_def split: if_splits)
  ultimately have "\<forall>p \<in> {x, y, z}. canonical_dec p \<and> length p \<le> RELEASE_TAG_COMPONENT_MAX_DIGITS"
    by (auto simp: canonical_dec_def)
  moreover have "version v = (undec x, undec y, undec z)" unfolding version_def p(2) by simp
  ultimately show ?thesis using that p(1) by blast
qed

lemma ingestible_inj:
  assumes "isIngestibleReleaseTag v" "isIngestibleReleaseTag w" "version v = version w"
  shows "v = w"
proof -
  from assms(1) obtain x y z where v: "v = CHR ''v'' # x @ CHR ''.'' # y @ CHR ''.'' # z" "version v = (undec x, undec y, undec z)"
    "\<forall>p \<in> {x, y, z}. canonical_dec p \<and> length p \<le> RELEASE_TAG_COMPONENT_MAX_DIGITS" by (rule ingestible_parts)
  from assms(2) obtain a b c where w: "w = CHR ''v'' # a @ CHR ''.'' # b @ CHR ''.'' # c" "version w = (undec a, undec b, undec c)"
    "\<forall>p \<in> {a, b, c}. canonical_dec p \<and> length p \<le> RELEASE_TAG_COMPONENT_MAX_DIGITS" by (rule ingestible_parts)
  have "x = a" "y = b" "z = c" using v w assms(3) dec_undec by (metis insertCI prod.inject)+
  with v(1) w(1) show ?thesis by simp
qed

lemma component_below_64_bit:
  assumes "isIngestibleReleaseTag v" "version v = (a, b, c)"
  shows "a < 2 ^ 63 \<and> b < 2 ^ 63 \<and> c < 2 ^ 63"
proof -
  have l: "undec p < 2 ^ 63" if "canonical_dec p" "length p \<le> RELEASE_TAG_COMPONENT_MAX_DIGITS" for p
  proof -
    from that(1) have "undec p < 10 ^ length p" by (simp add: canonical_dec_def undec_less)
    also have "(10 :: nat) ^ length p \<le> 10 ^ 18"
      using that(2) by (intro power_increasing) (simp_all add: RELEASE_TAG_COMPONENT_MAX_DIGITS_def)
    also have "(10 :: nat) ^ 18 < 2 ^ 63" by simp
    finally show ?thesis .
  qed
  from assms(1) obtain x y z where "version v = (undec x, undec y, undec z)"
    "\<forall>p \<in> {x, y, z}. canonical_dec p \<and> length p \<le> RELEASE_TAG_COMPONENT_MAX_DIGITS" by (rule ingestible_parts)
  with l assms(2) show ?thesis by auto
qed

section \<open>The text says the document\<close>

text \<open>The documents that are rendered.\<close>

definition doc_ok :: "projection_doc \<Rightarrow> bool" where
  "doc_ok d \<longleftrightarrow> 0 \<le> pd_epoch d \<and> 0 \<le> pd_issued d \<and> pd_issued d \<le> UNIX_SECONDS_MAX \<and> pd_lease d = pd_issued d + PROJECTION_LEASE_S \<and>
     (\<forall>t \<in> {pd_desired d, pd_desiredStable d, pd_desiredDev d}. \<forall>s. t = Some s \<longrightarrow> isReleaseTag s)"

lemma tag_word_inj:
  assumes "\<forall>x. s = Some x \<longrightarrow> isReleaseTag x" "\<forall>x. t = Some x \<longrightarrow> isReleaseTag x" "tag_word s = tag_word t"
  shows "s = t"
  using assms by (cases s; cases t) (auto simp: tag_word_def isReleaseTag_def)

lemma channel_word_inj: "channel_word a = channel_word b \<longleftrightarrow> a = b"
  by (cases a; cases b) simp_all

lemma auto_word_inj: "auto_word a = auto_word b \<longleftrightarrow> a = b"
  by (cases a; cases b) simp_all

lemma dec_inj: "dec m = dec n \<longleftrightarrow> m = n"
  by (metis undec_dec)

lemma tag_no_newline: "isReleaseTag s \<Longrightarrow> CHR 0x0A \<notin> set s"
proof -
  assume "isReleaseTag s"
  then obtain x y z where p: "s = CHR ''v'' # x @ CHR ''.'' # y @ CHR ''.'' # z"
    "\<forall>p \<in> {x, y, z}. list_all digit_char p" unfolding isReleaseTag_parts by auto
  have "\<not> digit_char (CHR 0x0A)" by (simp add: digit_char_def less_eq_char_def)
  then have "CHR 0x0A \<notin> set p" if "list_all digit_char p" for p using that by (metis list_all_iff)
  with p show ?thesis by simp
qed

lemma lines_no_newline: "doc_ok d \<Longrightarrow> l \<in> set (projection_lines d) \<Longrightarrow> CHR 0x0A \<notin> set l"
proof -
  assume d: "doc_ok d" and l: "l \<in> set (projection_lines d)"
  have n: "CHR 0x0A \<notin> set (dec n)" for n by (rule digit_not_in_dec) (simp add: digit_char_def less_eq_char_def)
  have t: "CHR 0x0A \<notin> set (tag_word t)" if "\<forall>s. t = Some s \<longrightarrow> isReleaseTag s" for t
    using that tag_no_newline by (cases t) (auto simp: tag_word_def)
  have c: "CHR 0x0A \<notin> set (channel_word a)" "CHR 0x0A \<notin> set (auto_word b)" for a b
    by (cases a; simp) (cases b; simp)
  from l d n t c show ?thesis unfolding projection_lines_def doc_ok_def by auto
qed

lemma split_join: "ls \<noteq> [] \<Longrightarrow> \<forall>l \<in> set ls. c \<notin> set l \<Longrightarrow> split_on c (join_with c ls) = ls"
proof (induction ls rule: induct_list012)
  case (3 x y zs)
  then show ?case by (simp add: split_on_append_sep split_on_no_sep)
qed (simp_all add: split_on_no_sep)

lemma split_text: "doc_ok d \<Longrightarrow> split_on (CHR 0x0A) (join_with (CHR 0x0A) (projection_lines d)) = projection_lines d"
  by (rule split_join) (simp add: projection_lines_def, blast dest: lines_no_newline)

lemma text_inj:
  assumes "doc_ok d" "doc_ok e"
    "join_with (CHR 0x0A) (projection_lines d) = join_with (CHR 0x0A) (projection_lines e)"
  shows "d = e"
proof -
  from assms split_text have l: "projection_lines d = projection_lines e" by metis
  have n: "a = b" if "dec (nat a) = dec (nat b)" "0 \<le> a" "0 \<le> b" for a b :: int
    using that by (simp add: dec_inj)
  have "pd_lease d \<ge> 0" "pd_lease e \<ge> 0" using assms(1,2) by (auto simp: doc_ok_def PROJECTION_LEASE_S_def)
  with l n assms(1,2) have "pd_epoch d = pd_epoch e" "pd_issued d = pd_issued e" "pd_lease d = pd_lease e"
    unfolding projection_lines_def doc_ok_def by auto
  moreover have "pd_desired d = pd_desired e" "pd_desiredStable d = pd_desiredStable e" "pd_desiredDev d = pd_desiredDev e"
    using l assms(1,2) by (intro tag_word_inj; simp add: projection_lines_def doc_ok_def)+
  moreover have "pd_channel d = pd_channel e" "pd_auto d = pd_auto e"
    using l by (simp_all add: projection_lines_def channel_word_inj auto_word_inj)
  ultimately show ?thesis by (cases d; cases e) simp
qed

lemma renderProjection_cases:
  "renderProjection r epoch issued = Some p \<longleftrightarrow>
     0 \<le> epoch \<and> epoch \<le> MAX_SAFE_INTEGER \<and> 0 \<le> issued \<and> issued \<le> UNIX_SECONDS_MAX \<and>
     (\<forall>t \<in> {rs_desiredTag r, rs_desiredStable r, rs_desiredDev r}. \<forall>s. t = Some s \<longrightarrow> isReleaseTag s) \<and>
     (case rs_channel r of
        None \<Rightarrow> p = NoChannel (case rs_resolveDetail r of None \<Rightarrow> UnknownChannel | Some d \<Rightarrow> d)
      | Some c \<Rightarrow> p = RenderedDoc
          \<lparr>pd_epoch = epoch, pd_issued = issued, pd_lease = issued + PROJECTION_LEASE_S, pd_channel = c,
           pd_desired = rs_desiredTag r, pd_desiredStable = rs_desiredStable r, pd_desiredDev = rs_desiredDev r, pd_auto = rs_auto r\<rparr>
          (join_with (CHR 0x0A) (projection_lines
            \<lparr>pd_epoch = epoch, pd_issued = issued, pd_lease = issued + PROJECTION_LEASE_S, pd_channel = c,
             pd_desired = rs_desiredTag r, pd_desiredStable = rs_desiredStable r, pd_desiredDev = rs_desiredDev r, pd_auto = rs_auto r\<rparr>) @ [CHR 0x0A]))"
  by (auto simp: renderProjection_def Let_def MAX_SAFE_INTEGER_def UNIX_SECONDS_MAX_def split: option.splits if_splits)

lemma resolved_is_tag: "fst (resolveOnChannel c pin inp) = Some t \<Longrightarrow> isReleaseTag t"
  using resolve_newest[of c inp t] resolve_pinned[of c _ inp t] by (cases pin) (auto simp: eligible_def)

lemma resolution_tags:
  "\<forall>t \<in> {rs_desiredTag (resolveNodeIntent inp), rs_desiredStable (resolveNodeIntent inp), rs_desiredDev (resolveNodeIntent inp)}.
     \<forall>s. t = Some s \<longrightarrow> isReleaseTag s"
  using resolved_is_tag by (auto simp: resolveNodeIntent_def resolves_nothing_def Let_def split: option.splits)

lemma rendered_NoChannel: "renderProjection r epoch issued = Some (NoChannel w) \<Longrightarrow> rs_channel r = None"
  by (cases "rs_channel r") (simp_all add: renderProjection_def Let_def split: if_splits)

lemma rendered_doc_ok:
  assumes "renderProjection r epoch issued = Some (RenderedDoc d t)"
  shows "doc_ok d \<and> t = join_with (CHR 0x0A) (projection_lines d) @ [CHR 0x0A] \<and> rs_channel r = Some (pd_channel d) \<and>
    pd_epoch d = epoch \<and> pd_issued d = issued \<and> pd_lease d = issued + PROJECTION_LEASE_S \<and>
    pd_desired d = rs_desiredTag r \<and> pd_desiredStable d = rs_desiredStable r \<and> pd_desiredDev d = rs_desiredDev r \<and> pd_auto d = rs_auto r"
  using assms[unfolded renderProjection_cases] by (auto simp: doc_ok_def split: option.splits)

text \<open>C23: the document rendered for a node says what was resolved, and nothing else. It is refused (a range
  error) only for an epoch or an instant out of range, never for an answer of the resolver;
  an answer without a channel has no document and a reason instead; the document carries the
  answer with a lease of fifteen minutes; and its text, one field per line, determines it:
  no two documents, of any nodes at any time, share a text.\<close>

theorem projection_text_faithful:
  "(renderProjection (resolveNodeIntent inp) epoch issued = None \<longleftrightarrow>
      epoch < 0 \<or> epoch > MAX_SAFE_INTEGER \<or> issued < 0 \<or> issued > UNIX_SECONDS_MAX) \<and>
   (\<forall>p. renderProjection r epoch issued = Some p \<longrightarrow>
      (case p of
         NoChannel _ \<Rightarrow> rs_channel r = None
       | RenderedDoc d t \<Rightarrow> rs_channel r = Some (pd_channel d) \<and> pd_epoch d = epoch \<and> pd_issued d = issued \<and>
           pd_lease d = issued + 900 \<and> pd_desired d = rs_desiredTag r \<and> pd_desiredStable d = rs_desiredStable r \<and>
           pd_desiredDev d = rs_desiredDev r \<and> pd_auto d = rs_auto r)) \<and>
   (\<forall>r2 e2 i2 d t d2. renderProjection r epoch issued = Some (RenderedDoc d t) \<and>
      renderProjection r2 e2 i2 = Some (RenderedDoc d2 t) \<longrightarrow> d = d2)"
proof (intro conjI allI impI)
  let ?s = "resolveNodeIntent inp"
  have "(\<exists>p. renderProjection ?s epoch issued = Some p) \<longleftrightarrow>
      0 \<le> epoch \<and> epoch \<le> MAX_SAFE_INTEGER \<and> 0 \<le> issued \<and> issued \<le> UNIX_SECONDS_MAX"
    using resolution_tags[of inp] by (cases "rs_channel ?s") (simp_all add: renderProjection_cases)
  then show "renderProjection ?s epoch issued = None \<longleftrightarrow>
      epoch < 0 \<or> epoch > MAX_SAFE_INTEGER \<or> issued < 0 \<or> issued > UNIX_SECONDS_MAX"
    by (cases "renderProjection ?s epoch issued") auto
next
  fix p assume p: "renderProjection r epoch issued = Some p"
  then show "case p of
         NoChannel _ \<Rightarrow> rs_channel r = None
       | RenderedDoc d t \<Rightarrow> rs_channel r = Some (pd_channel d) \<and> pd_epoch d = epoch \<and> pd_issued d = issued \<and>
           pd_lease d = issued + 900 \<and> pd_desired d = rs_desiredTag r \<and> pd_desiredStable d = rs_desiredStable r \<and>
           pd_desiredDev d = rs_desiredDev r \<and> pd_auto d = rs_auto r"
  proof (cases p)
    case (RenderedDoc d t)
    with p rendered_doc_ok[of r epoch issued d t] show ?thesis by (simp add: PROJECTION_LEASE_S_def)
  next
    case (NoChannel w)
    with p rendered_NoChannel[of r epoch issued w] show ?thesis by simp
  qed
next
  fix r2 e2 i2 d t d2
  assume a: "renderProjection r epoch issued = Some (RenderedDoc d t) \<and> renderProjection r2 e2 i2 = Some (RenderedDoc d2 t)"
  from rendered_doc_ok[OF conjunct1[OF a]] rendered_doc_ok[OF conjunct2[OF a]]
  have k: "doc_ok d" "doc_ok d2"
    "join_with (CHR 0x0A) (projection_lines d) @ [CHR 0x0A] = join_with (CHR 0x0A) (projection_lines d2) @ [CHR 0x0A]"
    by simp_all
  from k(1,2) append_same_eq[THEN iffD1, OF k(3)] show "d = d2" by (rule text_inj)
qed

definition demo_resolution :: resolution where
  "demo_resolution = \<lparr>rs_channel = Some Stable, rs_desiredTag = None, rs_resolveDetail = None, rs_desiredStable = None,
     rs_desiredDev = None, rs_auto = AutoOff\<rparr>"

theorem projection_text_faithful_witness:
  "renderProjection (resolveNodeIntent demo_resolve) (-1) 100 = None \<and>
   (\<exists>d t. renderProjection demo_resolution 7 100 = Some (RenderedDoc d t) \<and> pd_lease d = 1000)"
proof -
  obtain d t where r: "renderProjection demo_resolution 7 100 = Some (RenderedDoc d t)"
    by (simp add: renderProjection_cases demo_resolution_def MAX_SAFE_INTEGER_def UNIX_SECONDS_MAX_def)
  have "renderProjection (resolveNodeIntent demo_resolve) (-1) 100 = None"
    by (rule iffD2[OF conjunct1[OF projection_text_faithful[of demo_resolve "-1" 100 demo_resolution]]]) simp
  moreover have "pd_lease d = 1000"
    using spec[OF conjunct1[OF conjunct2[OF projection_text_faithful[of demo_resolve 7 100 demo_resolution]]], of "RenderedDoc d t"] r
    by simp
  ultimately show ?thesis using r by blast
qed

end
