(* ===== verification/NodeStore.thy ===== *)
theory NodeStore
  imports UpdateDispatch
begin

text \<open>
  The \<open>nodes\<close> table of the coordination store and every method that writes it
  (\<open>server/src/coord/store.ts\<close>, the update inventory): the measurement and report columns, the identity of a row,
  the lease, the resolution and the request. One \<open>UPDATE\<close> is \<open>sql_update\<close>: its \<open>WHERE\<close>, its \<open>SET\<close>, the number of
  rows it changed. A method answers a refusal (\<open>Inl\<close>) or its result (\<open>Inr\<close>) with the table after its transaction;
  the reason of a refusal is read back after the write, as the code does. A stored word outside its
  vocabulary is kept as what the reader answers for it.
\<close>

section \<open>Rows\<close>

datatype install_state = Complete | Incomplete | InstallUnknown

record node_report =
  np_phase :: update_phase
  np_target :: "string option"
  np_startedAt :: "int option"
  np_updatedAt :: "int option"
  np_detail :: "string option"

record node_measurement =
  nm_nodeId :: string
  nm_role :: node_role
  nm_label :: string
  nm_currentVersion :: "string option"
  nm_currentSha :: "string option"
  nm_currentRef :: "string option"
  nm_currentBuiltAt :: "string option"
  nm_currentDirty :: "bool option"
  nm_stampRead :: stamp_read
  nm_installState :: install_state
  nm_provenance :: provenance_state
  nm_caps :: "string list"
  nm_agentOps :: "string list option"
  nm_highestVersion :: "string option"
  nm_previousVersion :: "string option"
  nm_floorRead :: tag_file_read
  nm_previousRead :: tag_file_read
  nm_os :: node_os
  nm_measuredAt :: int
  nm_report :: "node_report option"

text \<open>A row: the columns the dispatcher reads, and the others.\<close>

record node_row = dispatch_row +
  nd_currentSha :: "string option"
  nd_currentRef :: "string option"
  nd_currentBuiltAt :: "string option"
  nd_currentDirty :: "bool option"
  nd_installState :: install_state
  nd_previousVersion :: "string option"
  nd_previousRead :: tag_file_read
  nd_os :: node_os
  nd_measuredAt :: "int option"
  nd_unreachableSince :: "int option"
  nd_reportedPhase :: "update_phase option"
  nd_reportedTarget :: "string option"
  nd_reportedStartedAt :: "int option"
  nd_reportedDetail :: "string option"
  nd_resolveDetail :: "string option"
  nd_supersededBy :: "string option"

record refusal_row =
  rf_nodeId :: string
  rf_tag :: string
  rf_at :: int
  rf_detail :: string

record node_db =
  nb_nodes :: "node_row list"
  nb_refusals :: "refusal_row list"

text \<open>The reasons of a refusal. \<open>BadClock\<close> is the thrown \<open>RangeError\<close>, \<open>UniqueViolation\<close> SQLite's error on a
  primary key, which rolls the transaction back.\<close>

datatype node_why =
  UnknownNode | SupersededNode "string option" | NotBusyNode update_state | StaleReportNode "int option"
| HaltedNode update_state | BusyNode update_state | LeaseBusy string | NoRequestNode | BadTagNode | BadKindNode
| BadNodeId | LabelKeyTaken "string option" | NotIdleNode update_state | NoLeaseToHand | BadClock | UniqueViolation

definition SERVER_LABEL :: string where "SERVER_LABEL = ''server''"
definition FLEET_LABEL :: string where "FLEET_LABEL = ''fleet''"
definition ACK_DETAIL :: string where "ACK_DETAIL = ''acknowledged by the operator''"
definition REKEY_RELEASE_DETAIL :: string where
  "REKEY_RELEASE_DETAIL =
     ''released on a rekey: the node-id came back while another node held the lease; the request stands''"

text \<open>The shape of a node id: 8-4-4-4-12 lower-case hexadecimal digits.\<close>

definition isNodeId :: "string \<Rightarrow> bool" where
  "isNodeId s \<longleftrightarrow>
     (let parts = split_on (CHR ''-'') s in
      map length parts = [8, 4, 4, 4, 12] \<and> list_all (list_all hex_char) parts)"

text \<open>\<open>Number.isSafeInteger(at) && at >= 0\<close> of an integer.\<close>

definition good_clock :: "int \<Rightarrow> bool" where "good_clock t \<longleftrightarrow> 0 \<le> t \<and> t \<le> MAX_SAFE_INTEGER"

definition CAP_WORD :: "string \<Rightarrow> bool" where
  "CAP_WORD w \<longleftrightarrow>
     (case w of
        [] \<Rightarrow> False
      | c # cs \<Rightarrow> CHR ''a'' \<le> c \<and> c \<le> CHR ''z'' \<and> length cs \<le> 31 \<and>
          list_all (\<lambda>d. (CHR ''a'' \<le> d \<and> d \<le> CHR ''z'') \<or> digit_char d \<or> d = CHR ''-'') cs)"

definition MAX_CAP_WORDS :: nat where "MAX_CAP_WORDS = 32"

definition validCapWords :: "string list \<Rightarrow> string list option" where
  "validCapWords words = (if length words > MAX_CAP_WORDS \<or> \<not> list_all CAP_WORD words then None else Some words)"

text \<open>A word list as the column holds it, and as it reads back.\<close>

definition wordsOf :: "string option \<Rightarrow> string list option" where
  "wordsOf text =
     (case text of
        None \<Rightarrow> None
      | Some t \<Rightarrow> Some (case validCapWords (if t = [] then [] else split_on (CHR '' '') t) of None \<Rightarrow> [] | Some ws \<Rightarrow> ws))"

definition read_words :: "string list \<Rightarrow> string list" where
  "read_words ws = (case wordsOf (Some (join_with (CHR '' '') ws)) of None \<Rightarrow> [] | Some vs \<Rightarrow> vs)"

section \<open>The predicates of the table\<close>

definition sql_update :: "('r \<Rightarrow> bool) \<Rightarrow> ('r \<Rightarrow> 'r) \<Rightarrow> 'r list \<Rightarrow> 'r list \<times> nat" where
  "sql_update p f rs = (map (\<lambda>r. if p r then f r else r) rs, length (filter p rs))"

definition live :: "node_row \<Rightarrow> bool" where "live r \<longleftrightarrow> nd_supersededBy r = None"
definition busy :: "node_row \<Rightarrow> bool" where "busy r \<longleftrightarrow> \<not> isSettled (dw_updateState r)"

definition HALTED_UPDATE_STATES :: "update_state list" where
  "HALTED_UPDATE_STATES = filter (\<lambda>s. s \<noteq> UIdle) SETTLED_UPDATE_STATES"

text \<open>SQL's three truth values, \<open>None\<close> for \<open>NULL\<close>; a \<open>WHERE\<close> takes the rows that are true.\<close>

definition sql_and :: "bool option \<Rightarrow> bool option \<Rightarrow> bool option" where
  "sql_and a b =
     (if a = Some False \<or> b = Some False then Some False else if a = None \<or> b = None then None else Some True)"

definition sql_not :: "bool option \<Rightarrow> bool option" where "sql_not = map_option Not"

definition haltingRowSql :: "node_row \<Rightarrow> bool option" where
  "haltingRowSql r =
     sql_and (Some (dw_updateState r \<in> set HALTED_UPDATE_STATES))
       (sql_not (sql_and (Some (dw_updateState r = UFailed))
          (map_option (\<lambda>d. take (length PROVENANCE_DETAIL_PREFIX) d = PROVENANCE_DETAIL_PREFIX) (dw_updateDetail r))))"

text \<open>\<open>(? IS NULL OR updateStartedAt IS NULL OR updateStartedAt IS ?)\<close>.\<close>

definition lease_is :: "int option \<Rightarrow> node_row \<Rightarrow> bool" where
  "lease_is expected r \<longleftrightarrow> expected = None \<or> dw_updateStartedAt r = None \<or> dw_updateStartedAt r = expected"

definition node_at :: "node_db \<Rightarrow> string \<Rightarrow> node_row option" where
  "node_at db nid = find (\<lambda>r. dw_nodeId r = nid) (nb_nodes db)"

text \<open>Latest measurement first, a row never measured last.\<close>

definition recency_key :: "int option \<Rightarrow> string \<Rightarrow> nat \<times> int \<times> string" where
  "recency_key at nid = (case at of None \<Rightarrow> (1, 0, nid) | Some t \<Rightarrow> (0, - t, nid))"

definition nodes :: "node_db \<Rightarrow> node_row list" where
  "nodes db = sort_key (\<lambda>r. (dw_label r, dw_nodeId r)) (filter live (nb_nodes db))"

definition nodeByLabel :: "node_db \<Rightarrow> string \<Rightarrow> node_row option" where
  "nodeByLabel db label =
     (case sort_key (\<lambda>r. recency_key (nd_measuredAt r) (dw_nodeId r)) (filter (\<lambda>r. dw_label r = label \<and> live r) (nb_nodes db)) of
        [] \<Rightarrow> None
      | r # _ \<Rightarrow> Some r)"

text \<open>The reason of a write that changed nothing, read after it.\<close>

definition read_back :: "node_db \<Rightarrow> string \<Rightarrow> (node_row \<Rightarrow> node_why) \<Rightarrow> node_why" where
  "read_back db nid why =
     (case node_at db nid of
        None \<Rightarrow> UnknownNode
      | Some r \<Rightarrow> if nd_supersededBy r \<noteq> None then SupersededNode (nd_supersededBy r) else why r)"

section \<open>Refusals of a release\<close>

definition refuseRelease :: "node_db \<Rightarrow> string \<Rightarrow> string \<Rightarrow> int \<Rightarrow> string \<Rightarrow> (node_why + bool) \<times> node_db" where
  "refuseRelease db nid tag at detail =
     (if \<not> isReleaseTag tag then (Inl BadTagNode, db)
      else if node_at db nid = None then (Inl UnknownNode, db)
      else if find (\<lambda>f. rf_nodeId f = nid \<and> rf_tag f = tag) (nb_refusals db) \<noteq> None then (Inr False, db)
      else (Inr True, db\<lparr>nb_refusals := nb_refusals db @ [\<lparr>rf_nodeId = nid, rf_tag = tag, rf_at = at, rf_detail = detail\<rparr>]\<rparr>))"

definition clearRefusals :: "node_db \<Rightarrow> string \<Rightarrow> (node_why + nat) \<times> node_db" where
  "clearRefusals db nid =
     (if node_at db nid = None then (Inl UnknownNode, db)
      else (Inr (length (filter (\<lambda>f. rf_nodeId f = nid) (nb_refusals db))),
            db\<lparr>nb_refusals := filter (\<lambda>f. rf_nodeId f \<noteq> nid) (nb_refusals db)\<rparr>))"

definition refusalsFor :: "node_db \<Rightarrow> string \<Rightarrow> refusal_row list" where
  "refusalsFor db nid = sort_key (\<lambda>f. (rf_at f, rf_tag f)) (filter (\<lambda>f. rf_nodeId f = nid) (nb_refusals db))"

section \<open>Measurement\<close>

definition write_report :: "node_report option \<Rightarrow> node_row \<Rightarrow> node_row" where
  "write_report rep r =
     r\<lparr>nd_reportedPhase := map_option np_phase rep, nd_reportedTarget := (case rep of None \<Rightarrow> None | Some p \<Rightarrow> np_target p),
       nd_reportedStartedAt := (case rep of None \<Rightarrow> None | Some p \<Rightarrow> np_startedAt p),
       dw_reportedUpdatedAt := (case rep of None \<Rightarrow> None | Some p \<Rightarrow> np_updatedAt p),
       nd_reportedDetail := (case rep of None \<Rightarrow> None | Some p \<Rightarrow> np_detail p)\<rparr>"

definition write_measurement :: "node_measurement \<Rightarrow> node_row \<Rightarrow> node_row" where
  "write_measurement m r = write_report (nm_report m)
     (r\<lparr>dw_role := Some (nm_role m), dw_label := nm_label m, dw_currentVersion := nm_currentVersion m,
        nd_currentSha := nm_currentSha m, nd_currentRef := nm_currentRef m, nd_currentBuiltAt := nm_currentBuiltAt m,
        nd_currentDirty := nm_currentDirty m, dw_stampRead := nm_stampRead m, nd_installState := nm_installState m,
        dw_provenance := nm_provenance m, dw_caps := read_words (nm_caps m),
        dw_agentOps := map_option read_words (nm_agentOps m), dw_highestVersion := nm_highestVersion m,
        nd_previousVersion := nm_previousVersion m, dw_floorRead := nm_floorRead m, nd_previousRead := nm_previousRead m,
        nd_os := nm_os m, nd_measuredAt := Some (nm_measuredAt m), dw_reachable := True, nd_unreachableSince := None\<rparr>)"

text \<open>A row as an \<open>INSERT\<close> that names only the measurement columns leaves it: idle, no request, live. The
  measurement columns of the value below are those of the placeholder \<open>markUnreachable\<close> writes.\<close>

definition blank_row :: "string \<Rightarrow> node_row" where
  "blank_row nid =
     \<lparr>dw_nodeId = nid, dw_role = None, dw_label = nid, dw_currentVersion = None, dw_highestVersion = None,
      dw_floorRead = FloorUnmeasured, dw_stampRead = StampOther ''unreadable'', dw_caps = [], dw_agentOps = None,
      dw_reachable = False, dw_updateState = UIdle, dw_updateTarget = None, dw_updateStartedAt = None,
      dw_updateDetail = None, dw_reportedUpdatedAt = None, dw_channel = None, dw_desiredTag = None,
      dw_provenance = ProvenanceUnknown, dw_requestedTag = None, dw_requestedKind = None, dw_requestedAt = None,
      nd_currentSha = None, nd_currentRef = None, nd_currentBuiltAt = None, nd_currentDirty = None,
      nd_installState = InstallUnknown, nd_previousVersion = None, nd_previousRead = FloorUnmeasured, nd_os = UnknownOs,
      nd_measuredAt = None, nd_unreachableSince = None, nd_reportedPhase = None, nd_reportedTarget = None,
      nd_reportedStartedAt = None, nd_reportedDetail = None, nd_resolveDetail = None, nd_supersededBy = None\<rparr>"

text \<open>The answer is whether the row was created.\<close>

definition upsertNodeMeasurement :: "node_db \<Rightarrow> node_measurement \<Rightarrow> (node_why + bool) \<times> node_db" where
  "upsertNodeMeasurement db m =
     (if node_at db (nm_nodeId m) = None
      then (Inr True, db\<lparr>nb_nodes := nb_nodes db @ [write_measurement m (blank_row (nm_nodeId m))]\<rparr>)
      else let (rows, n) = sql_update (\<lambda>r. dw_nodeId r = nm_nodeId m \<and> live r) (write_measurement m) (nb_nodes db) in
           if n > 0 then (Inr False, db\<lparr>nb_nodes := rows\<rparr>)
           else (Inl (SupersededNode (Option.bind (node_at db (nm_nodeId m)) nd_supersededBy)), db))"

record unreachable_answer =
  ua_nodeId :: string
  ua_created :: bool
  ua_since :: "int option"

definition placeholder :: "string \<Rightarrow> node_role \<Rightarrow> int \<Rightarrow> node_row" where
  "placeholder label role at =
     (blank_row label)\<lparr>dw_role := Some role, dw_label := label, dw_agentOps := (if role = RFleet then Some [] else None),
        nd_unreachableSince := Some at\<rparr>"

definition markUnreachable :: "node_db \<Rightarrow> string \<Rightarrow> node_role \<Rightarrow> int \<Rightarrow> (node_why + unreachable_answer) \<times> node_db" where
  "markUnreachable db label role at =
     (let (rows, n) = sql_update (\<lambda>r. dw_label r = label \<and> live r)
            (\<lambda>r. r\<lparr>dw_reachable := False,
                    nd_unreachableSince := (case nd_unreachableSince r of None \<Rightarrow> Some at | Some s \<Rightarrow> Some s)\<rparr>) (nb_nodes db);
          db1 = db\<lparr>nb_nodes := rows\<rparr> in
      if n > 0 then
        (case nodeByLabel db1 label of
           None \<Rightarrow> (Inl UnknownNode, db1)
         | Some r \<Rightarrow> (Inr \<lparr>ua_nodeId = dw_nodeId r, ua_created = False, ua_since = nd_unreachableSince r\<rparr>, db1))
      else case node_at db label of
        None \<Rightarrow> (Inr \<lparr>ua_nodeId = label, ua_created = True, ua_since = Some at\<rparr>,
                 db\<lparr>nb_nodes := nb_nodes db @ [placeholder label role at]\<rparr>)
      | Some r \<Rightarrow> (Inl (LabelKeyTaken (nd_supersededBy r)), db))"

section \<open>The lease\<close>

definition releaseLease :: "node_db \<Rightarrow> string \<Rightarrow> update_state \<Rightarrow> string \<Rightarrow> int option \<Rightarrow> (node_why + update_state) \<times> node_db" where
  "releaseLease db nid to detail expected =
     (let (rows, n) = sql_update (\<lambda>r. dw_nodeId r = nid \<and> live r \<and> busy r \<and> lease_is expected r)
            (\<lambda>r. r\<lparr>dw_updateState := to, dw_updateDetail := Some detail\<rparr>) (nb_nodes db) in
      if n > 0 then (Inr to, db\<lparr>nb_nodes := rows\<rparr>)
      else (Inl (read_back db nid (\<lambda>r. if isSettled (dw_updateState r) then NotBusyNode (dw_updateState r)
                                       else StaleReportNode (dw_updateStartedAt r))), db))"

definition requestOutlivesLease :: "node_db \<Rightarrow> string \<Rightarrow> bool" where
  "requestOutlivesLease db nid =
     (case node_at db nid of
        None \<Rightarrow> False
      | Some r \<Rightarrow>
          if isSettled (dw_updateState r) then False
          else if dw_requestedKind r \<noteq> Some UpdateKind then False
          else (case (dw_requestedAt r, dw_updateStartedAt r, dw_requestedTag r, dw_updateTarget r) of
             (Some at, Some started, Some tag, Some target) \<Rightarrow>
               if at \<le> started then False
               else if \<not> isReleaseTag tag \<or> \<not> isReleaseTag target \<or> \<not> newer tag target then False
               else list_all (\<lambda>v. case v of None \<Rightarrow> True | Some t \<Rightarrow> \<not> (isReleaseTag t \<and> \<not> newer tag t))
                      [dw_currentVersion r, dw_highestVersion r]
           | _ \<Rightarrow> False))"

definition requestedTagOf :: "node_db \<Rightarrow> string \<Rightarrow> string option" where
  "requestedTagOf db nid = Option.bind (node_at db nid) dw_requestedTag"

definition haltedOf :: "update_state \<Rightarrow> update_state option" where
  "haltedOf s = (if s \<in> set HALTED_UPDATE_STATES then Some s else None)"

record settle_answer =
  sa_clearedRequest :: bool
  sa_keptRequest :: bool

definition settle_row :: "bool \<Rightarrow> string \<Rightarrow> node_row \<Rightarrow> node_row" where
  "settle_row keep detail r =
     r\<lparr>dw_updateState := UIdle, dw_updateDetail := Some detail,
       dw_requestedTag := (if keep then dw_requestedTag r else None),
       dw_requestedKind := (if keep then dw_requestedKind r else None),
       dw_requestedAt := (if keep then dw_requestedAt r else None)\<rparr>"

definition settleNode :: "node_db \<Rightarrow> string \<Rightarrow> string \<Rightarrow> int option \<Rightarrow> (node_why + settle_answer) \<times> node_db" where
  "settleNode db nid detail expected =
     (let had = requestedTagOf db nid \<noteq> None;
          kept = requestOutlivesLease db nid;
          (rows, n) = sql_update
            (\<lambda>r. dw_nodeId r = nid \<and> live r \<and> dw_updateState r \<notin> set HALTED_UPDATE_STATES \<and> lease_is expected r)
            (settle_row kept detail) (nb_nodes db) in
      if n > 0 then (Inr \<lparr>sa_clearedRequest = had \<and> \<not> kept, sa_keptRequest = had \<and> kept\<rparr>, db\<lparr>nb_nodes := rows\<rparr>)
      else (Inl (read_back db nid (\<lambda>r. case haltedOf (dw_updateState r) of
                  Some h \<Rightarrow> HaltedNode h | None \<Rightarrow> StaleReportNode (dw_updateStartedAt r))), db))"

definition resolveNode ::
  "node_db \<Rightarrow> string \<Rightarrow> update_channel option \<Rightarrow> string option \<Rightarrow> string option \<Rightarrow> (node_why + bool) \<times> node_db" where
  "resolveNode db nid channel desired detail =
     (let (rows, n) = sql_update
            (\<lambda>r. dw_nodeId r = nid \<and> live r \<and>
                  \<not> (dw_channel r = channel \<and> dw_desiredTag r = desired \<and> nd_resolveDetail r = detail))
            (\<lambda>r. r\<lparr>dw_channel := channel, dw_desiredTag := desired, nd_resolveDetail := detail\<rparr>) (nb_nodes db) in
      if n > 0 then (Inr True, db\<lparr>nb_nodes := rows\<rparr>)
      else case node_at db nid of
        None \<Rightarrow> (Inl UnknownNode, db)
      | Some r \<Rightarrow> (if nd_supersededBy r \<noteq> None then Inl (SupersededNode (nd_supersededBy r)) else Inr False, db))"

record ack_answer =
  aa_clearedRequest :: bool
  aa_clearedRefusals :: nat

definition busyOf :: "update_state \<Rightarrow> update_state option" where
  "busyOf s = (if s \<in> set BUSY_UPDATE_STATES then Some s else None)"

definition ackNode :: "node_db \<Rightarrow> string \<Rightarrow> (node_why + ack_answer) \<times> node_db" where
  "ackNode db nid =
     (let had = requestedTagOf db nid \<noteq> None;
          (rows, n) = sql_update (\<lambda>r. dw_nodeId r = nid \<and> live r \<and> isSettled (dw_updateState r))
            (settle_row False ACK_DETAIL) (nb_nodes db) in
      if n > 0 then
        (Inr \<lparr>aa_clearedRequest = had, aa_clearedRefusals = length (filter (\<lambda>f. rf_nodeId f = nid) (nb_refusals db))\<rparr>,
         db\<lparr>nb_nodes := rows, nb_refusals := filter (\<lambda>f. rf_nodeId f \<noteq> nid) (nb_refusals db)\<rparr>)
      else (Inl (read_back db nid (\<lambda>r. BusyNode (case busyOf (dw_updateState r) of None \<Rightarrow> UUnknown | Some b \<Rightarrow> b))), db))"

text \<open>The answer is the request the new one replaces. A kind the server cannot name is \<open>None\<close>.\<close>

definition requestNode ::
  "node_db \<Rightarrow> string \<Rightarrow> string \<Rightarrow> request_kind option \<Rightarrow> int \<Rightarrow>
   (node_why + (string \<times> request_kind option) option) \<times> node_db" where
  "requestNode db nid tag kind at =
     (if \<not> good_clock at then (Inl BadClock, db)
      else if \<not> isReleaseTag tag then (Inl BadTagNode, db)
      else if kind = None then (Inl BadKindNode, db)
      else let prev = node_at db nid;
               (rows, n) = sql_update (\<lambda>r. dw_nodeId r = nid \<and> live r)
                 (\<lambda>r. r\<lparr>dw_requestedTag := Some tag, dw_requestedKind := kind, dw_requestedAt := Some at\<rparr>) (nb_nodes db) in
           if n > 0 then
             (Inr (case prev of None \<Rightarrow> None | Some p \<Rightarrow> map_option (\<lambda>t. (t, dw_requestedKind p)) (dw_requestedTag p)),
              db\<lparr>nb_nodes := rows\<rparr>)
           else (Inl (read_back db nid (\<lambda>r. SupersededNode (nd_supersededBy r))), db))"

definition lease_holders :: "node_db \<Rightarrow> node_row list" where
  "lease_holders db = sort_key dw_nodeId (filter (\<lambda>r. live r \<and> busy r) (nb_nodes db))"

definition dispatchNode ::
  "node_db \<Rightarrow> string \<Rightarrow> string \<Rightarrow> request_kind option \<Rightarrow> int \<Rightarrow> string \<Rightarrow> (node_why + unit) \<times> node_db" where
  "dispatchNode db nid target kind startedAt detail =
     (if \<not> good_clock startedAt then (Inl BadClock, db)
      else if \<not> isReleaseTag target then (Inl BadTagNode, db)
      else if kind = None then (Inl BadKindNode, db)
      else let (rows, n) = sql_update
                 (\<lambda>r. dw_nodeId r = nid \<and> live r \<and> isSettled (dw_updateState r) \<and>
                       \<not> list_ex (\<lambda>b. live b \<and> busy b) (nb_nodes db) \<and>
                       (kind \<noteq> Some RollbackKind \<or> dw_requestedKind r = Some RollbackKind \<and> dw_requestedTag r = Some target))
                 (\<lambda>r. r\<lparr>dw_updateState := UPending, dw_updateTarget := Some target, dw_updateStartedAt := Some startedAt,
                         dw_updateDetail := Some detail\<rparr>) (nb_nodes db) in
           if n > 0 then (Inr (), db\<lparr>nb_nodes := rows\<rparr>)
           else (Inl (read_back db nid (\<lambda>r. case lease_holders db of [] \<Rightarrow> NoRequestNode | h # _ \<Rightarrow> LeaseBusy (dw_nodeId h))), db))"

definition noteDispatchRefusal :: "node_db \<Rightarrow> string \<Rightarrow> string \<Rightarrow> (node_why + bool) \<times> node_db" where
  "noteDispatchRefusal db nid detail =
     (let (rows, n) = sql_update
            (\<lambda>r. dw_nodeId r = nid \<and> live r \<and> dw_updateState r = UIdle \<and> dw_updateDetail r \<noteq> Some detail)
            (\<lambda>r. r\<lparr>dw_updateDetail := Some detail\<rparr>) (nb_nodes db) in
      if n > 0 then (Inr True, db\<lparr>nb_nodes := rows\<rparr>)
      else case node_at db nid of
        None \<Rightarrow> (Inl UnknownNode, db)
      | Some r \<Rightarrow>
          (if nd_supersededBy r \<noteq> None then Inl (SupersededNode (nd_supersededBy r))
           else if dw_updateState r \<noteq> UIdle then Inl (NotIdleNode (dw_updateState r))
           else Inr False, db))"

definition noteLeaseDetail :: "node_db \<Rightarrow> string \<Rightarrow> string \<Rightarrow> int \<Rightarrow> (node_why + unit) \<times> node_db" where
  "noteLeaseDetail db nid detail startedAt =
     (let (rows, n) = sql_update
            (\<lambda>r. dw_nodeId r = nid \<and> live r \<and> busy r \<and> dw_updateStartedAt r = Some startedAt)
            (\<lambda>r. r\<lparr>dw_updateDetail := Some detail\<rparr>) (nb_nodes db) in
      if n > 0 then (Inr (), db\<lparr>nb_nodes := rows\<rparr>)
      else (Inl (read_back db nid (\<lambda>r. if isSettled (dw_updateState r) then NotBusyNode (dw_updateState r)
                                       else StaleReportNode (dw_updateStartedAt r))), db))"

text \<open>\<open>UPDATE nodes SET ... FROM nodes f\<close>: the row that hands over is named by its key.\<close>

definition handOffLease :: "node_db \<Rightarrow> string \<Rightarrow> string \<Rightarrow> (node_why + unit) \<times> node_db" where
  "handOffLease db from_id to_id =
     (let gives = (\<lambda>r f. dw_label f = dw_label r \<and> nd_supersededBy f = Some (dw_nodeId r) \<and> busy f);
          (rows, n) = (case node_at db from_id of
             None \<Rightarrow> (nb_nodes db, 0)
           | Some f \<Rightarrow> sql_update (\<lambda>r. dw_nodeId r = to_id \<and> live r \<and> sql_not (haltingRowSql r) = Some True \<and> gives r f)
               (\<lambda>r. r\<lparr>dw_updateState := dw_updateState f, dw_updateTarget := dw_updateTarget f,
                       dw_updateStartedAt := dw_updateStartedAt f, dw_updateDetail := dw_updateDetail f\<rparr>) (nb_nodes db)) in
      if n > 0 then (Inr (), db\<lparr>nb_nodes := rows\<rparr>)
      else (Inl (read_back db to_id (\<lambda>r. if isHaltingUpdate (dw_updateState r) (dw_updateDetail r)
                                          then HaltedNode (dw_updateState r) else NoLeaseToHand)), db))"

section \<open>The identity of a row\<close>

definition retire :: "string \<Rightarrow> node_row \<Rightarrow> node_row" where "retire heir r = r\<lparr>nd_supersededBy := Some heir\<rparr>"

text \<open>The lease a revived row must not lose.\<close>

definition lease_donor :: "node_db \<Rightarrow> string \<Rightarrow> string \<Rightarrow> string option" where
  "lease_donor db label nid =
     (case sort_key (\<lambda>r. recency_key (dw_updateStartedAt r) (dw_nodeId r))
             (filter (\<lambda>r. dw_label r = label \<and> live r \<and> dw_nodeId r \<noteq> nid \<and> busy r) (nb_nodes db)) of
        [] \<Rightarrow> None
      | r # _ \<Rightarrow> Some (dw_nodeId r))"

definition other_holder :: "node_db \<Rightarrow> string \<Rightarrow> string option" where
  "other_holder db label = map_option dw_nodeId (find (\<lambda>r. dw_label r \<noteq> label \<and> live r \<and> busy r) (nb_nodes db))"

definition leaseFollowsLabel :: "node_db \<Rightarrow> string \<Rightarrow> string \<Rightarrow> string option \<Rightarrow> node_db" where
  "leaseFollowsLabel db label nid donor =
     (case node_at db nid of
        None \<Rightarrow> db
      | Some row \<Rightarrow>
          (case (case donor of None \<Rightarrow> (Inl NoLeaseToHand, db) | Some d \<Rightarrow> handOffLease db d nid) of
             (Inr _, db1) \<Rightarrow> db1
           | (Inl _, _) \<Rightarrow>
               (case other_holder db label of
                  None \<Rightarrow> db
                | Some other \<Rightarrow>
                    snd (releaseLease db nid UIdle (REKEY_RELEASE_DETAIL @ '' ('' @ other @ '' holds the lease)'')
                      (dw_updateStartedAt row)))))"

datatype rekey_how = Rekeyed | SupersededRow | NoLabelRow

record rekey_answer =
  ra_how :: rekey_how
  ra_retired :: nat
  ra_revived :: bool

text \<open>The row keyed by the label is retired towards the node id when that row exists, and takes the id
  otherwise, its refusals with it. The second component is how many rows moved.\<close>

definition supersede_label_row :: "node_db \<Rightarrow> string \<Rightarrow> string \<Rightarrow> node_db \<times> nat" where
  "supersede_label_row db label nid =
     (let (rows, n) = sql_update (\<lambda>r. dw_nodeId r = label \<and> live r \<and> node_at db nid \<noteq> None) (retire nid) (nb_nodes db) in
      (db\<lparr>nb_nodes := rows\<rparr>, n))"

definition move_label_row :: "node_db \<Rightarrow> string \<Rightarrow> string \<Rightarrow> node_db \<times> nat" where
  "move_label_row db label nid =
     (let (rows, n) = sql_update (\<lambda>r. dw_nodeId r = label \<and> live r) (\<lambda>r. r\<lparr>dw_nodeId := nid\<rparr>) (nb_nodes db) in
      (db\<lparr>nb_nodes := rows,
          nb_refusals := (if n > 0 then map (\<lambda>f. if rf_nodeId f = label then f\<lparr>rf_nodeId := nid\<rparr> else f) (nb_refusals db)
                          else nb_refusals db)\<rparr>, n))"

definition revive_row :: "node_db \<Rightarrow> string \<Rightarrow> node_db \<times> nat" where
  "revive_row db nid =
     (let (rows, n) = sql_update (\<lambda>r. dw_nodeId r = nid \<and> nd_supersededBy r \<noteq> None) (\<lambda>r. r\<lparr>nd_supersededBy := None\<rparr>) (nb_nodes db) in
      (db\<lparr>nb_nodes := rows\<rparr>, n))"

definition retire_others :: "node_db \<Rightarrow> string \<Rightarrow> string \<Rightarrow> node_db \<times> nat" where
  "retire_others db label nid =
     (let (rows, n) = sql_update (\<lambda>r. dw_label r = label \<and> live r \<and> dw_nodeId r \<noteq> nid \<and> dw_nodeId r \<noteq> label) (retire nid)
            (nb_nodes db) in
      (db\<lparr>nb_nodes := rows\<rparr>, n))"

text \<open>The primary keys of the two tables.\<close>

definition keys_unique :: "node_db \<Rightarrow> bool" where
  "keys_unique db \<longleftrightarrow> distinct (map dw_nodeId (nb_nodes db)) \<and> distinct (map (\<lambda>f. (rf_nodeId f, rf_tag f)) (nb_refusals db))"

definition rekeyNode :: "node_db \<Rightarrow> string \<Rightarrow> string \<Rightarrow> (node_why + rekey_answer) \<times> node_db" where
  "rekeyNode db label nid =
     (if \<not> isNodeId nid then (Inl BadNodeId, db)
      else let donor = (case node_at db nid of
                  None \<Rightarrow> None
                | Some heir \<Rightarrow> if nd_supersededBy heir = None then None else lease_donor db label nid);
               (db1, n1) = supersede_label_row db label nid;
               (db2, n2) = (if n1 > 0 then (db1, 0) else move_label_row db1 label nid) in
           if \<not> keys_unique db2 then (Inl UniqueViolation, db)
           else let (db3, n3) = revive_row db2 nid;
                    (db4, n4) = retire_others db3 label nid in
             (Inr \<lparr>ra_how = (if n1 > 0 then SupersededRow else if n2 > 0 then Rekeyed else NoLabelRow),
                   ra_retired = n4, ra_revived = (n3 > 0)\<rparr>,
              if n3 > 0 then leaseFollowsLabel db4 label nid donor else db4))"

end
