(* ===== verification/NodeInv.thy ===== *)
theory NodeInv
  imports NodeStore
begin

text \<open>
  What every operation on the nodes table keeps: the two primary keys, one lease, and the identity of the rows. An
  operation that only rewrites columns is \<open>quiet\<close>: it keeps every row's id and heir, makes no row busy and
  writes no refusal; the four that are not (an insert, an acquire, a verdict, a rekey) are treated one by one.
\<close>

section \<open>Lookups and updates\<close>

lemma isSettled_simps [simp]:
  "isSettled UIdle" "isSettled UFailed" "isSettled UReverted" "\<not> isSettled UPending" "\<not> isSettled UApplying" "\<not> isSettled UUnknown"
  by (simp_all add: isSettled_def SETTLED_UPDATE_STATES_def)

lemma halted_states [simp]: "s \<in> set HALTED_UPDATE_STATES \<longleftrightarrow> isSettled s \<and> s \<noteq> UIdle"
  by (auto simp: HALTED_UPDATE_STATES_def isSettled_def)

lemma sql_updateD:
  assumes "sql_update p f rs = (rows, n)"
  shows "rows = map (\<lambda>r. if p r then f r else r) rs" "n = length (filter p rs)" "n = 0 \<Longrightarrow> rows = rs"
proof -
  show r: "rows = map (\<lambda>r. if p r then f r else r) rs" and n: "n = length (filter p rs)"
    using assms by (simp_all add: sql_update_def)
  show "rows = rs" if "n = 0" using that r n by (auto simp: filter_empty_conv intro!: map_idI)
qed

lemma sql_update_pos: "0 < snd (sql_update p f rs) \<longleftrightarrow> (\<exists>r \<in> set rs. p r)"
  by (auto simp: sql_update_def filter_empty_conv)

lemma node_at_None: "node_at db x = None \<longleftrightarrow> x \<notin> dw_nodeId ` set (nb_nodes db)"
  by (auto simp: node_at_def find_None_iff)

lemma node_at_in: "node_at db x = Some r \<Longrightarrow> r \<in> set (nb_nodes db) \<and> dw_nodeId r = x"
  by (auto simp: node_at_def find_Some_iff in_set_conv_nth)

lemma node_at_unique:
  assumes "keys_unique db" "r \<in> set (nb_nodes db)"
  shows "node_at db (dw_nodeId r) = Some r"
proof (cases "node_at db (dw_nodeId r)")
  case None
  then show ?thesis using assms(2) by (auto simp: node_at_None)
next
  case (Some s)
  then have "s \<in> set (nb_nodes db)" "dw_nodeId s = dw_nodeId r" using node_at_in by auto
  with assms have "s = r" by (auto simp: keys_unique_def distinct_map inj_on_def)
  with Some show ?thesis by simp
qed

lemma node_at_same:
  assumes "keys_unique db" "node_at db i = Some r" "s \<in> set (nb_nodes db)"
  shows "dw_nodeId s = i \<longleftrightarrow> s = r"
proof
  assume "dw_nodeId s = i"
  then have "node_at db i = Some s" using node_at_unique[OF assms(1,3)] by simp
  then show "s = r" using assms(2) by simp
qed (use node_at_in[OF assms(2)] in simp)

section \<open>The invariant\<close>

definition holders :: "node_db \<Rightarrow> string set" where
  "holders db = {dw_nodeId r | r. r \<in> set (nb_nodes db) \<and> live r \<and> busy r}"

text \<open>An edge from a retired row to its heir.\<close>

definition heir_edges :: "node_db \<Rightarrow> (string \<times> string) set" where
  "heir_edges db = {(dw_nodeId r, h) | r h. r \<in> set (nb_nodes db) \<and> nd_supersededBy r = Some h}"

definition one_lease :: "node_db \<Rightarrow> bool" where "one_lease db \<longleftrightarrow> (\<forall>x \<in> holders db. \<forall>y \<in> holders db. x = y)"

definition refusals_keyed :: "node_db \<Rightarrow> bool" where
  "refusals_keyed db \<longleftrightarrow> rf_nodeId ` set (nb_refusals db) \<subseteq> dw_nodeId ` set (nb_nodes db)"

definition heirs_keyed :: "node_db \<Rightarrow> bool" where "heirs_keyed db \<longleftrightarrow> snd ` heir_edges db \<subseteq> Collect isNodeId"

definition node_inv :: "node_db \<Rightarrow> bool" where
  "node_inv db \<longleftrightarrow> keys_unique db \<and> one_lease db \<and> refusals_keyed db \<and> heirs_keyed db \<and> acyclic (heir_edges db)"

lemma heir_edges_map:
  "nb_nodes db' = map g (nb_nodes db) \<Longrightarrow>
   heir_edges db' = {(dw_nodeId (g r), h) | r h. r \<in> set (nb_nodes db) \<and> nd_supersededBy (g r) = Some h}"
  by (auto simp: heir_edges_def)

lemma holders_rows:
  "x \<in> holders db \<longleftrightarrow> (\<exists>r \<in> set (nb_nodes db). dw_nodeId r = x \<and> live r \<and> busy r)"
  by (auto simp: holders_def)

lemma holders_map:
  assumes "nb_nodes db' = map g (nb_nodes db)"
  shows "x \<in> holders db' \<longleftrightarrow> (\<exists>r \<in> set (nb_nodes db). dw_nodeId (g r) = x \<and> live (g r) \<and> busy (g r))"
  unfolding holders_rows assms list.set_map bex_simps ..

section \<open>Quiet operations\<close>

definition quiet_row :: "(node_row \<Rightarrow> node_row) \<Rightarrow> bool" where
  "quiet_row g \<longleftrightarrow> (\<forall>r. dw_nodeId (g r) = dw_nodeId r \<and> nd_supersededBy (g r) = nd_supersededBy r \<and> (busy (g r) \<longrightarrow> busy r))"

definition quiet :: "node_db \<Rightarrow> node_db \<Rightarrow> bool" where
  "quiet db db' \<longleftrightarrow> (\<exists>g q. quiet_row g \<and> nb_nodes db' = map g (nb_nodes db) \<and> nb_refusals db' = filter q (nb_refusals db))"

lemma quiet_refl [simp]: "quiet db db"
  unfolding quiet_def by (rule exI[of _ "\<lambda>r. r"], rule exI[of _ "\<lambda>f. True"]) (simp add: quiet_row_def)

lemma quietI:
  assumes "quiet_row g" "nb_nodes db' = map g (nb_nodes db)" "nb_refusals db' = nb_refusals db"
  shows "quiet db db'"
  unfolding quiet_def using assms by (intro exI[of _ g] exI[of _ "\<lambda>f. True"]) simp

lemma quiet_rowI:
  "(\<And>r. dw_nodeId (f r) = dw_nodeId r) \<Longrightarrow> (\<And>r. nd_supersededBy (f r) = nd_supersededBy r) \<Longrightarrow>
   (\<And>r. p r \<Longrightarrow> busy (f r) \<Longrightarrow> busy r) \<Longrightarrow> quiet_row (\<lambda>r. if p r then f r else r)"
  by (simp add: quiet_row_def)

lemma quiet_nodes:
  assumes "quiet db db'"
  shows "dw_nodeId ` set (nb_nodes db') = dw_nodeId ` set (nb_nodes db)" "heir_edges db' = heir_edges db" "holders db' \<subseteq> holders db"
    "map dw_nodeId (nb_nodes db') = map dw_nodeId (nb_nodes db)" "set (nb_refusals db') \<subseteq> set (nb_refusals db)"
proof -
  obtain g q where g: "quiet_row g" "nb_nodes db' = map g (nb_nodes db)" "nb_refusals db' = filter q (nb_refusals db)"
    using assms by (auto simp: quiet_def)
  have s: "dw_nodeId (g r) = dw_nodeId r" "nd_supersededBy (g r) = nd_supersededBy r" "busy (g r) \<Longrightarrow> busy r" for r
    using g(1) by (simp_all add: quiet_row_def)
  show "dw_nodeId ` set (nb_nodes db') = dw_nodeId ` set (nb_nodes db)" by (simp add: g(2) s image_image)
  show "map dw_nodeId (nb_nodes db') = map dw_nodeId (nb_nodes db)" by (simp add: g(2) s comp_def)
  show "set (nb_refusals db') \<subseteq> set (nb_refusals db)" by (auto simp: g(3))
  show "heir_edges db' = heir_edges db" by (simp only: heir_edges_map[OF g(2)] s heir_edges_def[of db])
  show "holders db' \<subseteq> holders db"
  proof
    fix x
    assume "x \<in> holders db'"
    then obtain r where "r \<in> set (nb_nodes db)" "x = dw_nodeId (g r)" "live (g r)" "busy (g r)" by (auto simp: holders_def g(2))
    then show "x \<in> holders db" using s[of r] by (auto simp: holders_def live_def)
  qed
qed

lemma quiet_inv:
  assumes "node_inv db" "quiet db db'"
  shows "node_inv db'"
proof -
  obtain q where q: "nb_refusals db' = filter q (nb_refusals db)" using assms(2) by (auto simp: quiet_def)
  note n = quiet_nodes[OF assms(2)]
  have i: "keys_unique db" "one_lease db" "refusals_keyed db" "heirs_keyed db" "acyclic (heir_edges db)"
    using assms(1) by (simp_all add: node_inv_def)
  have "keys_unique db'" using i(1) by (simp add: keys_unique_def n(4) q distinct_map_filter)
  moreover have "one_lease db'" using i(2) n(3) by (auto simp: one_lease_def)
  moreover have "refusals_keyed db'" using i(3) image_mono[OF n(5), of rf_nodeId] unfolding refusals_keyed_def n(1) by (rule subset_trans[rotated])
  moreover have "heirs_keyed db'" "acyclic (heir_edges db')" using i(4,5) by (simp_all add: heirs_keyed_def n)
  ultimately show ?thesis by (simp add: node_inv_def)
qed

text \<open>A method that is one \<open>UPDATE\<close> and answers by the number of rows changed.\<close>

lemma quiet_update:
  assumes "sql_update p f (nb_nodes db) = (rows, n)"
    "\<And>r. dw_nodeId (f r) = dw_nodeId r" "\<And>r. nd_supersededBy (f r) = nd_supersededBy r" "\<And>r. p r \<Longrightarrow> busy (f r) \<Longrightarrow> busy r"
  shows "quiet db (db\<lparr>nb_nodes := rows\<rparr>)"
  by (rule quietI[OF quiet_rowI[OF assms(2-4)]]) (auto simp: sql_updateD(1)[OF assms(1)])

lemma write_measurement_keeps [simp]:
  "dw_nodeId (write_measurement m r) = dw_nodeId r" "nd_supersededBy (write_measurement m r) = nd_supersededBy r"
  "dw_updateState (write_measurement m r) = dw_updateState r" "dw_updateTarget (write_measurement m r) = dw_updateTarget r"
  "dw_updateStartedAt (write_measurement m r) = dw_updateStartedAt r" "dw_updateDetail (write_measurement m r) = dw_updateDetail r"
  "dw_requestedTag (write_measurement m r) = dw_requestedTag r" "dw_requestedKind (write_measurement m r) = dw_requestedKind r"
  "dw_requestedAt (write_measurement m r) = dw_requestedAt r" "dw_label (write_measurement m r) = nm_label m"
  "busy (write_measurement m r) = busy r" "live (write_measurement m r) = live r"
  by (simp_all add: write_measurement_def write_report_def busy_def live_def)

lemma settle_row_keeps [simp]:
  "dw_nodeId (settle_row k d r) = dw_nodeId r" "nd_supersededBy (settle_row k d r) = nd_supersededBy r"
  "dw_updateState (settle_row k d r) = UIdle" "\<not> busy (settle_row k d r)" "live (settle_row k d r) = live r"
  by (simp_all add: settle_row_def busy_def live_def)

lemma quiet_releaseLease: "isSettled to \<Longrightarrow> quiet db (snd (releaseLease db i to d e))"
  by (auto simp: releaseLease_def Let_def busy_def split: prod.split elim!: quiet_update)

lemma quiet_settleNode: "quiet db (snd (settleNode db i d e))"
  by (auto simp: settleNode_def Let_def split: prod.split elim!: quiet_update)

lemma quiet_resolveNode: "quiet db (snd (resolveNode db i c t d))"
  by (auto simp: resolveNode_def Let_def busy_def split: prod.split option.split elim!: quiet_update)

lemma quiet_requestNode: "quiet db (snd (requestNode db i t k at))"
  by (auto simp: requestNode_def Let_def busy_def split: prod.split elim!: quiet_update)

lemma quiet_noteDispatchRefusal: "quiet db (snd (noteDispatchRefusal db i d))"
  by (auto simp: noteDispatchRefusal_def Let_def busy_def split: prod.split option.split elim!: quiet_update)

lemma quiet_noteLeaseDetail: "quiet db (snd (noteLeaseDetail db i d at))"
  by (auto simp: noteLeaseDetail_def Let_def busy_def split: prod.split elim!: quiet_update)

lemma quiet_clearRefusals: "quiet db (snd (clearRefusals db i))"
  unfolding clearRefusals_def quiet_def
  by (cases "node_at db i = None")
    (auto simp: quiet_row_def intro: exI[of _ "\<lambda>f. True"] exI[of _ "\<lambda>r. r"] intro!: exI[of _ "\<lambda>r. r"])

lemma quiet_ackNode: "quiet db (snd (ackNode db i))"
proof -
  obtain rows n where u: "sql_update (\<lambda>r. dw_nodeId r = i \<and> live r \<and> isSettled (dw_updateState r)) (settle_row False ACK_DETAIL)
      (nb_nodes db) = (rows, n)" by fastforce
  have "quiet_row (\<lambda>r. if dw_nodeId r = i \<and> live r \<and> isSettled (dw_updateState r) then settle_row False ACK_DETAIL r else r)"
    by (rule quiet_rowI) auto
  then show ?thesis
    unfolding ackNode_def u by (cases "n > 0") (auto simp: Let_def quiet_def[of db "_\<lparr>nb_nodes := _, nb_refusals := _\<rparr>"] sql_updateD(1)[OF u])
qed

section \<open>An insert, a verdict, an acquire\<close>

lemma insert_inv:
  assumes "node_inv db" "node_at db (dw_nodeId r) = None" "live r" "\<not> busy r"
  shows "node_inv (db\<lparr>nb_nodes := nb_nodes db @ [r]\<rparr>)"
proof -
  let ?db = "db\<lparr>nb_nodes := nb_nodes db @ [r]\<rparr>"
  have "heir_edges ?db = heir_edges db" "holders ?db = holders db"
    using assms(3,4) by (auto simp: heir_edges_def holders_def live_def)
  then show ?thesis using assms(1,2)
    by (auto simp: node_inv_def keys_unique_def one_lease_def refusals_keyed_def heirs_keyed_def node_at_None)
qed

lemma blank_row_simps [simp]:
  "dw_nodeId (blank_row i) = i" "nd_supersededBy (blank_row i) = None" "dw_updateState (blank_row i) = UIdle"
  "live (blank_row i)" "\<not> busy (blank_row i)" "dw_requestedTag (blank_row i) = None"
  by (simp_all add: blank_row_def live_def busy_def)

lemma placeholder_simps [simp]:
  "dw_nodeId (placeholder l ro at) = l" "live (placeholder l ro at)" "\<not> busy (placeholder l ro at)"
  "dw_label (placeholder l ro at) = l" "dw_updateState (placeholder l ro at) = UIdle"
  by (simp_all add: placeholder_def blank_row_def live_def busy_def)

lemma upsert_inv: "node_inv db \<Longrightarrow> node_inv (snd (upsertNodeMeasurement db m))"
proof (cases "node_at db (nm_nodeId m) = None")
  case True
  assume "node_inv db"
  with True show ?thesis
    using insert_inv[of db "write_measurement m (blank_row (nm_nodeId m))"] by (simp add: upsertNodeMeasurement_def)
next
  case False
  assume "node_inv db"
  moreover have "quiet db (snd (upsertNodeMeasurement db m))"
    using False by (auto simp: upsertNodeMeasurement_def Let_def split: prod.split elim!: quiet_update)
  ultimately show ?thesis by (rule quiet_inv)
qed

lemma markUnreachable_inv:
  assumes "node_inv db"
  shows "node_inv (snd (markUnreachable db label role at))"
proof -
  let ?f = "\<lambda>r :: node_row. r\<lparr>dw_reachable := False,
      nd_unreachableSince := (case nd_unreachableSince r of None \<Rightarrow> Some at | Some s \<Rightarrow> Some s)\<rparr>"
  obtain rows n where u: "sql_update (\<lambda>r. dw_label r = label \<and> live r) ?f (nb_nodes db) = (rows, n)" by fastforce
  have q: "quiet db (db\<lparr>nb_nodes := rows\<rparr>)" by (rule quiet_update[OF u]) (simp_all add: busy_def)
  show ?thesis
    unfolding markUnreachable_def u
    using assms quiet_inv[OF assms q] insert_inv[OF assms, of "placeholder label role at"] by (auto simp: Let_def split: option.split)
qed

lemma refuseRelease_inv:
  assumes "node_inv db"
  shows "node_inv (snd (refuseRelease db i t at d))"
proof -
  have e: "heir_edges (db\<lparr>nb_refusals := fs\<rparr>) = heir_edges db" "holders (db\<lparr>nb_refusals := fs\<rparr>) = holders db" for fs
    by (simp_all add: heir_edges_def holders_def)
  show ?thesis
    using assms
    by (auto simp: refuseRelease_def node_inv_def keys_unique_def one_lease_def refusals_keyed_def heirs_keyed_def e
        node_at_None find_None_iff)
qed

lemma acquire_inv:
  assumes "node_inv db" "\<And>r. dw_nodeId (f r) = dw_nodeId r" "\<And>r. nd_supersededBy (f r) = nd_supersededBy r"
    "\<And>r. p r \<Longrightarrow> dw_nodeId r = i" "\<And>r. p r \<Longrightarrow> \<forall>b \<in> set (nb_nodes db). \<not> (live b \<and> busy b)"
  shows "node_inv (db\<lparr>nb_nodes := map (\<lambda>r. if p r then f r else r) (nb_nodes db)\<rparr>)"
proof -
  let ?g = "\<lambda>r. if p r then f r else r"
  let ?db = "db\<lparr>nb_nodes := map ?g (nb_nodes db)\<rparr>"
  have g: "dw_nodeId (?g r) = dw_nodeId r" "nd_supersededBy (?g r) = nd_supersededBy r" for r using assms(2,3) by simp_all
  have n: "nb_nodes ?db = map ?g (nb_nodes db)" and q: "nb_refusals ?db = nb_refusals db" by simp_all
  have e: "heir_edges ?db = heir_edges db" by (simp only: heir_edges_map[OF n] g heir_edges_def[of db])
  have h: "holders ?db \<subseteq> {i} \<or> holders ?db = holders db"
  proof (cases "\<exists>r \<in> set (nb_nodes db). p r")
    case True
    then have "\<forall>b \<in> set (nb_nodes db). \<not> (live b \<and> busy b)" using assms(5) by blast
    then have "holders ?db \<subseteq> {i}" using assms(2,4) by (auto simp: holders_def split: if_splits)
    then show ?thesis ..
  next
    case False
    then have "map ?g (nb_nodes db) = nb_nodes db" by (intro map_idI) auto
    then show ?thesis by simp
  qed
  have ids: "map dw_nodeId (map ?g (nb_nodes db)) = map dw_nodeId (nb_nodes db)" "dw_nodeId ` set (map ?g (nb_nodes db)) = dw_nodeId ` set (nb_nodes db)"
    by (simp_all only: list.map_comp comp_def g list.set_map image_image)
  have "one_lease ?db"
    using h
  proof
    assume "holders ?db \<subseteq> {i}"
    then have "x = i" if "x \<in> holders ?db" for x using that by blast
    then show ?thesis unfolding one_lease_def by metis
  next
    assume "holders ?db = holders db"
    then show ?thesis using assms(1) by (simp add: one_lease_def node_inv_def)
  qed
  moreover have "keys_unique ?db" "refusals_keyed ?db" "heirs_keyed ?db"
    using assms(1) by (simp_all only: node_inv_def keys_unique_def refusals_keyed_def heirs_keyed_def e n q ids)
  ultimately show ?thesis using assms(1) by (simp add: node_inv_def e)
qed

lemma dispatchNode_inv:
  assumes "node_inv db"
  shows "node_inv (snd (dispatchNode db i t k at d))"
  unfolding dispatchNode_def Let_def
  by (auto simp: sql_update_def assms list_ex_iff intro!: acquire_inv[where i = i])

end
