(* ===== verification/NodeRekey.thy ===== *)
theory NodeRekey
  imports NodeInv
begin

text \<open>
  The identity of a row (\<open>rekeyNode\<close>): what its four writes do to the rows, that its primary keys never collide, that
  a retired row never ends up above its heir, and that the lease follows the label without a second one.
\<close>

section \<open>The four writes\<close>

lemma distinct_rekey:
  assumes "distinct (map k xs)" "\<And>x y. x \<in> set xs \<Longrightarrow> y \<in> set xs \<Longrightarrow> k' (g x) = k' (g y) \<Longrightarrow> k x = k y"
  shows "distinct (map k' (map g xs))"
  unfolding list.map_comp distinct_map
proof
  show "distinct xs" using assms(1) by (simp add: distinct_map)
  show "inj_on (k' \<circ> g) (set xs)"
  proof (rule inj_onI)
    fix x y
    assume "x \<in> set xs" "y \<in> set xs" "(k' \<circ> g) x = (k' \<circ> g) y"
    moreover from this have "k x = k y" by (intro assms(2)) simp_all
    ultimately show "x = y" using assms(1) by (simp add: distinct_map inj_on_def)
  qed
qed

lemma acyclic_redirect:
  assumes "acyclic E" "F \<subseteq> {(x, h) \<in> E. x \<noteq> n} \<union> {(x, n) | x. x \<noteq> n}"
  shows "acyclic F"
proof -
  have out: "(n, y) \<notin> F" for y using assms(2) by auto
  have path: "(a, b) \<in> E\<^sup>+ \<or> b = n" if "(a, b) \<in> F\<^sup>+" for a b
    using that
  proof induction
    case (base y)
    then show ?case using assms(2) by auto
  next
    case (step y z)
    then have "(y, z) \<in> E \<or> z = n" "y \<noteq> n" using assms(2) out by auto
    with step.IH show ?case by (auto intro: trancl.trancl_into_trancl)
  qed
  show ?thesis
  proof (rule acyclicI, rule allI, rule notI)
    fix a
    assume a: "(a, a) \<in> F\<^sup>+"
    then obtain y where "(a, y) \<in> F" by (blast dest: tranclD)
    then have "a \<noteq> n" using out by auto
    with path[OF a] assms(1) show False by (simp add: acyclic_def)
  qed
qed

lemma retire_simps [simp]:
  "dw_nodeId (retire h r) = dw_nodeId r" "nd_supersededBy (retire h r) = Some h" "\<not> live (retire h r)"
  "dw_updateState (retire h r) = dw_updateState r" "busy (retire h r) = busy r" "dw_label (retire h r) = dw_label r"
  by (simp_all add: retire_def live_def busy_def)

definition at_label :: "string \<Rightarrow> node_row \<Rightarrow> bool" where "at_label label r \<longleftrightarrow> dw_nodeId r = label \<and> live r"

lemma supersede_label_rowD:
  assumes "supersede_label_row db label nid = (db1, n1)"
  shows "db1 = db\<lparr>nb_nodes := map (\<lambda>r. if at_label label r \<and> node_at db nid \<noteq> None then retire nid r else r) (nb_nodes db)\<rparr>"
    "n1 > 0 \<longleftrightarrow> node_at db nid \<noteq> None \<and> (\<exists>r \<in> set (nb_nodes db). at_label label r)"
  using assms by (auto simp: supersede_label_row_def sql_update_def at_label_def Let_def conj_assoc filter_empty_conv)

lemma move_label_rowD:
  assumes "move_label_row db label nid = (db2, n2)"
  shows "n2 > 0 \<longleftrightarrow> (\<exists>r \<in> set (nb_nodes db). at_label label r)"
    "nb_nodes db2 = map (\<lambda>r. if at_label label r then r\<lparr>dw_nodeId := nid\<rparr> else r) (nb_nodes db)"
    "nb_refusals db2 = (if n2 > 0 then map (\<lambda>f. if rf_nodeId f = label then f\<lparr>rf_nodeId := nid\<rparr> else f) (nb_refusals db)
       else nb_refusals db)"
  using assms by (auto simp: move_label_row_def sql_update_def at_label_def Let_def filter_empty_conv)

lemma revive_rowD:
  assumes "revive_row db nid = (db3, n3)"
  shows "db3 = db\<lparr>nb_nodes := map (\<lambda>r. if dw_nodeId r = nid \<and> \<not> live r then r\<lparr>nd_supersededBy := None\<rparr> else r) (nb_nodes db)\<rparr>"
    "n3 > 0 \<longleftrightarrow> (\<exists>r \<in> set (nb_nodes db). dw_nodeId r = nid \<and> \<not> live r)"
  using assms by (auto simp: revive_row_def sql_update_def live_def Let_def filter_empty_conv)

lemma retire_othersD:
  assumes "retire_others db label nid = (db4, n4)"
  shows "db4 = db\<lparr>nb_nodes := map (\<lambda>r. if dw_label r = label \<and> live r \<and> dw_nodeId r \<noteq> nid \<and> dw_nodeId r \<noteq> label
      then retire nid r else r) (nb_nodes db)\<rparr>"
  using assms by (auto simp: retire_others_def sql_update_def Let_def)

text \<open>The row after the writes when no row was renamed, and the row renamed when one was.\<close>

definition kept_row :: "string \<Rightarrow> string \<Rightarrow> bool \<Rightarrow> node_row \<Rightarrow> node_row" where
  "kept_row label nid heir r =
     (if dw_nodeId r = nid then r\<lparr>nd_supersededBy := None\<rparr>
      else if at_label label r \<and> heir \<or> dw_label r = label \<and> live r \<and> dw_nodeId r \<noteq> label then retire nid r else r)"

definition moved_row :: "string \<Rightarrow> string \<Rightarrow> node_row \<Rightarrow> node_row" where
  "moved_row label nid r =
     (if at_label label r then r\<lparr>dw_nodeId := nid\<rparr>
      else if dw_label r = label \<and> live r \<and> dw_nodeId r \<noteq> label then retire nid r else r)"

lemma retired_None [simp]: "live r \<Longrightarrow> r\<lparr>nd_supersededBy := None\<rparr> = r"
  by (simp add: live_def)

lemma clear_retire [simp]: "(retire h r)\<lparr>nd_supersededBy := None\<rparr> = r\<lparr>nd_supersededBy := None\<rparr>"
  by (simp add: retire_def)

lemma rename_simps [simp]: "live (r\<lparr>dw_nodeId := n\<rparr>) = live r" "busy (r\<lparr>dw_nodeId := n\<rparr>) = busy r"
  "live (r\<lparr>nd_supersededBy := None\<rparr>)" "busy (r\<lparr>nd_supersededBy := s\<rparr>) = busy r"
  by (simp_all add: live_def busy_def)

text \<open>The four writes of a rekey, before the lease follows.\<close>

lemma rekey_writes:
  assumes inv: "node_inv db" and nid: "isNodeId nid" "\<not> isNodeId label"
    and s: "supersede_label_row db label nid = (db1, n1)"
    and m: "(if n1 > 0 then (db1, 0) else move_label_row db1 label nid) = (db2, n2)"
    and v: "revive_row db2 nid = (db3, n3)" and o: "retire_others db3 label nid = (db4, n4)"
  shows "(\<exists>r \<in> set (nb_nodes db). at_label label r) \<and> node_at db nid = None \<Longrightarrow>
      n3 = 0 \<and> nb_nodes db4 = map (moved_row label nid) (nb_nodes db) \<and>
      nb_refusals db4 = map (\<lambda>f. if rf_nodeId f = label then f\<lparr>rf_nodeId := nid\<rparr> else f) (nb_refusals db)"
    and "\<not> ((\<exists>r \<in> set (nb_nodes db). at_label label r) \<and> node_at db nid = None) \<Longrightarrow>
      nb_nodes db4 = map (kept_row label nid (node_at db nid \<noteq> None)) (nb_nodes db) \<and> nb_refusals db4 = nb_refusals db \<and>
      (n3 > 0 \<longleftrightarrow> (\<exists>r \<in> set (nb_nodes db). dw_nodeId r = nid \<and> \<not> live r))"
    and "keys_unique db2"
proof -
  have ne: "nid \<noteq> label" using nid by auto
  note S = supersede_label_rowD[OF s]
  note V = revive_rowD[OF v]
  note O = retire_othersD[OF o]
  have uniq: "keys_unique db" "refusals_keyed db" using inv by (simp_all add: node_inv_def)
  show moved: "n3 = 0 \<and> nb_nodes db4 = map (moved_row label nid) (nb_nodes db) \<and>
      nb_refusals db4 = map (\<lambda>f. if rf_nodeId f = label then f\<lparr>rf_nodeId := nid\<rparr> else f) (nb_refusals db)"
    if c: "(\<exists>r \<in> set (nb_nodes db). at_label label r) \<and> node_at db nid = None"
  proof -
    have db1: "db1 = db" "n1 = 0" using S c by (auto simp: map_idI)
    then have mv: "move_label_row db label nid = (db2, n2)" using m by simp
    note M = move_label_rowD[OF mv]
    have fresh: "dw_nodeId r \<noteq> nid" if "r \<in> set (nb_nodes db)" for r using c that by (auto simp: node_at_None)
    have "live (if at_label label x then x\<lparr>dw_nodeId := nid\<rparr> else x)"
      if "x \<in> set (nb_nodes db)" "dw_nodeId (if at_label label x then x\<lparr>dw_nodeId := nid\<rparr> else x) = nid" for x
      using that fresh by (simp add: at_label_def split: if_splits)
    then have "\<forall>r \<in> set (nb_nodes db2). dw_nodeId r = nid \<longrightarrow> live r" unfolding M(2) list.set_map ball_simps by blast
    then have "n3 = 0" using V(2) by blast
    then have db3: "nb_nodes db3 = nb_nodes db2" "nb_refusals db3 = nb_refusals db2"
      using V by (auto simp: intro!: map_idI)
    let ?g = "\<lambda>r. if at_label label r then r\<lparr>dw_nodeId := nid\<rparr> else r"
    let ?o = "\<lambda>r. if dw_label r = label \<and> live r \<and> dw_nodeId r \<noteq> nid \<and> dw_nodeId r \<noteq> label then retire nid r else r"
    have pw: "?o (?g r) = moved_row label nid r" if "r \<in> set (nb_nodes db)" for r
      using fresh[OF that] by (cases "at_label label r") (simp_all add: moved_row_def)
    have "nb_nodes db4 = map (\<lambda>r. ?o (?g r)) (nb_nodes db)" unfolding O db3 by (simp add: db3 M(2) comp_def)
    also have "\<dots> = map (moved_row label nid) (nb_nodes db)" by (intro map_cong refl pw)
    finally have "nb_nodes db4 = map (moved_row label nid) (nb_nodes db)" .
    moreover have "nb_refusals db4 = nb_refusals db2" by (simp add: O db3)
    ultimately show ?thesis using \<open>n3 = 0\<close> M(1,3) c by simp
  qed
  have still: "nb_nodes db2 = map (\<lambda>r. if at_label label r \<and> node_at db nid \<noteq> None then retire nid r else r) (nb_nodes db)"
      "nb_refusals db2 = nb_refusals db"
    if c: "\<not> ((\<exists>r \<in> set (nb_nodes db). at_label label r) \<and> node_at db nid = None)"
  proof -
    have "db2 = db1 \<or> (nb_nodes db2 = nb_nodes db1 \<and> nb_refusals db2 = nb_refusals db1)"
    proof (cases "n1 > 0")
      case False
      then have none: "\<forall>r \<in> set (nb_nodes db). \<not> at_label label r" using S(2) c by auto
      then have "db1 = db" using S(1) by (simp add: map_idI)
      moreover have "move_label_row db1 label nid = (db2, n2)" using False m by simp
      ultimately show ?thesis using move_label_rowD[of db label nid db2 n2] none by (auto intro: map_idI)
    qed (use m in auto)
    then show "nb_nodes db2 = map (\<lambda>r. if at_label label r \<and> node_at db nid \<noteq> None then retire nid r else r) (nb_nodes db)"
      "nb_refusals db2 = nb_refusals db" using S(1) by auto
  qed
  show "nb_nodes db4 = map (kept_row label nid (node_at db nid \<noteq> None)) (nb_nodes db) \<and> nb_refusals db4 = nb_refusals db \<and>
      (n3 > 0 \<longleftrightarrow> (\<exists>r \<in> set (nb_nodes db). dw_nodeId r = nid \<and> \<not> live r))"
    if c: "\<not> ((\<exists>r \<in> set (nb_nodes db). at_label label r) \<and> node_at db nid = None)"
  proof -
    let ?g = "\<lambda>r. if at_label label r \<and> node_at db nid \<noteq> None then retire nid r else r"
    let ?v = "\<lambda>r :: node_row. if dw_nodeId r = nid \<and> \<not> live r then r\<lparr>nd_supersededBy := None\<rparr> else r"
    let ?o = "\<lambda>r. if dw_label r = label \<and> live r \<and> dw_nodeId r \<noteq> nid \<and> dw_nodeId r \<noteq> label then retire nid r else r"
    have pw: "?o (?v (?g r)) = kept_row label nid (node_at db nid \<noteq> None) r" for r
    proof (cases "dw_nodeId r = nid")
      case True
      then have "\<not> at_label label r" using ne by (simp add: at_label_def)
      with True show ?thesis by (cases "live r") (simp_all add: kept_row_def)
    next
      case False
      then have "?v (?g r) = ?g r" by (intro if_not_P) simp
      moreover have "?o (?g r) = kept_row label nid (node_at db nid \<noteq> None) r"
        using False by (cases "at_label label r"; cases "node_at db nid") (auto simp: kept_row_def at_label_def)
      ultimately show ?thesis by (simp only:)
    qed
    have "nb_nodes db4 = map (\<lambda>r. ?o (?v (?g r))) (nb_nodes db)"
      unfolding O V(1) by (simp add: still[OF c] comp_def)
    moreover have "nb_refusals db4 = nb_refusals db" by (simp add: O V(1) still[OF c])
    moreover have g: "dw_nodeId (?g r) = nid \<and> \<not> live (?g r) \<longleftrightarrow> dw_nodeId r = nid \<and> \<not> live r" for r
      using ne by (simp add: at_label_def)
    have "n3 > 0 \<longleftrightarrow> (\<exists>r \<in> set (nb_nodes db). dw_nodeId r = nid \<and> \<not> live r)"
      unfolding V(2) still(1)[OF c] list.set_map bex_simps g ..
    ultimately show ?thesis unfolding pw by blast
  qed
  show "keys_unique db2"
  proof (cases "(\<exists>r \<in> set (nb_nodes db). at_label label r) \<and> node_at db nid = None")
    case False
    have "map dw_nodeId (nb_nodes db2) = map dw_nodeId (nb_nodes db)" by (simp add: still(1)[OF False])
    then show ?thesis using uniq(1) by (simp add: keys_unique_def still(2)[OF False])
  next
    case True
    then have db1: "db1 = db" "n1 = 0" using S by (auto simp: map_idI)
    then have mv: "move_label_row db label nid = (db2, n2)" using m by simp
    note M = move_label_rowD[OF mv]
    have fresh: "dw_nodeId r \<noteq> nid" if "r \<in> set (nb_nodes db)" for r using True that by (auto simp: node_at_None)
    have freshf: "rf_nodeId f \<noteq> nid" if "f \<in> set (nb_refusals db)" for f
      using uniq(2) that True by (auto simp: refusals_keyed_def node_at_None)
    have "distinct (map dw_nodeId (nb_nodes db2))"
      unfolding M(2) using uniq(1) fresh
      by (intro distinct_rekey[where k = dw_nodeId]) (auto simp: keys_unique_def at_label_def split: if_splits)
    moreover have "distinct (map (\<lambda>f. (rf_nodeId f, rf_tag f)) (map (\<lambda>f. if rf_nodeId f = label then f\<lparr>rf_nodeId := nid\<rparr> else f) (nb_refusals db)))"
      using uniq(1) freshf by (intro distinct_rekey[where k = "\<lambda>f. (rf_nodeId f, rf_tag f)"]) (auto simp: keys_unique_def split: if_splits)
    then have "distinct (map (\<lambda>f. (rf_nodeId f, rf_tag f)) (nb_refusals db2))"
      using uniq(1) by (simp add: M(3) keys_unique_def)
    ultimately show ?thesis by (simp add: keys_unique_def)
  qed
qed

section \<open>The lease follows the label\<close>

text \<open>What an operation on one row leaves: every other row, the identities and the refusals.\<close>

definition only_row :: "string \<Rightarrow> node_db \<Rightarrow> node_db \<Rightarrow> bool" where
  "only_row i db db' \<longleftrightarrow> nb_refusals db' = nb_refusals db \<and>
     (\<exists>g. nb_nodes db' = map g (nb_nodes db) \<and> (\<forall>r. dw_nodeId r \<noteq> i \<longrightarrow> g r = r) \<and>
          (\<forall>r. dw_nodeId (g r) = dw_nodeId r \<and> nd_supersededBy (g r) = nd_supersededBy r \<and> dw_label (g r) = dw_label r))"

lemma only_row_refl [simp]: "only_row i db db"
  unfolding only_row_def by (auto intro: exI[of _ "\<lambda>r. r"])

lemma only_rowI:
  assumes "sql_update p f (nb_nodes db) = (rows, n)" "\<And>r. p r \<Longrightarrow> dw_nodeId r = i"
    "\<And>r. dw_nodeId (f r) = dw_nodeId r" "\<And>r. nd_supersededBy (f r) = nd_supersededBy r" "\<And>r. dw_label (f r) = dw_label r"
  shows "only_row i db (db\<lparr>nb_nodes := rows\<rparr>)"
  unfolding only_row_def using assms(2-)
  by (auto simp: sql_updateD(1)[OF assms(1)] intro!: exI[of _ "\<lambda>r. if p r then f r else r"])

lemma only_row_sel:
  assumes "only_row i db db'"
  shows "map dw_nodeId (nb_nodes db') = map dw_nodeId (nb_nodes db)" "heir_edges db' = heir_edges db"
    "holders db' - {i} = holders db - {i}" "nb_refusals db' = nb_refusals db" "keys_unique db' = keys_unique db"
proof -
  obtain g where g: "nb_nodes db' = map g (nb_nodes db)" "\<And>r. dw_nodeId r \<noteq> i \<Longrightarrow> g r = r"
    "\<And>r. dw_nodeId (g r) = dw_nodeId r" "\<And>r. nd_supersededBy (g r) = nd_supersededBy r"
    using assms by (auto simp: only_row_def)
  show ids: "map dw_nodeId (nb_nodes db') = map dw_nodeId (nb_nodes db)" by (simp add: g(1,3) comp_def)
  show "heir_edges db' = heir_edges db" by (simp only: heir_edges_map[OF g(1)] g(3,4) heir_edges_def[of db])
  show q: "nb_refusals db' = nb_refusals db" using assms by (simp add: only_row_def)
  show "keys_unique db' = keys_unique db" by (simp add: keys_unique_def ids q)
  have "x \<in> holders db' \<longleftrightarrow> x \<in> holders db" if "x \<noteq> i" for x
  proof -
    have "x \<in> holders db' \<longleftrightarrow> (\<exists>r \<in> set (nb_nodes db). dw_nodeId (g r) = x \<and> live (g r) \<and> busy (g r))"
      by (rule holders_map[OF g(1)])
    also have "\<dots> \<longleftrightarrow> (\<exists>r \<in> set (nb_nodes db). dw_nodeId r = x \<and> live r \<and> busy r)"
      by (intro bex_cong refl) (metis g(2,3) that)
    finally show ?thesis by (simp add: holders_rows)
  qed
  then show "holders db' - {i} = holders db - {i}" by blast
qed

lemma only_row_releaseLease: "only_row i db (snd (releaseLease db i to d e))"
  by (auto simp: releaseLease_def Let_def split: prod.split elim!: only_rowI)

lemma only_row_handOffLease: "only_row i db (snd (handOffLease db d i))"
  by (auto simp: handOffLease_def Let_def split: prod.split option.split elim!: only_rowI)

lemma handOffLease_Inl: "handOffLease db d i = (Inl w, db') \<Longrightarrow> db' = db"
  by (auto simp: handOffLease_def Let_def split: prod.splits option.splits if_splits)

lemma only_row_leaseFollows: "only_row i db (leaseFollowsLabel db label i donor)"
proof -
  have "only_row i db db1" if "handOffLease db d i = (x, db1)" for d x db1
    using only_row_handOffLease[of i db d] that by simp
  then show ?thesis
    by (auto simp: leaseFollowsLabel_def only_row_releaseLease split: option.split sum.split prod.split)
qed

lemma release_frees:
  assumes "keys_unique db" "node_at db i = Some r" "isSettled to"
  shows "i \<notin> holders (snd (releaseLease db i to d (dw_updateStartedAt r)))"
proof
  let ?p = "\<lambda>s. dw_nodeId s = i \<and> live s \<and> busy s \<and> lease_is (dw_updateStartedAt r) s"
  let ?f = "\<lambda>s :: node_row. s\<lparr>dw_updateState := to, dw_updateDetail := Some d\<rparr>"
  obtain rows n where u: "sql_update ?p ?f (nb_nodes db) = (rows, n)" by fastforce
  have db': "nb_nodes (snd (releaseLease db i to d (dw_updateStartedAt r))) = rows"
    unfolding releaseLease_def u using sql_updateD(3)[OF u] by (simp add: Let_def)
  assume "i \<in> holders (snd (releaseLease db i to d (dw_updateStartedAt r)))"
  from this[unfolded holders_map[OF db'[unfolded sql_updateD(1)[OF u]]]]
  obtain s where s: "s \<in> set (nb_nodes db)" "dw_nodeId (if ?p s then ?f s else s) = i"
    "live (if ?p s then ?f s else s)" "busy (if ?p s then ?f s else s)" by blast
  have i: "dw_nodeId s = i" using s(2) by (cases "?p s") simp_all
  then have "s = r" using node_at_unique[OF assms(1) s(1)] assms(2) by simp
  then have lease: "lease_is (dw_updateStartedAt r) s" by (simp add: lease_is_def)
  show False
  proof (cases "?p s")
    case True
    with s(4) assms(3) show False by (simp add: busy_def)
  next
    case False
    then have "(if ?p s then ?f s else s) = s" by (rule if_not_P)
    with s(3,4) have "live s" "busy s" by simp_all
    with False i lease show False by simp
  qed
qed

lemma leaseFollows_frees:
  assumes "keys_unique db" "node_at db i \<noteq> None" "other_holder db label \<noteq> None"
  shows "i \<notin> holders (leaseFollowsLabel db label i None)"
  using assms release_frees[OF assms(1)] by (auto simp: leaseFollowsLabel_def)

section \<open>A rekey keeps the invariant\<close>

lemma kept_row_simps [simp]:
  "dw_nodeId (kept_row label nid h r) = dw_nodeId r" "busy (kept_row label nid h r) = busy r"
  "dw_label (kept_row label nid h r) = dw_label r"
  by (simp_all add: kept_row_def)

lemma live_kept_row:
  "live (kept_row label nid h r) \<longleftrightarrow> dw_nodeId r = nid \<or>
     live r \<and> \<not> (at_label label r \<and> h) \<and> \<not> (dw_label r = label \<and> dw_nodeId r \<noteq> label)"
  by (cases "dw_nodeId r = nid") (auto simp: kept_row_def)

lemma moved_row_simps [simp]:
  "busy (moved_row label nid r) = busy r" "dw_label (moved_row label nid r) = dw_label r"
  by (simp_all add: moved_row_def)

lemma lease_donor_cases:
  "lease_donor db label i = None \<longleftrightarrow> (\<forall>r \<in> set (nb_nodes db). \<not> (dw_label r = label \<and> live r \<and> dw_nodeId r \<noteq> i \<and> busy r))"
proof -
  let ?l = "filter (\<lambda>r. dw_label r = label \<and> live r \<and> dw_nodeId r \<noteq> i \<and> busy r) (nb_nodes db)"
  have "lease_donor db label i = None \<longleftrightarrow> sort_key (\<lambda>r. recency_key (dw_updateStartedAt r) (dw_nodeId r)) ?l = []"
    by (auto simp: lease_donor_def split: list.split)
  also have "\<dots> \<longleftrightarrow> ?l = []" by (simp add: set_sort flip: set_empty)
  finally show ?thesis by (auto simp: filter_empty_conv)
qed

text \<open>The rows after the writes hold one lease, the revived one aside.\<close>

lemma revived_other_label:
  assumes "one_lease db \<and> keys_unique db" "nb_nodes db4 = map (kept_row label nid True) (nb_nodes db)" "x \<in> holders db4" "x \<noteq> nid"
    "node_at db nid = Some heir"
  shows "lease_donor db label nid = None" "other_holder db4 label \<noteq> None" "holders db4 \<subseteq> {x, nid}"
proof -
  obtain r where r: "r \<in> set (nb_nodes db)" "dw_nodeId r = x" "live (kept_row label nid True r)" "busy r"
    using assms(3)[unfolded holders_map[OF assms(2)] kept_row_simps] by blast
  then have lr: "live r" and keep: "\<not> at_label label r" "\<not> (dw_label r = label \<and> dw_nodeId r \<noteq> label)"
    using assms(4) by (auto simp: live_kept_row)
  have lab: "dw_label r \<noteq> label" using keep lr by (auto simp: at_label_def)
  have x: "x \<in> holders db" using r lr by (auto simp: holders_rows)
  show "lease_donor db label nid = None"
  proof (unfold lease_donor_cases, intro ballI notI)
    fix s
    assume s: "s \<in> set (nb_nodes db)" "dw_label s = label \<and> live s \<and> dw_nodeId s \<noteq> nid \<and> busy s"
    then have "dw_nodeId s \<in> holders db" by (auto simp: holders_rows)
    then have "dw_nodeId s = x" using x assms(1) by (auto simp: one_lease_def)
    then have "s = r" using node_at_unique[of db s] node_at_unique[of db r] s(1) r(1,2) assms(1) by simp
    with s(2) lab show False by simp
  qed
  show "other_holder db4 label \<noteq> None"
    using r lab by (auto simp: other_holder_def find_None_iff assms(2))
  show "holders db4 \<subseteq> {x, nid}"
  proof
    fix y
    assume "y \<in> holders db4"
    then obtain s where s: "s \<in> set (nb_nodes db)" "dw_nodeId s = y" "live (kept_row label nid True s)" "busy s"
      unfolding holders_map[OF assms(2)] by auto
    show "y \<in> {x, nid}"
    proof (cases "y = nid")
      case False
      then have "live s" using s by (auto simp: live_kept_row)
      then have "y \<in> holders db" using s by (auto simp: holders_rows)
      then show ?thesis using x assms(1) by (auto simp: one_lease_def)
    qed simp
  qed
qed

lemma one_lease_subset: "one_lease db \<Longrightarrow> holders db' \<subseteq> holders db \<Longrightarrow> one_lease db'"
  unfolding one_lease_def by blast

lemma one_lease_single: "holders db \<subseteq> {x} \<Longrightarrow> one_lease db"
  unfolding one_lease_def by blast

lemma heir_edges_kept:
  assumes "nb_nodes db4 = map (kept_row label nid h) (nb_nodes db)"
  shows "heir_edges db4 \<subseteq> {(x, y) \<in> heir_edges db. x \<noteq> nid} \<union> {(x, nid) | x. x \<noteq> nid}"
  unfolding heir_edges_map[OF assms] by (auto simp: kept_row_def heir_edges_def split: if_splits)

lemma heir_edges_moved:
  assumes "nb_nodes db4 = map (moved_row label nid) (nb_nodes db)" "node_at db nid = None"
  shows "heir_edges db4 \<subseteq> {(x, y) \<in> heir_edges db. x \<noteq> nid} \<union> {(x, nid) | x. x \<noteq> nid}"
  using assms(2) unfolding heir_edges_map[OF assms(1)]
  by (auto simp: moved_row_def heir_edges_def at_label_def live_def node_at_None split: if_splits)

lemma moved_inv:
  assumes inv: "node_inv db" and "nb_nodes db4 = map (moved_row label nid) (nb_nodes db)" "node_at db nid = None"
    and q: "nb_refusals db4 = map (\<lambda>f. if rf_nodeId f = label then f\<lparr>rf_nodeId := nid\<rparr> else f) (nb_refusals db)"
    and keys: "keys_unique db4" and label: "\<exists>r \<in> set (nb_nodes db). at_label label r" and nid: "isNodeId nid"
  shows "node_inv db4"
proof -
  note e = heir_edges_moved[OF assms(2,3)]
  have i: "keys_unique db" "one_lease db" "refusals_keyed db" "heirs_keyed db" "acyclic (heir_edges db)"
    using inv by (simp_all add: node_inv_def)
  have "one_lease db4"
  proof (unfold one_lease_def, intro ballI)
    fix x y
    assume "x \<in> holders db4" "y \<in> holders db4"
    from this[unfolded holders_map[OF assms(2)] moved_row_simps] obtain r s where
      rs: "r \<in> set (nb_nodes db)" "dw_nodeId (moved_row label nid r) = x" "live (moved_row label nid r)" "busy r"
      "s \<in> set (nb_nodes db)" "dw_nodeId (moved_row label nid s) = y" "live (moved_row label nid s)" "busy s" by blast
    then have "live r" "live s" by (auto simp: moved_row_def split: if_splits)
    with rs have "dw_nodeId r \<in> holders db" "dw_nodeId s \<in> holders db" by (auto simp: holders_rows)
    then have "dw_nodeId r = dw_nodeId s" using i(2) by (simp add: one_lease_def)
    then have "r = s" using i(1) rs(1,5) by (auto simp: keys_unique_def distinct_map inj_on_def)
    with rs(2,6) show "x = y" by simp
  qed
  moreover have "refusals_keyed db4"
  proof (unfold refusals_keyed_def, rule subsetI)
    fix x
    assume "x \<in> rf_nodeId ` set (nb_refusals db4)"
    then obtain f where f: "f \<in> set (nb_refusals db)" "x = (if rf_nodeId f = label then nid else rf_nodeId f)" by (auto simp: q)
    have "\<exists>r \<in> set (nb_nodes db). x = dw_nodeId (moved_row label nid r)"
    proof (cases "rf_nodeId f = label")
      case True
      then show ?thesis using label f by (auto simp: moved_row_def)
    next
      case False
      then obtain r where "r \<in> set (nb_nodes db)" "dw_nodeId r = x" using f i(3) by (auto simp: refusals_keyed_def)
      with False f show ?thesis by (auto simp: moved_row_def at_label_def intro!: bexI[of _ r])
    qed
    then show "x \<in> dw_nodeId ` set (nb_nodes db4)" by (auto simp: assms(2))
  qed
  moreover have "heirs_keyed db4" using i(4) nid e by (force simp: heirs_keyed_def)
  ultimately show ?thesis using keys acyclic_redirect[OF i(5) e] by (simp add: node_inv_def)
qed

lemma kept_but_lease:
  assumes inv: "node_inv db" and "nb_nodes db4 = map (kept_row label nid h) (nb_nodes db)" "nb_refusals db4 = nb_refusals db"
    and nid: "isNodeId nid"
  shows "keys_unique db4 \<and> refusals_keyed db4 \<and> heirs_keyed db4 \<and> acyclic (heir_edges db4)"
proof -
  note e = heir_edges_kept[OF assms(2)]
  have i: "keys_unique db" "refusals_keyed db" "heirs_keyed db" "acyclic (heir_edges db)"
    using inv by (simp_all add: node_inv_def)
  have ids: "map dw_nodeId (nb_nodes db4) = map dw_nodeId (nb_nodes db)" by (simp add: assms(2) comp_def)
  then have "dw_nodeId ` set (nb_nodes db4) = dw_nodeId ` set (nb_nodes db)" by (metis list.set_map)
  then have "keys_unique db4" "refusals_keyed db4" using i(1,2) ids by (simp_all add: keys_unique_def refusals_keyed_def assms(3))
  moreover have "heirs_keyed db4" using i(3) nid e by (force simp: heirs_keyed_def)
  ultimately show ?thesis using acyclic_redirect[OF i(4) e] by simp
qed

lemma only_row_inv:
  assumes "keys_unique db \<and> refusals_keyed db \<and> heirs_keyed db \<and> acyclic (heir_edges db)" "only_row i db db'" "one_lease db'"
  shows "node_inv db'"
proof -
  note o = only_row_sel[OF assms(2)]
  have "dw_nodeId ` set (nb_nodes db') = dw_nodeId ` set (nb_nodes db)" using o(1) by (metis list.set_map)
  then show ?thesis using assms(1,3) by (simp add: node_inv_def o refusals_keyed_def heirs_keyed_def)
qed

lemma rekeyNode_inv:
  assumes inv: "node_inv db" and label: "\<not> isNodeId label"
  shows "node_inv (snd (rekeyNode db label nid))" "fst (rekeyNode db label nid) \<noteq> Inl UniqueViolation"
proof -
  obtain db1 n1 where s: "supersede_label_row db label nid = (db1, n1)" by fastforce
  obtain db2 n2 where m: "(if n1 > 0 then (db1, 0) else move_label_row db1 label nid) = (db2, n2)" by fastforce
  obtain db3 n3 where v: "revive_row db2 nid = (db3, n3)" by fastforce
  obtain db4 n4 where o: "retire_others db3 label nid = (db4, n4)" by fastforce
  let ?donor = "case node_at db nid of None \<Rightarrow> None
     | Some heir \<Rightarrow> if nd_supersededBy heir = None then None else lease_donor db label nid"
  let ?moved = "(\<exists>r \<in> set (nb_nodes db). at_label label r) \<and> node_at db nid = None"
  have w: "isNodeId nid \<Longrightarrow> keys_unique db2" using rekey_writes(3)[OF inv _ label s m v o] by simp
  have res: "isNodeId nid \<Longrightarrow> rekeyNode db label nid =
      (Inr \<lparr>ra_how = (if n1 > 0 then SupersededRow else if n2 > 0 then Rekeyed else NoLabelRow), ra_retired = n4, ra_revived = (n3 > 0)\<rparr>,
       if n3 > 0 then leaseFollowsLabel db4 label nid ?donor else db4)"
    unfolding rekeyNode_def s using w by (simp add: Let_def m v o)
  show "fst (rekeyNode db label nid) \<noteq> Inl UniqueViolation"
    using res by (cases "isNodeId nid") (simp_all add: rekeyNode_def)
  have i: "keys_unique db" "one_lease db" using inv by (simp_all add: node_inv_def)
  show "node_inv (snd (rekeyNode db label nid))"
  proof (cases "isNodeId nid")
    case False
    then show ?thesis using inv by (simp add: rekeyNode_def)
  next
    case True
    note R = rekey_writes(1,2)[OF inv True label s m v o]
    show ?thesis
    proof (cases ?moved)
      case moved: True
      have "map dw_nodeId (nb_nodes db3) = map dw_nodeId (nb_nodes db2)" "map dw_nodeId (nb_nodes db4) = map dw_nodeId (nb_nodes db3)"
        unfolding retire_othersD[OF o] revive_rowD(1)[OF v] by simp_all
      moreover have "nb_refusals db4 = nb_refusals db2" by (simp add: retire_othersD[OF o] revive_rowD(1)[OF v])
      ultimately have "keys_unique db4 = keys_unique db2" by (simp add: keys_unique_def)
      then have "node_inv db4" using moved_inv[OF inv _ _ _ _ _ True, of db4 label] R(1)[OF moved] moved w[OF True] by simp
      then show ?thesis using R(1)[OF moved] by (simp add: res[OF True])
    next
      case kept: False
      note K = R(2)[OF kept]
      have nodes4: "nb_nodes db4 = map (kept_row label nid (node_at db nid \<noteq> None)) (nb_nodes db)" using K by blast
      have rest: "keys_unique db4 \<and> refusals_keyed db4 \<and> heirs_keyed db4 \<and> acyclic (heir_edges db4)"
        using kept_but_lease[OF inv nodes4 _ True] K by blast
      show ?thesis
      proof (cases "n3 > 0")
        case False
        then have here: "live r" if "r \<in> set (nb_nodes db)" "dw_nodeId r = nid" for r using K that by auto
        have "holders db4 \<subseteq> holders db"
        proof
          fix x
          assume "x \<in> holders db4"
          from this[unfolded holders_map[OF nodes4] kept_row_simps live_kept_row] here show "x \<in> holders db"
            unfolding holders_rows by blast
        qed
        then show ?thesis using False rest one_lease_subset[OF i(2)] by (simp add: res[OF True] node_inv_def)
      next
        case revived: True
        then obtain heir where heir: "heir \<in> set (nb_nodes db)" "dw_nodeId heir = nid" "\<not> live heir" using K by auto
        then have at: "node_at db nid = Some heir" using node_at_unique[OF i(1)] by auto
        have donor: "?donor = lease_donor db label nid" using heir(3) by (auto simp: at live_def)
        have at4: "node_at db4 nid \<noteq> None" unfolding node_at_None nodes4 using heir(1,2) by (auto simp: image_image)
        let ?db5 = "leaseFollowsLabel db4 label nid (lease_donor db label nid)"
        note only = only_row_leaseFollows[of nid db4 label "lease_donor db label nid"]
        have "one_lease ?db5"
        proof (cases "\<exists>x. x \<in> holders db4 \<and> x \<noteq> nid")
          case False
          then have "holders ?db5 \<subseteq> {nid}" using only_row_sel(3)[OF only] by blast
          then show ?thesis by (rule one_lease_single)
        next
          case True
          then obtain x where x: "x \<in> holders db4" "x \<noteq> nid" by blast
          have n4: "nb_nodes db4 = map (kept_row label nid True) (nb_nodes db)" using nodes4 at by simp
          note r = revived_other_label[OF conjI[OF i(2,1)] n4 x at]
          have "nid \<notin> holders ?db5" using leaseFollows_frees[OF _ at4 r(2)] rest r(1) by simp
          then have "holders ?db5 \<subseteq> {x}" using only_row_sel(3)[OF only] r(3) by blast
          then show ?thesis by (rule one_lease_single)
        qed
        from only_row_inv[OF rest only this] show ?thesis using revived by (simp add: res[OF True] donor)
      qed
    qed
  qed
qed

section \<open>What a rekey leaves\<close>

lemma rekeyNode_shape:
  assumes inv: "node_inv db" and label: "\<not> isNodeId label" and nid: "isNodeId nid"
  obtains a db' db4 where "rekeyNode db label nid = (Inr a, db')" "only_row nid db4 db'"
    "db' = db4 \<or> (\<exists>donor. db' = leaseFollowsLabel db4 label nid donor)"
    "((\<exists>r \<in> set (nb_nodes db). at_label label r) \<and> node_at db nid = None \<and> db' = db4 \<and>
        nb_nodes db4 = map (moved_row label nid) (nb_nodes db) \<and>
        nb_refusals db4 = map (\<lambda>f. if rf_nodeId f = label then f\<lparr>rf_nodeId := nid\<rparr> else f) (nb_refusals db)) \<or>
     (\<not> ((\<exists>r \<in> set (nb_nodes db). at_label label r) \<and> node_at db nid = None) \<and>
        nb_nodes db4 = map (kept_row label nid (node_at db nid \<noteq> None)) (nb_nodes db) \<and> nb_refusals db4 = nb_refusals db)"
proof -
  obtain db1 n1 where s: "supersede_label_row db label nid = (db1, n1)" by fastforce
  obtain db2 n2 where m: "(if n1 > 0 then (db1, 0) else move_label_row db1 label nid) = (db2, n2)" by fastforce
  obtain db3 n3 where v: "revive_row db2 nid = (db3, n3)" by fastforce
  obtain db4 n4 where o: "retire_others db3 label nid = (db4, n4)" by fastforce
  let ?donor = "case node_at db nid of None \<Rightarrow> None
     | Some heir \<Rightarrow> if nd_supersededBy heir = None then None else lease_donor db label nid"
  note R = rekey_writes(1,2)[OF inv nid label s m v o]
  let ?db' = "if n3 > 0 then leaseFollowsLabel db4 label nid ?donor else db4"
  have res: "\<exists>a. rekeyNode db label nid = (Inr a, ?db')"
    unfolding rekeyNode_def s using rekey_writes(3)[OF inv nid label s m v o] nid by (simp add: Let_def m v o)
  have only: "only_row nid db4 ?db'" using only_row_leaseFollows by simp
  obtain a where a: "rekeyNode db label nid = (Inr a, ?db')" using res by blast
  let ?moved = "(\<exists>r \<in> set (nb_nodes db). at_label label r) \<and> node_at db nid = None"
  have "(?moved \<and> ?db' = db4 \<and> nb_nodes db4 = map (moved_row label nid) (nb_nodes db) \<and>
        nb_refusals db4 = map (\<lambda>f. if rf_nodeId f = label then f\<lparr>rf_nodeId := nid\<rparr> else f) (nb_refusals db)) \<or>
     (\<not> ?moved \<and> nb_nodes db4 = map (kept_row label nid (node_at db nid \<noteq> None)) (nb_nodes db) \<and> nb_refusals db4 = nb_refusals db)"
  proof (cases ?moved)
    case True
    note r = R(1)[OF this]
    then have "?db' = db4" by simp
    with r True show ?thesis by blast
  next
    case False
    with R(2)[OF this] show ?thesis by blast
  qed
  then show thesis using a only by (intro that[of a ?db' db4]) auto
qed

text \<open>Every live row of the connection is the identity measured now.\<close>

lemma rekey_single:
  assumes "node_inv db" "\<not> isNodeId label" "isNodeId nid" "r \<in> set (nb_nodes (snd (rekeyNode db label nid)))" "live r"
    "dw_label r = label \<or> dw_nodeId r = label"
  shows "dw_nodeId r = nid"
proof -
  obtain a db' db4 where sh: "rekeyNode db label nid = (Inr a, db')" "only_row nid db4 db'"
    "db' = db4 \<or> (\<exists>donor. db' = leaseFollowsLabel db4 label nid donor)"
    "((\<exists>r \<in> set (nb_nodes db). at_label label r) \<and> node_at db nid = None \<and> db' = db4 \<and>
        nb_nodes db4 = map (moved_row label nid) (nb_nodes db) \<and>
        nb_refusals db4 = map (\<lambda>f. if rf_nodeId f = label then f\<lparr>rf_nodeId := nid\<rparr> else f) (nb_refusals db)) \<or>
     (\<not> ((\<exists>r \<in> set (nb_nodes db). at_label label r) \<and> node_at db nid = None) \<and>
        nb_nodes db4 = map (kept_row label nid (node_at db nid \<noteq> None)) (nb_nodes db) \<and> nb_refusals db4 = nb_refusals db)"
    by (rule rekeyNode_shape[OF assms(1-3)])
  obtain g where g: "nb_nodes db' = map g (nb_nodes db4)" "\<And>r. dw_nodeId (g r) = dw_nodeId r"
    "\<And>r. nd_supersededBy (g r) = nd_supersededBy r" "\<And>r. dw_label (g r) = dw_label r"
    using sh(2) by (auto simp: only_row_def)
  obtain s where s: "s \<in> set (nb_nodes db4)" "r = g s" using assms(4) sh(1) g(1) by auto
  then have s': "live s" "dw_label s = label \<or> dw_nodeId s = label" "dw_nodeId r = dw_nodeId s"
    using assms(5,6) g by (simp_all add: live_def)
  show ?thesis
    using sh(4)
  proof (elim disjE conjE)
    assume "nb_nodes db4 = map (moved_row label nid) (nb_nodes db)"
    then obtain t where t: "s = moved_row label nid t" using s(1) by auto
    show ?thesis
      using s' unfolding t by (cases "at_label label t") (auto simp: moved_row_def at_label_def split: if_splits)
  next
    assume n: "\<not> ((\<exists>r \<in> set (nb_nodes db). at_label label r) \<and> node_at db nid = None)"
      and "nb_nodes db4 = map (kept_row label nid (node_at db nid \<noteq> None)) (nb_nodes db)"
    then obtain t where t: "t \<in> set (nb_nodes db)" "s = kept_row label nid (node_at db nid \<noteq> None) t" using s(1) by auto
    with s' n show ?thesis by (auto simp: live_kept_row at_label_def)
  qed
qed

end
