(* ===== verification/NodeSafety.thy ===== *)
theory NodeSafety
  imports NodeRekey
begin

text \<open>
  The nodes table as a state machine: one step is one method of the store, in any order and with any arguments its
  callers can give it. What holds on every table reached from the empty one of the migration.
\<close>

section \<open>Steps\<close>

definition empty_nodes :: node_db where "empty_nodes = \<lparr>nb_nodes = [], nb_refusals = []\<rparr>"

definition connection_label :: "string \<Rightarrow> bool" where
  "connection_label l \<longleftrightarrow> l = SERVER_LABEL \<or> l = FLEET_LABEL"

inductive node_step :: "node_db \<Rightarrow> node_db \<Rightarrow> bool" where
  measured: "node_step db (snd (upsertNodeMeasurement db m))"
| unreached: "node_step db (snd (markUnreachable db label role at))"
| rekeyed: "connection_label label \<Longrightarrow> node_step db (snd (rekeyNode db label nid))"
| released: "isSettled to \<Longrightarrow> node_step db (snd (releaseLease db i to detail e))"
| settled: "node_step db (snd (settleNode db i detail e))"
| resolved: "node_step db (snd (resolveNode db i channel tag detail))"
| acked: "node_step db (snd (ackNode db i))"
| requested: "node_step db (snd (requestNode db i tag kind at))"
| dispatched: "node_step db (snd (dispatchNode db i tag kind at detail))"
| refusal_noted: "node_step db (snd (noteDispatchRefusal db i detail))"
| lease_noted: "node_step db (snd (noteLeaseDetail db i detail at))"
| verdict: "node_step db (snd (refuseRelease db i tag at detail))"
| cleared: "node_step db (snd (clearRefusals db i))"

inductive node_reach :: "node_db \<Rightarrow> bool" where
  start: "node_reach empty_nodes"
| step: "node_reach db \<Longrightarrow> node_step db db' \<Longrightarrow> node_reach db'"

lemma label_not_id: "connection_label l \<Longrightarrow> \<not> isNodeId l"
  by (auto simp: connection_label_def SERVER_LABEL_def FLEET_LABEL_def isNodeId_def)

lemma empty_inv: "node_inv empty_nodes"
  by (simp add: empty_nodes_def node_inv_def keys_unique_def one_lease_def holders_def refusals_keyed_def heirs_keyed_def
      heir_edges_def acyclic_def)

lemmas quiet_ops = quiet_releaseLease quiet_settleNode quiet_resolveNode quiet_ackNode quiet_requestNode
  quiet_noteDispatchRefusal quiet_noteLeaseDetail quiet_clearRefusals

lemma step_inv: "node_step db db' \<Longrightarrow> node_inv db \<Longrightarrow> node_inv db'"
proof (induction rule: node_step.induct)
  case (rekeyed label db nid)
  then show ?case using rekeyNode_inv(1) label_not_id by blast
qed (simp_all add: upsert_inv markUnreachable_inv dispatchNode_inv refuseRelease_inv quiet_inv[OF _ quiet_releaseLease]
    quiet_inv[OF _ quiet_settleNode] quiet_inv[OF _ quiet_resolveNode] quiet_inv[OF _ quiet_ackNode] quiet_inv[OF _ quiet_requestNode]
    quiet_inv[OF _ quiet_noteDispatchRefusal] quiet_inv[OF _ quiet_noteLeaseDetail] quiet_inv[OF _ quiet_clearRefusals])

lemma node_reach_inv: "node_reach db \<Longrightarrow> node_inv db"
  by (induction rule: node_reach.induct) (auto intro: empty_inv step_inv)

section \<open>The acquire\<close>

lemma filter_key_single:
  "distinct (map k xs) \<Longrightarrow> x \<in> set xs \<Longrightarrow> k x = i \<Longrightarrow> filter (\<lambda>y. k y = i) xs = [x]"
proof (induction xs)
  case (Cons y ys)
  show ?case
  proof (cases "x = y")
    case True
    with Cons.prems have "filter (\<lambda>y. k y = i) ys = []" by (auto simp: filter_empty_conv image_iff)
    with True Cons.prems show ?thesis by simp
  next
    case False
    with Cons.prems have "x \<in> set ys" "k y \<noteq> i" by (auto simp: image_iff)
    with Cons show ?thesis by simp
  qed
qed simp

lemma map_filter_update:
  assumes "\<And>s. s \<in> set xs \<Longrightarrow> P (if Q s then f s else s) = Q s"
  shows "map (\<lambda>s. if Q s then f s else s) (filter (\<lambda>s. P (if Q s then f s else s)) xs) = map f (filter Q xs)"
  using assms by (induction xs) auto

lemma dispatchNode_acquires:
  assumes "keys_unique db" "dispatchNode db i t k at d = (Inr u, db')"
  obtains r where "node_at db i = Some r" "live r" "\<not> busy r" "\<forall>b \<in> set (nb_nodes db). \<not> (live b \<and> busy b)"
    "good_clock at" "isReleaseTag t" "k \<noteq> None"
    "k = Some RollbackKind \<longrightarrow> dw_requestedKind r = Some RollbackKind \<and> dw_requestedTag r = Some t"
    "nb_refusals db' = nb_refusals db"
    "nb_nodes db' = map (\<lambda>s. if dw_nodeId s = i then s\<lparr>dw_updateState := UPending, dw_updateTarget := Some t,
       dw_updateStartedAt := Some at, dw_updateDetail := Some d\<rparr> else s) (nb_nodes db)"
proof -
  let ?p = "\<lambda>r. dw_nodeId r = i \<and> live r \<and> isSettled (dw_updateState r) \<and> \<not> list_ex (\<lambda>b. live b \<and> busy b) (nb_nodes db) \<and>
     (k \<noteq> Some RollbackKind \<or> dw_requestedKind r = Some RollbackKind \<and> dw_requestedTag r = Some t)"
  let ?f = "\<lambda>r :: node_row. r\<lparr>dw_updateState := UPending, dw_updateTarget := Some t, dw_updateStartedAt := Some at,
     dw_updateDetail := Some d\<rparr>"
  obtain rows n where u: "sql_update ?p ?f (nb_nodes db) = (rows, n)" by fastforce
  have g: "good_clock at" "isReleaseTag t" "k \<noteq> None" "n > 0" "db' = db\<lparr>nb_nodes := rows\<rparr>"
    using assms(2) unfolding dispatchNode_def u by (auto simp: Let_def split: if_splits)
  then obtain r where r: "r \<in> set (nb_nodes db)" "?p r" using sql_update_pos[of ?p ?f "nb_nodes db"] u by auto
  have at: "node_at db i = Some r" using node_at_unique[OF assms(1) r(1)] r(2) by simp
  have same: "?p s \<longleftrightarrow> dw_nodeId s = i" if "s \<in> set (nb_nodes db)" for s
  proof (cases "s = r")
    case True
    then show ?thesis using r(2) by simp
  next
    case False
    then show ?thesis using node_at_same[OF assms(1) at that] by simp
  qed
  have "rows = map (\<lambda>s. if dw_nodeId s = i then ?f s else s) (nb_nodes db)"
    unfolding sql_updateD(1)[OF u] by (intro map_cong refl if_cong same)
  moreover have "\<forall>b \<in> set (nb_nodes db). \<not> (live b \<and> busy b)" using r(2) by (simp add: list_ex_iff)
  moreover have "k = Some RollbackKind \<longrightarrow> dw_requestedKind r = Some RollbackKind \<and> dw_requestedTag r = Some t" using r(2) by blast
  moreover have "live r" "\<not> busy r" using r(2) by (simp_all add: busy_def)
  ultimately show thesis using at g by (intro that) simp_all
qed

text \<open>After an acquire the one busy live row of the table is the row acquired.\<close>

lemma acquired_lease:
  assumes "node_inv db" "dispatchNode db i t (Some k) at d = (Inr (), db')"
  shows "\<exists>r. node_at db i = Some r \<and> live r \<and> isSettled (dw_updateState r) \<and>
     (k = RollbackKind \<longrightarrow> dw_requestedKind r = Some RollbackKind \<and> dw_requestedTag r = Some t) \<and>
     filter (\<lambda>s. live s \<and> busy s) (nb_nodes db') =
       [r\<lparr>dw_updateState := UPending, dw_updateTarget := Some t, dw_updateStartedAt := Some at, dw_updateDetail := Some d\<rparr>] \<and>
     dw_nodeId r = i \<and> (\<forall>s \<in> set (nb_nodes db). \<not> (live s \<and> busy s))"
proof -
  have inv: "keys_unique db" using assms(1) by (simp add: node_inv_def)
  let ?f = "\<lambda>s :: node_row. s\<lparr>dw_updateState := UPending, dw_updateTarget := Some t, dw_updateStartedAt := Some at,
     dw_updateDetail := Some d\<rparr>"
  obtain r where r: "node_at db i = Some r" "live r" "\<not> busy r" "\<forall>b \<in> set (nb_nodes db). \<not> (live b \<and> busy b)"
    "good_clock at" "isReleaseTag t" "Some k \<noteq> None"
    "Some k = Some RollbackKind \<longrightarrow> dw_requestedKind r = Some RollbackKind \<and> dw_requestedTag r = Some t"
    "nb_refusals db' = nb_refusals db" "nb_nodes db' = map (\<lambda>s. if dw_nodeId s = i then ?f s else s) (nb_nodes db)"
    by (rule dispatchNode_acquires[OF inv assms(2)])
  have in_db: "r \<in> set (nb_nodes db)" "dw_nodeId r = i" using node_at_in[OF r(1)] by auto
  have "filter (\<lambda>s. live s \<and> busy s) (nb_nodes db') = map ?f (filter (\<lambda>s. dw_nodeId s = i) (nb_nodes db))"
    unfolding r(10) filter_map comp_def
  proof (rule map_filter_update)
    show "(live (if dw_nodeId s = i then ?f s else s) \<and> busy (if dw_nodeId s = i then ?f s else s)) = (dw_nodeId s = i)"
      if "s \<in> set (nb_nodes db)" for s
    proof (cases "dw_nodeId s = i")
      case True
      then have "s = r" using node_at_same[OF inv r(1) that] by simp
      with True r(2) show ?thesis by (simp add: busy_def live_def)
    next
      case False
      then show ?thesis using r(4) that by auto
    qed
  qed
  also have "filter (\<lambda>s. dw_nodeId s = i) (nb_nodes db) = [r]"
    using inv in_db by (auto simp: keys_unique_def intro: filter_key_single)
  finally have "filter (\<lambda>s. live s \<and> busy s) (nb_nodes db') = [?f r]" by simp
  then show ?thesis using r(1,2,3,4,8) in_db(2) by (intro exI[of _ r]) (simp add: busy_def)
qed

text \<open>C4: one node moves at a time. On every table the store can reach at most one live row
  holds a lease, whatever was measured, rekeyed, requested, released or dispatched before. An acquire that succeeds
  found no lease anywhere, and leaves the fleet exactly the lease it took: the one busy live row is the
  row it named, pending, with the target, the clock and the words it was given; a rollback is
  acquired only on that very request.\<close>

theorem one_lease_fleet_wide:
  assumes "node_reach db"
  shows "(\<forall>r \<in> set (nb_nodes db). \<forall>s \<in> set (nb_nodes db). live r \<and> busy r \<and> live s \<and> busy s \<longrightarrow> r = s) \<and>
    (\<forall>db'. dispatchNode db i t (Some k) at d = (Inr (), db') \<longrightarrow>
       (\<forall>r \<in> set (nb_nodes db). \<not> (live r \<and> busy r)) \<and>
       (\<exists>r. node_at db i = Some r \<and> live r \<and> isSettled (dw_updateState r) \<and>
          (k = RollbackKind \<longrightarrow> dw_requestedKind r = Some RollbackKind \<and> dw_requestedTag r = Some t) \<and>
          filter (\<lambda>s. live s \<and> busy s) (nb_nodes db') =
            [r\<lparr>dw_updateState := UPending, dw_updateTarget := Some t, dw_updateStartedAt := Some at, dw_updateDetail := Some d\<rparr>]))"
proof (intro conjI ballI allI impI)
  note inv = node_reach_inv[OF assms]
  {
    fix r s
    assume r: "r \<in> set (nb_nodes db)" "s \<in> set (nb_nodes db)" "live r \<and> busy r \<and> live s \<and> busy s"
    then have "dw_nodeId r \<in> holders db" "dw_nodeId s \<in> holders db" unfolding holders_rows by blast+
    then have "dw_nodeId r = dw_nodeId s" using inv by (simp add: one_lease_def node_inv_def)
    then show "r = s" using inv r(1,2) by (auto simp: node_inv_def keys_unique_def distinct_map inj_on_def)
  }
  fix db'
  assume a: "dispatchNode db i t (Some k) at d = (Inr (), db')"
  note l = acquired_lease[OF inv a]
  show "\<not> (live s \<and> busy s)" if "s \<in> set (nb_nodes db)" for s using l that by blast
  show "\<exists>r. node_at db i = Some r \<and> live r \<and> isSettled (dw_updateState r) \<and>
      (k = RollbackKind \<longrightarrow> dw_requestedKind r = Some RollbackKind \<and> dw_requestedTag r = Some t) \<and>
      filter (\<lambda>s. live s \<and> busy s) (nb_nodes db') =
        [r\<lparr>dw_updateState := UPending, dw_updateTarget := Some t, dw_updateStartedAt := Some at, dw_updateDetail := Some d\<rparr>]"
    using l by blast
qed

text \<open>One measurement, for the witnesses: a fleet box with a readable stamp and the words of a current install.\<close>

definition demo_measurement :: "string \<Rightarrow> node_measurement" where
  "demo_measurement i =
     \<lparr>nm_nodeId = i, nm_role = RFleet, nm_label = FLEET_LABEL, nm_currentVersion = Some ''v0.0.1'', nm_currentSha = Some ''a'',
      nm_currentRef = Some ''main'', nm_currentBuiltAt = Some ''now'', nm_currentDirty = Some False, nm_stampRead = StampOk,
      nm_installState = Complete, nm_provenance = Verified, nm_caps = [''detach''], nm_agentOps = Some [''update''],
      nm_highestVersion = None, nm_previousVersion = None, nm_floorRead = FloorAbsent, nm_previousRead = FloorAbsent,
      nm_os = Linux, nm_measuredAt = 7, nm_report = None\<rparr>"

definition demo_id :: string where "demo_id = ''0a000000-0000-4000-8000-000000000001''"

definition demo_nodes :: node_db where
  "demo_nodes = snd (upsertNodeMeasurement empty_nodes (demo_measurement FLEET_LABEL))"

lemma demo_reach: "node_reach demo_nodes"
  unfolding demo_nodes_def by (rule node_reach.step[OF node_reach.start node_step.measured])

lemma demo_tag: "isReleaseTag ''v0.0.2''"
  by (simp add: isReleaseTag_def Let_def digit_char_def less_eq_char_def)

lemma demo_label: "connection_label FLEET_LABEL"
  by (simp add: connection_label_def)

theorem one_lease_fleet_wide_witness:
  "fst (dispatchNode demo_nodes FLEET_LABEL ''v0.0.2'' (Some UpdateKind) 5 ''go'') = Inr () \<and>
   length (filter (\<lambda>s. live s \<and> busy s) (nb_nodes (snd (dispatchNode demo_nodes FLEET_LABEL ''v0.0.2'' (Some UpdateKind) 5 ''go'')))) = 1"
proof -
  have ok: "fst (dispatchNode demo_nodes FLEET_LABEL ''v0.0.2'' (Some UpdateKind) 5 ''go'') = Inr ()"
    by (simp add: demo_nodes_def upsertNodeMeasurement_def empty_nodes_def node_at_def dispatchNode_def demo_tag sql_update_def
        good_clock_def MAX_SAFE_INTEGER_def Let_def demo_measurement_def)
  moreover obtain db' where "dispatchNode demo_nodes FLEET_LABEL ''v0.0.2'' (Some UpdateKind) 5 ''go'' = (Inr (), db')"
    using ok by (cases "dispatchNode demo_nodes FLEET_LABEL ''v0.0.2'' (Some UpdateKind) 5 ''go''") simp
  ultimately show ?thesis
    using one_lease_fleet_wide[OF demo_reach, of FLEET_LABEL "''v0.0.2''" UpdateKind 5 "''go''"] by auto
qed

text \<open>C15: the identity of a node is kept. On every table the store can reach the keys of the rows and of the verdicts
  are unique and every verdict names a row; every retired row is retired towards a node id, and no chain
  of heirs ever closes. A rekey of a connection never raises a key violation; with a node id it is never
  refused, and after it the only live row the connection has, by its label or by its key, is the identity measured
  now.\<close>

theorem node_identity_sound:
  assumes "node_reach db" "connection_label label"
  shows "distinct (map dw_nodeId (nb_nodes db)) \<and> distinct (map (\<lambda>f. (rf_nodeId f, rf_tag f)) (nb_refusals db)) \<and>
    (\<forall>f \<in> set (nb_refusals db). \<exists>r \<in> set (nb_nodes db). dw_nodeId r = rf_nodeId f) \<and>
    (\<forall>r \<in> set (nb_nodes db). \<forall>h. nd_supersededBy r = Some h \<longrightarrow> isNodeId h) \<and> acyclic (heir_edges db) \<and>
    fst (rekeyNode db label nid) \<noteq> Inl UniqueViolation \<and>
    (isNodeId nid \<longrightarrow> (\<exists>a. fst (rekeyNode db label nid) = Inr a) \<and>
      (\<forall>r \<in> set (nb_nodes (snd (rekeyNode db label nid))).
         live r \<and> (dw_label r = label \<or> dw_nodeId r = label) \<longrightarrow> dw_nodeId r = nid))"
proof (intro conjI impI ballI allI)
  have inv: "node_inv db" by (rule node_reach_inv[OF assms(1)])
  note i = inv[unfolded node_inv_def keys_unique_def]
  note l = label_not_id[OF assms(2)]
  show "distinct (map dw_nodeId (nb_nodes db))" "distinct (map (\<lambda>f. (rf_nodeId f, rf_tag f)) (nb_refusals db))"
    "acyclic (heir_edges db)" using i by blast+
  show "\<exists>r \<in> set (nb_nodes db). dw_nodeId r = rf_nodeId f" if "f \<in> set (nb_refusals db)" for f
  proof -
    have "rf_nodeId f \<in> dw_nodeId ` set (nb_nodes db)" using i that unfolding refusals_keyed_def by blast
    then show ?thesis by auto
  qed
  show "isNodeId h" if "r \<in> set (nb_nodes db)" "nd_supersededBy r = Some h" for r h
  proof -
    have "(dw_nodeId r, h) \<in> heir_edges db" using that unfolding heir_edges_def by blast
    then have "h \<in> snd ` heir_edges db" by force
    then show ?thesis using i unfolding heirs_keyed_def by blast
  qed
  show "fst (rekeyNode db label nid) \<noteq> Inl UniqueViolation" by (rule rekeyNode_inv(2)[OF inv l])
  assume nid: "isNodeId nid"
  show "\<exists>a. fst (rekeyNode db label nid) = Inr a" by (rule rekeyNode_shape[OF inv l nid]) (metis fst_conv)
  show "dw_nodeId r = nid" if "r \<in> set (nb_nodes (snd (rekeyNode db label nid)))"
    "live r \<and> (dw_label r = label \<or> dw_nodeId r = label)" for r
    using rekey_single[OF inv l nid that(1)] that(2) by blast
qed

theorem node_identity_sound_witness:
  "map dw_nodeId (nb_nodes (snd (rekeyNode demo_nodes FLEET_LABEL demo_id))) = [demo_id] \<and>
   acyclic (heir_edges demo_nodes) \<and> (\<exists>a. fst (rekeyNode demo_nodes FLEET_LABEL demo_id) = Inr a)"
proof -
  have nid: "isNodeId demo_id"
    by (simp add: demo_id_def isNodeId_def Let_def hex_char_def less_eq_char_def)
  have "map dw_nodeId (nb_nodes (snd (rekeyNode demo_nodes FLEET_LABEL demo_id))) = [demo_id]" by code_simp
  then show ?thesis using node_identity_sound[OF demo_reach demo_label, of demo_id] nid by blast
qed

end
