(* ===== verification/DispatchWords.thy ===== *)
theory DispatchWords
  imports UpdateDispatch
begin

text \<open>
  The words the dispatcher writes on a row (\<open>server/src/update/dispatch.ts\<close>): the sentence of a refusal, of a
  move and of an answer, the words of a deadline and of a hold, and the feed records. A node's own text is
  read as \<open>shared/agent-protocol.ts\<close> reads it, one printable line. The em dash, the only code unit of the sentences outside
  Latin-1, is written as the one unit \<open>CHR 0x97\<close>, which no printable text contains.
\<close>

section \<open>One printable line\<close>

definition UPDATE_OP_DETAIL_MAX :: nat where "UPDATE_OP_DETAIL_MAX = 200"

definition printable :: "char \<Rightarrow> bool" where "printable c \<longleftrightarrow> CHR 0x20 \<le> c \<and> c \<le> CHR 0x7E"

text \<open>Every run of anything else becomes one space; then the ends are trimmed.\<close>

fun squash_from :: "bool \<Rightarrow> string \<Rightarrow> string" where
  "squash_from run [] = []"
| "squash_from run (c # cs) =
     (if printable c then c # squash_from False cs
      else if run then squash_from True cs else CHR 0x20 # squash_from True cs)"

definition trim_spaces :: "string \<Rightarrow> string" where
  "trim_spaces s = rev (dropWhile (\<lambda>c. c = CHR 0x20) (rev (dropWhile (\<lambda>c. c = CHR 0x20) s)))"

definition clean_line :: "string \<Rightarrow> string" where "clean_line s = trim_spaces (squash_from False s)"

fun first_line :: "string list \<Rightarrow> string" where
  "first_line [] = ''no message''"
| "first_line (raw # raws) =
     (let line = clean_line raw in if line \<noteq> [] then take UPDATE_OP_DETAIL_MAX line else first_line raws)"

definition firstStderrLine :: "string \<Rightarrow> string" where
  "firstStderrLine stderr = first_line (split_on (CHR 0x0A) stderr)"

definition said :: "string option \<Rightarrow> string \<Rightarrow> string" where
  "said txt none = (case txt of None \<Rightarrow> none | Some t \<Rightarrow> firstStderrLine t)"

section \<open>Moves and refusals\<close>

definition DASH :: string where "DASH = [CHR 0x20, CHR 0x97, CHR 0x20]"
definition APOS_S :: string where "APOS_S = CHR 0x27 # ''s''"

definition UNVERSIONED_DETAIL :: string where
  "UNVERSIONED_DETAIL = ''unversioned box'' @ DASH @ ''any eligible release is newer''"

definition kind_word :: "request_kind \<Rightarrow> string" where
  "kind_word k = (case k of UpdateKind \<Rightarrow> ''update'' | RollbackKind \<Rightarrow> ''rollback'')"

definition source_word :: "move_source \<Rightarrow> string" where
  "source_word s = (case s of AutoSource \<Rightarrow> ''auto'' | RequestSource \<Rightarrow> ''requested'')"

definition current_word :: "current \<Rightarrow> string" where
  "current_word c = (case c of Versioned t \<Rightarrow> t | Unversioned \<Rightarrow> ''an unversioned build'' | Unread \<Rightarrow> ''an unread stamp'')"

definition moveText :: "move_words \<Rightarrow> string" where
  "moveText w =
     (case w of
        UnversionedWords \<Rightarrow> UNVERSIONED_DETAIL
      | FromWords s k cur target \<Rightarrow>
          source_word s @ '' '' @ kind_word k @ '' from '' @ current_word cur @ '' to '' @ target)"

definition refusal_word :: "dispatch_refusal \<Rightarrow> string" where
  "refusal_word r =
     (case r of
        RefUnknownTag \<Rightarrow> ''unknown-tag'' | RefNotNewer \<Rightarrow> ''not-newer'' | RefRefusedByNode \<Rightarrow> ''refused-by-node''
      | RefStampUnread \<Rightarrow> ''stamp-unread'' | RefFloorUnread \<Rightarrow> ''floor-unread'' | RefNoDetachCap \<Rightarrow> ''no-detach-cap''
      | RefNoUpdateGate \<Rightarrow> ''no-update-gate'' | RefNoRollbackCap \<Rightarrow> ''no-rollback-cap'' | RefNoBundle \<Rightarrow> ''no-bundle''
      | RefAgentPredates \<Rightarrow> ''agent-predates-update-op'' | RefHalted \<Rightarrow> ''halted'' | RefWaitingForFleet \<Rightarrow> ''waiting-for-fleet'')"

definition stamp_word :: "stamp_read \<Rightarrow> string" where
  "stamp_word s = (case s of StampOk \<Rightarrow> ''ok'' | StampOther w \<Rightarrow> w)"

definition or_word :: "string \<Rightarrow> string option \<Rightarrow> string" where
  "or_word none s = (case s of None \<Rightarrow> none | Some w \<Rightarrow> w)"

definition refusal_sentence :: "dispatch_refusal \<Rightarrow> dispatch_row \<Rightarrow> string \<Rightarrow> refusal_blocker option \<Rightarrow> string" where
  "refusal_sentence refusal r t b =
     (case refusal of
        RefUnknownTag \<Rightarrow>
          t @ '' is not a release '' @ dw_label r @ '' can be moved to'' @ DASH @
          ''an update needs a catalogue row listed with its provenance bundle and not yanked, a rollback a catalogue row''
      | RefNotNewer \<Rightarrow>
          (case floorOf (dw_highestVersion r) (dw_currentVersion r) of
             Some floor \<Rightarrow>
               if Some floor \<noteq> dw_currentVersion r
               then t @ '' is not newer than '' @ dw_label r @ APOS_S @ '' floor '' @ floor @ '' (it runs '' @
                 or_word ''an unversioned build'' (dw_currentVersion r) @ '')'' @ DASH @ ''pin a newer tag, or use rollback''
               else t @ '' is not newer than '' @ dw_label r @ APOS_S @ '' '' @ or_word ''version'' (dw_currentVersion r) @ DASH @
                 ''moving a node down is a rollback''
           | None \<Rightarrow>
               t @ '' is not newer than '' @ dw_label r @ APOS_S @ '' '' @ or_word ''version'' (dw_currentVersion r) @ DASH @
               ''moving a node down is a rollback'')
      | RefRefusedByNode \<Rightarrow>
          dw_label r @ '' refused '' @ t @ '' on a provenance verdict'' @ DASH @ ''ack the node to clear the refusal''
      | RefStampUnread \<Rightarrow>
          dw_label r @ APOS_S @ '' build stamp reads '' @ stamp_word (dw_stampRead r) @ '', so its version is unknown'' @ DASH @
          t @ '' waits until the stamp reads''
      | RefFloorUnread \<Rightarrow> dw_label r @ APOS_S @ '' floor has not been measured'' @ DASH @ t @ '' waits until it is''
      | RefNoDetachCap \<Rightarrow>
          dw_label r @ APOS_S @ '' ccrc-caps has no '' @ DETACH_CAP @ DASH @
          ''its ccrc predates the one-tap, or it is macOS (decision 17); '' @ t @ '' waits''
      | RefNoUpdateGate \<Rightarrow>
          ''auto is on for '' @ dw_label r @ '' but its ccrc-caps has no '' @ UPDATE_GATE_CAP @ '', so auto will not move it to '' @
          t @ ''; an operator request still can''
      | RefNoRollbackCap \<Rightarrow>
          dw_label r @ APOS_S @ '' ccrc-caps has no '' @ ROLLBACK_CAP @ DASH @ ''its ccrc cannot roll back to '' @ t
      | RefNoBundle \<Rightarrow>
          ''the catalogue lists no provenance bundle for '' @ t @ '' and '' @ dw_label r @ APOS_S @
          '' install is verified, so the one-tap is not sent'' @ DASH @ ''its ccrc refuses to download '' @ t @
          '' without --allow-unsigned, which a one-tap never passes; on that box, ccrc rollback --to '' @ t @
          '' flips to a kept copy if it keeps one, and otherwise ccrc update --to '' @ t @
          '' --downgrade --allow-unsigned installs it; or Refresh if a bundle was published since the last poll, or pick a newer release''
      | RefAgentPredates \<Rightarrow>
          dw_label r @ APOS_S @ '' agent does not advertise the '' @ UPDATE_OP @ '' op'' @ DASH @ ''update its agent first; '' @ t @ '' waits''
      | RefHalted \<Rightarrow>
          ''a failed or reverted node'' @ (case b of None \<Rightarrow> [] | Some (l, _, _) \<Rightarrow> '' ('' @ l @ '')'') @
          '' halts every move until it is acked'' @ DASH @ dw_label r @ '' waits for '' @ t
      | RefWaitingForFleet \<Rightarrow>
          (case b of
             Some (l, tag, True) \<Rightarrow>
               l @ APOS_S @ '' auto update to '' @ or_word ''a release'' tag @ '' has not landed'' @ DASH @ dw_label r @ '' moves to '' @
               t @ '' after it does, or once that node'' @ APOS_S @ '' own auto is off''
           | _ \<Rightarrow>
               or_word ''a fleet node'' (map_option fst b) @ APOS_S @ '' request for '' @
               or_word ''a release'' (Option.bind b (\<lambda>x. fst (snd x))) @ '' is outstanding'' @ DASH @ dw_label r @ '' moves to '' @ t @
               '' after it is settled or acked''))"

definition dispatchRefusalDetail :: "dispatch_refusal \<Rightarrow> dispatch_row \<Rightarrow> string \<Rightarrow> refusal_blocker option \<Rightarrow> string" where
  "dispatchRefusalDetail refusal r target b = refusal_word refusal @ DASH @ refusal_sentence refusal r target b"

definition followRefusalDetail :: "landed_move \<Rightarrow> dispatch_row \<Rightarrow> dispatch_refusal \<Rightarrow> string" where
  "followRefusalDetail landed r refusal =
     lv_label landed @ '' moved to '' @ lv_target landed @ DASH @ dw_label r @ '' cannot follow: '' @
     dispatchRefusalDetail refusal r (lv_target landed) None"

section \<open>Answers\<close>

datatype transport_why = Disconnected | Timeout | Aborted | OtherWhy

definition transport_word :: "transport_why \<Rightarrow> string" where
  "transport_word w =
     (case w of Disconnected \<Rightarrow> ''disconnected'' | Timeout \<Rightarrow> ''timeout'' | Aborted \<Rightarrow> ''aborted'' | OtherWhy \<Rightarrow> ''other'')"

datatype op_reply = Accepted "string option" | Refused string "string option" | Transport transport_why string reached

definition AGENT_REJECTED_DETAIL :: string where "AGENT_REJECTED_DETAIL = ''agent rejected the update op''"
definition ACCEPTED_DETAIL :: string where
  "ACCEPTED_DETAIL = ''accepted'' @ DASH @ ''the node queued a detached run''"
definition SKEW_DETAIL :: string where
  "SKEW_DETAIL = ''agent-predates-update-op'' @ DASH @ ''the agent answered bad-request and does not advertise the '' @ UPDATE_OP @
     '' op; the request stands''"
definition LINK_FAILED_HOLD_PREFIX :: string where "LINK_FAILED_HOLD_PREFIX = ''link failed mid-op''"
definition DEADLINE_DETAIL :: string where "DEADLINE_DETAIL = ''deadline''"

definition hold_head :: string where "hold_head = LINK_FAILED_HOLD_PREFIX @ '' (''"

definition hold_tail :: "transport_why \<Rightarrow> string" where
  "hold_tail why =
     '')'' @ DASH @ ''the op '' @ (if why = OtherWhy then ''may have reached'' else ''reached'') @
     '' the fleet link and no answer came back, so the node may have started the run; '' @
     ''the lease holds until its report or the deadline''"

definition linkFailedHoldDetail :: "transport_why \<Rightarrow> string \<Rightarrow> string" where
  "linkFailedHoldDetail why message =
     (if why \<noteq> OtherWhy then take UPDATE_OP_DETAIL_MAX (hold_head @ transport_word why @ hold_tail why)
      else let budget = UPDATE_OP_DETAIL_MAX - length hold_head - length ''other: '' - length (hold_tail why) in
           hold_head @ ''other: '' @ take budget (said (Some message) ''no message'') @ hold_tail why)"

text \<open>\<open>classifyOpAnswer\<close> with its words; \<open>classifyOpAnswer\<close> of the theory UpdateDispatch is its decision.\<close>

definition abstract_answer :: "op_reply \<Rightarrow> op_answer" where
  "abstract_answer a =
     (case a of Accepted _ \<Rightarrow> OpAccepted | Refused e _ \<Rightarrow> OpRefused e | Transport _ _ r \<Rightarrow> OpTransport r)"

definition classifyOpReply :: "op_reply \<Rightarrow> bool \<Rightarrow> answer_action \<times> string" where
  "classifyOpReply a advertised =
     (case a of
        Accepted d \<Rightarrow>
          (let words = said d ''no message'' in
           (HoldLease, if d = None \<or> words = ''no message'' then ACCEPTED_DETAIL else words))
      | Transport why message MaybeReached \<Rightarrow> (HoldLease, linkFailedHoldDetail why message)
      | Transport why message NeverReached \<Rightarrow>
          (ReleaseIdle, transport_word why @ DASH @
             (if why = OtherWhy then said (Some message) ''no message'' else ''the op never reached the fleet link'') @
             ''; the request stands'')
      | Refused err d \<Rightarrow>
          if err = ''bad-request'' then (if advertised then (ReleaseFailed, AGENT_REJECTED_DETAIL) else (ReleaseIdle, SKEW_DETAIL))
          else if err \<notin> set UPDATE_OP_ERRORS then (ReleaseFailed, ''agent answered '' @ said (Some err) ''no word'')
          else if err = ''busy'' then (ReleaseIdle, ''busy'' @ DASH @ said d ''the node gave no detail'')
          else if err = ''bad-tag'' \<or> err = ''bad-kind'' then (ReleaseFailed, ''agent refused the op: '' @ err)
          else if err = ''spawn-failed'' then (ReleaseFailed, ''spawn-failed'' @ DASH @ said d ''no message'')
          else (ReleaseIdle, ''not-queued'' @ DASH @ said d ''the parent was stopped before it queued anything''))"

section \<open>The deadline\<close>

text \<open>What the box's own report says, as parsed (\<open>parseReportOrigin\<close>).\<close>

record report_origin =
  ro_from :: "string option"
  ro_phase :: update_phase
  ro_target :: "string option"
  ro_updatedAt :: "int option"
  ro_detail :: "string option"

definition deadlineDetail :: "string list option \<Rightarrow> int option \<Rightarrow> report_origin option \<Rightarrow> string" where
  "deadlineDetail agentOps startedAt own =
     (case (agentOps, own, startedAt) of
        (None, Some o', Some started) \<Rightarrow>
          (case (ro_target o', ro_updatedAt o') of
             (Some target, Some at) \<Rightarrow>
               if ro_from o' \<noteq> Some ''watchdog'' \<or> at \<le> started then DEADLINE_DETAIL
               else if ro_phase o' = PDone
               then take UPDATE_OP_DETAIL_MAX (DEADLINE_DETAIL @ DASH @ ''the watchdog reverted this box to '' @ target)
               else if ro_phase o' \<noteq> PFailed then DEADLINE_DETAIL
               else let head = DEADLINE_DETAIL @ DASH @ ''the watchdog'' @ APOS_S @ '' rollback to '' @ target @ '' failed: '' in
                    take UPDATE_OP_DETAIL_MAX (head @ take (UPDATE_OP_DETAIL_MAX - length head) (said (ro_detail o') ''no message''))
           | _ \<Rightarrow> DEADLINE_DETAIL)
      | _ \<Rightarrow> DEADLINE_DETAIL)"

definition linkFailedDeadlineDetail :: "string option \<Rightarrow> string option \<Rightarrow> string option \<Rightarrow> string option" where
  "linkFailedDeadlineDetail updateDetail updateTarget reportedTarget =
     (case (updateDetail, updateTarget) of
        (Some d, Some target) \<Rightarrow>
          if \<not> starts_with d hold_head then None
          else Some (take UPDATE_OP_DETAIL_MAX
            (if reportedTarget \<noteq> Some target
             then DEADLINE_DETAIL @ DASH @ ''the fleet link failed mid-op; the row'' @ APOS_S @ '' last report does not name '' @ target
             else DEADLINE_DETAIL @ DASH @ ''the fleet link failed mid-op; the row'' @ APOS_S @ '' last report names '' @ target @
               '', which may be an earlier run'' @ APOS_S))
      | _ \<Rightarrow> None)"

section \<open>Feed records\<close>

datatype leased_result = Held string | ReleasedTo bool string | ReleaseRefused string string

text \<open>\<open>ReleasedTo False\<close> is an idle release, \<open>ReleasedTo True\<close> a failed one.\<close>

definition moveFeedRecord :: "dispatch_move \<Rightarrow> string \<Rightarrow> leased_result \<Rightarrow> (string \<times> string) option" where
  "moveFeedRecord m label r =
     (let title = ''update '' @ label @ '': '' @ source_word (dm_source m) @ '' '' @ kind_word (dm_kind m) @ '' to '' @ dm_target m;
          body = (\<lambda>what d. take UPDATE_OP_DETAIL_MAX (moveText (dm_detail m) @ DASH @ what @ '': '' @ d)) in
      case r of
        ReleasedTo False _ \<Rightarrow> None
      | ReleasedTo True d \<Rightarrow> Some (title, body ''released failed'' d)
      | ReleaseRefused why d \<Rightarrow> Some (title, body (''release refused ('' @ why @ '')'' @ DASH @ ''the answer was'') d)
      | Held d \<Rightarrow> Some (title, body ''lease held'' d))"

section \<open>What the words say\<close>

lemma prefix_Cons_neq: "c \<noteq> d \<Longrightarrow> \<not> prefix (c # p) (d # s)"
  by simp

lemma halts_unless_provenance:
  "isHaltingUpdate UFailed (Some d) \<longleftrightarrow> \<not> starts_with d PROVENANCE_DETAIL_PREFIX"
  by (simp add: isHaltingUpdate_def isSettled_def SETTLED_UPDATE_STATES_def)

lemma not_provenance: "d \<noteq> CHR ''p'' \<Longrightarrow> isHaltingUpdate UFailed (Some (d # s))"
  by (simp add: halts_unless_provenance PROVENANCE_DETAIL_PREFIX_def)

lemma take_Cons_pos: "0 < n \<Longrightarrow> take n (c # s) = c # take (n - 1) s"
  by (cases n) simp_all

lemma hold_lengths [simp]:
  "length hold_head = 20" "length (hold_tail OtherWhy) = 154" "w \<noteq> OtherWhy \<Longrightarrow> length (hold_tail w) = 145"
  by (simp_all add: hold_head_def hold_tail_def LINK_FAILED_HOLD_PREFIX_def DASH_def)

lemma transport_length: "w \<noteq> OtherWhy \<Longrightarrow> length (transport_word w) \<le> 12"
  by (cases w) (simp_all add: transport_word_def)

lemma hold_detail_shape:
  "length (linkFailedHoldDetail why message) \<le> UPDATE_OP_DETAIL_MAX \<and> starts_with (linkFailedHoldDetail why message) hold_head \<and>
   ends_with (linkFailedHoldDetail why message) (hold_tail why)"
proof (cases "why = OtherWhy")
  case True
  let ?m = "take 19 (said (Some message) ''no message'')"
  have "linkFailedHoldDetail why message = hold_head @ ''other: '' @ ?m @ hold_tail OtherWhy"
    using True by (simp add: linkFailedHoldDetail_def Let_def UPDATE_OP_DETAIL_MAX_def)
  moreover have "length ?m \<le> 19" by simp
  ultimately show ?thesis using True by (auto simp: UPDATE_OP_DETAIL_MAX_def suffix_def)
next
  case False
  have "length (hold_head @ transport_word why @ hold_tail why) \<le> UPDATE_OP_DETAIL_MAX"
    using False transport_length[OF False] by (simp add: UPDATE_OP_DETAIL_MAX_def)
  then have "linkFailedHoldDetail why message = hold_head @ transport_word why @ hold_tail why"
    "length (linkFailedHoldDetail why message) \<le> UPDATE_OP_DETAIL_MAX"
    using False by (simp_all add: linkFailedHoldDetail_def)
  then show ?thesis by (auto simp: suffix_def)
qed

lemma refusal_word_read:
  "takeWhile (\<lambda>c. c \<noteq> CHR 0x97) (dispatchRefusalDetail r row t b) = refusal_word r @ '' ''"
  by (cases r) (simp_all add: dispatchRefusalDetail_def refusal_word_def DASH_def)

lemma refusal_word_inj: "refusal_word r = refusal_word r' \<Longrightarrow> r = r'"
  by (cases r; cases r') (simp_all add: refusal_word_def)

lemma deadline_halts: "isHaltingUpdate UFailed (Some (deadlineDetail ops started own))"
proof -
  have "\<exists>s. deadlineDetail ops started own = CHR ''d'' # s"
    by (auto simp: deadlineDetail_def DEADLINE_DETAIL_def UPDATE_OP_DETAIL_MAX_def Let_def split: option.split)
  then show ?thesis using not_provenance by force
qed

lemma link_deadline_halts:
  "linkFailedDeadlineDetail d t rep = Some w \<Longrightarrow> isHaltingUpdate UFailed (Some w)"
proof -
  assume "linkFailedDeadlineDetail d t rep = Some w"
  then have "\<exists>s. w = CHR ''d'' # s"
    by (auto simp: linkFailedDeadlineDetail_def DEADLINE_DETAIL_def UPDATE_OP_DETAIL_MAX_def split: option.splits if_splits)
  then show ?thesis using not_provenance by force
qed

lemma reply_refines: "fst (classifyOpReply a advertised) = classifyOpAnswer (abstract_answer a) advertised"
proof (cases a)
  case (Refused err d)
  show ?thesis
    by (auto simp: Refused classifyOpReply_def classifyOpAnswer_def abstract_answer_def UPDATE_OP_ERRORS_def)
next
  case (Transport w m r)
  show ?thesis by (cases r) (simp_all add: Transport classifyOpReply_def classifyOpAnswer_def abstract_answer_def)
qed (simp add: classifyOpReply_def classifyOpAnswer_def abstract_answer_def Let_def)

lemma reply_failed_halts:
  assumes "classifyOpReply a advertised = (ReleaseFailed, d)"
  shows "isHaltingUpdate UFailed (Some d)"
proof -
  have "\<exists>c s. d = c # s \<and> c \<noteq> CHR ''p''"
  proof (cases a)
    case (Refused err x)
    then show ?thesis using assms
      by (auto simp: classifyOpReply_def AGENT_REJECTED_DETAIL_def split: if_splits)
  next
    case (Transport w m r)
    then show ?thesis using assms by (cases r) (simp_all add: classifyOpReply_def)
  next
    case (Accepted x)
    then show ?thesis using assms by (simp add: classifyOpReply_def Let_def)
  qed
  then show ?thesis using not_provenance by blast
qed



end
