(* ===== verification/ReleaseStore.thy ===== *)
theory ReleaseStore
  imports NodeStore
begin

text \<open>
  The \<open>releases\<close> table of the coordination store (\<open>server/src/coord/store.ts\<close>): the one writer of its catalogue
  columns, which judges what a listing proves absent, the reference tag of the poller, the reader with its
  roll-up of verdicts, and the one writer of the notification mark. A publish time that is not a safe integer is
  \<open>None\<close>; the empty URL on disk is \<open>None\<close> here as it is for every reader.
\<close>

section \<open>Rows and answers\<close>

record listing_row =
  li_tag :: string
  li_channel :: "update_channel option"
  li_publishedAt :: "int option"
  li_commitSha :: "string option"
  li_tarballUrl :: "string option"
  li_bundleListed :: bool
  li_notes :: "string option"
  li_draft :: bool

datatype listing_coverage = CompleteListing | NewestPage | SingleRelease | WithdrawnTag

datatype listing_why =
  ListBadTag string | DuplicateTag string | BadChannel string | BadPublishedAt string | BadTarballUrl string
| EmptyListing nat | SingleNotOne nat | WithdrawnNotEmpty nat

record listing_answer =
  la_upserted :: nat
  la_yanked :: nat
  la_unyanked :: nat

record release_row =
  rl_tag :: string
  rl_version :: string
  rl_channel :: "update_channel option"
  rl_publishedAt :: int
  rl_commitSha :: "string option"
  rl_tarballUrl :: "string option"
  rl_bundleListed :: bool
  rl_notes :: "string option"
  rl_yanked :: bool
  rl_observedAt :: int
  rl_notifiedAt :: "int option"

datatype notify_why = NotifyBadTag | UnknownRelease | AlreadyNotified int | NotifyBadClock

section \<open>A listing\<close>

definition bad_listing_row :: "string list \<Rightarrow> listing_row \<Rightarrow> listing_why option" where
  "bad_listing_row seen r =
     (if \<not> isReleaseTag (li_tag r) then Some (ListBadTag (li_tag r))
      else if li_tag r \<in> set seen then Some (DuplicateTag (li_tag r))
      else if li_channel r = None then Some (BadChannel (li_tag r))
      else if (case li_publishedAt r of None \<Rightarrow> True | Some p \<Rightarrow> \<not> good_clock p) then Some (BadPublishedAt (li_tag r))
      else if li_tarballUrl r = Some [] then Some (BadTarballUrl (li_tag r))
      else None)"

fun bad_listing :: "string list \<Rightarrow> listing_row list \<Rightarrow> listing_why option" where
  "bad_listing seen [] = None"
| "bad_listing seen (r # rs) =
     (case bad_listing_row seen r of Some w \<Rightarrow> Some w | None \<Rightarrow> bad_listing (li_tag r # seen) rs)"

text \<open>A publish time already checked.\<close>

definition published :: "listing_row \<Rightarrow> int" where
  "published r = (case li_publishedAt r of None \<Rightarrow> 0 | Some p \<Rightarrow> p)"

text \<open>The row of an insert; on a conflict every column but the mark is written.\<close>

definition listed_row :: "int \<Rightarrow> listing_row \<Rightarrow> release_row" where
  "listed_row now r =
     \<lparr>rl_tag = li_tag r, rl_version = li_tag r, rl_channel = li_channel r, rl_publishedAt = published r,
      rl_commitSha = li_commitSha r, rl_tarballUrl = li_tarballUrl r, rl_bundleListed = li_bundleListed r,
      rl_notes = li_notes r, rl_yanked = li_draft r, rl_observedAt = now, rl_notifiedAt = None\<rparr>"

definition upsert_release :: "int \<Rightarrow> listing_row \<Rightarrow> release_row list \<Rightarrow> release_row list" where
  "upsert_release now r rows =
     (if list_ex (\<lambda>x. rl_tag x = li_tag r) rows
      then map (\<lambda>x. if rl_tag x = li_tag r then (listed_row now r)\<lparr>rl_notifiedAt := rl_notifiedAt x\<rparr> else x) rows
      else rows @ [listed_row now r])"

definition listing_since :: "listing_coverage \<Rightarrow> listing_row list \<Rightarrow> int" where
  "listing_since coverage listing =
     (if coverage = CompleteListing then - MAX_SAFE_INTEGER
      else (case map published listing of [] \<Rightarrow> 0 | p # ps \<Rightarrow> fold min ps p))"

definition applyReleaseListing ::
  "release_row list \<Rightarrow> listing_row list \<Rightarrow> int \<Rightarrow> listing_coverage \<Rightarrow> string list \<Rightarrow> string option \<Rightarrow>
   (listing_why + listing_answer) \<times> release_row list" where
  "applyReleaseListing rows listing now coverage keepTags withdrawTag =
     (if coverage = SingleRelease \<and> length listing \<noteq> 1 then (Inl (SingleNotOne (length listing)), rows)
      else if coverage = WithdrawnTag then
        (if length listing \<noteq> 0 then (Inl (WithdrawnNotEmpty (length listing)), rows)
         else (case withdrawTag of
            None \<Rightarrow> (Inl (ListBadTag []), rows)
          | Some t \<Rightarrow>
              if \<not> isReleaseTag t then (Inl (ListBadTag t), rows)
              else let (rows', n) = sql_update (\<lambda>x. rl_tag x = t \<and> \<not> rl_yanked x) (\<lambda>x. x\<lparr>rl_yanked := True\<rparr>) rows in
                   (Inr \<lparr>la_upserted = 0, la_yanked = n, la_unyanked = 0\<rparr>, rows')))
      else case bad_listing [] listing of
        Some w \<Rightarrow> (Inl w, rows)
      | None \<Rightarrow>
          if listing = [] then
            (if length rows > 0 then (Inl (EmptyListing (length rows)), rows)
             else (Inr \<lparr>la_upserted = 0, la_yanked = 0, la_unyanked = 0\<rparr>, rows))
          else
            (let since = listing_since coverage listing;
                 exclude = map li_tag listing @ filter (\<lambda>t. isReleaseTag t \<and> t \<notin> set (map li_tag listing)) keepTags;
                 wasYanked = map rl_tag (filter rl_yanked rows);
                 unyanked = length (filter (\<lambda>r. li_tag r \<in> set wasYanked \<and> \<not> li_draft r) listing);
                 upserted = fold (upsert_release now) listing rows in
             if coverage = SingleRelease
             then (Inr \<lparr>la_upserted = length listing, la_yanked = 0, la_unyanked = unyanked\<rparr>, upserted)
             else let (rows', n) = sql_update
                        (\<lambda>x. \<not> rl_yanked x \<and> since \<le> rl_publishedAt x \<and> rl_tag x \<notin> set exclude)
                        (\<lambda>x. x\<lparr>rl_yanked := True\<rparr>) upserted in
                  (Inr \<lparr>la_upserted = length listing, la_yanked = n, la_unyanked = unyanked\<rparr>, rows')))"

section \<open>Readers and the mark\<close>

text \<open>The outer \<open>None\<close> is the comparator's thrown error.\<close>

definition newestUnyankedStable :: "release_row list \<Rightarrow> string option option" where
  "newestUnyankedStable rows = newestTag (map rl_tag (filter (\<lambda>r. \<not> rl_yanked r \<and> rl_channel r = Some Stable) rows))"

text \<open>The catalogue, newest first, each row with the verdicts of the rows still live.\<close>

definition releases :: "node_db \<Rightarrow> release_row list \<Rightarrow> (release_row \<times> (string \<times> int) list) list" where
  "releases db rows =
     (let retired = map dw_nodeId (filter (\<lambda>r. nd_supersededBy r \<noteq> None) (nb_nodes db));
          verdicts = sort_key (\<lambda>f. (rf_at f, rf_nodeId f)) (filter (\<lambda>f. rf_nodeId f \<notin> set retired) (nb_refusals db)) in
      map (\<lambda>r. (r, map (\<lambda>f. (rf_nodeId f, rf_at f)) (filter (\<lambda>f. rf_tag f = rl_tag r) verdicts)))
        (sort_key (\<lambda>r. (- rl_publishedAt r, rl_tag r)) rows))"

definition eligibility_of :: "release_row \<Rightarrow> eligibility_row" where
  "eligibility_of r =
     \<lparr>er_tag = rl_tag r, er_channel = rl_channel r, er_bundleListed = rl_bundleListed r, er_yanked = rl_yanked r\<rparr>"

definition markReleaseNotified :: "release_row list \<Rightarrow> string \<Rightarrow> int \<Rightarrow> (notify_why + int) \<times> release_row list" where
  "markReleaseNotified rows tag at =
     (if \<not> good_clock at then (Inl NotifyBadClock, rows)
      else if \<not> isReleaseTag tag then (Inl NotifyBadTag, rows)
      else let (rows', n) = sql_update (\<lambda>x. rl_tag x = tag \<and> rl_notifiedAt x = None) (\<lambda>x. x\<lparr>rl_notifiedAt := Some at\<rparr>) rows in
           if n > 0 then (Inr at, rows')
           else (case find (\<lambda>x. rl_tag x = tag) rows of
              None \<Rightarrow> (Inl UnknownRelease, rows)
            | Some x \<Rightarrow> (Inl (case rl_notifiedAt x of None \<Rightarrow> UnknownRelease | Some t \<Rightarrow> AlreadyNotified t), rows)))"

end
