(* ===== verification/ReleaseProps.thy ===== *)
theory ReleaseProps
  imports ReleaseStore NodeInv
begin

text \<open>
  The catalogue as a lookup by tag: what a listing writes, what it proves withdrawn, what it never touches, and
  that a release is marked announced once, over any run of listings and marks.
\<close>

section \<open>Lookup by tag\<close>

definition release_at :: "release_row list \<Rightarrow> string \<Rightarrow> release_row option" where
  "release_at rows t = find (\<lambda>x. rl_tag x = t) rows"

definition mark_of :: "release_row list \<Rightarrow> string \<Rightarrow> int option" where
  "mark_of rows t = Option.bind (release_at rows t) rl_notifiedAt"

text \<open>One row per tag, each a release tag, published at a time a listing can give.\<close>

definition catalogue_ok :: "release_row list \<Rightarrow> bool" where
  "catalogue_ok rows \<longleftrightarrow> distinct (map rl_tag rows) \<and> (\<forall>x \<in> set rows. isReleaseTag (rl_tag x) \<and> good_clock (rl_publishedAt x))"

lemma release_at_Cons [simp]:
  "release_at [] t = None" "release_at (x # xs) t = (if rl_tag x = t then Some x else release_at xs t)"
  by (simp_all add: release_at_def)

lemma release_at_in: "release_at rows t = Some x \<Longrightarrow> x \<in> set rows \<and> rl_tag x = t"
  by (induction rows) (auto split: if_splits)

lemma release_at_None: "release_at rows t = None \<longleftrightarrow> t \<notin> rl_tag ` set rows"
  by (induction rows) auto

lemma release_at_append: "release_at (xs @ ys) t = (case release_at xs t of None \<Rightarrow> release_at ys t | Some x \<Rightarrow> Some x)"
  by (induction xs) auto

lemma release_at_map:
  assumes "\<And>x. rl_tag (g x) = rl_tag x"
  shows "release_at (map g rows) t = map_option g (release_at rows t)"
  by (induction rows) (simp_all add: assms)

lemma catalogue_ok_map:
  assumes "catalogue_ok rows" "\<And>x. rl_tag (g x) = rl_tag x" "\<And>x. rl_publishedAt (g x) = rl_publishedAt x"
  shows "catalogue_ok (map g rows)"
  using assms by (simp add: catalogue_ok_def comp_def)

lemma listed_row_tag [simp]: "rl_tag (listed_row now r) = li_tag r" "rl_publishedAt (listed_row now r) = published r"
  "rl_notifiedAt (listed_row now r) = None"
  by (simp_all add: listed_row_def)

lemma listed_again:
  "release_at (map (\<lambda>x. if rl_tag x = li_tag r then (listed_row now r)\<lparr>rl_notifiedAt := rl_notifiedAt x\<rparr> else x) rows) t =
   map_option (\<lambda>x. if rl_tag x = li_tag r then (listed_row now r)\<lparr>rl_notifiedAt := rl_notifiedAt x\<rparr> else x) (release_at rows t)"
  by (rule release_at_map) simp

lemma upsert_at:
  "release_at (upsert_release now r rows) t =
     (if t = li_tag r then Some ((listed_row now r)\<lparr>rl_notifiedAt := mark_of rows t\<rparr>) else release_at rows t)"
proof (cases "release_at rows (li_tag r)")
  case None
  then have "\<not> list_ex (\<lambda>x. rl_tag x = li_tag r) rows" unfolding release_at_None list_ex_iff by (metis imageI)
  with None show ?thesis
    by (auto simp: upsert_release_def release_at_append mark_of_def listed_row_def split: option.split)
next
  case (Some y)
  then have "list_ex (\<lambda>x. rl_tag x = li_tag r) rows" using release_at_in[OF Some] by (auto simp: list_ex_iff)
  then have u: "upsert_release now r rows =
      map (\<lambda>x. if rl_tag x = li_tag r then (listed_row now r)\<lparr>rl_notifiedAt := rl_notifiedAt x\<rparr> else x) rows"
    by (simp add: upsert_release_def)
  show ?thesis
  proof (cases "t = li_tag r")
    case True
    then show ?thesis using Some release_at_in[OF Some] by (simp add: u listed_again mark_of_def)
  next
    case False
    then show ?thesis using release_at_in[of rows t] by (cases "release_at rows t") (auto simp: u listed_again)
  qed
qed

lemma upsert_ok:
  assumes "catalogue_ok rows" "isReleaseTag (li_tag r)" "good_clock (published r)"
  shows "catalogue_ok (upsert_release now r rows)"
proof (cases "list_ex (\<lambda>x. rl_tag x = li_tag r) rows")
  case True
  have "map rl_tag (upsert_release now r rows) = map rl_tag rows" using True by (simp add: upsert_release_def)
  moreover have "isReleaseTag (rl_tag x) \<and> good_clock (rl_publishedAt x)" if "x \<in> set (upsert_release now r rows)" for x
    using that True assms by (auto simp: upsert_release_def catalogue_ok_def split: if_splits)
  ultimately show ?thesis using assms(1) by (simp add: catalogue_ok_def)
next
  case False
  then show ?thesis using assms by (auto simp: upsert_release_def catalogue_ok_def list_ex_iff)
qed

section \<open>A listing\<close>

lemma bad_listing_None:
  "bad_listing seen rs = None \<Longrightarrow>
   distinct (map li_tag rs) \<and> set seen \<inter> li_tag ` set rs = {} \<and>
   (\<forall>r \<in> set rs. isReleaseTag (li_tag r) \<and> good_clock (published r) \<and> li_channel r \<noteq> None)"
proof (induction rs arbitrary: seen)
  case (Cons r rs)
  have r: "bad_listing_row seen r = None" using Cons.prems by (auto split: option.splits)
  then have rs: "bad_listing (li_tag r # seen) rs = None" using Cons.prems by simp
  have "isReleaseTag (li_tag r)" "li_tag r \<notin> set seen" "li_channel r \<noteq> None" "good_clock (published r)"
    using r by (auto simp: bad_listing_row_def published_def split: if_splits option.splits)
  then show ?case using Cons.IH[OF rs] by auto
qed simp

lemma fold_upsert_at:
  assumes "distinct (map li_tag rs)"
  shows "release_at (fold (upsert_release now) rs rows) t =
     (case find (\<lambda>r. li_tag r = t) rs of
        Some r \<Rightarrow> Some ((listed_row now r)\<lparr>rl_notifiedAt := mark_of rows t\<rparr>)
      | None \<Rightarrow> release_at rows t)"
  using assms
proof (induction rs arbitrary: rows)
  case (Cons r rs)
  have m: "mark_of (upsert_release now r rows) t = mark_of rows t" for t
    by (auto simp: mark_of_def upsert_at)
  show ?case
  proof (cases "li_tag r = t")
    case True
    then have "find (\<lambda>r. li_tag r = t) rs = None" using Cons.prems unfolding find_None_iff by (metis distinct.simps(2) image_eqI list.set_map list.simps(9))
    with True show ?thesis using Cons.IH[of "upsert_release now r rows"] Cons.prems by (simp add: upsert_at)
  next
    case False
    then have "release_at (upsert_release now r rows) t = release_at rows t" by (simp add: upsert_at)
    with False show ?thesis using Cons.IH[of "upsert_release now r rows"] Cons.prems
      by (cases "find (\<lambda>r. li_tag r = t) rs") (simp_all add: m)
  qed
qed simp

lemma fold_upsert_ok:
  assumes "catalogue_ok rows" "\<And>r. r \<in> set rs \<Longrightarrow> isReleaseTag (li_tag r) \<and> good_clock (published r)"
  shows "catalogue_ok (fold (upsert_release now) rs rows)"
  using assms by (induction rs arbitrary: rows) (simp_all add: upsert_ok)

lemma yank_ok:
  assumes "catalogue_ok rows" "sql_update p (\<lambda>x. x\<lparr>rl_yanked := True\<rparr>) rows = (rows', n)"
  shows "catalogue_ok rows'"
  unfolding sql_updateD(1)[OF assms(2)] by (rule catalogue_ok_map[OF assms(1)]) simp_all

lemma yank_at:
  assumes "sql_update p (\<lambda>x. x\<lparr>rl_yanked := True\<rparr>) rows = (rows', n)"
  shows "release_at rows' t = map_option (\<lambda>x. if p x then x\<lparr>rl_yanked := True\<rparr> else x) (release_at rows t)"
  unfolding sql_updateD(1)[OF assms] by (rule release_at_map) simp

lemma fold_min_le: "fold min ps (p :: int) \<le> q \<longleftrightarrow> p \<le> q \<or> (\<exists>x \<in> set ps. x \<le> q)"
  by (induction ps arbitrary: p) (auto simp: min_le_iff_disj)

lemma listing_since_le:
  assumes "listing \<noteq> []"
  shows "listing_since NewestPage listing \<le> q \<longleftrightarrow> (\<exists>r \<in> set listing. published r \<le> q)"
  using assms by (cases listing) (auto simp: listing_since_def fold_min_le)

text \<open>What a listing proves of a row it does not name.\<close>

definition proved_absent :: "listing_coverage \<Rightarrow> listing_row list \<Rightarrow> string list \<Rightarrow> string option \<Rightarrow> release_row \<Rightarrow> bool" where
  "proved_absent coverage listing keepTags withdrawTag x \<longleftrightarrow>
     (case coverage of
        SingleRelease \<Rightarrow> False
      | WithdrawnTag \<Rightarrow> withdrawTag = Some (rl_tag x)
      | CompleteListing \<Rightarrow> rl_tag x \<notin> set keepTags
      | NewestPage \<Rightarrow> rl_tag x \<notin> set keepTags \<and> (\<exists>r \<in> set listing. published r \<le> rl_publishedAt x))"

definition after_listing ::
  "release_row list \<Rightarrow> listing_row list \<Rightarrow> int \<Rightarrow> listing_coverage \<Rightarrow> string list \<Rightarrow> string option \<Rightarrow> string \<Rightarrow> release_row option" where
  "after_listing rows listing now coverage keepTags withdrawTag t =
     (case find (\<lambda>r. li_tag r = t) listing of
        Some r \<Rightarrow> Some ((listed_row now r)\<lparr>rl_notifiedAt := mark_of rows t\<rparr>)
      | None \<Rightarrow> map_option (\<lambda>x. if proved_absent coverage listing keepTags withdrawTag x then x\<lparr>rl_yanked := True\<rparr> else x)
                  (release_at rows t))"

lemma yank_idem: "rl_yanked x \<Longrightarrow> x\<lparr>rl_yanked := True\<rparr> = x"
  by (cases x) simp

lemma withdrawn_exact:
  assumes "applyReleaseListing rows listing now WithdrawnTag keepTags withdrawTag = (Inr a, rows')" "catalogue_ok rows"
  shows "catalogue_ok rows' \<and> release_at rows' t = after_listing rows listing now WithdrawnTag keepTags withdrawTag t"
proof -
  obtain w where w: "withdrawTag = Some w" "listing = []"
    and r: "rows' = fst (sql_update (\<lambda>x. rl_tag x = w \<and> \<not> rl_yanked x) (\<lambda>x. x\<lparr>rl_yanked := True\<rparr>) rows)"
    using assms(1) by (auto simp: applyReleaseListing_def Let_def split: if_splits option.splits prod.splits)
  obtain n where u: "sql_update (\<lambda>x. rl_tag x = w \<and> \<not> rl_yanked x) (\<lambda>x. x\<lparr>rl_yanked := True\<rparr>) rows = (rows', n)"
    by (metis r prod.collapse)
  show ?thesis
    using yank_ok[OF assms(2) u]
    by (cases "release_at rows t") (auto simp: yank_at[OF u] after_listing_def proved_absent_def w yank_idem)
qed

lemma listed_exact:
  assumes "applyReleaseListing rows listing now coverage keepTags withdrawTag = (Inr a, rows')" "catalogue_ok rows"
    "coverage \<noteq> WithdrawnTag"
  shows "catalogue_ok rows' \<and> release_at rows' t = after_listing rows listing now coverage keepTags withdrawTag t"
proof -
  have ok: "bad_listing [] listing = None" and c1: "coverage = SingleRelease \<longrightarrow> length listing = 1"
    using assms(1,3) by (auto simp: applyReleaseListing_def split: if_splits option.splits)
  note good = bad_listing_None[OF ok]
  show ?thesis
  proof (cases "listing = []")
    case True
    then have "rows = [] \<and> rows' = []" using assms(1,3) c1 by (auto simp: applyReleaseListing_def split: if_splits)
    with True show ?thesis by (simp add: after_listing_def catalogue_ok_def)
  next
    case False
    let ?up = "fold (upsert_release now) listing rows"
    have up: "catalogue_ok ?up" by (rule fold_upsert_ok[OF assms(2)]) (use good in blast)
    note at = fold_upsert_at[of listing now rows, OF conjunct1[OF good]]
    show ?thesis
    proof (cases "coverage = SingleRelease")
      case True
      then have "rows' = ?up" using assms(1) ok c1 False by (auto simp: applyReleaseListing_def Let_def)
      then show ?thesis using up True
        by (auto simp: at after_listing_def proved_absent_def option.map_ident split: option.split)
    next
      case single: False
      let ?ex = "map li_tag listing @ filter (\<lambda>t. isReleaseTag t \<and> t \<notin> set (map li_tag listing)) keepTags"
      let ?p = "\<lambda>x. \<not> rl_yanked x \<and> listing_since coverage listing \<le> rl_publishedAt x \<and> rl_tag x \<notin> set ?ex"
      obtain n where u: "sql_update ?p (\<lambda>x. x\<lparr>rl_yanked := True\<rparr>) ?up = (rows', n)"
        using assms(1,3) ok False single by (auto simp: applyReleaseListing_def Let_def split: prod.splits)
      have "release_at rows' t = after_listing rows listing now coverage keepTags withdrawTag t"
      proof (cases "find (\<lambda>r. li_tag r = t) listing")
        case (Some r)
        then have "r \<in> set listing" "li_tag r = t" using find_Some_set by fast+
        then have "t \<in> set ?ex" by auto
        then show ?thesis using Some \<open>li_tag r = t\<close> by (simp only: yank_at[OF u] at after_listing_def option.case option.map) simp
      next
        case None
        then have t: "t \<notin> li_tag ` set listing" by (auto simp: find_None_iff)
        show ?thesis
        proof (cases "release_at rows t")
          case none: None
          with None show ?thesis by (simp add: yank_at[OF u] at after_listing_def)
        next
          case (Some x)
          then have x: "isReleaseTag (rl_tag x)" "good_clock (rl_publishedAt x)" "rl_tag x = t"
            using assms(2) release_at_in[OF Some] by (auto simp: catalogue_ok_def)
          have "listing_since coverage listing \<le> rl_publishedAt x \<longleftrightarrow>
              coverage = CompleteListing \<or> (\<exists>r \<in> set listing. published r \<le> rl_publishedAt x)"
            using x(2) single assms(3) False
            by (cases coverage) (auto simp: listing_since_le, auto simp: listing_since_def good_clock_def MAX_SAFE_INTEGER_def)
          moreover have "rl_tag x \<notin> set ?ex \<longleftrightarrow> rl_tag x \<notin> set keepTags" using x t by auto
          ultimately have "?p x \<longleftrightarrow> \<not> rl_yanked x \<and> proved_absent coverage listing keepTags withdrawTag x"
            using single assms(3) by (cases coverage) (auto simp: proved_absent_def)
          then show ?thesis using None Some by (auto simp: yank_at[OF u] at after_listing_def yank_idem)
        qed
      qed
      then show ?thesis using yank_ok[OF up u] by blast
    qed
  qed
qed

lemma refused_listing_same:
  "applyReleaseListing rows listing now coverage keepTags withdrawTag = (Inl w, rows') \<Longrightarrow> rows' = rows"
  by (auto simp: applyReleaseListing_def Let_def split: if_splits option.splits prod.splits)


definition demo_listing :: "string \<Rightarrow> int \<Rightarrow> listing_row" where
  "demo_listing t p =
     \<lparr>li_tag = t, li_channel = Some Stable, li_publishedAt = Some p, li_commitSha = None, li_tarballUrl = None,
      li_bundleListed = True, li_notes = None, li_draft = False\<rparr>"

definition demo_catalogue :: "release_row list" where
  "demo_catalogue = map (\<lambda>(t, p). listed_row 1 (demo_listing t p)) [(''v0.0.1'', 10), (''v0.0.2'', 20), (''v0.0.3'', 30)]"

lemma demo_catalogue_ok: "catalogue_ok demo_catalogue"
  by code_simp


section \<open>The announcement\<close>

datatype release_op =
  ListOp "listing_row list" int listing_coverage "string list" "string option"
| MarkOp string int

fun run_release_op :: "release_op \<Rightarrow> release_row list \<Rightarrow> release_row list" where
  "run_release_op (ListOp l now c k w) rows = snd (applyReleaseListing rows l now c k w)"
| "run_release_op (MarkOp t at) rows = snd (markReleaseNotified rows t at)"

lemma mark_ok_at:
  assumes "catalogue_ok rows"
  shows "catalogue_ok (snd (markReleaseNotified rows t at)) \<and>
    (mark_of rows u \<noteq> None \<longrightarrow> mark_of (snd (markReleaseNotified rows t at)) u = mark_of rows u)"
proof -
  let ?p = "\<lambda>x. rl_tag x = t \<and> rl_notifiedAt x = None" and ?f = "\<lambda>x :: release_row. x\<lparr>rl_notifiedAt := Some at\<rparr>"
  obtain rows' n where u: "sql_update ?p ?f rows = (rows', n)" by fastforce
  have at: "release_at rows' u = map_option (\<lambda>x. if ?p x then ?f x else x) (release_at rows u)" for u
    unfolding sql_updateD(1)[OF u] by (rule release_at_map) simp
  have "catalogue_ok rows'" unfolding sql_updateD(1)[OF u] by (rule catalogue_ok_map[OF assms]) simp_all
  moreover have "mark_of rows u \<noteq> None \<longrightarrow> mark_of rows' u = mark_of rows u"
    by (cases "release_at rows u") (auto simp: mark_of_def at)
  ultimately show ?thesis using assms by (auto simp: markReleaseNotified_def u Let_def split: option.split)
qed

lemma run_op_keeps:
  assumes "catalogue_ok rows"
  shows "catalogue_ok (run_release_op p rows) \<and> (mark_of rows u \<noteq> None \<longrightarrow> mark_of (run_release_op p rows) u = mark_of rows u)"
proof (cases p)
  case (MarkOp t at)
  then show ?thesis using mark_ok_at[OF assms] by simp
next
  case (ListOp l now c k w)
  obtain res rows' where a: "applyReleaseListing rows l now c k w = (res, rows')" by fastforce
  show ?thesis
  proof (cases res)
    case (Inl e)
    then show ?thesis using refused_listing_same[of rows l now c k w e rows'] a assms by (auto simp: ListOp)
  next
    case (Inr b)
    have ex: "catalogue_ok rows' \<and> release_at rows' u = after_listing rows l now c k w u"
      using a listed_exact[OF _ assms, of l now c k w b rows' u] withdrawn_exact[OF _ assms, of l now k w b rows' u]
      unfolding Inr by (cases "c = WithdrawnTag") auto
    then have "mark_of rows' u = mark_of rows u"
      by (cases "release_at rows u") (auto simp: mark_of_def after_listing_def split: option.splits)
    with ex show ?thesis by (simp add: ListOp a)
  qed
qed

lemma run_ops_keep:
  assumes "catalogue_ok rows" "mark_of rows u = Some n"
  shows "catalogue_ok (fold run_release_op ops rows) \<and> mark_of (fold run_release_op ops rows) u = Some n"
  using assms by (induction ops arbitrary: rows) (simp_all add: run_op_keeps)

lemma marked_answer:
  assumes "mark_of rows t = Some n" "good_clock at" "isReleaseTag t" "catalogue_ok rows"
  shows "markReleaseNotified rows t at = (Inl (AlreadyNotified n), rows)"
proof -
  obtain x where x: "release_at rows t = Some x" "rl_notifiedAt x = Some n" using assms(1) by (auto simp: mark_of_def bind_eq_Some_conv)
  have "\<not> (rl_tag y = t \<and> rl_notifiedAt y = None)" if "y \<in> set rows" for y
  proof
    assume y: "rl_tag y = t \<and> rl_notifiedAt y = None"
    then have "y = x" using release_at_in[OF x(1)] that assms(4) by (auto simp: catalogue_ok_def distinct_map inj_on_def)
    then show False using y x(2) by simp
  qed
  then have "filter (\<lambda>y. rl_tag y = t \<and> rl_notifiedAt y = None) rows = []" by (simp add: filter_empty_conv)
  then show ?thesis using assms(2,3) x by (auto simp: markReleaseNotified_def sql_update_def release_at_def)
qed

text \<open>A release is announced at most once. After a mark that answered yes, whatever listings and marks follow
  (the tag withdrawn and listed again included), every later mark of that tag is refused and told the time of the first
  one, which stands.\<close>

theorem release_announced_once:
  assumes "catalogue_ok rows" "markReleaseNotified rows t at = (Inr n, rows1)" "good_clock at'"
  shows "markReleaseNotified (fold run_release_op ops rows1) t at' =
    (Inl (AlreadyNotified n), fold run_release_op ops rows1) \<and> n = at \<and> mark_of rows t = None"
proof -
  let ?p = "\<lambda>x. rl_tag x = t \<and> rl_notifiedAt x = None" and ?f = "\<lambda>x :: release_row. x\<lparr>rl_notifiedAt := Some at\<rparr>"
  obtain rows' k where u: "sql_update ?p ?f rows = (rows', k)" by fastforce
  have g: "good_clock at" "isReleaseTag t" "k > 0" "n = at" "rows1 = rows'"
    using assms(2) by (auto simp: markReleaseNotified_def u Let_def split: if_splits option.splits)
  then obtain x where x: "x \<in> set rows" "?p x" using sql_update_pos[of ?p ?f rows] u by auto
  have rx: "release_at rows t = Some x"
  proof -
    obtain z where z: "release_at rows t = Some z" using x release_at_None[of rows t] by fastforce
    then have "z \<in> set rows" "rl_tag z = t" using release_at_in by blast+
    then have "z = x" using assms(1) x by (auto simp: catalogue_ok_def distinct_map inj_on_def)
    with z show ?thesis by simp
  qed
  have "release_at rows' t = map_option (\<lambda>x. if ?p x then ?f x else x) (release_at rows t)"
    unfolding sql_updateD(1)[OF u] by (rule release_at_map) simp
  then have m: "mark_of rows1 t = Some at" using rx x(2) by (simp add: mark_of_def g(5))
  have ok: "catalogue_ok rows1" using mark_ok_at[OF assms(1), of t at] assms(2) by simp
  note k = run_ops_keep[OF ok m, of ops]
  show ?thesis using marked_answer[of "fold run_release_op ops rows1" t at at'] k assms(3) g rx x(2) by (simp add: mark_of_def)
qed

theorem release_announced_once_witness:
  "\<exists>rows1. markReleaseNotified demo_catalogue ''v0.0.2'' 7 = (Inr 7, rows1) \<and>
     (let ops = [ListOp [] 8 WithdrawnTag [] (Some ''v0.0.2''), ListOp [demo_listing ''v0.0.2'' 20] 9 SingleRelease [] None] in
      fst (markReleaseNotified (fold run_release_op ops rows1) ''v0.0.2'' 11) = Inl (AlreadyNotified 7))"
proof -
  let ?r = "markReleaseNotified demo_catalogue ''v0.0.2'' 7"
  have "fst ?r = Inr 7" by code_simp
  then obtain rows1 where r: "?r = (Inr 7, rows1)" by (cases ?r) simp
  moreover have "good_clock 11" by code_simp
  ultimately show ?thesis
    using release_announced_once[OF demo_catalogue_ok r, of 11
        "[ListOp [] 8 WithdrawnTag [] (Some ''v0.0.2''), ListOp [demo_listing ''v0.0.2'' 20] 9 SingleRelease [] None]"]
    by (auto simp: Let_def)
qed

end
