(* ===== verification/IntentStore.thy ===== *)
theory IntentStore
  imports NodeStore UpdateProjection
begin

text \<open>
  The desired state (\<open>server/src/coord/store.ts\<close>): the \<open>update_intent\<close> and \<open>update_epoch\<close> tables with their one
  writer \<open>setIntent\<close>, the journal it appends to first (\<open>coord/updateintentlog.ts\<close>, as text) and the kernel both share
  (\<open>journalKernel.ts\<close>). A patch field is left alone, set, or a value outside its vocabulary. The journal is \<open>None\<close>
  when its file is missing.
\<close>

section \<open>The journal kernel\<close>

definition EPOCH_KEY :: string where "EPOCH_KEY = [CHR 0x22] @ ''epoch'' @ [CHR 0x22] @ '':''"

text \<open>The first match of the expression: the key, then one digit at least.\<close>

fun epoch_match :: "string \<Rightarrow> nat option" where
  "epoch_match [] = None"
| "epoch_match (c # cs) =
     (if starts_with (c # cs) EPOCH_KEY \<and> takeWhile digit_char (drop (length EPOCH_KEY) (c # cs)) \<noteq> []
      then Some (undec (takeWhile digit_char (drop (length EPOCH_KEY) (c # cs))))
      else epoch_match cs)"

definition max_epoch_line :: "nat option \<Rightarrow> string \<Rightarrow> nat option" where
  "max_epoch_line m line =
     (if line = [] then m
      else case epoch_match line of
        None \<Rightarrow> m
      | Some n \<Rightarrow> if (case m of None \<Rightarrow> True | Some k \<Rightarrow> n > k) then Some n else m)"

text \<open>\<open>None\<close> is the thrown error.\<close>

definition maxJournalEpoch :: "string \<Rightarrow> nat option" where
  "maxJournalEpoch journal = foldl max_epoch_line None (split_on (CHR 0x0A) journal)"

definition journalFloor :: "nat option \<Rightarrow> nat option \<Rightarrow> nat option" where
  "journalFloor dbMax fileMax =
     (case (dbMax, fileMax) of
        (None, _) \<Rightarrow> fileMax
      | (_, None) \<Rightarrow> dbMax
      | (Some d, Some f) \<Rightarrow> Some (max d f))"

text \<open>\<open>appendThenApply\<close>: decide, append, apply. A step that throws is \<open>None\<close>; the second component is the journal.\<close>

definition appendThenApply ::
  "('stop + 'go) option \<Rightarrow> ('go \<Rightarrow> bool \<times> 'log) \<Rightarrow> ('go \<Rightarrow> 'r option) \<Rightarrow> 'log \<Rightarrow> ('stop + 'r) option \<times> 'log" where
  "appendThenApply decided put applied log =
     (case decided of
        None \<Rightarrow> (None, log)
      | Some (Inl s) \<Rightarrow> (Some (Inl s), log)
      | Some (Inr d) \<Rightarrow>
          (case put d of
             (False, log') \<Rightarrow> (None, log')
           | (True, log') \<Rightarrow> (map_option Inr (applied d), log')))"

section \<open>Rows, patches, answers\<close>

datatype notify_mode = NotifyChannel | NotifyStable | NotifyOff

datatype 'a patch_field = LeaveField | BadField | SetField 'a

record intent_patch =
  pt_channel :: "update_channel patch_field"
  pt_pinnedTag :: "string option patch_field"
  pt_auto :: "auto_mode patch_field"
  pt_notify :: "notify_mode patch_field"

record intent_row =
  ir_scope :: string
  ir_channel :: "update_channel option"
  ir_pinnedTag :: "string option"
  ir_auto :: auto_mode
  ir_notify :: notify_mode
  ir_setAt :: int
  ir_setBy :: string

record intent_db =
  tb_rows :: "intent_row list"
  tb_epoch :: nat
  tb_issuedAt :: int

datatype intent_field = ChannelField | PinnedTagField | AutoField | NotifyField

datatype intent_why =
  EmptyPatch | BadIntentField intent_field | UnknownScope string | NoChannelIn string string
| JournalUnreadable | JournalUnwritable | WriteThrew

definition INTENT_AUTO_FALLBACK :: auto_mode where "INTENT_AUTO_FALLBACK = AutoOff"
definition INTENT_NOTIFY_FALLBACK :: notify_mode where "INTENT_NOTIFY_FALLBACK = NotifyChannel"
definition INTENT_SET_BY :: string where "INTENT_SET_BY = ''pwa''"

text \<open>The tables as the migration leaves them.\<close>

definition seeded_intents :: intent_db where
  "seeded_intents =
     \<lparr>tb_rows = [\<lparr>ir_scope = FLEET_SCOPE, ir_channel = Some Stable, ir_pinnedTag = None, ir_auto = AutoOff,
                  ir_notify = NotifyChannel, ir_setAt = 0, ir_setBy = ''migration''\<rparr>],
      tb_epoch = 0, tb_issuedAt = 0\<rparr>"

definition badIntentField :: "intent_patch \<Rightarrow> intent_field option" where
  "badIntentField p =
     (if pt_channel p = BadField then Some ChannelField
      else if (case pt_pinnedTag p of BadField \<Rightarrow> True | SetField (Some t) \<Rightarrow> \<not> isReleaseTag t | _ \<Rightarrow> False) then Some PinnedTagField
      else if pt_auto p = BadField then Some AutoField
      else if pt_notify p = BadField then Some NotifyField
      else None)"

definition intentFor :: "intent_db \<Rightarrow> string \<Rightarrow> intent_row option" where
  "intentFor db scope = find (\<lambda>r. ir_scope r = scope) (tb_rows db)"

definition intents :: "intent_db \<Rightarrow> intent_row list" where
  "intents db = sort_key ir_scope (tb_rows db)"

definition updateEpoch :: "intent_db \<Rightarrow> nat \<times> int" where "updateEpoch db = (tb_epoch db, tb_issuedAt db)"

section \<open>A line of the journal\<close>

text \<open>\<open>JSON.stringify\<close> of a string of one-byte characters.\<close>

definition hex_digit :: "nat \<Rightarrow> char" where
  "hex_digit n = (if n < 10 then char_of (48 + n) else char_of (87 + n))"

definition json_char :: "char \<Rightarrow> string" where
  "json_char c =
     (if c = CHR 0x22 \<or> c = CHR 0x5C then [CHR 0x5C, c]
      else if c = CHR 0x08 then [CHR 0x5C, CHR ''b'']
      else if c = CHR 0x09 then [CHR 0x5C, CHR ''t'']
      else if c = CHR 0x0A then [CHR 0x5C, CHR ''n'']
      else if c = CHR 0x0C then [CHR 0x5C, CHR ''f'']
      else if c = CHR 0x0D then [CHR 0x5C, CHR ''r'']
      else if (of_char c :: nat) < 32
      then [CHR 0x5C, CHR ''u'', CHR ''0'', CHR ''0'', hex_digit (of_char c div 16), hex_digit (of_char c mod 16)]
      else [c])"

definition json_string :: "string \<Rightarrow> string" where
  "json_string s = [CHR 0x22] @ concat (map json_char s) @ [CHR 0x22]"

definition json_key :: "string \<Rightarrow> string" where "json_key k = '','' @ json_string k @ '':''"

definition json_int :: "int \<Rightarrow> string" where
  "json_int n = (if n < 0 then ''-'' @ dec (nat (- n)) else dec (nat n))"

definition notify_word :: "notify_mode \<Rightarrow> string" where
  "notify_word n = (case n of NotifyChannel \<Rightarrow> ''channel'' | NotifyStable \<Rightarrow> ''stable'' | NotifyOff \<Rightarrow> ''off'')"

text \<open>The text \<open>append\<close> adds, without and with its end of line.\<close>

definition intent_body :: "nat \<Rightarrow> intent_row \<Rightarrow> string" where
  "intent_body epoch r =
     ''{'' @ EPOCH_KEY @ dec epoch @ json_key ''scope'' @ json_string (ir_scope r) @
     json_key ''channel'' @ (case ir_channel r of None \<Rightarrow> ''null'' | Some c \<Rightarrow> json_string (channel_word c)) @
     json_key ''pinnedTag'' @ (case ir_pinnedTag r of None \<Rightarrow> ''null'' | Some t \<Rightarrow> json_string t) @
     json_key ''auto'' @ json_string (auto_word (ir_auto r)) @ json_key ''notify'' @ json_string (notify_word (ir_notify r)) @
     json_key ''setBy'' @ json_string (ir_setBy r) @ json_key ''at'' @ json_int (ir_setAt r) @ ''}''"

definition intent_line :: "nat \<Rightarrow> intent_row \<Rightarrow> string" where
  "intent_line epoch r = intent_body epoch r @ [CHR 0x0A]"

text \<open>What the append did: the line, or an error after the file took so many of its characters (\<open>None\<close>: the
  file is as it was).\<close>

datatype append_outcome = AppendOk | AppendFailed "nat option"

definition append_line :: "append_outcome \<Rightarrow> string \<Rightarrow> string option \<Rightarrow> bool \<times> string option" where
  "append_line outcome line log =
     (let old = (case log of None \<Rightarrow> [] | Some t \<Rightarrow> t) in
      case outcome of
        AppendOk \<Rightarrow> (True, Some (old @ line))
      | AppendFailed None \<Rightarrow> (False, log)
      | AppendFailed (Some n) \<Rightarrow> (False, Some (old @ take n line)))"

text \<open>\<open>maxEpoch\<close>: the outer \<open>None\<close> is a throw.\<close>

definition maxEpoch :: "bool \<Rightarrow> string option \<Rightarrow> nat option option" where
  "maxEpoch readable log =
     (if \<not> readable then None
      else case log of None \<Rightarrow> Some None | Some t \<Rightarrow> map_option Some (maxJournalEpoch t))"

section \<open>The writer\<close>

definition field_or :: "'a patch_field \<Rightarrow> 'a \<Rightarrow> 'a" where
  "field_or f d = (case f of SetField v \<Rightarrow> v | _ \<Rightarrow> d)"

definition known_scope :: "node_db \<Rightarrow> string \<Rightarrow> bool" where
  "known_scope ndb scope \<longleftrightarrow>
     scope = FLEET_SCOPE \<or> isNodeId scope \<and> (case node_at ndb scope of None \<Rightarrow> False | Some r \<Rightarrow> nd_supersededBy r = None)"

text \<open>The channel and the row a patch asks for: the scope's own row, or the fleet's copied at its first write.\<close>

definition patched_channel :: "intent_db \<Rightarrow> string \<Rightarrow> intent_patch \<Rightarrow> update_channel option" where
  "patched_channel db scope p =
     (let base = (case intentFor db scope of Some r \<Rightarrow> Some r | None \<Rightarrow> intentFor db FLEET_SCOPE) in
      case pt_channel p of SetField c \<Rightarrow> Some c | _ \<Rightarrow> Option.bind base ir_channel)"

definition patched_row :: "intent_db \<Rightarrow> string \<Rightarrow> intent_patch \<Rightarrow> update_channel \<Rightarrow> int \<Rightarrow> intent_row" where
  "patched_row db scope p channel now =
     (let base = (case intentFor db scope of Some r \<Rightarrow> Some r | None \<Rightarrow> intentFor db FLEET_SCOPE) in
      \<lparr>ir_scope = scope, ir_channel = Some channel,
       ir_pinnedTag = field_or (pt_pinnedTag p) (Option.bind base ir_pinnedTag),
       ir_auto = field_or (pt_auto p) (case base of None \<Rightarrow> INTENT_AUTO_FALLBACK | Some r \<Rightarrow> ir_auto r),
       ir_notify = field_or (pt_notify p) (case base of None \<Rightarrow> INTENT_NOTIFY_FALLBACK | Some r \<Rightarrow> ir_notify r),
       ir_setAt = now, ir_setBy = INTENT_SET_BY\<rparr>)"

definition write_intent :: "intent_row \<Rightarrow> nat \<Rightarrow> int \<Rightarrow> intent_db \<Rightarrow> intent_db" where
  "write_intent row epoch now db =
     db\<lparr>tb_rows := (if list_ex (\<lambda>r. ir_scope r = ir_scope row) (tb_rows db)
                    then map (\<lambda>r. if ir_scope r = ir_scope row then row else r) (tb_rows db) else tb_rows db @ [row]),
        tb_epoch := epoch, tb_issuedAt := now\<rparr>"

text \<open>Arguments after the clock: whether the journal could be read, what the append did, whether the rows and the
  commit went through. The answer, the tables (rolled back on every throw) and the journal.\<close>

definition setIntent ::
  "node_db \<Rightarrow> intent_db \<Rightarrow> string option \<Rightarrow> string \<Rightarrow> intent_patch \<Rightarrow> int \<Rightarrow> bool \<Rightarrow> append_outcome \<Rightarrow> bool \<Rightarrow>
   (intent_why + intent_row \<times> nat) \<times> intent_db \<times> string option" where
  "setIntent ndb db log scope p now readable outcome committed =
     (if pt_channel p = LeaveField \<and> pt_pinnedTag p = LeaveField \<and> pt_auto p = LeaveField \<and> pt_notify p = LeaveField
      then (Inl EmptyPatch, db, log)
      else case badIntentField p of
        Some f \<Rightarrow> (Inl (BadIntentField f), db, log)
      | None \<Rightarrow>
          if \<not> known_scope ndb scope then (Inl (UnknownScope scope), db, log)
          else case patched_channel db scope p of
            None \<Rightarrow> (Inl (NoChannelIn scope (if intentFor db scope \<noteq> None then scope else FLEET_SCOPE)), db, log)
          | Some channel \<Rightarrow>
              (let row = patched_row db scope p channel now;
                   decided = map_option (\<lambda>fileMax. Inr (1 + (case journalFloor (Some (tb_epoch db)) fileMax of None \<Rightarrow> 0 | Some f \<Rightarrow> f))) (maxEpoch readable log) in
               case appendThenApply decided (\<lambda>epoch. append_line outcome (intent_line epoch row) log)
                      (\<lambda>epoch. if committed then Some (epoch, write_intent row epoch now db) else None) log of
                 (Some (Inr (epoch, db')), log') \<Rightarrow> (Inr (row, epoch), db', log')
               | (Some (Inl ()), log') \<Rightarrow> (Inl WriteThrew, db, log')
               | (None, log') \<Rightarrow>
                   (Inl (if decided = None then JournalUnreadable else if outcome \<noteq> AppendOk then JournalUnwritable else WriteThrew),
                    db, log')))"

end
