(* ===== verification/IntentProps.thy ===== *)
theory IntentProps
  imports IntentStore
begin

text \<open>
  The epoch of the desired state: what a log-first journal gives its writer, stated once as a locale, the text of
  the intent journal as an instance of it, and that no epoch is ever answered twice, restores of the
  database included.
\<close>

section \<open>What a log-first journal gives\<close>

locale epoch_journal =
  fixes good :: "'log \<Rightarrow> bool"
    and top :: "'log \<Rightarrow> nat"
    and put :: "nat \<Rightarrow> 'v \<Rightarrow> 'log \<Rightarrow> 'log"
  assumes put_good: "good l \<Longrightarrow> good (put e v l)"
    and put_top: "good l \<Longrightarrow> top (put e v l) = max (top l) e"
begin

text \<open>A number issued past the floor is new, and becomes the floor: whatever the database said, when it never
  ran ahead of the journal.\<close>

lemma issue_fresh: "d \<le> top l \<Longrightarrow> 1 + max d (top l) = Suc (top l)"
  by simp

lemma issue_top: "good l \<Longrightarrow> d \<le> top l \<Longrightarrow> good (put (1 + max d (top l)) v l) \<and> top (put (1 + max d (top l)) v l) = Suc (top l)"
  by (simp add: put_good put_top)

end

section \<open>The text of the intent journal\<close>

lemma EPOCH_KEY_chars: "set EPOCH_KEY = {CHR 0x22, CHR ''e'', CHR ''p'', CHR ''o'', CHR ''c'', CHR ''h'', CHR '':''}"
  by (auto simp: EPOCH_KEY_def)

lemma hex_digit_line: "n < 16 \<Longrightarrow> hex_digit n \<noteq> CHR 0x0A"
proof -
  assume "n < 16"
  then have "n \<in> set [0..<16]" by simp
  moreover have "list_all (\<lambda>n. hex_digit n \<noteq> CHR 0x0A) [0..<16]" by code_simp
  ultimately show ?thesis unfolding list_all_iff by blast
qed

lemma json_char_line: "CHR 0x0A \<notin> set (json_char c)"
proof -
  have "(of_char c :: nat) < 32 \<Longrightarrow> of_char c div 16 < (16 :: nat)" by simp
  then show ?thesis
    using hex_digit_line[of "of_char c div 16"] hex_digit_line[of "of_char c mod 16"] by (auto simp: json_char_def)
qed

lemma json_line: "CHR 0x0A \<notin> set (json_string s)" "CHR 0x0A \<notin> set (json_key s)" "CHR 0x0A \<notin> set (json_int n)"
proof -
  show s: "CHR 0x0A \<notin> set (json_string s)" for s using json_char_line by (auto simp: json_string_def)
  show "CHR 0x0A \<notin> set (json_key s)" using s by (simp add: json_key_def)
  have "\<not> digit_char (CHR 0x0A)" by code_simp
  then show "CHR 0x0A \<notin> set (json_int n)" using digit_not_in_dec by (simp add: json_int_def)
qed

lemma body_line: "CHR 0x0A \<notin> set (intent_body e r)"
proof -
  have "\<not> digit_char (CHR 0x0A)" by code_simp
  then have "CHR 0x0A \<notin> set (dec e)" by (rule digit_not_in_dec)
  then show ?thesis
    using json_line by (auto simp: intent_body_def EPOCH_KEY_chars split: option.splits)
qed

lemma takeWhile_digits: "takeWhile digit_char (dec n @ CHR '','' # s) = dec n"
proof -
  have "\<not> digit_char (CHR '','')" by code_simp
  moreover have "\<forall>c \<in> set (dec n). digit_char c" using dec_digits[of n] by (simp add: list_all_iff)
  ultimately show ?thesis by (simp add: takeWhile_append2)
qed

lemma epoch_match_key: "epoch_match (EPOCH_KEY @ dec e @ CHR '','' # s) = Some e"
proof -
  obtain c k where k: "EPOCH_KEY = c # k" by (simp add: EPOCH_KEY_def)
  have "drop (length EPOCH_KEY) (EPOCH_KEY @ dec e @ CHR '','' # s) = dec e @ CHR '','' # s" by simp
  then have "takeWhile digit_char (drop (length EPOCH_KEY) (EPOCH_KEY @ dec e @ CHR '','' # s)) = dec e"
    by (simp only: takeWhile_digits)
  moreover have "starts_with (EPOCH_KEY @ dec e @ CHR '','' # s) EPOCH_KEY" by simp
  ultimately show ?thesis using dec_not_Nil[of e] undec_dec[of e] by (simp add: k)
qed

lemma body_epoch: "epoch_match (intent_body e r) = Some e"
proof -
  obtain s where s: "intent_body e r = CHR ''{'' # EPOCH_KEY @ dec e @ CHR '','' # s"
    by (simp add: intent_body_def json_key_def)
  have "\<not> prefix EPOCH_KEY (CHR ''{'' # t)" for t by (simp add: EPOCH_KEY_def)
  then show ?thesis by (simp add: s epoch_match_key)
qed

definition log_top :: "string option \<Rightarrow> nat" where
  "log_top log = (case log of None \<Rightarrow> 0 | Some t \<Rightarrow> (case maxJournalEpoch t of None \<Rightarrow> 0 | Some n \<Rightarrow> n))"

text \<open>A journal of whole lines that names an epoch, or no journal.\<close>

definition log_good :: "string option \<Rightarrow> bool" where
  "log_good log \<longleftrightarrow> (case log of None \<Rightarrow> True | Some t \<Rightarrow> (\<exists>u. t = u @ [CHR 0x0A]) \<and> maxJournalEpoch t \<noteq> None)"

definition log_put :: "nat \<Rightarrow> intent_row \<Rightarrow> string option \<Rightarrow> string option" where
  "log_put e r log = snd (append_line AppendOk (intent_line e r) log)"

lemma max_after_line:
  "maxJournalEpoch (u @ CHR 0x0A # intent_line e r) = max_epoch_line (maxJournalEpoch (u @ [CHR 0x0A])) (intent_body e r)"
  by (simp add: maxJournalEpoch_def intent_line_def split_on_append_sep split_on_no_sep[OF body_line] max_epoch_line_def[of _ "[]"])

lemma max_first_line: "maxJournalEpoch (intent_line e r) = Some e"
  using body_epoch[of e r]
  by (simp add: maxJournalEpoch_def intent_line_def split_on_append_sep split_on_no_sep[OF body_line] max_epoch_line_def)
     (auto simp: intent_body_def)

lemma max_line: "max_epoch_line m (intent_body e r) = Some (case m of None \<Rightarrow> e | Some k \<Rightarrow> max k e)"
proof -
  have "intent_body e r \<noteq> []" by (simp add: intent_body_def)
  then show ?thesis by (auto simp: max_epoch_line_def body_epoch split: option.split)
qed

interpretation intent_log: epoch_journal log_good log_top log_put
proof
  fix l :: "string option" and e v
  assume g: "log_good l"
  have "log_good (log_put e v l) \<and> log_top (log_put e v l) = max (log_top l) e"
  proof (cases l)
    case None
    then show ?thesis by (simp add: log_put_def append_line_def log_good_def log_top_def max_first_line) (simp add: intent_line_def)
  next
    case (Some t)
    with g obtain u n where u: "t = u @ [CHR 0x0A]" "maxJournalEpoch t = Some n" by (auto simp: log_good_def)
    have p: "log_put e v l = Some (u @ CHR 0x0A # intent_line e v)" by (simp add: log_put_def append_line_def Some u(1))
    have "maxJournalEpoch (u @ CHR 0x0A # intent_line e v) = Some (max n e)"
      unfolding max_after_line using u by (simp add: max_line)
    moreover have "\<exists>w. u @ CHR 0x0A # intent_line e v = w @ [CHR 0x0A]"
      by (rule exI[of _ "u @ CHR 0x0A # intent_body e v"]) (simp add: intent_line_def)
    ultimately show ?thesis unfolding p log_good_def log_top_def using Some u(2) by simp
  qed
  then show "log_good (log_put e v l)" "log_top (log_put e v l) = max (log_top l) e" by auto
qed

section \<open>One write\<close>

lemma journalFloor_Some: "(case journalFloor (Some d) m of None \<Rightarrow> 0 | Some f \<Rightarrow> f) = max d (case m of None \<Rightarrow> 0 | Some f \<Rightarrow> f)"
  by (simp add: journalFloor_def split: option.split)

lemma good_max: "log_good log \<Longrightarrow> maxEpoch True log = Some (case log of None \<Rightarrow> None | Some _ \<Rightarrow> Some (log_top log))"
  by (auto simp: maxEpoch_def log_good_def log_top_def split: option.split)

lemma floor_top:
  assumes "log_good log"
  shows "1 + (case journalFloor (Some d) (case log of None \<Rightarrow> None | Some _ \<Rightarrow> Some (log_top log)) of None \<Rightarrow> 0 | Some f \<Rightarrow> f) =
    1 + max d (log_top log)"
  unfolding journalFloor_Some using assms by (simp add: log_top_def split: option.split)

definition refused_early :: "node_db \<Rightarrow> intent_db \<Rightarrow> string \<Rightarrow> intent_patch \<Rightarrow> bool" where
  "refused_early ndb db scope p \<longleftrightarrow>
     (pt_channel p = LeaveField \<and> pt_pinnedTag p = LeaveField \<and> pt_auto p = LeaveField \<and> pt_notify p = LeaveField) \<or>
     badIntentField p \<noteq> None \<or> \<not> known_scope ndb scope \<or> patched_channel db scope p = None"

lemma setIntent_early:
  assumes "refused_early ndb db scope p"
  shows "\<exists>w. setIntent ndb db log scope p now readable outcome committed = (Inl w, db, log)"
  using assms unfolding refused_early_def setIntent_def by (auto split: option.split)

lemma setIntent_late:
  assumes "\<not> refused_early ndb db scope p"
  obtains channel where "patched_channel db scope p = Some channel"
    "setIntent ndb db log scope p now readable outcome committed =
       (let row = patched_row db scope p channel now;
            decided = map_option (\<lambda>fileMax. Inr (1 + (case journalFloor (Some (tb_epoch db)) fileMax of None \<Rightarrow> 0 | Some f \<Rightarrow> f)))
              (maxEpoch readable log) in
        case appendThenApply decided (\<lambda>epoch. append_line outcome (intent_line epoch row) log)
               (\<lambda>epoch. if committed then Some (epoch, write_intent row epoch now db) else None) log of
          (Some (Inr (epoch, db')), log') \<Rightarrow> (Inr (row, epoch), db', log')
        | (Some (Inl ()), log') \<Rightarrow> (Inl WriteThrew, db, log')
        | (None, log') \<Rightarrow>
            (Inl (if decided = None then JournalUnreadable else if outcome \<noteq> AppendOk then JournalUnwritable else WriteThrew), db, log'))"
proof -
  obtain channel where c: "patched_channel db scope p = Some channel" using assms by (auto simp: refused_early_def)
  have n: "badIntentField p = None" "known_scope ndb scope"
    "\<not> (pt_channel p = LeaveField \<and> pt_pinnedTag p = LeaveField \<and> pt_auto p = LeaveField \<and> pt_notify p = LeaveField)"
    using assms by (auto simp: refused_early_def)
  show thesis
    by (rule that[OF c]) (simp only: setIntent_def n c if_False option.case not_True_eq_False)
qed

text \<open>Every outcome of a write whose append is whole or not at all: the tables and the journal stay, the journal alone
  grows by the next epoch, or both do and the answer is that epoch.\<close>

lemma setIntent_cases:
  assumes "log_good log" "tb_epoch db \<le> log_top log" "outcome = AppendOk \<or> outcome = AppendFailed None"
    "setIntent ndb db log scope p now readable outcome committed = (res, db', log')"
  obtains "db' = db" "log' = log" "\<exists>w. res = Inl w"
  | r where "db' = db" "log' = log_put (Suc (log_top log)) r log" "\<exists>w. res = Inl w"
  | r where "db' = write_intent r (Suc (log_top log)) now db" "log' = log_put (Suc (log_top log)) r log"
      "res = Inr (r, Suc (log_top log))"
proof (cases "refused_early ndb db scope p")
  case True
  then show thesis using setIntent_early[OF True, of log now readable outcome committed] assms(4) that(1) by auto
next
  case False
  obtain channel where s: "setIntent ndb db log scope p now readable outcome committed =
       (let row = patched_row db scope p channel now;
            decided = map_option (\<lambda>fileMax. Inr (1 + (case journalFloor (Some (tb_epoch db)) fileMax of None \<Rightarrow> 0 | Some f \<Rightarrow> f)))
              (maxEpoch readable log) in
        case appendThenApply decided (\<lambda>epoch. append_line outcome (intent_line epoch row) log)
               (\<lambda>epoch. if committed then Some (epoch, write_intent row epoch now db) else None) log of
          (Some (Inr (epoch, db')), log') \<Rightarrow> (Inr (row, epoch), db', log')
        | (Some (Inl ()), log') \<Rightarrow> (Inl WriteThrew, db, log')
        | (None, log') \<Rightarrow>
            (Inl (if decided = None then JournalUnreadable else if outcome \<noteq> AppendOk then JournalUnwritable else WriteThrew), db, log'))"
    by (rule setIntent_late[OF False, of log now readable outcome committed])
  let ?row = "patched_row db scope p channel now" and ?e = "Suc (log_top log)"
  show thesis
  proof (cases readable)
    case False
    then have "maxEpoch readable log = None" by (simp add: maxEpoch_def)
    then have "setIntent ndb db log scope p now readable outcome committed = (Inl JournalUnreadable, db, log)"
      using s by (simp add: appendThenApply_def)
    from assms(4)[unfolded this] have "db' = db" "log' = log" "\<exists>w. res = Inl w" by auto
    then show thesis by (rule that(1))
  next
    case True
    have m: "maxEpoch readable log = Some (case log of None \<Rightarrow> None | Some _ \<Rightarrow> Some (log_top log))"
      using good_max[OF assms(1)] True by simp
    have n: "1 + (case journalFloor (Some (tb_epoch db)) (case log of None \<Rightarrow> None | Some _ \<Rightarrow> Some (log_top log)) of
        None \<Rightarrow> 0 | Some f \<Rightarrow> f) = ?e"
      using floor_top[OF assms(1), of "tb_epoch db"] assms(2) by simp
    have ok: "append_line AppendOk (intent_line e r) log = (True, log_put e r log)" for e r
      by (simp add: log_put_def append_line_def)
    note s' = s[unfolded m option.map n Let_def appendThenApply_def option.case sum.case]
    show thesis
    proof (cases "outcome = AppendOk")
      case o: True
      show thesis
      proof (cases committed)
        case True
        then have "db' = write_intent ?row ?e now db" "log' = log_put ?e ?row log" "res = Inr (?row, ?e)"
          using s' assms(4) by (simp_all add: o ok)
        then show thesis by (rule that(3))
      next
        case False
        then have "setIntent ndb db log scope p now readable outcome committed = (Inl WriteThrew, db, log_put ?e ?row log)"
          using s' by (simp add: o ok)
        from assms(4)[unfolded this] have "db' = db" "log' = log_put ?e ?row log" "\<exists>w. res = Inl w" by auto
        then show thesis by (rule that(2))
      qed
    next
      case False
      then have "outcome = AppendFailed None" using assms(3) by blast
      then have "setIntent ndb db log scope p now readable outcome committed = (Inl JournalUnwritable, db, log)"
        using s' by (simp add: append_line_def)
      from assms(4)[unfolded this] have "db' = db" "log' = log" "\<exists>w. res = Inl w" by auto
      then show thesis by (rule that(1))
    qed
  qed
qed

section \<open>Runs with restores\<close>

text \<open>The tables, every state they ever had, and the journal. A write may find the journal unreadable, fail to append, or
  fail after the append; a restore brings back any earlier state of the tables and leaves the journal.\<close>

record intent_world =
  iw_db :: intent_db
  iw_past :: "intent_db list"
  iw_log :: "string option"

datatype intent_event = SetEvent node_db string intent_patch int bool bool bool | RestoreEvent nat

definition first_world :: intent_world where
  "first_world = \<lparr>iw_db = seeded_intents, iw_past = [seeded_intents], iw_log = None\<rparr>"

fun intent_event_step :: "intent_event \<Rightarrow> intent_world \<Rightarrow> nat option \<times> intent_world" where
  "intent_event_step (SetEvent ndb scope p now readable appended committed) w =
     (case setIntent ndb (iw_db w) (iw_log w) scope p now readable (if appended then AppendOk else AppendFailed None) committed of
        (res, db, log) \<Rightarrow>
          ((case res of Inl _ \<Rightarrow> None | Inr (_, epoch) \<Rightarrow> Some epoch),
           \<lparr>iw_db = db, iw_past = db # iw_past w, iw_log = log\<rparr>))"
| "intent_event_step (RestoreEvent i) w =
     (None, if i < length (iw_past w) then w\<lparr>iw_db := iw_past w ! i\<rparr> else w)"

text \<open>The epochs a run answers, in order.\<close>

fun answered :: "intent_event list \<Rightarrow> intent_world \<Rightarrow> nat list" where
  "answered [] w = []"
| "answered (e # es) w =
     (case intent_event_step e w of
        (None, w') \<Rightarrow> answered es w'
      | (Some n, w') \<Rightarrow> n # answered es w')"

definition world_ok :: "intent_world \<Rightarrow> bool" where
  "world_ok w \<longleftrightarrow> log_good (iw_log w) \<and> (\<forall>db \<in> set (iw_db w # iw_past w). tb_epoch db \<le> log_top (iw_log w))"

lemma first_world_ok: "world_ok first_world"
  by (simp add: world_ok_def first_world_def log_good_def log_top_def seeded_intents_def)

lemma world_step:
  assumes "world_ok w" "intent_event_step e w = (ans, w')"
  shows "world_ok w' \<and> log_top (iw_log w) \<le> log_top (iw_log w') \<and>
    (\<forall>n. ans = Some n \<longrightarrow> log_top (iw_log w) < n \<and> n \<le> log_top (iw_log w'))"
proof (cases e)
  case (RestoreEvent i)
  then show ?thesis using assms by (auto simp: world_ok_def split: if_splits)
next
  case (SetEvent ndb scope p now readable appended committed)
  let ?o = "if appended then AppendOk else AppendFailed None" and ?top = "log_top (iw_log w)"
  obtain res db log where r: "setIntent ndb (iw_db w) (iw_log w) scope p now readable ?o committed = (res, db, log)"
    by (metis prod_cases3)
  have w': "w' = \<lparr>iw_db = db, iw_past = db # iw_past w, iw_log = log\<rparr>"
    and ans: "ans = (case res of Inl _ \<Rightarrow> None | Inr (_, epoch) \<Rightarrow> Some epoch)"
    using assms(2) by (simp_all add: SetEvent r)
  have g: "log_good (iw_log w)" "tb_epoch (iw_db w) \<le> ?top" "\<forall>db \<in> set (iw_past w). tb_epoch db \<le> ?top"
    using assms(1) by (simp_all add: world_ok_def)
  have up: "log_good (log_put (Suc ?top) x (iw_log w)) \<and> log_top (log_put (Suc ?top) x (iw_log w)) = Suc ?top" for x
    using intent_log.put_good[OF g(1)] intent_log.put_top[OF g(1)] by simp
  have "?o = AppendOk \<or> ?o = AppendFailed None" by simp
  from g(1,2) this r show ?thesis
  proof (cases rule: setIntent_cases)
    case 1
    then show ?thesis using g by (auto simp: w' ans world_ok_def)
  next
    case (2 x)
    then show ?thesis using g up[of x] by (auto simp: w' ans world_ok_def)
  next
    case (3 x)
    then show ?thesis using g up[of x] by (auto simp: w' ans world_ok_def write_intent_def)
  qed
qed

lemma answered_above:
  assumes "world_ok w"
  shows "sorted_wrt (<) (answered es w) \<and> (\<forall>n \<in> set (answered es w). log_top (iw_log w) < n)"
  using assms
proof (induction es arbitrary: w)
  case (Cons e es)
  obtain ans w' where s: "intent_event_step e w = (ans, w')" by fastforce
  note st = world_step[OF Cons.prems s]
  note ih = Cons.IH[OF conjunct1[OF st]]
  show ?case
  proof (cases ans)
    case None
    then show ?thesis using s st ih by force
  next
    case (Some n)
    then show ?thesis using s st ih by force
  qed
qed simp

definition demo_intent :: "update_channel \<Rightarrow> int \<Rightarrow> intent_row" where
  "demo_intent c t = \<lparr>ir_scope = FLEET_SCOPE, ir_channel = Some c, ir_pinnedTag = None, ir_auto = AutoOff, ir_notify = NotifyChannel,
     ir_setAt = t, ir_setBy = INTENT_SET_BY\<rparr>"

definition demo_tables :: "nat \<Rightarrow> update_channel \<Rightarrow> int \<Rightarrow> intent_db" where
  "demo_tables n c t = \<lparr>tb_rows = [demo_intent c t], tb_epoch = n, tb_issuedAt = t\<rparr>"

definition torn_log :: string where
  "torn_log = intent_line 1 (demo_intent Dev 5) @ take 13 (intent_line 2 (demo_intent Dev 6))"

text \<open>C17: an epoch of the desired state is skipped, never reissued. Over any run of intent writes from the migration's
  seed, with journals that cannot be read, appends that fail whole, commits that fail after the append and
  restores of any earlier state of the database between them, the epochs answered are strictly increasing, so
  no epoch is ever answered twice.\<close>

theorem intent_epoch_never_reissued:
  "sorted_wrt (<) (answered es first_world) \<and> distinct (answered es first_world)"
  using answered_above[OF first_world_ok, of es] strict_sorted_iff[of "answered es first_world"] by blast

section \<open>A torn line\<close>

definition demo_patch :: "update_channel \<Rightarrow> intent_patch" where
  "demo_patch c = \<lparr>pt_channel = SetField c, pt_pinnedTag = LeaveField, pt_auto = LeaveField, pt_notify = LeaveField\<rparr>"

text \<open>C18: without whole appends an epoch is answered twice: the expression reads the first epoch of a line only, and a line appended after a torn one
  shares its line. The journal then names epoch 3 and reads back 2, and a database restored to epoch 1 answers 3 a second
  time, for another channel.\<close>

theorem torn_line_reissues:
  "\<exists>r1 r2 r3 db1 db2 db3 db4 log1 log2 log3 log4 ndb w.
     setIntent ndb seeded_intents None FLEET_SCOPE (demo_patch Dev) 5 True AppendOk True = (Inr (r1, 1), db1, log1) \<and>
     setIntent ndb db1 log1 FLEET_SCOPE (demo_patch Dev) 6 True (AppendFailed (Some 13)) True = (Inl w, db2, log2) \<and> db2 = db1 \<and>
     setIntent ndb db2 log2 FLEET_SCOPE (demo_patch Stable) 7 True AppendOk True = (Inr (r2, 3), db3, log3) \<and>
     setIntent ndb db1 log3 FLEET_SCOPE (demo_patch Dev) 8 True AppendOk True = (Inr (r3, 3), db4, log4) \<and>
     ir_channel r2 \<noteq> ir_channel r3"
proof -
  let ?n = "\<lparr>nb_nodes = [], nb_refusals = []\<rparr>"
  let ?log = "torn_log @ intent_line 3 (demo_intent Stable 7)"
  have "setIntent ?n seeded_intents None FLEET_SCOPE (demo_patch Dev) 5 True AppendOk True =
      (Inr (demo_intent Dev 5, 1), demo_tables 1 Dev 5, Some (intent_line 1 (demo_intent Dev 5)))"
    by code_simp
  moreover have "setIntent ?n (demo_tables 1 Dev 5) (Some (intent_line 1 (demo_intent Dev 5))) FLEET_SCOPE (demo_patch Dev) 6 True
      (AppendFailed (Some 13)) True = (Inl JournalUnwritable, demo_tables 1 Dev 5, Some torn_log)"
    by code_simp
  moreover have "setIntent ?n (demo_tables 1 Dev 5) (Some torn_log) FLEET_SCOPE (demo_patch Stable) 7 True AppendOk True =
      (Inr (demo_intent Stable 7, 3), demo_tables 3 Stable 7, Some ?log)"
    by code_simp
  moreover have "setIntent ?n (demo_tables 1 Dev 5) (Some ?log) FLEET_SCOPE (demo_patch Dev) 8 True AppendOk True =
      (Inr (demo_intent Dev 8, 3), demo_tables 3 Dev 8, Some (?log @ intent_line 3 (demo_intent Dev 8)))"
    by code_simp
  moreover have "ir_channel (demo_intent Stable 7) \<noteq> ir_channel (demo_intent Dev 8)" by (simp add: demo_intent_def)
  ultimately show ?thesis by blast
qed

end
