(* ===== verification/Inventory.thy ===== *)
theory Inventory
  imports NodeStore DispatchWords UpdateProjection
begin

text \<open>
  The inventory sweep (\<open>server/src/update/inventory.ts\<close>): the bounded read of a node's seven files, their
  validators, the phase table of a report, the application of one measurement to the store and the sweep of
  both connections; and the cell of the current fleet identity (\<open>server/src/fleetidentity.ts\<close>). The parser
  of the runtime is an argument (\<open>parse\<close>, \<open>None\<close> for a thrown error); a parsed value is a \<open>json\<close>, an object's fields by
  name.
\<close>

section \<open>Parsed text\<close>

text \<open>\<open>JNum None\<close> is a number that is not a safe integer.\<close>

datatype json =
  JNull | JBool bool | JNum "int option" | JStr string | JArr "json list" | JObj "(string \<times> json) list"

definition jfield :: "json \<Rightarrow> string \<Rightarrow> json option" where
  "jfield j k = (case j of JObj fs \<Rightarrow> map_of fs k | _ \<Rightarrow> None)"

definition jstring :: "json option \<Rightarrow> string option" where
  "jstring j = (case j of Some (JStr s) \<Rightarrow> Some s | _ \<Rightarrow> None)"

definition nonEmptyString :: "json option \<Rightarrow> string option" where
  "nonEmptyString j = (case jstring j of Some s \<Rightarrow> if s = [] then None else Some s | None \<Rightarrow> None)"

record build_info =
  bi_sha :: string
  bi_ref :: string
  bi_builtAt :: string
  bi_dirty :: bool
  bi_version :: "string option"

definition parseBuildInfo :: "(string \<Rightarrow> json option) \<Rightarrow> string \<Rightarrow> build_info option" where
  "parseBuildInfo parse raw =
     (case parse raw of
        None \<Rightarrow> None
      | Some j \<Rightarrow>
          (case (nonEmptyString (jfield j ''sha''), nonEmptyString (jfield j ''ref''), nonEmptyString (jfield j ''builtAt''),
                 jfield j ''dirty'') of
             (Some sha, Some ref, Some built, Some (JBool dirty)) \<Rightarrow>
               if jfield j ''version'' \<noteq> None
               then map_option (\<lambda>v. \<lparr>bi_sha = sha, bi_ref = ref, bi_builtAt = built, bi_dirty = dirty, bi_version = Some v\<rparr>)
                      (nonEmptyString (jfield j ''version''))
               else Some \<lparr>bi_sha = sha, bi_ref = ref, bi_builtAt = built, bi_dirty = dirty, bi_version = None\<rparr>
           | _ \<Rightarrow> None))"

section \<open>One file\<close>

datatype node_file_read = FileOk string | FileAbsent | FileUnreadable | FileTooLarge

text \<open>What an awaited call of the io answered; \<open>None\<close> is the deadline having won the race, or expired since.\<close>

datatype 'a io_read = IoOk 'a | IoAbsent | IoFailed

definition NODE_FILE_CAP_BYTES :: nat where "NODE_FILE_CAP_BYTES = 65536"

definition readNodeFile :: "bool io_read option \<Rightarrow> nat io_read option \<Rightarrow> string io_read option \<Rightarrow> nat \<Rightarrow> node_file_read" where
  "readNodeFile lstat stat read capBytes =
     (case lstat of
        None \<Rightarrow> FileUnreadable
      | Some IoAbsent \<Rightarrow> FileAbsent
      | Some IoFailed \<Rightarrow> FileUnreadable
      | Some (IoOk regular) \<Rightarrow>
          if \<not> regular then FileUnreadable
          else (case stat of
             None \<Rightarrow> FileUnreadable
           | Some IoAbsent \<Rightarrow> FileAbsent
           | Some IoFailed \<Rightarrow> FileUnreadable
           | Some (IoOk bytes) \<Rightarrow>
               if bytes > capBytes then FileTooLarge
               else (case read of
                  None \<Rightarrow> FileUnreadable
                | Some IoAbsent \<Rightarrow> FileAbsent
                | Some IoFailed \<Rightarrow> FileUnreadable
                | Some (IoOk content) \<Rightarrow>
                    if utf8_length content > capBytes then FileTooLarge else FileOk content)))"

record node_file_reads =
  rd_stamp :: node_file_read
  rd_installed :: node_file_read
  rd_caps :: node_file_read
  rd_floor :: node_file_read
  rd_previous :: node_file_read
  rd_nodeId :: node_file_read
  rd_report :: node_file_read

section \<open>Validators\<close>

definition strip_cr :: "string \<Rightarrow> string" where
  "strip_cr l = (if ends_with l [CHR 0x0D] then butlast l else l)"

definition linesOf :: "string \<Rightarrow> string list" where
  "linesOf content =
     (let ls = split_on (CHR 0x0A) content in map strip_cr (if last ls = [] then butlast ls else ls))"

definition first_of :: "string list \<Rightarrow> string option" where
  "first_of ls = (case ls of [] \<Rightarrow> None | l # _ \<Rightarrow> Some l)"

definition firstLine :: "node_file_read \<Rightarrow> string option" where
  "firstLine r = (case r of FileOk content \<Rightarrow> first_of (linesOf content) | _ \<Rightarrow> None)"

definition STAMP_FIELD :: "string \<Rightarrow> bool" where
  "STAMP_FIELD s \<longleftrightarrow> 1 \<le> length s \<and> length s \<le> 200 \<and> list_all printable s"

definition stampFrom :: "(string \<Rightarrow> json option) \<Rightarrow> node_file_read \<Rightarrow> stamp_read \<times> build_info option" where
  "stampFrom parse r =
     (case r of
        FileTooLarge \<Rightarrow> (StampOther ''malformed'', None)
      | FileAbsent \<Rightarrow> (StampOther ''absent'', None)
      | FileUnreadable \<Rightarrow> (StampOther ''unreadable'', None)
      | FileOk content \<Rightarrow>
          (case parseBuildInfo parse content of
             None \<Rightarrow> (StampOther ''malformed'', None)
           | Some b \<Rightarrow>
               if (case bi_version b of None \<Rightarrow> False | Some v \<Rightarrow> \<not> isReleaseTag v) then (StampOther ''malformed'', None)
               else if \<not> STAMP_FIELD (bi_sha b) \<or> \<not> STAMP_FIELD (bi_ref b) \<or> \<not> STAMP_FIELD (bi_builtAt b)
               then (StampOther ''malformed'', None)
               else (StampOk, Some b)))"

definition capsFrom :: "node_file_read \<Rightarrow> node_os \<times> string list" where
  "capsFrom r =
     (case r of
        FileOk content \<Rightarrow>
          (let ls = linesOf content; head = or_word [] (first_of ls) in
           if head \<noteq> ''os linux'' \<and> head \<noteq> ''os darwin'' then (UnknownOs, [])
           else (case validCapWords (tl ls) of
              None \<Rightarrow> (UnknownOs, [])
            | Some caps \<Rightarrow> (if head = ''os darwin'' then Darwin else Linux, caps)))
      | _ \<Rightarrow> (UnknownOs, []))"

definition installFrom :: "node_file_read \<Rightarrow> build_info option \<Rightarrow> string list \<Rightarrow> install_state \<times> provenance_state" where
  "installFrom r build caps =
     (case build of
        None \<Rightarrow> (InstallUnknown, ProvenanceUnknown)
      | Some b \<Rightarrow>
          (case r of
             FileOk content \<Rightarrow>
               (let ls = linesOf content in
                if first_of ls \<noteq> Some (bi_sha b) then (Incomplete, ProvenanceUnknown)
                else (Complete,
                  if length ls = 2 \<and> ls ! 1 = ''unsigned'' then Unverified
                  else if length ls = 1 \<and> ''verify'' \<in> set caps then Verified else ProvenanceUnknown))
           | FileAbsent \<Rightarrow> (Incomplete, ProvenanceUnknown)
           | _ \<Rightarrow> (InstallUnknown, ProvenanceUnknown)))"

definition tagStateFrom :: "node_file_read \<Rightarrow> string option \<times> tag_file_read" where
  "tagStateFrom r =
     (if r = FileUnreadable \<or> r = FileTooLarge then (None, FloorUnmeasured)
      else case firstLine r of
        Some line \<Rightarrow> if isReleaseTag line then (Some line, FloorRead) else (None, FloorAbsent)
      | None \<Rightarrow> (None, FloorAbsent))"

definition nodeIdFrom :: "node_file_read \<Rightarrow> string option" where
  "nodeIdFrom r = (case firstLine r of Some line \<Rightarrow> if isNodeId line then Some line else None | None \<Rightarrow> None)"

definition REPORT_DETAIL_MAX :: nat where "REPORT_DETAIL_MAX = 200"

definition printableDetail :: "string \<Rightarrow> string" where
  "printableDetail raw = take REPORT_DETAIL_MAX (clean_line raw)"

definition secondsToMs :: "json option \<Rightarrow> int option" where
  "secondsToMs v = (case v of Some (JNum (Some n)) \<Rightarrow> if 0 < n \<and> n \<le> UNIX_SECONDS_MAX then Some (n * 1000) else None | _ \<Rightarrow> None)"

definition UPDATE_PHASES :: "(string \<times> update_phase) list" where
  "UPDATE_PHASES =
     [(''queued'', PQueued), (''resolving'', PResolving), (''fetching'', PFetching), (''verifying'', PVerifying),
      (''backing-up'', PBackingUp), (''installing'', PInstalling), (''restarting'', PRestarting), (''checking'', PChecking),
      (''restoring'', PRestoring), (''done'', PDone), (''reverted'', PReverted), (''failed'', PFailed), (''unknown'', PUnknown)]"

definition UNKNOWN_REPORT :: node_report where
  "UNKNOWN_REPORT = \<lparr>np_phase = PUnknown, np_target = None, np_startedAt = None, np_updatedAt = None, np_detail = None\<rparr>"

definition reportFrom :: "(string \<Rightarrow> json option) \<Rightarrow> node_file_read \<Rightarrow> node_report option" where
  "reportFrom parse r =
     (case r of
        FileAbsent \<Rightarrow> None
      | FileUnreadable \<Rightarrow> Some UNKNOWN_REPORT
      | FileTooLarge \<Rightarrow> Some UNKNOWN_REPORT
      | FileOk content \<Rightarrow>
          (case parse content of
             Some (JObj fs) \<Rightarrow>
               (let field = jfield (JObj fs);
                    detail = (case jstring (field ''detail'') of None \<Rightarrow> [] | Some d \<Rightarrow> printableDetail d) in
                Some \<lparr>np_phase = (case Option.bind (jstring (field ''phase'')) (map_of UPDATE_PHASES) of None \<Rightarrow> PUnknown | Some p \<Rightarrow> p),
                      np_target = tag_or_none (jstring (field ''target'')),
                      np_startedAt = secondsToMs (field ''startedAt''),
                      np_updatedAt = secondsToMs (field ''updatedAt''),
                      np_detail = (if detail = [] then None else Some detail)\<rparr>)
           | _ \<Rightarrow> Some UNKNOWN_REPORT))"

record node_connection =
  nc_label :: string
  nc_role :: node_role
  nc_agentOps :: "string list option"

definition measurementFrom :: "(string \<Rightarrow> json option) \<Rightarrow> node_file_reads \<Rightarrow> node_connection \<Rightarrow> int \<Rightarrow> node_measurement" where
  "measurementFrom parse reads conn now =
     (let (stampRead, build) = stampFrom parse (rd_stamp reads);
          (os, caps) = capsFrom (rd_caps reads);
          nodeId = nodeIdFrom (rd_nodeId reads);
          (install, provenance) = installFrom (rd_installed reads) build caps;
          installState = (if nodeId = None then InstallUnknown else install);
          (floorTag, floorState) = tagStateFrom (rd_floor reads);
          (prevTag, prevState) = tagStateFrom (rd_previous reads) in
      \<lparr>nm_nodeId = or_word (nc_label conn) nodeId, nm_role = nc_role conn, nm_label = nc_label conn,
       nm_currentVersion = Option.bind build bi_version, nm_currentSha = map_option bi_sha build,
       nm_currentRef = map_option bi_ref build, nm_currentBuiltAt = map_option bi_builtAt build,
       nm_currentDirty = map_option bi_dirty build, nm_stampRead = stampRead, nm_installState = installState,
       nm_provenance = (if installState = Complete then provenance else ProvenanceUnknown), nm_caps = caps,
       nm_agentOps = map_option (\<lambda>ops. case validCapWords ops of None \<Rightarrow> [] | Some ws \<Rightarrow> ws) (nc_agentOps conn),
       nm_highestVersion = floorTag, nm_previousVersion = prevTag, nm_floorRead = floorState, nm_previousRead = prevState,
       nm_os = os, nm_measuredAt = now, nm_report = reportFrom parse (rd_report reads)\<rparr>)"

definition buildInfoOfRow :: "node_row \<Rightarrow> build_info option" where
  "buildInfoOfRow r =
     (if dw_stampRead r \<noteq> StampOk then None
      else case (nd_currentSha r, nd_currentRef r, nd_currentBuiltAt r, nd_currentDirty r) of
        (Some sha, Some ref, Some built, Some dirty) \<Rightarrow>
          Some \<lparr>bi_sha = sha, bi_ref = ref, bi_builtAt = built, bi_dirty = dirty, bi_version = dw_currentVersion r\<rparr>
      | _ \<Rightarrow> None)"

section \<open>The phase table\<close>

datatype no_lease_why =
  NoReport | UnchangedReport | LeaseNotBusy | InFlightReport | StaleReport | UnknownPhase | StampUnmeasured

datatype lease_action = LeaseNone no_lease_why | LeaseSettle string | LeaseRelease update_state string

record sweep_plan =
  sp_lease :: lease_action
  sp_refuse :: "(string \<times> string) option"

definition sameReport :: "node_row \<Rightarrow> node_report \<Rightarrow> bool" where
  "sameReport row r \<longleftrightarrow>
     nd_reportedPhase row = Some (np_phase r) \<and> nd_reportedTarget row = np_target r \<and>
     nd_reportedStartedAt row = np_startedAt r \<and> dw_reportedUpdatedAt row = np_updatedAt r \<and> nd_reportedDetail row = np_detail r"

definition settledDoneDetail :: "string \<Rightarrow> string" where "settledDoneDetail tag = ''done: '' @ tag"

definition phase_word :: "update_phase \<Rightarrow> string" where
  "phase_word p = or_word ''unknown'' (map_option fst (find (\<lambda>e. snd e = p) UPDATE_PHASES))"

definition leaseActionFor :: "node_row option \<Rightarrow> node_measurement \<Rightarrow> node_report \<Rightarrow> lease_action" where
  "leaseActionFor row m r =
     (case row of
        None \<Rightarrow> LeaseNone LeaseNotBusy
      | Some n \<Rightarrow>
          if dw_updateState n \<notin> set BUSY_UPDATE_STATES then LeaseNone LeaseNotBusy
          else if np_startedAt r = None then LeaseNone StaleReport
          else if dw_updateTarget n \<noteq> None \<and> np_target r \<noteq> dw_updateTarget n then LeaseNone StaleReport
          else if np_phase r \<in> set IN_FLIGHT_UPDATE_PHASES then LeaseNone InFlightReport
          else (case np_phase r of
             PDone \<Rightarrow>
               if nm_stampRead m \<noteq> StampOk then LeaseNone StampUnmeasured
               else (case np_target r of
                  Some t \<Rightarrow>
                    if nm_currentVersion m = Some t then LeaseSettle (settledDoneDetail t)
                    else LeaseRelease UFailed ''stamp-mismatch''
                | None \<Rightarrow> LeaseRelease UFailed ''stamp-mismatch'')
           | PFailed \<Rightarrow> LeaseRelease UFailed (or_word (phase_word PFailed) (np_detail r))
           | PReverted \<Rightarrow> LeaseRelease UReverted (or_word (phase_word PReverted) (np_detail r))
           | _ \<Rightarrow> LeaseNone UnknownPhase))"

definition sweepPlanFor :: "node_row option \<Rightarrow> node_measurement \<Rightarrow> sweep_plan" where
  "sweepPlanFor row m =
     (case nm_report m of
        None \<Rightarrow> \<lparr>sp_lease = LeaseNone NoReport, sp_refuse = None\<rparr>
      | Some r \<Rightarrow>
          if (case row of None \<Rightarrow> False | Some n \<Rightarrow> sameReport n r)
          then \<lparr>sp_lease = LeaseNone UnchangedReport, sp_refuse = None\<rparr>
          else \<lparr>sp_lease = leaseActionFor row m r,
                sp_refuse = (case (np_phase r, np_target r, np_detail r) of
                   (PFailed, Some t, Some d) \<Rightarrow> if starts_with d PROVENANCE_DETAIL_PREFIX then Some (t, d) else None
                 | _ \<Rightarrow> None)\<rparr>)"

section \<open>One measurement into the store\<close>

datatype lease_kind = KindNone | KindSettle | KindRelease

datatype sweep_outcome =
  Measured string lease_kind bool
| NodeIdCollision string lease_kind bool
| Unreachable string
| SweepRefused node_why

definition nodeIdCollides :: "node_db \<Rightarrow> string \<Rightarrow> string \<Rightarrow> bool" where
  "nodeIdCollides db nodeId label =
     (case node_at db nodeId of None \<Rightarrow> False | Some r \<Rightarrow> nd_supersededBy r = None \<and> dw_label r \<noteq> label)"

definition previousReportOf :: "node_row option \<Rightarrow> node_report option" where
  "previousReportOf row =
     (case row of
        None \<Rightarrow> None
      | Some r \<Rightarrow>
          map_option (\<lambda>p. \<lparr>np_phase = p, np_target = nd_reportedTarget r, np_startedAt = nd_reportedStartedAt r,
             np_updatedAt = dw_reportedUpdatedAt r, np_detail = nd_reportedDetail r\<rparr>) (nd_reportedPhase r))"

definition reportUnmeasured :: "node_file_read \<Rightarrow> bool" where "reportUnmeasured r \<longleftrightarrow> r = FileUnreadable"

definition unreachable :: "node_db \<Rightarrow> int \<Rightarrow> sweep_outcome \<times> node_db" where
  "unreachable db now =
     (case markUnreachable db FLEET_LABEL RFleet now of
        (Inl w, db') \<Rightarrow> (SweepRefused w, db')
      | (Inr a, db') \<Rightarrow> (Unreachable (ua_nodeId a), db'))"

definition landedMoveOf :: "node_row option \<Rightarrow> landed_move option" where
  "landedMoveOf row =
     (case row of
        None \<Rightarrow> None
      | Some r \<Rightarrow>
          if dispatchRank (dw_role r) \<noteq> 0 then None
          else (case dw_updateTarget r of
             None \<Rightarrow> None
           | Some t \<Rightarrow>
               if dw_requestedKind r \<noteq> Some UpdateKind \<or> dw_requestedTag r \<noteq> Some t then None
               else Some \<lparr>lv_nodeId = dw_nodeId r, lv_label = dw_label r, lv_target = t\<rparr>))"

text \<open>The key of the measurement: a rekey, or the row the label already has.\<close>

definition key_measurement :: "node_db \<Rightarrow> node_measurement \<Rightarrow> (node_why + node_measurement) \<times> node_db" where
  "key_measurement db m =
     (if nm_nodeId m \<noteq> nm_label m
      then (case rekeyNode db (nm_label m) (nm_nodeId m) of (Inl w, db') \<Rightarrow> (Inl w, db') | (Inr _, db') \<Rightarrow> (Inr m, db'))
      else (Inr (case nodeByLabel db (nm_label m) of
                   None \<Rightarrow> m
                 | Some r \<Rightarrow> if dw_nodeId r \<noteq> nm_label m then m\<lparr>nm_nodeId := dw_nodeId r\<rparr> else m), db))"

definition carry_report :: "node_row option \<Rightarrow> bool \<Rightarrow> node_measurement \<Rightarrow> node_measurement" where
  "carry_report pre unmeasured m =
     (if unmeasured then m\<lparr>nm_report := (case previousReportOf pre of None \<Rightarrow> nm_report m | Some p \<Rightarrow> Some p)\<rparr> else m)"

definition carry_floor :: "node_row option \<Rightarrow> node_measurement \<Rightarrow> node_measurement" where
  "carry_floor pre m =
     (case pre of
        None \<Rightarrow> m
      | Some r \<Rightarrow>
          if nm_floorRead m = FloorUnmeasured \<and> dw_floorRead r \<noteq> FloorUnmeasured
          then m\<lparr>nm_highestVersion := dw_highestVersion r, nm_floorRead := dw_floorRead r\<rparr> else m)"

definition carry_previous :: "node_row option \<Rightarrow> node_measurement \<Rightarrow> node_measurement" where
  "carry_previous pre m =
     (case pre of
        None \<Rightarrow> m
      | Some r \<Rightarrow>
          if nm_previousRead m = FloorUnmeasured \<and> nd_previousRead r \<noteq> FloorUnmeasured
          then m\<lparr>nm_previousVersion := nd_previousVersion r, nm_previousRead := nd_previousRead r\<rparr> else m)"

definition withhold_report :: "node_row option \<Rightarrow> sweep_plan \<Rightarrow> node_measurement \<Rightarrow> node_measurement" where
  "withhold_report pre plan m =
     (if sp_lease plan = LeaseNone StampUnmeasured
      then m\<lparr>nm_report := Some (case previousReportOf pre of None \<Rightarrow> UNKNOWN_REPORT | Some p \<Rightarrow> p)\<rparr> else m)"

definition write_verdict :: "node_db \<Rightarrow> string \<Rightarrow> sweep_plan \<Rightarrow> int \<Rightarrow> bool \<times> node_db" where
  "write_verdict db nid plan now =
     (case sp_refuse plan of
        None \<Rightarrow> (False, db)
      | Some (tag, d) \<Rightarrow> (case refuseRelease db nid tag now d of (r, db') \<Rightarrow> (r = Inr True, db')))"

definition write_lease ::
  "node_db \<Rightarrow> string \<Rightarrow> sweep_plan \<Rightarrow> node_row option \<Rightarrow> (landed_move \<Rightarrow> node_db \<Rightarrow> node_db) \<Rightarrow> lease_kind \<times> node_db" where
  "write_lease db nid plan pre follow =
     (let expected = Option.bind pre dw_updateStartedAt in
      case sp_lease plan of
        LeaseNone _ \<Rightarrow> (KindNone, db)
      | LeaseSettle d \<Rightarrow>
          (case settleNode db nid d expected of
             (Inl _, db') \<Rightarrow> (KindNone, db')
           | (Inr _, db') \<Rightarrow> (KindSettle, case landedMoveOf pre of None \<Rightarrow> db' | Some l \<Rightarrow> follow l db'))
      | LeaseRelease to d \<Rightarrow>
          (case releaseLease db nid to d expected of
             (Inl _, db') \<Rightarrow> (KindNone, db')
           | (Inr _, db') \<Rightarrow> (KindRelease, db')))"

definition applyMeasurement ::
  "node_db \<Rightarrow> node_measurement \<Rightarrow> bool \<Rightarrow> int \<Rightarrow> (landed_move \<Rightarrow> node_db \<Rightarrow> node_db) \<Rightarrow> sweep_outcome \<times> node_db" where
  "applyMeasurement db measured unmeasured now follow =
     (let label = nm_label measured;
          collision = (nm_nodeId measured \<noteq> label \<and> nodeIdCollides db (nm_nodeId measured) label) in
      case key_measurement db (if collision then measured\<lparr>nm_nodeId := label\<rparr> else measured) of
        (Inl w, db1) \<Rightarrow> (SweepRefused w, db1)
      | (Inr m, db1) \<Rightarrow>
          (let nid = nm_nodeId m;
               pre = node_at db1 nid;
               m1 = carry_previous pre (carry_floor pre (carry_report pre unmeasured m));
               plan = sweepPlanFor pre m1 in
           case upsertNodeMeasurement db1 (withhold_report pre plan m1) of
             (Inl w, db2) \<Rightarrow> (SweepRefused w, db2)
           | (Inr _, db2) \<Rightarrow>
               (let (refused, db3) = write_verdict db2 nid plan now;
                    (lease, db4) = write_lease db3 nid plan pre follow in
                (if collision then NodeIdCollision nid lease refused else Measured nid lease refused, db4))))"

section \<open>The current fleet identity\<close>

datatype identity_why =
  NoReady | AwaitingInventory | LinkDown | NodeIdAbsent | NodeIdUnreadable | NodeIdTooLarge | NodeIdMalformed | InventoryRefused

datatype fleet_node = KnownNode string int | UnmeasuredNode identity_why | CollidingNode

definition fleetNodeMeasuredOf :: "node_file_read \<Rightarrow> sweep_outcome \<Rightarrow> int \<Rightarrow> fleet_node" where
  "fleetNodeMeasuredOf nodeIdRead outcome measuredAt =
     (case outcome of
        NodeIdCollision _ _ _ \<Rightarrow> CollidingNode
      | Unreachable _ \<Rightarrow> UnmeasuredNode LinkDown
      | SweepRefused _ \<Rightarrow> UnmeasuredNode InventoryRefused
      | Measured nid _ _ \<Rightarrow>
          (case nodeIdRead of
             FileAbsent \<Rightarrow> UnmeasuredNode NodeIdAbsent
           | FileUnreadable \<Rightarrow> UnmeasuredNode NodeIdUnreadable
           | FileTooLarge \<Rightarrow> UnmeasuredNode NodeIdTooLarge
           | FileOk _ \<Rightarrow>
               (case nodeIdFrom nodeIdRead of
                  None \<Rightarrow> UnmeasuredNode NodeIdMalformed
                | Some direct \<Rightarrow> if direct \<noteq> nid then UnmeasuredNode NodeIdMalformed else KnownNode direct measuredAt)))"

text \<open>The cell: the epoch, and the answer with the epoch it stands under.\<close>

record identity_cell =
  ic_epoch :: nat
  ic_latest :: "fleet_node \<times> nat"

definition new_cell :: identity_cell where "new_cell = \<lparr>ic_epoch = 0, ic_latest = (UnmeasuredNode NoReady, 0)\<rparr>"

definition invalidate :: "identity_why \<Rightarrow> identity_cell \<Rightarrow> identity_cell" where
  "invalidate why c = \<lparr>ic_epoch = ic_epoch c + 1, ic_latest = (UnmeasuredNode why, ic_epoch c + 1)\<rparr>"

definition publish :: "nat \<Rightarrow> fleet_node \<Rightarrow> identity_cell \<Rightarrow> bool \<times> identity_cell" where
  "publish captured m c =
     (if captured \<noteq> ic_epoch c then (False, c) else (True, c\<lparr>ic_latest := (m, ic_epoch c)\<rparr>))"

section \<open>The sweep\<close>

text \<open>The server's own row, then the fleet connection: unreachable when its link is down before or after the reads.\<close>

definition sweepOwn ::
  "(string \<Rightarrow> json option) \<Rightarrow> node_role \<Rightarrow> node_file_reads \<Rightarrow> int \<Rightarrow> (landed_move \<Rightarrow> node_db \<Rightarrow> node_db) \<Rightarrow> node_db \<Rightarrow>
   sweep_outcome \<times> node_db" where
  "sweepOwn parse role reads now follow db =
     applyMeasurement db (measurementFrom parse reads \<lparr>nc_label = SERVER_LABEL, nc_role = role, nc_agentOps = None\<rparr> now)
       (reportUnmeasured (rd_report reads)) now follow"

definition sweepFleet ::
  "(string \<Rightarrow> json option) \<Rightarrow> bool \<Rightarrow> bool \<Rightarrow> string list option \<Rightarrow> node_file_reads \<Rightarrow> int \<Rightarrow>
   (landed_move \<Rightarrow> node_db \<Rightarrow> node_db) \<Rightarrow> node_db \<Rightarrow> sweep_outcome \<times> node_db" where
  "sweepFleet parse up_before up_after agentOps reads now follow db =
     (if \<not> up_before then unreachable db now
      else if \<not> up_after then unreachable db now
      else applyMeasurement db
        (measurementFrom parse reads
           \<lparr>nc_label = FLEET_LABEL, nc_role = RFleet, nc_agentOps = Some (case agentOps of None \<Rightarrow> [] | Some ops \<Rightarrow> ops)\<rparr> now)
        (reportUnmeasured (rd_report reads)) now follow)"

end
