(* ===== verification/Converge.thy ===== *)
theory Converge
  imports Inventory IntentStore ReleaseStore
begin

text \<open>
  The acts around the two deciders: the resolver run over every live node with the server's own projection
  (\<open>server/src/update/project.ts\<close>), the views of the dispatcher, one dispatch run up to the acquire and the answer it writes
  afterwards, and the follow-through of a landed move (\<open>server/src/update/converge.ts\<close>). A dispatch run is split where
  the code awaits: what comes before is one synchronous stretch, the operation or the spawn is an argument
  (\<open>op_reply\<close>), and the answer is a second stretch over the table as it then stands.
\<close>

record fleet_store =
  fs_nodes :: node_db
  fs_releases :: "release_row list"
  fs_intents :: intent_db

section \<open>Resolve\<close>

definition intentView :: "intent_row option \<Rightarrow> intent_view option" where
  "intentView r = map_option (\<lambda>i. \<lparr>iv_channel = ir_channel i, iv_pinnedTag = ir_pinnedTag i, iv_auto = ir_auto i\<rparr>) r"

definition catalogue :: "fleet_store \<Rightarrow> eligibility_row list" where
  "catalogue st = map (\<lambda>p. eligibility_of (fst p)) (releases (fs_nodes st) (fs_releases st))"

definition refused_tags :: "node_db \<Rightarrow> string \<Rightarrow> string set" where
  "refused_tags db nid = set (map rf_tag (refusalsFor db nid))"

definition resolveInputFor :: "fleet_store \<Rightarrow> node_row \<Rightarrow> resolve_input" where
  "resolveInputFor st r =
     \<lparr>ri_currentVersion = (if dw_stampRead r = StampOk then dw_currentVersion r else None),
      ri_highestVersion = dw_highestVersion r, ri_floorRead = dw_floorRead r,
      ri_nodeIntent = intentView (intentFor (fs_intents st) (dw_nodeId r)),
      ri_fleetIntent = intentView (intentFor (fs_intents st) FLEET_SCOPE),
      ri_releases = catalogue st, ri_refused = refused_tags (fs_nodes st) (dw_nodeId r)\<rparr>"

text \<open>The sentence of a resolution that names nothing.\<close>

definition pinned_why_text :: "ineligible_why \<Rightarrow> string" where
  "pinned_why_text w =
     (case w of
        NotInCatalogue \<Rightarrow> ''it is not in the release catalogue''
      | NoBundleListed \<Rightarrow> ''it lists no provenance bundle, so no node could verify it''
      | Yanked \<Rightarrow> ''it was yanked from the catalogue''
      | RefusedByThisNode \<Rightarrow> ''it failed provenance verification on this node; ack the node to clear the refusal''
      | NotOnStable \<Rightarrow> ''it is a prerelease and this node follows stable''
      | UnknownReleaseChannel \<Rightarrow> ''its release channel is one this build does not know'')"

definition resolve_sentence :: "resolve_detail \<Rightarrow> string" where
  "resolve_sentence d =
     (let this_node = ''this node'' @ APOS_S in
      case d of
        PinnedAtOrBelowFloor pin floor \<Rightarrow>
          ''pinned '' @ pin @ '' is at or below '' @ this_node @ '' floor '' @ floor @ DASH @ ''pin a newer tag, or use rollback''
      | NotNewerThanFloor newest floor \<Rightarrow>
          ''newest eligible '' @ newest @ '' is not newer than '' @ this_node @ '' floor '' @ floor @ DASH @
          ''a yank or demotion cannot move a node down; a newer release will''
      | AtNewest cur channel \<Rightarrow>
          ''runs '' @ cur @ '', the newest eligible release on '' @ channel_word channel @ '' in the catalogue as last read''
      | RolledBack cur floor \<Rightarrow>
          ''this node was rolled back to '' @ cur @ '' and its floor is '' @ floor @ DASH @
          ''auto stays off this tag until a release above '' @ floor @ '' exists (decision 8)''
      | NoFloor \<Rightarrow> ''no floor and no measured version'' @ DASH @ ''nothing to compare against''
      | FloorNotMeasured \<Rightarrow> this_node @ '' floor has not been measured'' @ DASH @ ''nothing resolves until it is''
      | PinnedIneligible pin why \<Rightarrow> ''pinned '' @ pin @ '' is not eligible on this node'' @ DASH @ pinned_why_text why
      | NoEligible channel \<Rightarrow>
          ''no eligible release on '' @ channel_word channel @ DASH @
          ''nothing is listed with a bundle, un-yanked and unrefused by this node''
      | UnknownChannel \<Rightarrow>
          this_node @ '' intent names a channel this build does not know'' @ DASH @ ''nothing resolves until it is set again''
      | NoIntent \<Rightarrow>
          ''no intent row for this node and none for the fleet ('' @ [CHR 0x27] @ ''*'' @ [CHR 0x27] @ '')'' @ DASH @ ''nothing resolves'')"

record resolve_run =
  rr_resolved :: nat
  rr_refused :: "(string \<times> node_why) list"
  rr_own :: "resolution option"

text \<open>One node of the loop, over the rows read at its start.\<close>

definition resolve_one ::
  "node_row \<Rightarrow> resolve_run \<times> fleet_store \<Rightarrow> resolve_run \<times> fleet_store" where
  "resolve_one r acc =
     (case acc of (run, st) \<Rightarrow>
        (let res = resolveNodeIntent (resolveInputFor st r);
             (w, db) = resolveNode (fs_nodes st) (dw_nodeId r) (rs_channel res) (rs_desiredTag res)
                         (map_option resolve_sentence (rs_resolveDetail res));
             run1 = (case w of
                Inr _ \<Rightarrow> run\<lparr>rr_resolved := rr_resolved run + 1\<rparr>
              | Inl why \<Rightarrow> run\<lparr>rr_refused := rr_refused run @ [(dw_nodeId r, why)]\<rparr>) in
         (if rr_own run1 = None \<and> dw_label r = SERVER_LABEL then run1\<lparr>rr_own := Some res\<rparr> else run1, st\<lparr>fs_nodes := db\<rparr>)))"

datatype projection_outcome =
  ProjectionText string | ProjectionNoChannel resolve_detail | NotServerRole | NoServerRow | ProjectionThrew

definition projectOwn :: "fleet_store \<Rightarrow> node_role \<Rightarrow> resolution option \<Rightarrow> int \<Rightarrow> projection_outcome" where
  "projectOwn st role own now =
     (if role \<noteq> RServer \<and> role \<noteq> RBoth then NotServerRole
      else case own of
        None \<Rightarrow> NoServerRow
      | Some r \<Rightarrow>
          (case renderProjection r (int (fst (updateEpoch (fs_intents st)))) (now div 1000) of
             None \<Rightarrow> ProjectionThrew
           | Some (NoChannel d) \<Rightarrow> ProjectionNoChannel d
           | Some (RenderedDoc _ text) \<Rightarrow> ProjectionText text))"

definition resolveAndProjectOnce ::
  "fleet_store \<Rightarrow> node_role \<Rightarrow> int \<Rightarrow> (resolve_run \<times> projection_outcome) \<times> fleet_store" where
  "resolveAndProjectOnce st role now =
     (case fold resolve_one (nodes (fs_nodes st))
             (\<lparr>rr_resolved = 0, rr_refused = [], rr_own = None\<rparr>, st) of
        (run, st') \<Rightarrow> ((run, projectOwn st' role (rr_own run) now), st'))"

section \<open>The views and the stretch of a run\<close>

definition dispatchViewsFor :: "fleet_store \<Rightarrow> node_view list" where
  "dispatchViewsFor st =
     map (\<lambda>r. \<lparr>nv_row = dispatch_row.truncate r, nv_auto = rs_auto (resolveNodeIntent (resolveInputFor st r)),
               nv_refusedTags = refused_tags (fs_nodes st) (dw_nodeId r)\<rparr>) (nodes (fs_nodes st))"

definition NO_FLEET_LINK_DETAIL :: string where
  "NO_FLEET_LINK_DETAIL = ''disconnected'' @ DASH @ ''no fleet link is wired on this server; the request stands''"
definition LINK_DOWN_DETAIL :: string where
  "LINK_DOWN_DETAIL = ''disconnected'' @ DASH @ ''the fleet link is down; the request stands''"
definition NO_LOCAL_RUNNER_DETAIL :: string where
  "NO_LOCAL_RUNNER_DETAIL = ''no local runner'' @ DASH @ ''this server was started without an update spawner; the request stands''"

text \<open>The link: \<open>None\<close> when none is wired, else whether it is up and what its agent advertises.\<close>

record converge_deps =
  cd_role :: node_role
  cd_deadlineMs :: int
  cd_link :: "(bool \<times> string list option) option"
  cd_runLocal :: bool

definition liveOps :: "string list option \<Rightarrow> string list" where
  "liveOps ops = (case ops of None \<Rightarrow> [] | Some ws \<Rightarrow> ws)"

definition unsendableDetail :: "converge_deps \<Rightarrow> node_view \<Rightarrow> dispatch_move \<Rightarrow> string option" where
  "unsendableDetail deps v m =
     (if \<not> dm_viaLink m then (if cd_runLocal deps then None else Some NO_LOCAL_RUNNER_DETAIL)
      else case cd_link deps of
        None \<Rightarrow> Some NO_FLEET_LINK_DETAIL
      | Some (up, ops) \<Rightarrow>
          if \<not> up then Some LINK_DOWN_DETAIL
          else if UPDATE_OP \<notin> set (liveOps ops) then Some (dispatchRefusalDetail RefAgentPredates (nv_row v) (dm_target m) None)
          else None)"

text \<open>\<open>parseReportOrigin\<close> of the box's own report.\<close>

definition parseReportOrigin :: "(string \<Rightarrow> json option) \<Rightarrow> string \<Rightarrow> report_origin option" where
  "parseReportOrigin parse text =
     (case parse text of
        Some (JObj fs) \<Rightarrow>
          (let field = jfield (JObj fs) in
           Some \<lparr>ro_from = jstring (field ''from''),
                 ro_phase = (case Option.bind (jstring (field ''phase'')) (map_of UPDATE_PHASES) of None \<Rightarrow> PUnknown | Some p \<Rightarrow> p),
                 ro_target = tag_or_none (jstring (field ''target'')), ro_updatedAt = secondsToMs (field ''updatedAt''),
                 ro_detail = jstring (field ''detail'')\<rparr>)
      | _ \<Rightarrow> None)"

definition ownReportOrigin :: "(string \<Rightarrow> json option) \<Rightarrow> node_file_read \<Rightarrow> report_origin option" where
  "ownReportOrigin parse read = (case read of FileOk text \<Rightarrow> parseReportOrigin parse text | _ \<Rightarrow> None)"

definition expiry_detail :: "report_origin option \<Rightarrow> node_row \<Rightarrow> string" where
  "expiry_detail own r =
     (case linkFailedDeadlineDetail (dw_updateDetail r) (dw_updateTarget r) (nd_reportedTarget r) of
        Some d \<Rightarrow> d
      | None \<Rightarrow> deadlineDetail (dw_agentOps r) (dw_updateStartedAt r) own)"

definition expire_one ::
  "report_origin option \<Rightarrow> int \<Rightarrow> int \<Rightarrow> node_row \<Rightarrow> string list \<times> node_db \<Rightarrow> string list \<times> node_db" where
  "expire_one own now deadlineMs r acc =
     (if \<not> deadlineExpired (dispatch_row.truncate r) now deadlineMs then acc
      else case releaseLease (snd acc) (dw_nodeId r) UFailed (expiry_detail own r) None of
        (Inr _, db) \<Rightarrow> (fst acc @ [dw_nodeId r], db)
      | (Inl _, db) \<Rightarrow> (fst acc, db))"

definition settle_met :: "string \<times> string \<Rightarrow> string list \<times> node_db \<Rightarrow> string list \<times> node_db" where
  "settle_met m acc =
     (case settleNode (snd acc) (fst m) (''met: '' @ snd m) None of
        (Inr _, db) \<Rightarrow> (fst acc @ [fst m], db)
      | (Inl _, db) \<Rightarrow> (fst acc, db))"

definition note_one :: "string \<times> string \<Rightarrow> nat \<times> node_db \<Rightarrow> nat \<times> node_db" where
  "note_one n acc =
     (case noteDispatchRefusal (snd acc) (fst n) (snd n) of
        (Inr True, db) \<Rightarrow> (fst acc + 1, db)
      | (_, db) \<Rightarrow> (fst acc, db))"

definition view_of :: "node_view list \<Rightarrow> string \<Rightarrow> node_view option" where
  "view_of views nid = find (\<lambda>v. dw_nodeId (nv_row v) = nid) views"

text \<open>The words of a planned refusal: the sentence of the row's intended target.\<close>

definition refusal_note :: "node_view list \<Rightarrow> planned_refusal \<Rightarrow> string \<times> string" where
  "refusal_note views r =
     (pr_nodeId r,
      case view_of views (pr_nodeId r) of
        None \<Rightarrow> []
      | Some v \<Rightarrow>
          (case intendedMove v of
             None \<Rightarrow> []
           | Some m \<Rightarrow> dispatchRefusalDetail (pr_refusal r) (nv_row v) (im_target m) (pr_blocker r)))"

datatype move_outcome =
  MoveAccepted string string
| MoveHeld string string
| MoveReleased string bool string
| MoveReleaseRefused string bool string node_why
| MoveNotSent string string
| AcquireRefused string node_why

record dispatch_run =
  dr_expired :: "string list"
  dr_settled :: "string list"
  dr_noted :: nat
  dr_plan :: dispatch_plan

text \<open>How the stretch ends: with an outcome or none, or with a lease taken and the move to send, with the label of
  its row.\<close>

datatype stretch = StretchDone "move_outcome option" | SendMove dispatch_move string

definition dispatch_stretch ::
  "converge_deps \<Rightarrow> report_origin option \<Rightarrow> int \<Rightarrow> fleet_store \<Rightarrow> (dispatch_run \<times> stretch) \<times> fleet_store" where
  "dispatch_stretch deps own now st =
     (let (expired, db1) = fold (expire_one own now (cd_deadlineMs deps)) (nodes (fs_nodes st)) ([], fs_nodes st);
          st1 = st\<lparr>fs_nodes := db1\<rparr>;
          views = dispatchViewsFor st1;
          plan = planDispatch views (catalogue st1);
          (settled, db2) = fold settle_met (dp_met plan) ([], db1);
          (noted, db3) = fold note_one (map (refusal_note views) (dp_refusals plan)) (0, db2);
          run = \<lparr>dr_expired = expired, dr_settled = settled, dr_noted = noted, dr_plan = plan\<rparr> in
      case dp_move plan of
        None \<Rightarrow> ((run, StretchDone None), st\<lparr>fs_nodes := db3\<rparr>)
      | Some m \<Rightarrow>
          (case view_of views (dm_nodeId m) of
             None \<Rightarrow> ((run, StretchDone (Some (AcquireRefused (dm_nodeId m) UnknownNode))), st\<lparr>fs_nodes := db3\<rparr>)
           | Some v \<Rightarrow>
               (case unsendableDetail deps v m of
                  Some d \<Rightarrow>
                    (case note_one (dm_nodeId m, d) (noted, db3) of
                       (k, db4) \<Rightarrow> ((run\<lparr>dr_noted := k\<rparr>, StretchDone (Some (MoveNotSent (dm_nodeId m) d))), st\<lparr>fs_nodes := db4\<rparr>))
                | None \<Rightarrow>
                    (case dispatchNode db3 (dm_nodeId m) (dm_target m) (Some (dm_kind m)) now (moveText (dm_detail m)) of
                       (Inl why, db4) \<Rightarrow> ((run, StretchDone (Some (AcquireRefused (dm_nodeId m) why))), st\<lparr>fs_nodes := db4\<rparr>)
                     | (Inr (), db4) \<Rightarrow> ((run, SendMove m (dw_label (nv_row v))), st\<lparr>fs_nodes := db4\<rparr>)))))"

text \<open>The whole run up to its await: the role gate, and the box's own report when a row of its own is about to
  expire.\<close>

definition runDispatch ::
  "(string \<Rightarrow> json option) \<Rightarrow> converge_deps \<Rightarrow> node_file_read \<Rightarrow> int \<Rightarrow> fleet_store \<Rightarrow> (dispatch_run \<times> stretch) option \<times> fleet_store" where
  "runDispatch parse deps report now st =
     (if cd_role deps \<noteq> RServer \<and> cd_role deps \<noteq> RBoth then (None, st)
      else let own = (if list_ex (\<lambda>r. dw_agentOps r = None \<and> deadlineExpired (dispatch_row.truncate r) now (cd_deadlineMs deps))
                            (nodes (fs_nodes st))
                      then ownReportOrigin parse report else None) in
           case dispatch_stretch deps own now st of (res, st') \<Rightarrow> (Some res, st'))"

section \<open>The answer\<close>

definition why_word :: "node_why \<Rightarrow> string" where
  "why_word w =
     (case w of
        UnknownNode \<Rightarrow> ''unknown-node'' | SupersededNode _ \<Rightarrow> ''superseded'' | NotBusyNode _ \<Rightarrow> ''not-busy''
      | StaleReportNode _ \<Rightarrow> ''stale-report'' | HaltedNode _ \<Rightarrow> ''halted'' | BusyNode _ \<Rightarrow> ''busy'' | LeaseBusy _ \<Rightarrow> ''busy''
      | NoRequestNode \<Rightarrow> ''no-request'' | BadTagNode \<Rightarrow> ''bad-tag'' | BadKindNode \<Rightarrow> ''bad-kind'' | BadNodeId \<Rightarrow> ''bad-node-id''
      | LabelKeyTaken _ \<Rightarrow> ''label-key-taken'' | NotIdleNode _ \<Rightarrow> ''not-idle'' | NoLeaseToHand \<Rightarrow> ''no-lease-to-hand''
      | BadClock \<Rightarrow> [] | UniqueViolation \<Rightarrow> [])"

definition is_transport :: "op_reply \<Rightarrow> bool" where
  "is_transport a = (case a of Transport _ _ _ \<Rightarrow> True | _ \<Rightarrow> False)"

definition has_words :: "op_reply \<Rightarrow> bool" where
  "has_words a = (case a of Accepted (Some _) \<Rightarrow> True | Transport _ _ _ \<Rightarrow> True | _ \<Rightarrow> False)"

definition answer_holder :: "node_db \<Rightarrow> dispatch_move \<Rightarrow> string \<Rightarrow> int \<Rightarrow> string" where
  "answer_holder db m label now =
     (case leaseHolder (map dispatch_row.truncate (nodes db)) label now of None \<Rightarrow> dm_nodeId m | Some h \<Rightarrow> h)"

text \<open>\<open>advertised\<close> is measured when the answer arrives. The third component is the feed record.\<close>

definition answer_stretch ::
  "dispatch_move \<Rightarrow> string \<Rightarrow> int \<Rightarrow> op_reply \<Rightarrow> bool \<Rightarrow> node_db \<Rightarrow> move_outcome \<times> (string \<times> string) option \<times> node_db" where
  "answer_stretch m label now a advertised db =
     (let (action, d) = classifyOpReply a advertised; h = answer_holder db m label now in
      if action = HoldLease then
        (let db1 = (if has_words a then snd (noteLeaseDetail db h d now) else db) in
         (if is_transport a then MoveHeld h d else MoveAccepted h d, moveFeedRecord m label (Held d), db1))
      else
        (let failed = (action = ReleaseFailed) in
         case releaseLease db h (if failed then UFailed else UIdle) d (Some now) of
           (Inr _, db1) \<Rightarrow> (MoveReleased h failed d, moveFeedRecord m label (ReleasedTo failed d), db1)
         | (Inl w, db1) \<Rightarrow> (MoveReleaseRefused h failed d w, moveFeedRecord m label (ReleaseRefused (why_word w) d), db1)))"

section \<open>The follow-through\<close>

datatype follow_outcome =
  FollowRequested string string | FollowNoted string dispatch_refusal bool | FollowWriteRefused string node_why

definition label_of_view :: "node_view list \<Rightarrow> string \<Rightarrow> string" where
  "label_of_view views nid = (case view_of views nid of None \<Rightarrow> [] | Some v \<Rightarrow> dw_label (nv_row v))"

definition follow_note :: "landed_move \<Rightarrow> node_view list \<Rightarrow> string \<Rightarrow> dispatch_refusal \<Rightarrow> string" where
  "follow_note landed views nid w =
     (case view_of views nid of None \<Rightarrow> [] | Some v \<Rightarrow> followRefusalDetail landed (nv_row v) w)"

definition followFeedRecord :: "landed_move \<Rightarrow> node_view list \<Rightarrow> follow_step \<Rightarrow> string \<times> string" where
  "followFeedRecord landed views s =
     (case s of
        FollowRequest nid tag \<Rightarrow>
          (''update '' @ label_of_view views nid @ '': follows '' @ lv_label landed @ '' to '' @ tag,
           take UPDATE_OP_DETAIL_MAX (lv_label landed @ '' moved to '' @ lv_target landed @ '' on a requested update'' @ DASH @
             label_of_view views nid @ '' is requested '' @ tag @ '' so the two boxes run one build''))
      | FollowNote nid w \<Rightarrow>
          (''update '' @ label_of_view views nid @ '': cannot follow '' @ lv_label landed @ '' to '' @ lv_target landed,
           take UPDATE_OP_DETAIL_MAX (follow_note landed views nid w)))"

definition follow_one ::
  "landed_move \<Rightarrow> node_view list \<Rightarrow> int \<Rightarrow> follow_step \<Rightarrow> follow_outcome list \<times> (string \<times> string) list \<times> node_db \<Rightarrow>
   follow_outcome list \<times> (string \<times> string) list \<times> node_db" where
  "follow_one landed views now s acc =
     (case acc of (out, feed, db) \<Rightarrow>
        (case s of
           FollowRequest nid tag \<Rightarrow>
             (case requestNode db nid tag (Some UpdateKind) now of
                (Inl w, db') \<Rightarrow> (out @ [FollowWriteRefused nid w], feed, db')
              | (Inr _, db') \<Rightarrow> (out @ [FollowRequested nid tag], feed @ [followFeedRecord landed views s], db'))
         | FollowNote nid w \<Rightarrow>
             (case noteDispatchRefusal db nid (follow_note landed views nid w) of
                (Inl y, db') \<Rightarrow> (out @ [FollowWriteRefused nid y], feed, db')
              | (Inr changed, db') \<Rightarrow>
                  (out @ [FollowNoted nid w changed], if changed then feed @ [followFeedRecord landed views s] else feed, db'))))"

definition followLandedMove ::
  "fleet_store \<Rightarrow> landed_move \<Rightarrow> int \<Rightarrow> (follow_outcome list \<times> (string \<times> string) list) \<times> node_db" where
  "followLandedMove st landed now =
     (let views = dispatchViewsFor st in
      case fold (follow_one landed views now) (followSteps landed views (catalogue st)) ([], [], fs_nodes st) of
        (out, feed, db) \<Rightarrow> ((out, feed), db))"

text \<open>The sweep's own follow-through, over the table it has just written.\<close>

definition follow_of :: "fleet_store \<Rightarrow> int \<Rightarrow> landed_move \<Rightarrow> node_db \<Rightarrow> node_db" where
  "follow_of st now landed db = snd (followLandedMove (st\<lparr>fs_nodes := db\<rparr>) landed now)"

end
