(* ===== verification/ConvergeProps.thy ===== *)
theory ConvergeProps
  imports Converge NodeSafety UpdateProps
begin

text \<open>
  One dispatch run against the store it runs on: what the plan decides over the views, the writes of the same stretch
  carry out. The acquire of a planned move is never refused, and a stretch takes at most the one lease it sends.
\<close>

section \<open>Quiet stretches\<close>

lemma quietE:
  assumes "quiet db db'"
  obtains g q where "quiet_row g" "nb_nodes db' = map g (nb_nodes db)" "nb_refusals db' = filter q (nb_refusals db)"
  using assms unfolding quiet_def by blast

lemma quiet_trans: "quiet a b \<Longrightarrow> quiet b c \<Longrightarrow> quiet a c"
proof -
  assume ab: "quiet a b" and bc: "quiet b c"
  obtain g q where g: "quiet_row g" "nb_nodes b = map g (nb_nodes a)" "nb_refusals b = filter q (nb_refusals a)"
    by (rule quietE[OF ab])
  obtain h s where h: "quiet_row h" "nb_nodes c = map h (nb_nodes b)" "nb_refusals c = filter s (nb_refusals b)"
    by (rule quietE[OF bc])
  have "quiet_row (\<lambda>r. h (g r))" using g(1) h(1) unfolding quiet_row_def by metis
  moreover have "nb_nodes c = map (\<lambda>r. h (g r)) (nb_nodes a)" by (simp add: g(2) h(2) comp_def)
  moreover have "nb_refusals c = filter (\<lambda>x. q x \<and> s x) (nb_refusals a)" by (simp add: g(3) h(3))
  ultimately show "quiet a c" unfolding quiet_def by blast
qed

lemma fold_snd:
  assumes "P (snd acc)" "\<And>x acc. x \<in> set xs \<Longrightarrow> P (snd acc) \<Longrightarrow> P (snd (f x acc))"
  shows "P (snd (fold f xs acc))"
  using assms by (induction xs arbitrary: acc) simp_all

lemma quiet_fold:
  assumes "\<And>x acc. quiet (snd acc) (snd (f x acc))"
  shows "quiet (snd acc) (snd (fold f xs acc))"
  by (rule fold_snd[where P = "quiet (snd acc)"]) (auto intro: quiet_trans assms)

lemma quiet_expire_one: "quiet (snd acc) (snd (expire_one own now d r acc))"
  using quiet_releaseLease[of UFailed "snd acc" "dw_nodeId r" "expiry_detail own r" None]
  by (auto simp: expire_one_def split: prod.split sum.split)

lemma quiet_settle_met: "quiet (snd acc) (snd (settle_met m acc))"
  using quiet_settleNode[of "snd acc" "fst m" "''met: '' @ snd m" None]
  by (auto simp: settle_met_def split: prod.split sum.split)

lemma quiet_note_one: "quiet (snd acc) (snd (note_one n acc))"
  using quiet_noteDispatchRefusal[of "snd acc" "fst n" "snd n"]
  by (auto simp: note_one_def split: prod.split sum.split bool.split)

lemma find_map_id:
  assumes "\<And>r. k (g r) = k r"
  shows "find (\<lambda>r. k r = i) (map g rs) = map_option g (find (\<lambda>r. k r = i) rs)"
  using assms by (induction rs) auto

lemma quiet_at:
  assumes "quiet db db'" "node_at db i = Some r"
  shows "\<exists>r'. node_at db' i = Some r' \<and> live r' = live r \<and> (busy r' \<longrightarrow> busy r)"
proof -
  obtain g where g: "quiet_row g" "nb_nodes db' = map g (nb_nodes db)" using assms(1) by (auto simp: quiet_def)
  have id: "dw_nodeId (g x) = dw_nodeId x" "live (g x) = live x" "busy (g x) \<Longrightarrow> busy x" for x
    using g(1) by (simp_all add: quiet_row_def live_def)
  have "node_at db' i = map_option g (node_at db i)"
    unfolding node_at_def g(2) by (rule find_map_id) (rule id(1))
  then show ?thesis using assms(2) id by auto
qed

text \<open>The request of a row, and what leaves it alone.\<close>

definition ask_of :: "node_db \<Rightarrow> string \<Rightarrow> (string option \<times> request_kind option) option" where
  "ask_of db i = map_option (\<lambda>r. (dw_requestedTag r, dw_requestedKind r)) (node_at db i)"

lemma node_at_update:
  assumes "sql_update p f (nb_nodes db) = (rows, n)" "\<And>r. dw_nodeId (f r) = dw_nodeId r"
  shows "node_at (db\<lparr>nb_nodes := rows\<rparr>) i = map_option (\<lambda>r. if p r then f r else r) (node_at db i)"
proof -
  show ?thesis unfolding node_at_def sql_updateD(1)[OF assms(1)] by simp (rule find_map_id, simp add: assms(2))
qed

lemma ask_update:
  assumes "sql_update p f (nb_nodes db) = (rows, n)" "\<And>r. dw_nodeId (f r) = dw_nodeId r"
    "\<And>r. p r \<Longrightarrow> dw_nodeId r = i \<Longrightarrow> dw_requestedTag (f r) = dw_requestedTag r \<and> dw_requestedKind (f r) = dw_requestedKind r"
  shows "ask_of (db\<lparr>nb_nodes := rows\<rparr>) i = ask_of db i"
  using assms(3) node_at_in[of db i] by (cases "node_at db i") (auto simp: ask_of_def node_at_update[OF assms(1,2)])

lemma ask_settle: "i \<noteq> j \<Longrightarrow> ask_of (snd (settleNode db j d e)) i = ask_of db i"
  by (auto simp: settleNode_def Let_def split: prod.split intro!: ask_update)

lemma ask_note: "ask_of (snd (noteDispatchRefusal db j d)) i = ask_of db i"
  by (auto simp: noteDispatchRefusal_def Let_def split: prod.split option.split intro!: ask_update)

lemma ask_settle_met: "i \<noteq> fst m \<Longrightarrow> ask_of (snd (settle_met m acc)) i = ask_of (snd acc) i"
  using ask_settle[of i "fst m" "snd acc" "''met: '' @ snd m" None] by (auto simp: settle_met_def split: prod.split sum.split)

lemma ask_note_one: "ask_of (snd (note_one n acc)) i = ask_of (snd acc) i"
  using ask_note[of "snd acc" "fst n" "snd n" i] by (auto simp: note_one_def split: prod.split sum.split bool.split)

section \<open>The acquire\<close>

lemma dispatchNode_succeeds:
  assumes "good_clock now" "isReleaseTag t" "node_at db i = Some r" "live r" "\<not> busy r" "holders db = {}"
    "k = RollbackKind \<longrightarrow> dw_requestedKind r = Some RollbackKind \<and> dw_requestedTag r = Some t"
  shows "fst (dispatchNode db i t (Some k) now d) = Inr ()"
proof -
  let ?p = "\<lambda>r. dw_nodeId r = i \<and> live r \<and> isSettled (dw_updateState r) \<and> \<not> list_ex (\<lambda>b. live b \<and> busy b) (nb_nodes db) \<and>
     (Some k \<noteq> Some RollbackKind \<or> dw_requestedKind r = Some RollbackKind \<and> dw_requestedTag r = Some t)"
  let ?f = "\<lambda>r :: node_row. r\<lparr>dw_updateState := UPending, dw_updateTarget := Some t, dw_updateStartedAt := Some now,
     dw_updateDetail := Some d\<rparr>"
  obtain rows n where u: "sql_update ?p ?f (nb_nodes db) = (rows, n)" by fastforce
  have "\<not> list_ex (\<lambda>b. live b \<and> busy b) (nb_nodes db)" using assms(6) by (auto simp: list_ex_iff holders_def)
  moreover have "r \<in> set (nb_nodes db)" "dw_nodeId r = i" using node_at_in[OF assms(3)] by auto
  ultimately have "n > 0"
    using assms(4,5,7) sql_update_pos[of ?p ?f "nb_nodes db"] u by (cases k) (auto simp: busy_def)
  then show ?thesis using assms(1,2) unfolding dispatchNode_def u by (simp add: Let_def)
qed

section \<open>The plan over the store\<close>

lemma nodes_set: "set (nodes db) = {r \<in> set (nb_nodes db). live r}"
  by (simp add: nodes_def)

lemma nodes_ids:
  assumes "keys_unique db"
  shows "inj_on dw_nodeId (set (nodes db))"
  using assms by (auto simp: keys_unique_def nodes_set distinct_map inj_on_def)

lemma truncate_sel [simp]:
  "dw_nodeId (dispatch_row.truncate r) = dw_nodeId r" "dw_updateState (dispatch_row.truncate r) = dw_updateState r"
  "dw_requestedTag (dispatch_row.truncate r) = dw_requestedTag r" "dw_requestedKind (dispatch_row.truncate r) = dw_requestedKind r"
  "dw_updateDetail (dispatch_row.truncate r) = dw_updateDetail r" "dw_label (dispatch_row.truncate r) = dw_label r"
  "dw_updateStartedAt (dispatch_row.truncate r) = dw_updateStartedAt r"
  by (simp_all add: dispatch_row.truncate_def)

lemma view_set:
  "v \<in> set (dispatchViewsFor st) \<Longrightarrow>
   \<exists>r. r \<in> set (nodes (fs_nodes st)) \<and> nv_row v = dispatch_row.truncate r"
  by (auto simp: dispatchViewsFor_def)

text \<open>The row a plan moves, in the table the plan read.\<close>

lemma planned_row:
  assumes "keys_unique db" "db = fs_nodes st" "plan = planDispatch (dispatchViewsFor st) rels" "dp_move plan = Some m"
  obtains v r where "v \<in> set (dispatchViewsFor st)" "node_at db (dm_nodeId m) = Some r" "live r" "\<not> busy r"
    "nv_row v = dispatch_row.truncate r" "isReleaseTag (dm_target m)" "holders db = {}"
    "dm_kind m = RollbackKind \<longrightarrow> dw_requestedKind r = Some RollbackKind \<and> dw_requestedTag r = Some (dm_target m)"
    "dm_nodeId m \<notin> fst ` set (dp_met plan)" "\<forall>s \<in> set (nodes db). \<not> isHaltingUpdate (dw_updateState s) (dw_updateDetail s)"
    "dm_target m \<notin> refused_tags db (dm_nodeId m)"
proof -
  let ?vs = "dispatchViewsFor st" and ?g = "fleetGate (map nv_row (dispatchViewsFor st))"
  have held: "fg_leaseHeldBy ?g = None" and fc: "first_cleared (plan_fate ?vs rels) (sort_key dispatch_key ?vs) = Some m"
    using assms(4) by (simp_all add: assms(3) planDispatch_sel split: if_splits)
  obtain v where v: "v \<in> set ?vs" "plan_fate ?vs rels v = Cleared m"
    using first_cleared_Some[OF fc] by (metis in_set_conv_decomp set_sort)
  obtain im where im: "considered v" "intendedMove v = Some im" "\<not> is_met v im" "m = move_of v im"
    "moveRefusal v im rels ?g = None" using v(2) by (auto simp: plan_fate_Cleared)
  note cl = moveRefusal_None[THEN iffD1, OF im(5)]
  obtain r where r: "r \<in> set (nodes db)" "nv_row v = dispatch_row.truncate r" "nv_refusedTags v = refused_tags db (dw_nodeId r)"
    using v(1) by (auto simp: dispatchViewsFor_def assms(2))
  have free: "dm_target m \<notin> refused_tags db (dm_nodeId m)" using cl r(2,3) by (simp add: im(4) move_of_def)
  have at: "node_at db (dm_nodeId m) = Some r"
    using node_at_unique[OF assms(1), of r] r by (simp add: im(4) move_of_def nodes_set)
  have tag: "isReleaseTag (dm_target m)"
  proof (cases "im_kind im")
    case UpdateKind
    then show ?thesis using update_target_cleared cl by (fastforce simp: im(4) move_of_def)
  next
    case RollbackKind
    then obtain e where "releaseRowFor rels (im_target im) = Some e"
      using cl by (auto simp: target_refusal_def rollbackTargetRefusal_def split: option.splits)
    then show ?thesis using releaseRowFor_Some by (auto simp: im(4) move_of_def)
  qed
  have roll: "dm_kind m = RollbackKind \<longrightarrow> dw_requestedKind r = Some RollbackKind \<and> dw_requestedTag r = Some (dm_target m)"
    using im(2,4) r(2) by (auto simp: intendedMove_def Let_def move_of_def split: option.splits if_splits)
  have settled: "isSettled (dw_updateState s)" if "s \<in> set (nodes db)" for s
  proof -
    have "dispatch_row.truncate s \<in> set (map nv_row ?vs)" using that by (force simp: dispatchViewsFor_def assms(2))
    then show ?thesis using held[unfolded leaseHeld_None] by (metis truncate_sel(2))
  qed
  have none: "holders db = {}" using settled by (auto simp: holders_def nodes_set busy_def)
  have halt: "\<not> isHaltingUpdate (dw_updateState s) (dw_updateDetail s)" if "s \<in> set (nodes db)" for s
  proof -
    have "dispatch_row.truncate s \<in> set (map nv_row ?vs)" using that by (force simp: dispatchViewsFor_def assms(2))
    then have "\<not> isHalting (dispatch_row.truncate s)" using cl haltedBy_Nil by blast
    then show ?thesis by (simp add: isHalting_def)
  qed
  have met: "dm_nodeId m \<notin> fst ` set (dp_met plan)"
  proof
    assume "dm_nodeId m \<in> fst ` set (dp_met plan)"
    then obtain w t where w: "w \<in> set ?vs" "plan_fate ?vs rels w = Met t" "dw_nodeId (nv_row w) = dm_nodeId m"
      by (auto simp: assms(3) planDispatch_sel set_map_filter_iff met_entry_Some)
    obtain s where s: "s \<in> set (nodes db)" "nv_row w = dispatch_row.truncate s" using view_set[OF w(1)] by (auto simp: assms(2))
    have "dw_nodeId s = dw_nodeId r" using w(3) s(2) r(2) by (simp add: im(4) move_of_def)
    then have "s = r" using nodes_ids[OF assms(1)] s(1) r(1) by (auto simp: inj_on_def)
    then have nv: "nv_row w = nv_row v" using s(2) r(2) by simp
    obtain im' where w': "intendedMove w = Some im'" "is_met w im'" using w(2) by (auto simp: plan_fate_def fate_of_Met)
    have "im_source im' = RequestSource" using w'(2) by (simp add: is_met_def)
    then have "intendedMove v = Some im'"
      using w'(1) nv by (auto simp: intendedMove_def Let_def split: option.splits if_splits)
    then have "im' = im" using im(2) by simp
    then show False using w'(2) im(3) nv by (simp add: is_met_def)
  qed
  show thesis
    by (rule that[OF v(1) at _ _ r(2) tag none roll met])
      (use r(1) settled halt free in \<open>auto simp: nodes_set busy_def\<close>)
qed

section \<open>The stretch\<close>

text \<open>Every write of a stretch is a step of the store.\<close>

lemma reach_expire: "node_reach (snd acc) \<Longrightarrow> node_reach (snd (expire_one own now d r acc))"
  using node_reach.step[OF _ node_step.released[of UFailed "snd acc" "dw_nodeId r" "expiry_detail own r" None]]
  by (auto simp: expire_one_def split: prod.split sum.split)

lemma reach_settle_met: "node_reach (snd acc) \<Longrightarrow> node_reach (snd (settle_met m acc))"
  using node_reach.step[OF _ node_step.settled[of "snd acc" "fst m" "''met: '' @ snd m" None]]
  by (auto simp: settle_met_def split: prod.split sum.split)

lemma reach_note_one: "node_reach (snd acc) \<Longrightarrow> node_reach (snd (note_one n acc))"
  using node_reach.step[OF _ node_step.refusal_noted[of "snd acc" "fst n" "snd n"]]
  by (auto simp: note_one_def split: prod.split sum.split bool.split)

text \<open>The three folds of a stretch, and the tables between them.\<close>

definition expired_db :: "converge_deps \<Rightarrow> report_origin option \<Rightarrow> int \<Rightarrow> fleet_store \<Rightarrow> node_db" where
  "expired_db deps own now st = snd (fold (expire_one own now (cd_deadlineMs deps)) (nodes (fs_nodes st)) ([], fs_nodes st))"

definition planned_on :: "node_db \<Rightarrow> fleet_store \<Rightarrow> dispatch_plan" where
  "planned_on db st = planDispatch (dispatchViewsFor (st\<lparr>fs_nodes := db\<rparr>)) (catalogue (st\<lparr>fs_nodes := db\<rparr>))"

definition noted_db :: "node_db \<Rightarrow> fleet_store \<Rightarrow> node_db" where
  "noted_db db st =
     (let plan = planned_on db st in
      snd (fold note_one (map (refusal_note (dispatchViewsFor (st\<lparr>fs_nodes := db\<rparr>))) (dp_refusals plan))
        (0, snd (fold settle_met (dp_met plan) ([], db)))))"

lemma expired_db_keeps:
  "quiet (fs_nodes st) (expired_db deps own now st)"
  "node_reach (fs_nodes st) \<Longrightarrow> node_reach (expired_db deps own now st)"
proof -
  show "quiet (fs_nodes st) (expired_db deps own now st)"
    unfolding expired_db_def using quiet_fold[of "expire_one own now (cd_deadlineMs deps)" "([], fs_nodes st)"] quiet_expire_one by simp
  show "node_reach (expired_db deps own now st)" if "node_reach (fs_nodes st)"
    unfolding expired_db_def by (rule fold_snd[where P = node_reach]) (use that reach_expire in auto)
qed

lemma noted_db_keeps:
  "quiet db (noted_db db st)"
  "node_reach db \<Longrightarrow> node_reach (noted_db db st)"
  "i \<notin> fst ` set (dp_met (planned_on db st)) \<Longrightarrow> ask_of (noted_db db st) i = ask_of db i"
proof -
  let ?met = "dp_met (planned_on db st)"
  let ?ns = "map (refusal_note (dispatchViewsFor (st\<lparr>fs_nodes := db\<rparr>))) (dp_refusals (planned_on db st))"
  let ?d2 = "snd (fold settle_met ?met ([], db))"
  have d: "noted_db db st = snd (fold note_one ?ns (0, ?d2))" by (simp add: noted_db_def Let_def)
  have "quiet db ?d2" using quiet_fold[of settle_met "([], db)" ?met] quiet_settle_met by simp
  moreover have "quiet ?d2 (noted_db db st)" unfolding d using quiet_fold[of note_one "(0, ?d2)" ?ns] quiet_note_one by simp
  ultimately show "quiet db (noted_db db st)" by (rule quiet_trans)
  show "node_reach (noted_db db st)" if "node_reach db"
  proof -
    have "node_reach ?d2" by (rule fold_snd[where P = node_reach]) (use that reach_settle_met in auto)
    then show ?thesis unfolding d by (intro fold_snd[where P = node_reach]) (use reach_note_one in auto)
  qed
  show "ask_of (noted_db db st) i = ask_of db i" if i: "i \<notin> fst ` set ?met"
  proof -
    have "ask_of ?d2 i = ask_of db i"
    proof (rule fold_snd[where P = "\<lambda>d. ask_of d i = ask_of db i"])
      show "ask_of (snd (settle_met m acc)) i = ask_of db i" if "m \<in> set ?met" "ask_of (snd acc) i = ask_of db i" for m acc
        using that ask_settle_met[of i m acc] i by (metis imageI)
    qed simp
    moreover have "ask_of (noted_db db st) i = ask_of ?d2 i"
      unfolding d by (rule fold_snd[where P = "\<lambda>d. ask_of d i = ask_of ?d2 i"]) (simp_all add: ask_note_one)
    ultimately show ?thesis by simp
  qed
qed

lemma stretch_cases:
  assumes "dispatch_stretch deps own now st = ((run, out), st')"
  defines "db1 \<equiv> expired_db deps own now st"
  defines "db3 \<equiv> noted_db db1 st"
  shows "dr_plan run = planned_on db1 st \<and>
    (case dp_move (planned_on db1 st) of
       None \<Rightarrow> out = StretchDone None \<and> fs_nodes st' = db3
     | Some m \<Rightarrow>
         (case view_of (dispatchViewsFor (st\<lparr>fs_nodes := db1\<rparr>)) (dm_nodeId m) of
            None \<Rightarrow> out = StretchDone (Some (AcquireRefused (dm_nodeId m) UnknownNode)) \<and> fs_nodes st' = db3
          | Some v \<Rightarrow>
              (case unsendableDetail deps v m of
                 Some d \<Rightarrow> out = StretchDone (Some (MoveNotSent (dm_nodeId m) d)) \<and>
                   (\<exists>k. fs_nodes st' = snd (note_one (dm_nodeId m, d) (k, db3)))
               | None \<Rightarrow>
                   (case dispatchNode db3 (dm_nodeId m) (dm_target m) (Some (dm_kind m)) now (moveText (dm_detail m)) of
                      (Inl why, db4) \<Rightarrow> out = StretchDone (Some (AcquireRefused (dm_nodeId m) why)) \<and> fs_nodes st' = db4
                    | (Inr (), db4) \<Rightarrow> out = SendMove m (dw_label (nv_row v)) \<and> fs_nodes st' = db4))))"
proof -
  obtain expired d1 where e: "fold (expire_one own now (cd_deadlineMs deps)) (nodes (fs_nodes st)) ([], fs_nodes st) = (expired, d1)"
    by fastforce
  have d1: "d1 = db1" by (simp add: db1_def expired_db_def e)
  obtain settled d2 where s: "fold settle_met (dp_met (planned_on db1 st)) ([], db1) = (settled, d2)" by fastforce
  obtain noted d3 where n: "fold note_one (map (refusal_note (dispatchViewsFor (st\<lparr>fs_nodes := db1\<rparr>)))
      (dp_refusals (planned_on db1 st))) (0, d2) = (noted, d3)" by fastforce
  have d3: "d3 = db3" by (simp add: db3_def noted_db_def Let_def s n)
  note u = assms(1)[unfolded dispatch_stretch_def Let_def e prod.case d1 planned_on_def[symmetric] s n d3]
  show ?thesis
  proof (cases "dp_move (planned_on db1 st)")
    case None
    then show ?thesis using u by auto
  next
    case (Some m)
    note u1 = u[unfolded Some option.case]
    show ?thesis
    proof (cases "view_of (dispatchViewsFor (st\<lparr>fs_nodes := db1\<rparr>)) (dm_nodeId m)")
      case None
      then show ?thesis using u1 Some by auto
    next
      case v: (Some v)
      note u2 = u1[unfolded v option.case]
      show ?thesis
      proof (cases "unsendableDetail deps v m")
        case None
        obtain r db4 where q: "dispatchNode db3 (dm_nodeId m) (dm_target m) (Some (dm_kind m)) now (moveText (dm_detail m)) = (r, db4)"
          by (cases "dispatchNode db3 (dm_nodeId m) (dm_target m) (Some (dm_kind m)) now (moveText (dm_detail m))")
        note u3 = u2[unfolded None option.case q prod.case]
        show ?thesis
          unfolding Some option.case v None q prod.case
          using u3 by (cases r; auto simp only: sum.case old.unit.case prod.inject dispatch_run.select_convs split: unit.splits; simp)
      next
        case d: (Some d)
        obtain k db4 where k: "note_one (dm_nodeId m, d) (noted, db3) = (k, db4)" by fastforce
        note u3 = u2[unfolded d option.case k prod.case]
        have "dr_plan run = planned_on db1 st" "out = StretchDone (Some (MoveNotSent (dm_nodeId m) d))" "fs_nodes st' = db4"
          using u3 by auto
        moreover have "db4 = snd (note_one (dm_nodeId m, d) (noted, db3))" by (simp add: k)
        ultimately show ?thesis unfolding Some option.case v d by blast
      qed
    qed
  qed
qed

lemma view_found:
  assumes "keys_unique (fs_nodes st)" "v \<in> set (dispatchViewsFor st)"
  shows "view_of (dispatchViewsFor st) (dw_nodeId (nv_row v)) = Some v"
proof (cases "view_of (dispatchViewsFor st) (dw_nodeId (nv_row v))")
  case None
  then show ?thesis using assms(2) by (auto simp: view_of_def find_None_iff_ball)
next
  case (Some w)
  then have w: "w \<in> set (dispatchViewsFor st)" "dw_nodeId (nv_row w) = dw_nodeId (nv_row v)"
    using find_Some_set unfolding view_of_def by fast+
  obtain r s where "r \<in> set (nodes (fs_nodes st))" "s \<in> set (nodes (fs_nodes st))" "dw_nodeId r = dw_nodeId s"
    "v = \<lparr>nv_row = dispatch_row.truncate r, nv_auto = rs_auto (resolveNodeIntent (resolveInputFor st r)),
          nv_refusedTags = refused_tags (fs_nodes st) (dw_nodeId r)\<rparr>"
    "w = \<lparr>nv_row = dispatch_row.truncate s, nv_auto = rs_auto (resolveNodeIntent (resolveInputFor st s)),
          nv_refusedTags = refused_tags (fs_nodes st) (dw_nodeId s)\<rparr>"
    using assms(2) w by (auto simp: dispatchViewsFor_def)
  then have "w = v" using nodes_ids[OF assms(1)] by (auto simp: inj_on_def)
  with Some show ?thesis by simp
qed

lemma stretch_grants:
  assumes reach: "node_reach (fs_nodes st)" and now: "good_clock now"
    and plan: "planned_on (expired_db deps own now st) st = pl" "dp_move pl = Some m"
  shows "fst (dispatchNode (noted_db (expired_db deps own now st) st) (dm_nodeId m) (dm_target m) (Some (dm_kind m)) now d) = Inr ()"
    "\<exists>v. view_of (dispatchViewsFor (st\<lparr>fs_nodes := expired_db deps own now st\<rparr>)) (dm_nodeId m) = Some v \<and>
      dw_nodeId (nv_row v) = dm_nodeId m"
    "holders (noted_db (expired_db deps own now st) st) = {}"
proof -
  let ?db1 = "expired_db deps own now st"
  let ?db3 = "noted_db ?db1 st"
  have r1: "node_reach ?db1" using expired_db_keeps(2)[OF reach] .
  have k1: "keys_unique ?db1" using node_reach_inv[OF r1] by (simp add: node_inv_def)
  have pl: "pl = planDispatch (dispatchViewsFor (st\<lparr>fs_nodes := ?db1\<rparr>)) (catalogue (st\<lparr>fs_nodes := ?db1\<rparr>))"
    using plan(1) by (simp add: planned_on_def)
  obtain v r where v: "v \<in> set (dispatchViewsFor (st\<lparr>fs_nodes := ?db1\<rparr>))" and r: "node_at ?db1 (dm_nodeId m) = Some r" "live r" "\<not> busy r"
    "nv_row v = dispatch_row.truncate r" and tag: "isReleaseTag (dm_target m)" and none: "holders ?db1 = {}"
    and roll: "dm_kind m = RollbackKind \<longrightarrow> dw_requestedKind r = Some RollbackKind \<and> dw_requestedTag r = Some (dm_target m)"
    and met: "dm_nodeId m \<notin> fst ` set (dp_met pl)"
    by (rule planned_row[OF k1 _ pl plan(2)]) simp_all
  have id: "dw_nodeId (nv_row v) = dm_nodeId m" using r(1,4) node_at_in by (metis truncate_sel(1))
  show "\<exists>v. view_of (dispatchViewsFor (st\<lparr>fs_nodes := ?db1\<rparr>)) (dm_nodeId m) = Some v \<and> dw_nodeId (nv_row v) = dm_nodeId m"
    using view_found[OF _ v] k1 id by auto
  note q = noted_db_keeps(1)[of ?db1 st]
  show none3: "holders ?db3 = {}" using quiet_nodes(3)[OF q] none by blast
  obtain r3 where r3: "node_at ?db3 (dm_nodeId m) = Some r3" "live r3" "\<not> busy r3" using quiet_at[OF q r(1)] r(2,3) by auto
  have "ask_of ?db3 (dm_nodeId m) = ask_of ?db1 (dm_nodeId m)"
    using noted_db_keeps(3)[of "dm_nodeId m" ?db1 st] met plan(1) by simp
  then have "dw_requestedTag r3 = dw_requestedTag r" "dw_requestedKind r3 = dw_requestedKind r"
    by (simp_all add: ask_of_def r(1) r3(1))
  then show "fst (dispatchNode ?db3 (dm_nodeId m) (dm_target m) (Some (dm_kind m)) now d) = Inr ()"
    using dispatchNode_succeeds[OF now tag r3 none3] roll by simp
qed

text \<open>C5: the plan and the lease agree. In one dispatch stretch over any table the store can reach, the acquire of
  the planned move is never refused: nothing the same stretch writes before it (the expired leases, the met settles, the
  notes) takes the move back. A stretch that sends a move ends with exactly one lease in the fleet, the one it
  took, on the row it planned, pending, dated now, with the planned target and words; a stretch that
  does not, takes none: it either planned nothing, or planned a move that cannot leave the process, and then
  no lease stands at all.\<close>

theorem planned_acquire_granted:
  assumes "node_reach (fs_nodes st)" "good_clock now" "dispatch_stretch deps own now st = ((run, out), st')"
  shows "(case out of
       SendMove m label \<Rightarrow>
         dp_move (dr_plan run) = Some m \<and>
         (\<exists>r. filter (\<lambda>s. live s \<and> busy s) (nb_nodes (fs_nodes st')) = [r] \<and> dw_nodeId r = dm_nodeId m \<and> dw_updateState r = UPending \<and>
            dw_updateTarget r = Some (dm_target m) \<and> dw_updateStartedAt r = Some now \<and> dw_updateDetail r = Some (moveText (dm_detail m)))
     | StretchDone None \<Rightarrow> dp_move (dr_plan run) = None \<and> holders (fs_nodes st') \<subseteq> holders (fs_nodes st)
     | StretchDone (Some o1) \<Rightarrow>
         (\<exists>m d. o1 = MoveNotSent (dm_nodeId m) d \<and> dp_move (dr_plan run) = Some m) \<and> holders (fs_nodes st') = {}) \<and>
    node_reach (fs_nodes st')"
proof -
  let ?db1 = "expired_db deps own now st"
  let ?db3 = "noted_db ?db1 st"
  note c = stretch_cases[OF assms(3)]
  have r3: "node_reach ?db3" using noted_db_keeps(2)[OF expired_db_keeps(2)[OF assms(1)]] .
  have sub: "holders ?db3 \<subseteq> holders (fs_nodes st)"
    using quiet_nodes(3)[OF quiet_trans[OF expired_db_keeps(1)[of st deps own now] noted_db_keeps(1)[of ?db1 st]]] .
  show ?thesis
  proof (cases "dp_move (planned_on ?db1 st)")
    case None
    then show ?thesis using c r3 sub by auto
  next
    case (Some m)
    note g = stretch_grants[OF assms(1,2) refl Some]
    obtain v where v: "view_of (dispatchViewsFor (st\<lparr>fs_nodes := ?db1\<rparr>)) (dm_nodeId m) = Some v" using g(2) by blast
    show ?thesis
    proof (cases "unsendableDetail deps v m")
      case d: (Some d)
      obtain k where k: "out = StretchDone (Some (MoveNotSent (dm_nodeId m) d))" "fs_nodes st' = snd (note_one (dm_nodeId m, d) (k, ?db3))"
        "dr_plan run = planned_on ?db1 st"
        using c[unfolded Some option.case v d] by blast
      have "holders (fs_nodes st') = {}"
        using quiet_nodes(3)[OF quiet_note_one[of "(k, ?db3)" "(dm_nodeId m, d)"]] g(3) by (auto simp: k(2))
      moreover have "node_reach (fs_nodes st')" unfolding k(2) by (rule reach_note_one) (simp add: r3)
      ultimately show ?thesis using Some by (auto simp: k(1,3))
    next
      case None
      obtain db4 where d: "dispatchNode ?db3 (dm_nodeId m) (dm_target m) (Some (dm_kind m)) now (moveText (dm_detail m)) = (Inr (), db4)"
        using g(1)[of "moveText (dm_detail m)"] by (cases "dispatchNode ?db3 (dm_nodeId m) (dm_target m) (Some (dm_kind m)) now (moveText (dm_detail m))") simp
      have out: "out = SendMove m (dw_label (nv_row v))" "fs_nodes st' = db4" "dr_plan run = planned_on ?db1 st"
        using c[unfolded Some option.case v None d prod.case sum.case old.unit.case] by blast+
      have reach: "node_reach db4" using node_reach.step[OF r3 node_step.dispatched, of "dm_nodeId m" "dm_target m" "Some (dm_kind m)" now "moveText (dm_detail m)"]
        by (simp add: d)
      show ?thesis
        unfolding out stretch.case using acquired_lease[OF node_reach_inv[OF r3] d] reach Some by auto
    qed
  qed
qed

text \<open>A fleet box on v0.0.1, asked for the listed v0.0.2.\<close>

definition demo_store :: fleet_store where
  "demo_store =
     \<lparr>fs_nodes = snd (requestNode demo_nodes FLEET_LABEL ''v0.0.2'' (Some UpdateKind) 3),
      fs_releases = [listed_row 1 \<lparr>li_tag = ''v0.0.2'', li_channel = Some Stable, li_publishedAt = Some 1, li_commitSha = None,
         li_tarballUrl = None, li_bundleListed = True, li_notes = None, li_draft = False\<rparr>],
      fs_intents = seeded_intents\<rparr>"

definition demo_deps :: converge_deps where
  "demo_deps = \<lparr>cd_role = RServer, cd_deadlineMs = 1000, cd_link = Some (True, Some [''update'']), cd_runLocal = False\<rparr>"

lemma demo_store_reach: "node_reach (fs_nodes demo_store)"
  using node_reach.step[OF demo_reach node_step.requested, of FLEET_LABEL "''v0.0.2''" "Some UpdateKind" 3] by (simp add: demo_store_def)

theorem planned_acquire_granted_witness:
  "\<exists>run m label st'. dispatch_stretch demo_deps None 5 demo_store = ((run, SendMove m label), st') \<and>
     (\<exists>r. filter (\<lambda>s. live s \<and> busy s) (nb_nodes (fs_nodes st')) = [r] \<and> dw_updateTarget r = Some ''v0.0.2'')"
proof -
  let ?d = "dispatch_stretch demo_deps None 5 demo_store"
  have "(case snd (fst ?d) of SendMove m l \<Rightarrow> dm_target m = ''v0.0.2'' | _ \<Rightarrow> False)" by code_simp
  moreover obtain run out st' where d: "?d = ((run, out), st')" by (metis prod.collapse)
  ultimately obtain m label where out: "out = SendMove m label" "dm_target m = ''v0.0.2''" by (auto split: stretch.splits)
  have "good_clock 5" by code_simp
  from planned_acquire_granted[OF demo_store_reach this d] show ?thesis unfolding out(1) stretch.case using d out by auto
qed

end
