(* ===== verification/NodeEvolve.thy ===== *)
theory NodeEvolve
  imports ConvergeProps
begin

text \<open>
  How the lease of a row may change when nothing acquires and nobody acknowledges. Every row of the table after an
  operation comes from a row of the table before it: itself, or a busy row whose lease was handed to it, and its
  lease columns stay, settle once, or change their words. The relation is transitive, so that what holds of one
  operation holds of a sweep or a stretch of them.
\<close>

section \<open>One row\<close>

definition halts :: "node_row \<Rightarrow> bool" where "halts r \<longleftrightarrow> isHaltingUpdate (dw_updateState r) (dw_updateDetail r)"

text \<open>\<open>Q\<close> is what is known of the words of a failure.\<close>

definition lease_move :: "(string \<Rightarrow> bool) \<Rightarrow> node_row \<Rightarrow> node_row \<Rightarrow> bool" where
  "lease_move Q r r' \<longleftrightarrow>
     dw_updateTarget r' = dw_updateTarget r \<and> dw_updateStartedAt r' = dw_updateStartedAt r \<and>
     (if busy r
      then (dw_updateState r' = dw_updateState r \<or> isSettled (dw_updateState r')) \<and>
           (dw_updateState r' = UFailed \<longrightarrow> (\<exists>d. dw_updateDetail r' = Some d \<and> Q d))
      else dw_updateState r' = dw_updateState r \<and> (dw_updateState r \<noteq> UIdle \<longrightarrow> dw_updateDetail r' = dw_updateDetail r))"

lemma lease_move_refl [simp]: "lease_move Q r r"
  by (cases "dw_updateState r") (simp_all add: lease_move_def busy_def)

lemma lease_move_same:
  "dw_updateTarget r' = dw_updateTarget r \<Longrightarrow> dw_updateStartedAt r' = dw_updateStartedAt r \<Longrightarrow>
   dw_updateState r' = dw_updateState r \<Longrightarrow> dw_updateDetail r' = dw_updateDetail r \<Longrightarrow> lease_move Q r r'"
  by (cases "dw_updateState r") (simp_all add: lease_move_def busy_def)

lemma lease_move_trans: "lease_move Q a b \<Longrightarrow> lease_move Q b c \<Longrightarrow> lease_move Q a c"
  by (auto simp: lease_move_def busy_def split: if_splits)

lemma lease_move_busy: "lease_move Q r r' \<Longrightarrow> busy r' \<Longrightarrow> busy r"
  by (auto simp: lease_move_def busy_def split: if_splits)

lemma halts_settled: "halts r \<Longrightarrow> \<not> busy r \<and> dw_updateState r \<noteq> UIdle"
  by (auto simp: halts_def isHaltingUpdate_def busy_def split: if_splits)

lemma lease_move_halts:
  "lease_move Q r r' \<Longrightarrow> halts r \<Longrightarrow>
   dw_updateState r' = dw_updateState r \<and> dw_updateDetail r' = dw_updateDetail r \<and> dw_updateTarget r' = dw_updateTarget r \<and> halts r'"
  by (auto simp: lease_move_def halts_def isHaltingUpdate_def busy_def split: if_splits)

lemma lease_move_weaken: "lease_move P r r' \<Longrightarrow> (\<And>d. P d \<Longrightarrow> Q d) \<Longrightarrow> lease_move Q r r'"
  by (auto simp: lease_move_def split: if_splits)

section \<open>A table\<close>

definition refused_at :: "node_db \<Rightarrow> string \<Rightarrow> string \<Rightarrow> bool" where
  "refused_at db i t \<longleftrightarrow> (\<exists>f \<in> set (nb_refusals db). rf_nodeId f = i \<and> rf_tag f = t)"

definition same_place :: "node_row \<Rightarrow> node_row \<Rightarrow> bool" where
  "same_place r r' \<longleftrightarrow> dw_nodeId r' = dw_nodeId r \<and> nd_supersededBy r' = nd_supersededBy r \<and> dw_label r' = dw_label r"

text \<open>\<open>origin db r q\<close>: the lease of the row after comes from \<open>q\<close>, the row itself or a busy row.\<close>

definition origin :: "node_db \<Rightarrow> node_row \<Rightarrow> node_row \<Rightarrow> bool" where
  "origin db r q \<longleftrightarrow> q \<in> set (nb_nodes db) \<and> (q = r \<or> \<not> halts r \<and> busy q)"

definition newcomer :: "(string \<Rightarrow> bool) \<Rightarrow> node_db \<Rightarrow> node_row \<Rightarrow> bool" where
  "newcomer Q db n \<longleftrightarrow> dw_updateState n = UIdle \<or> (\<exists>p \<in> set (nb_nodes db). busy p \<and> lease_move Q p n)"

definition evolves :: "bool \<Rightarrow> (string \<Rightarrow> bool) \<Rightarrow> node_db \<Rightarrow> node_db \<Rightarrow> bool" where
  "evolves stay Q db db' \<longleftrightarrow>
     (\<exists>g news. nb_nodes db' = map g (nb_nodes db) @ news \<and> (\<forall>n \<in> set news. newcomer Q db n) \<and> (stay \<longrightarrow> news = []) \<and>
        (\<forall>r \<in> set (nb_nodes db). (\<exists>q. origin db r q \<and> lease_move Q q (g r)) \<and> (stay \<longrightarrow> same_place r (g r)) \<and>
           (\<forall>t. refused_at db (dw_nodeId r) t \<longrightarrow> refused_at db' (dw_nodeId (g r)) t)))"

lemma evolvesI:
  assumes "nb_nodes db' = map g (nb_nodes db) @ news" "\<And>n. n \<in> set news \<Longrightarrow> newcomer Q db n" "stay \<Longrightarrow> news = []"
    "\<And>r. r \<in> set (nb_nodes db) \<Longrightarrow> \<exists>q. origin db r q \<and> lease_move Q q (g r)"
    "\<And>r. r \<in> set (nb_nodes db) \<Longrightarrow> stay \<Longrightarrow> same_place r (g r)"
    "\<And>r t. r \<in> set (nb_nodes db) \<Longrightarrow> refused_at db (dw_nodeId r) t \<Longrightarrow> refused_at db' (dw_nodeId (g r)) t"
  shows "evolves stay Q db db'"
  unfolding evolves_def using assms by blast

lemma evolvesE:
  assumes "evolves stay Q db db'"
  obtains g news where "nb_nodes db' = map g (nb_nodes db) @ news" "\<And>n. n \<in> set news \<Longrightarrow> newcomer Q db n" "stay \<Longrightarrow> news = []"
    "\<And>r. r \<in> set (nb_nodes db) \<Longrightarrow> \<exists>q. origin db r q \<and> lease_move Q q (g r)"
    "\<And>r. r \<in> set (nb_nodes db) \<Longrightarrow> stay \<Longrightarrow> same_place r (g r)"
    "\<And>r t. r \<in> set (nb_nodes db) \<Longrightarrow> refused_at db (dw_nodeId r) t \<Longrightarrow> refused_at db' (dw_nodeId (g r)) t"
  using assms unfolding evolves_def by blast

lemma origin_self: "r \<in> set (nb_nodes db) \<Longrightarrow> origin db r r"
  by (simp add: origin_def)

lemma evolves_refl [simp]: "evolves stay Q db db"
  by (rule evolvesI[where g = "\<lambda>r. r" and news = "[]"]) (auto simp: same_place_def intro!: exI[of _ r for r] origin_self)

lemma evolves_map:
  assumes "nb_nodes db' = map g (nb_nodes db)" "nb_refusals db' = nb_refusals db"
    "\<And>r. r \<in> set (nb_nodes db) \<Longrightarrow> \<exists>q. origin db r q \<and> lease_move Q q (g r)" "\<And>r. dw_nodeId (g r) = dw_nodeId r"
    "\<And>r. stay \<Longrightarrow> same_place r (g r)"
  shows "evolves stay Q db db'"
  by (rule evolvesI[where g = g and news = "[]"]) (use assms in \<open>auto simp: refused_at_def\<close>)

lemma evolves_update:
  assumes "sql_update p f (nb_nodes db) = (rows, n)" "\<And>r. p r \<Longrightarrow> lease_move Q r (f r)" "\<And>r. dw_nodeId (f r) = dw_nodeId r"
    "\<And>r. stay \<Longrightarrow> p r \<Longrightarrow> same_place r (f r)"
  shows "evolves stay Q db (db\<lparr>nb_nodes := rows\<rparr>)"
proof (rule evolves_map[where g = "\<lambda>r. if p r then f r else r"])
  show "\<exists>q. origin db r q \<and> lease_move Q q (if p r then f r else r)" if "r \<in> set (nb_nodes db)" for r
    using that assms(2)[of r] origin_self by (intro exI[of _ r]) auto
qed (use assms(3,4) in \<open>auto simp: sql_updateD(1)[OF assms(1)] same_place_def\<close>)

lemma evolves_append:
  assumes "dw_updateState r = UIdle"
  shows "evolves False Q db (db\<lparr>nb_nodes := nb_nodes db @ [r]\<rparr>)"
  by (rule evolvesI[where g = "\<lambda>r. r" and news = "[r]"]) (use assms in \<open>auto simp: refused_at_def newcomer_def intro!: exI[of _ r for r] origin_self\<close>)

lemma evolves_refuse:
  assumes "set (nb_refusals db) \<subseteq> set fs"
  shows "evolves stay Q db (db\<lparr>nb_refusals := fs\<rparr>)"
  by (rule evolvesI[where g = "\<lambda>r. r" and news = "[]"])
    (use assms in \<open>auto simp: refused_at_def same_place_def intro!: exI[of _ r for r] origin_self\<close>)

lemma origin_trans:
  assumes "origin db r q" "lease_move Q q r'" "r' \<in> set (nb_nodes db')" "origin db' r' s" "lease_move Q s r''"
    "\<And>x. x \<in> set (nb_nodes db') \<Longrightarrow> busy x \<Longrightarrow> \<exists>p \<in> set (nb_nodes db). busy p \<and> lease_move Q p x"
  shows "\<exists>p. origin db r p \<and> lease_move Q p r''"
proof (cases "s = r'")
  case True
  then show ?thesis using assms(1,2,5) lease_move_trans by blast
next
  case False
  then have s: "\<not> halts r'" "busy s" "s \<in> set (nb_nodes db')" using assms(4) by (auto simp: origin_def)
  obtain p where p: "p \<in> set (nb_nodes db)" "busy p" "lease_move Q p s" using assms(6)[OF s(3,2)] by blast
  have "\<not> halts r"
  proof
    assume h: "halts r"
    then have "q = r" using assms(1) by (simp add: origin_def)
    then show False using lease_move_halts[OF assms(2)] h s(1) by simp
  qed
  then show ?thesis using p assms(5) lease_move_trans by (auto simp: origin_def)
qed

lemma evolves_trans:
  assumes "evolves stay Q a b" "evolves stay Q b c"
  shows "evolves stay Q a c"
proof -
  obtain g ns where g: "nb_nodes b = map g (nb_nodes a) @ ns" "\<And>n. n \<in> set ns \<Longrightarrow> newcomer Q a n" "stay \<Longrightarrow> ns = []"
    "\<And>r. r \<in> set (nb_nodes a) \<Longrightarrow> \<exists>q. origin a r q \<and> lease_move Q q (g r)" "\<And>r. r \<in> set (nb_nodes a) \<Longrightarrow> stay \<Longrightarrow> same_place r (g r)"
    "\<And>r t. r \<in> set (nb_nodes a) \<Longrightarrow> refused_at a (dw_nodeId r) t \<Longrightarrow> refused_at b (dw_nodeId (g r)) t"
    by (rule evolvesE[OF assms(1)]) blast
  obtain h ms where h: "nb_nodes c = map h (nb_nodes b) @ ms" "\<And>n. n \<in> set ms \<Longrightarrow> newcomer Q b n" "stay \<Longrightarrow> ms = []"
    "\<And>r. r \<in> set (nb_nodes b) \<Longrightarrow> \<exists>q. origin b r q \<and> lease_move Q q (h r)" "\<And>r. r \<in> set (nb_nodes b) \<Longrightarrow> stay \<Longrightarrow> same_place r (h r)"
    "\<And>r t. r \<in> set (nb_nodes b) \<Longrightarrow> refused_at b (dw_nodeId r) t \<Longrightarrow> refused_at c (dw_nodeId (h r)) t"
    by (rule evolvesE[OF assms(2)]) blast
  have up: "\<exists>p \<in> set (nb_nodes a). busy p \<and> lease_move Q p x" if x: "x \<in> set (nb_nodes b)" "busy x" for x
  proof (cases "x \<in> set ns")
    case True
    then show ?thesis using g(2)[OF True] x(2) by (auto simp: newcomer_def busy_def)
  next
    case False
    then obtain r where r: "r \<in> set (nb_nodes a)" "x = g r" using x(1) g(1) by auto
    then obtain q where "origin a r q" "lease_move Q q x" using g(4) by blast
    then show ?thesis using lease_move_busy x(2) by (auto simp: origin_def)
  qed
  have later: "newcomer Q a y" if x: "busy x" "lease_move Q x y" "x \<in> set (nb_nodes b)" for x y
    using up[OF x(3,1)] x(2) lease_move_trans unfolding newcomer_def by blast
  show ?thesis
  proof (rule evolvesI[where g = "\<lambda>r. h (g r)" and news = "map h ns @ ms"])
    show "newcomer Q a n" if n: "n \<in> set (map h ns @ ms)" for n
    proof (cases "n \<in> set ms")
      case True
      consider "dw_updateState n = UIdle" | p where "p \<in> set (nb_nodes b)" "busy p" "lease_move Q p n"
        using h(2)[OF True] unfolding newcomer_def by blast
      then show ?thesis by (cases, simp add: newcomer_def, rule later)
    next
      case False
      then obtain m where m: "m \<in> set ns" "n = h m" using n by auto
      have mb: "m \<in> set (nb_nodes b)" using m(1) g(1) by simp
      obtain q where q: "origin b m q" "lease_move Q q n" using h(4)[OF mb] m(2) by blast
      show ?thesis
      proof (cases "q = m \<and> dw_updateState m = UIdle")
        case True
        then show ?thesis using q(2) by (simp add: newcomer_def lease_move_def busy_def)
      next
        case False
        show ?thesis
        proof (cases "q = m")
          case True
          then show ?thesis using False g(2)[OF m(1)] q(2) lease_move_trans unfolding newcomer_def by blast
        next
          case False
          then show ?thesis using q later by (auto simp: origin_def)
        qed
      qed
    qed
  next
    fix r
    assume r: "r \<in> set (nb_nodes a)"
    then have gr: "g r \<in> set (nb_nodes b)" by (simp add: g(1))
    show "\<exists>q. origin a r q \<and> lease_move Q q (h (g r))"
      using g(4)[OF r] h(4)[OF gr] origin_trans[OF _ _ gr _ _ up] by blast
    show "same_place r (h (g r))" if stay using g(5)[OF r that] h(5)[OF gr that] by (simp add: same_place_def)
    show "refused_at c (dw_nodeId (h (g r))) t" if "refused_at a (dw_nodeId r) t" for t using g(6)[OF r that] h(6)[OF gr] by blast
  qed (use g(1,3) h(1,3) in simp_all)
qed

section \<open>The operations\<close>

lemma evolves_weaken: "evolves True Q a b \<Longrightarrow> evolves stay Q a b"
  by (erule evolvesE) (rule evolvesI, auto)

lemma evolves_words:
  assumes "evolves stay P a b" "\<And>d. P d \<Longrightarrow> Q d"
  shows "evolves stay Q a b"
proof -
  obtain g ns where g: "nb_nodes b = map g (nb_nodes a) @ ns" "\<And>n. n \<in> set ns \<Longrightarrow> newcomer P a n" "stay \<Longrightarrow> ns = []"
    "\<And>r. r \<in> set (nb_nodes a) \<Longrightarrow> \<exists>q. origin a r q \<and> lease_move P q (g r)" "\<And>r. r \<in> set (nb_nodes a) \<Longrightarrow> stay \<Longrightarrow> same_place r (g r)"
    "\<And>r t. r \<in> set (nb_nodes a) \<Longrightarrow> refused_at a (dw_nodeId r) t \<Longrightarrow> refused_at b (dw_nodeId (g r)) t"
    by (rule evolvesE[OF assms(1)]) blast
  have move: "lease_move P r r' \<Longrightarrow> lease_move Q r r'" for r r' using lease_move_weaken assms(2) by blast
  show ?thesis
  proof (rule evolvesI[OF g(1)])
    show "newcomer Q a n" if "n \<in> set ns" for n using g(2)[OF that] move unfolding newcomer_def by blast
    show "\<exists>q. origin a r q \<and> lease_move Q q (g r)" if "r \<in> set (nb_nodes a)" for r using g(4)[OF that] move by blast
  qed (use g(3,5,6) in auto)
qed

lemma evolves_releaseLease:
  assumes "isSettled to" "to = UFailed \<Longrightarrow> Q d"
  shows "evolves True Q db (snd (releaseLease db i to d e))"
  using assms by (auto simp: releaseLease_def Let_def lease_move_def same_place_def split: prod.split intro!: evolves_update)

lemma evolves_settleNode: "evolves True Q db (snd (settleNode db i d e))"
  by (auto simp: settleNode_def Let_def lease_move_def same_place_def settle_row_def busy_def split: prod.split intro!: evolves_update)

lemma evolves_resolveNode: "evolves True Q db (snd (resolveNode db i c t d))"
  by (auto simp: resolveNode_def Let_def same_place_def split: prod.split option.split intro!: evolves_update lease_move_same)

lemma evolves_requestNode: "evolves True Q db (snd (requestNode db i t k at))"
  by (auto simp: requestNode_def Let_def same_place_def split: prod.split intro!: evolves_update lease_move_same)

lemma evolves_noteDispatchRefusal: "evolves True Q db (snd (noteDispatchRefusal db i d))"
  by (auto simp: noteDispatchRefusal_def Let_def same_place_def lease_move_def busy_def split: prod.split option.split intro!: evolves_update)

lemma evolves_noteLeaseDetail: "evolves True Q db (snd (noteLeaseDetail db i d at))"
  by (auto simp: noteLeaseDetail_def Let_def same_place_def lease_move_def busy_def split: prod.split intro!: evolves_update)

lemma evolves_refuseRelease: "evolves True Q db (snd (refuseRelease db i t at d))"
  by (auto simp: refuseRelease_def intro!: evolves_refuse)

lemma evolves_upsert: "evolves False Q db (snd (upsertNodeMeasurement db m))"
  by (auto simp: upsertNodeMeasurement_def Let_def split: prod.split intro!: evolves_append evolves_update lease_move_same)

lemma evolves_markUnreachable: "evolves False Q db (snd (markUnreachable db l role at))"
  by (auto simp: markUnreachable_def Let_def placeholder_def split: prod.split option.split
      intro!: evolves_append evolves_update lease_move_same)

lemma halts_sql: "sql_not (haltingRowSql r) = Some True \<Longrightarrow> \<not> halts r"
  by (auto simp: haltingRowSql_def sql_not_def sql_and_def halts_def isHaltingUpdate_def split: if_splits option.splits)
    (metis take_is_prefix)+

lemma evolves_handOff: "evolves True Q db (snd (handOffLease db a b))"
proof (cases "node_at db a")
  case None
  then show ?thesis by (simp add: handOffLease_def)
next
  case (Some f)
  let ?p = "\<lambda>r. dw_nodeId r = b \<and> live r \<and> sql_not (haltingRowSql r) = Some True \<and>
     dw_label f = dw_label r \<and> nd_supersededBy f = Some (dw_nodeId r) \<and> busy f"
  let ?f = "\<lambda>r :: node_row. r\<lparr>dw_updateState := dw_updateState f, dw_updateTarget := dw_updateTarget f,
     dw_updateStartedAt := dw_updateStartedAt f, dw_updateDetail := dw_updateDetail f\<rparr>"
  obtain rows n where u: "sql_update ?p ?f (nb_nodes db) = (rows, n)" by fastforce
  have "evolves True Q db (db\<lparr>nb_nodes := rows\<rparr>)"
  proof (rule evolves_map[where g = "\<lambda>r. if ?p r then ?f r else r"])
    show "\<exists>q. origin db r q \<and> lease_move Q q (if ?p r then ?f r else r)" if r: "r \<in> set (nb_nodes db)" for r
    proof (cases "?p r")
      case True
      then have "origin db r f" using halts_sql node_at_in[OF Some] by (auto simp: origin_def)
      moreover have "lease_move Q f (?f r)" by (rule lease_move_same) simp_all
      ultimately show ?thesis using True by auto
    qed (use origin_self[OF r] in auto)
  qed (auto simp: sql_updateD(1)[OF u] same_place_def)
  then show ?thesis unfolding handOffLease_def Some option.case Let_def u by simp
qed

lemma evolves_leaseFollows: "evolves True Q db (leaseFollowsLabel db label i donor)"
proof -
  have "evolves True Q db db'" if "handOffLease db d i = (x, db')" for d x db' using evolves_handOff[of Q db d i] that by simp
  then show ?thesis
    by (auto simp: leaseFollowsLabel_def split: option.split sum.split prod.split intro!: evolves_releaseLease)
qed

lemma refused_rekey:
  assumes "nb_refusals db' = map (\<lambda>f. if rf_nodeId f = a then f\<lparr>rf_nodeId := b\<rparr> else f) (nb_refusals db)" "refused_at db i t"
  shows "refused_at db' (if i = a then b else i) t"
proof -
  obtain f where f: "f \<in> set (nb_refusals db)" "rf_nodeId f = i" "rf_tag f = t" using assms(2) by (auto simp: refused_at_def)
  let ?f = "if rf_nodeId f = a then f\<lparr>rf_nodeId := b\<rparr> else f"
  have "?f \<in> set (nb_refusals db')" using f(1) by (simp add: assms(1))
  moreover have "rf_nodeId ?f = (if i = a then b else i)" "rf_tag ?f = t" using f by simp_all
  ultimately show ?thesis unfolding refused_at_def by blast
qed

lemma evolves_rekey:
  assumes "node_inv db" "\<not> isNodeId label"
  shows "evolves False Q db (snd (rekeyNode db label nid))"
proof (cases "isNodeId nid")
  case False
  then show ?thesis by (simp add: rekeyNode_def)
next
  case True
  obtain a db' db4 where sh: "rekeyNode db label nid = (Inr a, db')"
    "db' = db4 \<or> (\<exists>donor. db' = leaseFollowsLabel db4 label nid donor)"
    "((\<exists>r \<in> set (nb_nodes db). at_label label r) \<and> node_at db nid = None \<and> db' = db4 \<and>
        nb_nodes db4 = map (moved_row label nid) (nb_nodes db) \<and>
        nb_refusals db4 = map (\<lambda>f. if rf_nodeId f = label then f\<lparr>rf_nodeId := nid\<rparr> else f) (nb_refusals db)) \<or>
     (\<not> ((\<exists>r \<in> set (nb_nodes db). at_label label r) \<and> node_at db nid = None) \<and>
        nb_nodes db4 = map (kept_row label nid (node_at db nid \<noteq> None)) (nb_nodes db) \<and> nb_refusals db4 = nb_refusals db)"
    by (rule rekeyNode_shape[OF assms True])
  have move: "lease_move Q r (kept_row label nid h r)" "lease_move Q r (moved_row label nid r)" for h r
    by (rule lease_move_same; simp add: kept_row_def moved_row_def retire_def)+
  have "evolves False Q db db4"
    using sh(3)
  proof (elim disjE conjE)
    assume n: "\<exists>r \<in> set (nb_nodes db). at_label label r" "nb_nodes db4 = map (moved_row label nid) (nb_nodes db)"
      and f: "nb_refusals db4 = map (\<lambda>f. if rf_nodeId f = label then f\<lparr>rf_nodeId := nid\<rparr> else f) (nb_refusals db)"
    obtain l where l: "l \<in> set (nb_nodes db)" "at_label label l" using n(1) by blast
    have id: "dw_nodeId (moved_row label nid r) = (if dw_nodeId r = label then nid else dw_nodeId r)" if "r \<in> set (nb_nodes db)" for r
    proof -
      have "at_label label r" if "dw_nodeId r = label"
      proof -
        have "node_at db label = Some r" "node_at db label = Some l"
          using node_at_unique[of db r] node_at_unique[of db l] assms(1) l \<open>r \<in> set (nb_nodes db)\<close> that
          by (auto simp: node_inv_def at_label_def)
        then show ?thesis using l(2) by simp
      qed
      then show ?thesis by (auto simp: moved_row_def at_label_def)
    qed
    have "\<exists>q. origin db r q \<and> lease_move Q q (moved_row label nid r)" if "r \<in> set (nb_nodes db)" for r
      using move(2) origin_self[OF that] by blast
    then show ?thesis
    proof (intro evolvesI[where g = "moved_row label nid" and news = "[]"])
      show "refused_at db4 (dw_nodeId (moved_row label nid r)) t" if "r \<in> set (nb_nodes db)" "refused_at db (dw_nodeId r) t" for r t
        using refused_rekey[OF f that(2)] id[OF that(1)] by simp
    qed (use n(2) in auto)
  next
    assume n: "nb_nodes db4 = map (kept_row label nid (node_at db nid \<noteq> None)) (nb_nodes db)" and f: "nb_refusals db4 = nb_refusals db"
    have "\<exists>q. origin db r q \<and> lease_move Q q (kept_row label nid h r)" if "r \<in> set (nb_nodes db)" for r h
      using move(1) origin_self[OF that] by blast
    then show ?thesis by (intro evolves_map[OF n f]) auto
  qed
  moreover have "evolves False Q db4 db'" using sh(2) evolves_weaken[OF evolves_leaseFollows] by auto
  ultimately show ?thesis using evolves_trans unfolding sh(1) snd_conv by blast
qed

section \<open>What follows\<close>

text \<open>Where a busy row and a failed row come from.\<close>

lemma evolves_busy:
  assumes "evolves stay Q db db'" "r' \<in> set (nb_nodes db')" "busy r'"
  obtains r where "r \<in> set (nb_nodes db)" "busy r" "lease_move Q r r'"
proof -
  obtain g ns where g: "nb_nodes db' = map g (nb_nodes db) @ ns" "\<And>n. n \<in> set ns \<Longrightarrow> newcomer Q db n" "stay \<Longrightarrow> ns = []"
    "\<And>r. r \<in> set (nb_nodes db) \<Longrightarrow> \<exists>q. origin db r q \<and> lease_move Q q (g r)" "\<And>r. r \<in> set (nb_nodes db) \<Longrightarrow> stay \<Longrightarrow> same_place r (g r)"
    "\<And>r t. r \<in> set (nb_nodes db) \<Longrightarrow> refused_at db (dw_nodeId r) t \<Longrightarrow> refused_at db' (dw_nodeId (g r)) t"
    by (rule evolvesE[OF assms(1)]) blast
  show thesis
  proof (cases "r' \<in> set ns")
    case True
    then show thesis using that g(2)[OF True] assms(3) by (auto simp: newcomer_def busy_def)
  next
    case False
    then obtain r where r: "r \<in> set (nb_nodes db)" "r' = g r" using g(1) assms(2) by auto
    then obtain q where q: "origin db r q" "lease_move Q q r'" using g(4) by blast
    then show thesis using that lease_move_busy[OF q(2) assms(3)] by (auto simp: origin_def)
  qed
qed

lemma evolves_failed:
  assumes "evolves stay Q db db'" "r' \<in> set (nb_nodes db')" "dw_updateState r' = UFailed" "dw_updateDetail r' = Some d" "\<not> Q d"
  obtains r where "r \<in> set (nb_nodes db)" "dw_updateState r = UFailed" "dw_updateDetail r = Some d"
    "dw_updateTarget r' = dw_updateTarget r" "\<And>t. refused_at db (dw_nodeId r) t \<Longrightarrow> refused_at db' (dw_nodeId r') t"
proof -
  obtain g ns where g: "nb_nodes db' = map g (nb_nodes db) @ ns" "\<And>n. n \<in> set ns \<Longrightarrow> newcomer Q db n" "stay \<Longrightarrow> ns = []"
    "\<And>r. r \<in> set (nb_nodes db) \<Longrightarrow> \<exists>q. origin db r q \<and> lease_move Q q (g r)" "\<And>r. r \<in> set (nb_nodes db) \<Longrightarrow> stay \<Longrightarrow> same_place r (g r)"
    "\<And>r t. r \<in> set (nb_nodes db) \<Longrightarrow> refused_at db (dw_nodeId r) t \<Longrightarrow> refused_at db' (dw_nodeId (g r)) t"
    by (rule evolvesE[OF assms(1)]) blast
  have nb: "\<not> busy q" if "lease_move Q q r'" for q using that assms(3-5) by (auto simp: lease_move_def)
  have "r' \<notin> set ns" using g(2)[of r'] nb assms(3) by (auto simp: newcomer_def)
  then obtain r where r: "r \<in> set (nb_nodes db)" "r' = g r" using g(1) assms(2) by auto
  then obtain q where q: "origin db r q" "lease_move Q q r'" using g(4) by blast
  then have lr: "lease_move Q r r'" using nb by (auto simp: origin_def)
  have x: "dw_updateState r = UFailed" "dw_updateDetail r = Some d" "dw_updateTarget r' = dw_updateTarget r"
    using lr nb[OF lr] assms(3,4) by (auto simp: lease_move_def)
  show thesis by (rule that[OF r(1) x]) (use g(6)[OF r(1)] r(2) in simp)
qed

lemma evolves_halts:
  assumes "evolves stay Q db db'" "r \<in> set (nb_nodes db)" "halts r"
  obtains r' where "r' \<in> set (nb_nodes db')" "halts r'" "dw_updateState r' = dw_updateState r" "dw_updateDetail r' = dw_updateDetail r"
    "dw_updateTarget r' = dw_updateTarget r" "stay \<Longrightarrow> same_place r r'"
proof -
  obtain g ns where g: "nb_nodes db' = map g (nb_nodes db) @ ns" "\<And>n. n \<in> set ns \<Longrightarrow> newcomer Q db n" "stay \<Longrightarrow> ns = []"
    "\<And>r. r \<in> set (nb_nodes db) \<Longrightarrow> \<exists>q. origin db r q \<and> lease_move Q q (g r)" "\<And>r. r \<in> set (nb_nodes db) \<Longrightarrow> stay \<Longrightarrow> same_place r (g r)"
    "\<And>r t. r \<in> set (nb_nodes db) \<Longrightarrow> refused_at db (dw_nodeId r) t \<Longrightarrow> refused_at db' (dw_nodeId (g r)) t"
    by (rule evolvesE[OF assms(1)]) blast
  have "lease_move Q r (g r)" using g(4)[OF assms(2)] assms(3) by (auto simp: origin_def)
  note h = lease_move_halts[OF this assms(3)]
  have "g r \<in> set (nb_nodes db')" using g(1) assms(2) by simp
  then show thesis by (rule that[of "g r"]) (use h g(5)[OF assms(2)] in simp_all)
qed

section \<open>Two invariants of the leases\<close>

text \<open>Every lease is dated and names a release; every failure that does not halt has its verdict recorded.\<close>

definition dated :: "node_db \<Rightarrow> bool" where
  "dated db \<longleftrightarrow> (\<forall>r \<in> set (nb_nodes db). busy r \<longrightarrow>
     (\<exists>t at. dw_updateTarget r = Some t \<and> isReleaseTag t \<and> dw_updateStartedAt r = Some at))"

definition not_verdict :: "string \<Rightarrow> bool" where "not_verdict d \<longleftrightarrow> isHaltingUpdate UFailed (Some d)"

definition recorded :: "node_db \<Rightarrow> bool" where
  "recorded db \<longleftrightarrow> (\<forall>r \<in> set (nb_nodes db). \<forall>d. dw_updateState r = UFailed \<and> dw_updateDetail r = Some d \<and> \<not> not_verdict d \<longrightarrow>
     (\<exists>t. dw_updateTarget r = Some t \<and> refused_at db (dw_nodeId r) t))"

lemma dated_evolves: "evolves stay Q db db' \<Longrightarrow> dated db \<Longrightarrow> dated db'"
  unfolding dated_def
proof (intro ballI impI)
  fix r'
  assume e: "evolves stay Q db db'" and d: "\<forall>r \<in> set (nb_nodes db). busy r \<longrightarrow>
     (\<exists>t at. dw_updateTarget r = Some t \<and> isReleaseTag t \<and> dw_updateStartedAt r = Some at)" and r': "r' \<in> set (nb_nodes db')" "busy r'"
  obtain r where "r \<in> set (nb_nodes db)" "busy r" "lease_move Q r r'" by (rule evolves_busy[OF e r'])
  then show "\<exists>t at. dw_updateTarget r' = Some t \<and> isReleaseTag t \<and> dw_updateStartedAt r' = Some at"
    using d by (auto simp: lease_move_def)
qed

lemma recorded_evolves:
  assumes "evolves stay not_verdict db db'" "recorded db"
  shows "recorded db'"
  unfolding recorded_def
proof (intro ballI allI impI, elim conjE)
  fix r' d
  assume r': "r' \<in> set (nb_nodes db')" "dw_updateState r' = UFailed" "dw_updateDetail r' = Some d" "\<not> not_verdict d"
  obtain r where "r \<in> set (nb_nodes db)" "dw_updateState r = UFailed" "dw_updateDetail r = Some d" "dw_updateTarget r' = dw_updateTarget r"
    "\<And>t. refused_at db (dw_nodeId r) t \<Longrightarrow> refused_at db' (dw_nodeId r') t" using evolves_failed[OF assms(1) r'] by blast
  then show "\<exists>t. dw_updateTarget r' = Some t \<and> refused_at db' (dw_nodeId r') t" using assms(2) r'(4) unfolding recorded_def by metis
qed

lemma acquire_keeps:
  assumes "keys_unique db" "dispatchNode db i t k at d = (Inr u, db')"
  shows "dated db \<Longrightarrow> dated db'" "recorded db \<Longrightarrow> recorded db'"
proof -
  obtain r where r: "isReleaseTag t" "nb_refusals db' = nb_refusals db"
    "nb_nodes db' = map (\<lambda>s. if dw_nodeId s = i then s\<lparr>dw_updateState := UPending, dw_updateTarget := Some t,
       dw_updateStartedAt := Some at, dw_updateDetail := Some d\<rparr> else s) (nb_nodes db)"
    by (rule dispatchNode_acquires[OF assms])
  show "dated db \<Longrightarrow> dated db'" using r by (auto simp: dated_def)
  show "recorded db \<Longrightarrow> recorded db'" using r by (auto simp: recorded_def refused_at_def)
qed

lemma ack_keeps: "dated db \<Longrightarrow> dated (snd (ackNode db i))" "keys_unique db \<Longrightarrow> recorded db \<Longrightarrow> recorded (snd (ackNode db i))"
proof -
  let ?p = "\<lambda>r. dw_nodeId r = i \<and> live r \<and> isSettled (dw_updateState r)"
  obtain rows n where u: "sql_update ?p (settle_row False ACK_DETAIL) (nb_nodes db) = (rows, n)" by fastforce
  let ?fs = "filter (\<lambda>f. rf_nodeId f \<noteq> i) (nb_refusals db)"
  have res: "snd (ackNode db i) = (if n > 0 then db\<lparr>nb_nodes := rows, nb_refusals := ?fs\<rparr> else db)"
    unfolding ackNode_def u by (simp add: Let_def)
  show "dated (snd (ackNode db i))" if "dated db"
    using that unfolding res by (auto simp: dated_def sql_updateD(1)[OF u])
  show "recorded (snd (ackNode db i))" if k: "keys_unique db" "recorded db"
  proof (cases "n > 0")
    case False
    then show ?thesis using k by (simp add: res)
  next
    case True
    then obtain a where a: "a \<in> set (nb_nodes db)" "?p a" using sql_update_pos[of ?p "settle_row False ACK_DETAIL" "nb_nodes db"] u by auto
    have only: "s = a" if "s \<in> set (nb_nodes db)" "dw_nodeId s = i" for s
      using node_at_unique[OF k(1) that(1)] node_at_unique[OF k(1) a(1)] that(2) a(2) by simp
    show ?thesis
      unfolding recorded_def
    proof (intro ballI allI impI, elim conjE)
      fix r' d
      assume r': "r' \<in> set (nb_nodes (snd (ackNode db i)))" "dw_updateState r' = UFailed" "dw_updateDetail r' = Some d" "\<not> not_verdict d"
      then obtain s where s: "s \<in> set (nb_nodes db)" "r' = (if ?p s then settle_row False ACK_DETAIL s else s)"
        using True by (auto simp: res sql_updateD(1)[OF u])
      then have "\<not> ?p s" using r'(2) by auto
      then have "dw_nodeId s \<noteq> i" "r' = s" using only s a(2) by auto
      then show "\<exists>t. dw_updateTarget r' = Some t \<and> refused_at (snd (ackNode db i)) (dw_nodeId r') t"
        using k(2) s(1) r'(2-4) True unfolding recorded_def refused_at_def res by simp metis
    qed
  qed
qed

end
