(* ===== verification/FleetMachine.thy ===== *)
theory FleetMachine
  imports NodeEvolve
begin

text \<open>
  The fleet as one machine: the store, the operations sent and not yet answered, and the clock of the last dispatch
  run. An event is what one beat of the watcher, one answer or one operator's act does to it, in any order: a sweep of
  either connection with its follow-through, a dispatch run up to its await, the answer of an operation sent earlier, a
  resolver run, a request, an acknowledgement, a listing, an intent. Every event is a run of steps of the nodes table, and every
  event but an acknowledgement and an acquire lets the leases evolve only.
\<close>

section \<open>Events\<close>

record fleet =
  fl_store :: fleet_store
  fl_log :: "string option"
  fl_sent :: "(dispatch_move \<times> string \<times> int) list"
  fl_clock :: int

datatype fleet_event =
  OwnSweep node_role node_file_reads int
| FleetSweep bool bool "string list option" node_file_reads int
| DispatchRun converge_deps node_file_read int
| OpAnswered nat op_reply bool
| ResolveRun node_role int
| MoveRequested string string request_kind int
| NodeAcked string
| ListingPolled "listing_row list" int listing_coverage "string list" "string option"
| IntentPatched string intent_patch int bool append_outcome bool

definition is_sweep :: "fleet_event \<Rightarrow> bool" where
  "is_sweep e = (case e of OwnSweep _ _ _ \<Rightarrow> True | FleetSweep _ _ _ _ _ \<Rightarrow> True | _ \<Rightarrow> False)"

definition with_nodes :: "fleet \<Rightarrow> node_db \<Rightarrow> fleet" where
  "with_nodes fl db = fl\<lparr>fl_store := (fl_store fl)\<lparr>fs_nodes := db\<rparr>\<rparr>"

definition fl_nodes :: "fleet \<Rightarrow> node_db" where "fl_nodes fl = fs_nodes (fl_store fl)"

definition run_sent :: "(dispatch_run \<times> stretch) option \<Rightarrow> int \<Rightarrow> (dispatch_move \<times> string \<times> int) list" where
  "run_sent res now = (case res of Some (_, SendMove m label) \<Rightarrow> [(m, label, now)] | _ \<Rightarrow> [])"

definition drop_at :: "nat \<Rightarrow> 'a list \<Rightarrow> 'a list" where "drop_at i xs = take i xs @ drop (Suc i) xs"

definition fleet_do :: "(string \<Rightarrow> json option) \<Rightarrow> fleet_event \<Rightarrow> fleet \<Rightarrow> fleet" where
  "fleet_do parse e fl =
     (let st = fl_store fl; db = fs_nodes st in
      case e of
        OwnSweep role reads now \<Rightarrow> with_nodes fl (snd (sweepOwn parse role reads now (follow_of st now) db))
      | FleetSweep up_before up_after ops reads now \<Rightarrow>
          with_nodes fl (snd (sweepFleet parse up_before up_after ops reads now (follow_of st now) db))
      | DispatchRun deps report now \<Rightarrow>
          (case runDispatch parse deps report now st of
             (res, st') \<Rightarrow> fl\<lparr>fl_store := st', fl_sent := fl_sent fl @ run_sent res now, fl_clock := now\<rparr>)
      | OpAnswered i a advertised \<Rightarrow>
          (if i < length (fl_sent fl) then
             (case fl_sent fl ! i of
                (m, label, t) \<Rightarrow>
                  (with_nodes fl (snd (snd (answer_stretch m label t a advertised db))))\<lparr>fl_sent := drop_at i (fl_sent fl)\<rparr>)
           else fl)
      | ResolveRun role now \<Rightarrow> fl\<lparr>fl_store := snd (resolveAndProjectOnce st role now)\<rparr>
      | MoveRequested i tag kind at \<Rightarrow> with_nodes fl (snd (requestNode db i tag (Some kind) at))
      | NodeAcked i \<Rightarrow> with_nodes fl (snd (ackNode db i))
      | ListingPolled listing now coverage keep withdraw \<Rightarrow>
          fl\<lparr>fl_store := st\<lparr>fs_releases := snd (applyReleaseListing (fs_releases st) listing now coverage keep withdraw)\<rparr>\<rparr>
      | IntentPatched scope p now readable outcome committed \<Rightarrow>
          (case setIntent db (fs_intents st) (fl_log fl) scope p now readable outcome committed of
             (_, idb, log) \<Rightarrow> fl\<lparr>fl_store := st\<lparr>fs_intents := idb\<rparr>, fl_log := log\<rparr>))"

text \<open>Two dispatch runs do not start in one millisecond: the watcher paces them.\<close>

definition timely :: "fleet_event \<Rightarrow> fleet \<Rightarrow> bool" where
  "timely e fl = (case e of DispatchRun _ _ now \<Rightarrow> good_clock now \<and> fl_clock fl < now | _ \<Rightarrow> True)"

definition new_fleet :: fleet where
  "new_fleet = \<lparr>fl_store = \<lparr>fs_nodes = empty_nodes, fs_releases = [], fs_intents = seeded_intents\<rparr>, fl_log = None,
     fl_sent = [], fl_clock = - 1\<rparr>"

inductive fleet_reach :: "(string \<Rightarrow> json option) \<Rightarrow> fleet \<Rightarrow> bool" for parse where
  start: "fleet_reach parse new_fleet"
| step: "fleet_reach parse fl \<Longrightarrow> timely e fl \<Longrightarrow> fleet_reach parse (fleet_do parse e fl)"

lemma with_nodes_sel [simp]:
  "fl_nodes (with_nodes fl db) = db" "fl_sent (with_nodes fl db) = fl_sent fl" "fl_clock (with_nodes fl db) = fl_clock fl"
  "fl_nodes (fl\<lparr>fl_sent := s\<rparr>) = fl_nodes fl" "fl_nodes (fl\<lparr>fl_store := st\<rparr>) = fs_nodes st"
  "fs_nodes (fl_store (with_nodes fl db)) = db"
  by (simp_all add: with_nodes_def fl_nodes_def)

section \<open>What a run of operations keeps\<close>

text \<open>One relation for a run: it stays reachable, and its leases evolve; no failure it writes reads as a provenance
  verdict.\<close>

definition calm :: "bool \<Rightarrow> node_db \<Rightarrow> node_db \<Rightarrow> bool" where
  "calm stay db db' \<longleftrightarrow> (node_reach db \<longrightarrow> node_reach db') \<and> evolves stay not_verdict db db'"

lemma calm_refl [simp]: "calm stay db db"
  by (simp add: calm_def)

lemma calm_trans: "calm stay a b \<Longrightarrow> calm stay b c \<Longrightarrow> calm stay a c"
  unfolding calm_def using evolves_trans by blast

lemma calm_weaken: "calm True a b \<Longrightarrow> calm stay a b"
  unfolding calm_def using evolves_weaken by blast

lemma calm_fold:
  assumes "\<And>x acc. calm stay (p acc) (p (f x acc))"
  shows "calm stay (p acc) (p (fold f xs acc))"
proof (induction xs arbitrary: acc)
  case (Cons x xs)
  show ?case using calm_trans[OF assms[of acc x] Cons.IH[of "f x acc"]] by simp
qed simp

lemma calm_step: "node_step db db' \<Longrightarrow> evolves stay not_verdict db db' \<Longrightarrow> calm stay db db'"
  unfolding calm_def using node_reach.step by blast

lemma calm_ops:
  "isSettled to \<Longrightarrow> (to = UFailed \<Longrightarrow> not_verdict d) \<Longrightarrow> calm True db (snd (releaseLease db i to d e))"
  "calm True db (snd (settleNode db i d e))" "calm True db (snd (resolveNode db i c dt rd))"
  "calm True db (snd (requestNode db i tag k t))" "calm True db (snd (noteDispatchRefusal db i d))"
  "calm True db (snd (noteLeaseDetail db i d t))" "calm True db (snd (refuseRelease db i tag t d))"
  "calm False db (snd (upsertNodeMeasurement db m))" "calm False db (snd (markUnreachable db l role t))"
  by (rule calm_step; rule node_step.intros evolves_releaseLease evolves_settleNode evolves_resolveNode evolves_requestNode
      evolves_noteDispatchRefusal evolves_noteLeaseDetail evolves_refuseRelease evolves_upsert evolves_markUnreachable; assumption?)+

lemma calm_expire_one: "calm True (snd acc) (snd (expire_one own now d r acc))"
proof -
  have "not_verdict (expiry_detail own r)"
    using deadline_halts link_deadline_halts by (auto simp: expiry_detail_def not_verdict_def split: option.split)
  then show ?thesis
    using calm_ops(1)[of UFailed "expiry_detail own r" "snd acc" "dw_nodeId r" None]
    by (auto simp: expire_one_def split: prod.split sum.split)
qed

lemma calm_settle_met: "calm True (snd acc) (snd (settle_met m acc))"
  using calm_ops(2)[of "snd acc" "fst m" "''met: '' @ snd m" None] by (auto simp: settle_met_def split: prod.split sum.split)

lemma calm_note_one: "calm True (snd acc) (snd (note_one n acc))"
  using calm_ops(5)[of "snd acc" "fst n" "snd n"] by (auto simp: note_one_def split: prod.split sum.split bool.split)

lemma calm_follow_one: "calm True (snd (snd acc)) (snd (snd (follow_one landed views now s acc)))"
proof -
  obtain out feed db where acc: "acc = (out, feed, db)" by (metis prod_cases3)
  show ?thesis
  proof (cases s)
    case (FollowRequest nid tag)
    then show ?thesis using calm_ops(4)[of db nid tag "Some UpdateKind" now] by (auto simp: acc follow_one_def split: prod.split sum.split)
  next
    case (FollowNote nid w)
    then show ?thesis using calm_ops(5)[of db nid "follow_note landed views nid w"]
      by (auto simp: acc follow_one_def split: prod.split sum.split)
  qed
qed

lemma calm_follow: "calm True db (follow_of st now landed db)"
proof -
  let ?st = "st\<lparr>fs_nodes := db\<rparr>"
  show ?thesis
    using calm_fold[of True "\<lambda>acc. snd (snd acc)" "follow_one landed (dispatchViewsFor ?st) now" "([], [], db)"
        "followSteps landed (dispatchViewsFor ?st) (catalogue ?st)"] calm_follow_one
    by (auto simp: follow_of_def followLandedMove_def Let_def split: prod.splits)
qed

lemma calm_resolve: "calm True (fs_nodes st) (fs_nodes (snd (resolveAndProjectOnce st role now)))"
proof -
  have one: "calm True (fs_nodes (snd acc)) (fs_nodes (snd (resolve_one r acc)))" for r acc
  proof -
    obtain run s where acc: "acc = (run, s)" by (metis prod.exhaust)
    show ?thesis unfolding acc resolve_one_def prod.case Let_def using calm_ops(3) by (auto split: prod.split) (metis snd_conv)+
  qed
  show ?thesis
    using calm_fold[of True "\<lambda>acc. fs_nodes (snd acc)" resolve_one "(\<lparr>rr_resolved = 0, rr_refused = [], rr_own = None\<rparr>, st)" "nodes (fs_nodes st)"] one
    by (auto simp: resolveAndProjectOnce_def split: prod.splits)
qed

lemma calm_expired: "calm True (fs_nodes st) (expired_db deps own now st)"
  unfolding expired_db_def using calm_fold[of True snd "expire_one own now (cd_deadlineMs deps)" "([], fs_nodes st)"] calm_expire_one by simp

lemma calm_noted: "calm True db (noted_db db st)"
proof -
  let ?m = "snd (fold settle_met (dp_met (planned_on db st)) ([], db))"
  have "calm True db ?m" using calm_fold[of True snd settle_met "([], db)"] calm_settle_met by simp
  moreover have "calm True ?m (noted_db db st)"
    unfolding noted_db_def Let_def using calm_fold[of True snd note_one "(0, ?m)"] calm_note_one by simp
  ultimately show ?thesis by (rule calm_trans)
qed

lemma calm_stretch: "calm True (fs_nodes st) (noted_db (expired_db deps own now st) st)"
  by (rule calm_trans[OF calm_expired calm_noted])

lemma calm_answer: "calm True db (snd (snd (answer_stretch m label t a advertised db)))"
proof -
  obtain action d where c: "classifyOpReply a advertised = (action, d)" by fastforce
  have rel: "calm True db db'" if "releaseLease db h (if action = ReleaseFailed then UFailed else UIdle) d (Some t) = (x, db')" for h x db'
  proof -
    have "calm True db (snd (releaseLease db h (if action = ReleaseFailed then UFailed else UIdle) d (Some t)))"
      using reply_failed_halts[of a advertised d] c by (intro calm_ops(1)) (auto simp: not_verdict_def split: if_splits)
    then show ?thesis using that by simp
  qed
  show ?thesis
    unfolding answer_stretch_def c prod.case Let_def
    using rel calm_ops(6) by (auto split: sum.split prod.split)
qed

end
