(* ===== verification/FleetSweep.thy ===== *)
theory FleetSweep
  imports FleetMachine
begin

text \<open>
  What one measurement does to the table: the stages of \<open>applyMeasurement\<close>, the row it ends in, the leases it may
  settle and the verdict a failure leaves, and the connections: one live row per label.
\<close>

lemma calm_keeps:
  assumes "calm stay a b" "node_reach a" "recorded a"
  shows "node_reach b \<and> evolves stay (\<lambda>_. True) a b \<and> recorded b"
proof -
  have e: "node_reach b" "evolves stay not_verdict a b" using assms by (auto simp: calm_def)
  show ?thesis using e(1) evolves_words[OF e(2), of "\<lambda>_. True"] recorded_evolves[OF e(2) assms(3)] by simp
qed

section \<open>Stages\<close>

lemma carry_sel [simp]:
  "nm_nodeId (carry_report pre u m) = nm_nodeId m" "nm_nodeId (carry_floor pre m) = nm_nodeId m"
  "nm_nodeId (carry_previous pre m) = nm_nodeId m" "nm_nodeId (withhold_report pre plan m) = nm_nodeId m"
  "nm_label (carry_report pre u m) = nm_label m" "nm_label (carry_floor pre m) = nm_label m"
  "nm_label (carry_previous pre m) = nm_label m" "nm_label (withhold_report pre plan m) = nm_label m"
  "nm_measuredAt (carry_report pre u m) = nm_measuredAt m" "nm_measuredAt (carry_floor pre m) = nm_measuredAt m"
  "nm_measuredAt (carry_previous pre m) = nm_measuredAt m" "nm_measuredAt (withhold_report pre plan m) = nm_measuredAt m"
  by (simp_all add: carry_report_def carry_floor_def carry_previous_def withhold_report_def split: option.split)

lemma key_measurement_sel:
  assumes "key_measurement db m = (Inr mk, db1)"
  shows "mk = m\<lparr>nm_nodeId := nm_nodeId mk\<rparr>"
  using assms by (auto simp: key_measurement_def split: if_splits sum.splits prod.splits option.splits)

lemma applyMeasurement_cases:
  assumes "applyMeasurement db m u now follow = (out, db')"
    and "col = (nm_nodeId m \<noteq> nm_label m \<and> nodeIdCollides db (nm_nodeId m) (nm_label m))"
    and "m0 = (if col then m\<lparr>nm_nodeId := nm_label m\<rparr> else m)"
  obtains (unkeyed) w where "out = SweepRefused w" "key_measurement db m0 = (Inl w, db')"
  | (dropped) w mk db1 m2 where "out = SweepRefused w" "key_measurement db m0 = (Inr mk, db1)"
      "upsertNodeMeasurement db1 m2 = (Inl w, db')" "nm_nodeId m2 = nm_nodeId mk" "nm_label m2 = nm_label mk"
  | (applied) mk db1 pre m1 plan c db2 refused db3 lease where
      "key_measurement db m0 = (Inr mk, db1)" "pre = node_at db1 (nm_nodeId mk)"
      "m1 = carry_previous pre (carry_floor pre (carry_report pre u mk))" "plan = sweepPlanFor pre m1"
      "upsertNodeMeasurement db1 (withhold_report pre plan m1) = (Inr c, db2)"
      "write_verdict db2 (nm_nodeId mk) plan now = (refused, db3)" "write_lease db3 (nm_nodeId mk) plan pre follow = (lease, db')"
      "out = (if col then NodeIdCollision (nm_nodeId mk) lease refused else Measured (nm_nodeId mk) lease refused)"
proof -
  obtain k db1 where k: "key_measurement db m0 = (k, db1)" by fastforce
  note u0 = assms(1)[unfolded applyMeasurement_def Let_def assms(2)[symmetric] assms(3)[symmetric] k prod.case]
  show thesis
  proof (cases k)
    case (Inl w)
    then show thesis using u0 k by (intro unkeyed) auto
  next
    case (Inr mk)
    let ?pre = "node_at db1 (nm_nodeId mk)"
    let ?m1 = "carry_previous ?pre (carry_floor ?pre (carry_report ?pre u mk))"
    let ?plan = "sweepPlanFor ?pre ?m1"
    note u1 = u0[unfolded Inr sum.case]
    obtain r db2 where p: "upsertNodeMeasurement db1 (withhold_report ?pre ?plan ?m1) = (r, db2)" by fastforce
    note u2 = u1[unfolded p prod.case]
    show thesis
    proof (cases r)
      case Inl: (Inl w)
      then have o: "out = SweepRefused w" "db2 = db'" using u2 by simp_all
      show thesis by (rule dropped[OF o(1) k[unfolded Inr] p[unfolded Inl o(2)]]) simp_all
    next
      case c: (Inr c)
      obtain refused db3 where v: "write_verdict db2 (nm_nodeId mk) ?plan now = (refused, db3)" by fastforce
      obtain lease db4 where l: "write_lease db3 (nm_nodeId mk) ?plan ?pre follow = (lease, db4)" by fastforce
      have "out = (if col then NodeIdCollision (nm_nodeId mk) lease refused else Measured (nm_nodeId mk) lease refused)" "db' = db4"
        using u2[unfolded c sum.case v prod.case l] by simp_all
      then show thesis using k Inr p c v l by (intro applied) auto
    qed
  qed
qed

lemma key_measurement_reach:
  assumes "node_reach db" "connection_label (nm_label m)"
  shows "node_reach (snd (key_measurement db m))" "evolves False Q db (snd (key_measurement db m))"
proof -
  have r: "node_reach (snd (rekeyNode db (nm_label m) (nm_nodeId m)))"
    by (rule node_reach.step[OF assms(1) node_step.rekeyed[OF assms(2)]])
  have e: "evolves False Q db (snd (rekeyNode db (nm_label m) (nm_nodeId m)))"
    by (rule evolves_rekey[OF node_reach_inv[OF assms(1)] label_not_id[OF assms(2)]])
  show "node_reach (snd (key_measurement db m))" "evolves False Q db (snd (key_measurement db m))"
    using r e assms(1) by (auto simp: key_measurement_def split: prod.split sum.split)
qed

lemma write_verdict_calm: "write_verdict db i plan now = (refused, db') \<Longrightarrow> calm True db db' \<and> nb_nodes db' = nb_nodes db"
  using calm_ops(7)[of db i "fst (the (sp_refuse plan))" now "snd (the (sp_refuse plan))"]
  by (auto simp: write_verdict_def refuseRelease_def split: option.splits prod.splits if_splits)

text \<open>The row the measurement is written into.\<close>

lemma upserted_row:
  assumes "upsertNodeMeasurement db m = (Inr c, db')" "keys_unique db"
  shows "node_at db' (nm_nodeId m) =
      Some (write_measurement m (case node_at db (nm_nodeId m) of None \<Rightarrow> blank_row (nm_nodeId m) | Some r \<Rightarrow> r))"
    "\<And>r. node_at db (nm_nodeId m) = Some r \<Longrightarrow> live r" "nb_refusals db' = nb_refusals db"
    "\<And>i. i \<noteq> nm_nodeId m \<Longrightarrow> node_at db' i = node_at db i"
proof -
  let ?i = "nm_nodeId m" and ?p = "\<lambda>r. dw_nodeId r = nm_nodeId m \<and> live r"
  obtain rows n where u: "sql_update ?p (write_measurement m) (nb_nodes db) = (rows, n)" by fastforce
  note at = node_at_update[OF u]
  have "node_at db' ?i = Some (write_measurement m (case node_at db ?i of None \<Rightarrow> blank_row ?i | Some r \<Rightarrow> r)) \<and>
    (\<forall>r. node_at db ?i = Some r \<longrightarrow> live r) \<and> nb_refusals db' = nb_refusals db \<and> (\<forall>i. i \<noteq> ?i \<longrightarrow> node_at db' i = node_at db i)"
  proof (cases "node_at db ?i")
    case None
    then have d: "db' = db\<lparr>nb_nodes := nb_nodes db @ [write_measurement m (blank_row ?i)]\<rparr>"
      using assms(1) by (simp add: upsertNodeMeasurement_def)
    have f: "node_at db' i = (case node_at db i of None \<Rightarrow> if i = ?i then Some (write_measurement m (blank_row ?i)) else None | Some r \<Rightarrow> Some r)"
      for i by (auto simp: d node_at_def find_append split: option.split)
    have "nb_refusals db' = nb_refusals db" by (simp add: d)
    then show ?thesis using None by (simp add: f split: option.split)
  next
    case (Some r)
    have res: "n > 0" "db' = db\<lparr>nb_nodes := rows\<rparr>"
      using assms(1) Some unfolding upsertNodeMeasurement_def u by (auto simp: Let_def split: if_splits)
    obtain s where "s \<in> set (nb_nodes db)" "?p s" using res(1) sql_update_pos[of ?p "write_measurement m" "nb_nodes db"] u by auto
    then have l: "live r" using node_at_unique[OF assms(2), of s] Some by auto
    have "node_at db' i = node_at db i" if "i \<noteq> ?i" for i
      using at[of i] node_at_in[of db i] that by (cases "node_at db i") (auto simp: res(2))
    then show ?thesis using at[of ?i] l node_at_in[OF Some] Some by (simp add: res(2))
  qed
  then show "node_at db' ?i = Some (write_measurement m (case node_at db ?i of None \<Rightarrow> blank_row ?i | Some r \<Rightarrow> r))"
    "\<And>r. node_at db ?i = Some r \<Longrightarrow> live r" "nb_refusals db' = nb_refusals db" "\<And>i. i \<noteq> ?i \<Longrightarrow> node_at db' i = node_at db i"
    by blast+
qed

section \<open>The lease of a sweep\<close>

text \<open>What the phase table may do to a busy row, and what it asks to be recorded.\<close>

lemma sweepPlan_release:
  assumes "sp_lease (sweepPlanFor pre m) = LeaseRelease to d"
  obtains n r where "pre = Some n" "nm_report m = Some r" "\<not> sameReport n r" "busy n" "np_startedAt r \<noteq> None"
    "dw_updateTarget n = None \<or> np_target r = dw_updateTarget n" "isSettled to" "to = UFailed \<or> to = UReverted"
    "to = UFailed \<Longrightarrow> \<not> not_verdict d \<Longrightarrow> np_phase r = PFailed \<and> np_detail r = Some d \<and>
       (\<forall>t. np_target r = Some t \<longrightarrow> sp_refuse (sweepPlanFor pre m) = Some (t, d))"
proof -
  obtain r where r: "nm_report m = Some r" using assms by (auto simp: sweepPlanFor_def split: option.splits)
  have same: "\<not> (case pre of None \<Rightarrow> False | Some n \<Rightarrow> sameReport n r)"
    and act: "leaseActionFor pre m r = LeaseRelease to d"
    using assms by (auto simp: sweepPlanFor_def r split: if_splits)
  obtain n where n: "pre = Some n" using act by (auto simp: leaseActionFor_def split: option.splits)
  have b: "dw_updateState n \<in> set BUSY_UPDATE_STATES" and s: "np_startedAt r \<noteq> None"
    and t: "dw_updateTarget n = None \<or> np_target r = dw_updateTarget n"
    using act by (auto simp: n leaseActionFor_def split: if_splits)
  have rest: "(case np_phase r of
       PDone \<Rightarrow> to = UFailed \<and> d = ''stamp-mismatch''
     | PFailed \<Rightarrow> to = UFailed \<and> d = or_word (phase_word PFailed) (np_detail r)
     | PReverted \<Rightarrow> to = UReverted
     | _ \<Rightarrow> False)"
    using act by (auto simp: n leaseActionFor_def IN_FLIGHT_UPDATE_PHASES_def split: if_splits update_phase.splits option.splits)
  have bare: "not_verdict ''stamp-mismatch''" "not_verdict (phase_word PFailed)" by code_simp+
  have words: "np_phase r = PFailed \<and> np_detail r = Some d" if "to = UFailed" "\<not> not_verdict d"
    using rest that bare by (auto simp: or_word_def split: update_phase.splits option.splits)
  show thesis
  proof (rule that[OF n r _ _ s t])
    show "\<not> sameReport n r" using same n by simp
    show "busy n" using b by (simp add: busy_def isSettled_def settled_or_busy)
    show "isSettled to" "to = UFailed \<or> to = UReverted" using rest by (auto split: update_phase.splits)
    show "np_phase r = PFailed \<and> np_detail r = Some d \<and> (\<forall>t. np_target r = Some t \<longrightarrow> sp_refuse (sweepPlanFor pre m) = Some (t, d))"
      if f: "to = UFailed" "\<not> not_verdict d"
      using words[OF f] f(2) same
      by (auto simp: sweepPlanFor_def r not_verdict_def isHaltingUpdate_def)
  qed
qed

lemma sweepPlan_verdict:
  assumes "sp_lease (sweepPlanFor pre m) = LeaseRelease UFailed d" "\<not> not_verdict d"
  shows "\<exists>n (r :: node_report). pre = Some n \<and> busy n \<and> (dw_updateTarget n = None \<or> np_target r = dw_updateTarget n) \<and>
    (\<forall>t. np_target r = Some t \<longrightarrow> sp_refuse (sweepPlanFor pre m) = Some (t, d))"
proof (rule sweepPlan_release[OF assms(1)])
  fix n and r :: node_report
  assume x: "pre = Some n" "busy n" "dw_updateTarget n = None \<or> np_target r = dw_updateTarget n"
    "UFailed = UFailed \<Longrightarrow> \<not> not_verdict d \<Longrightarrow> np_phase r = PFailed \<and> np_detail r = Some d \<and>
       (\<forall>t. np_target r = Some t \<longrightarrow> sp_refuse (sweepPlanFor pre m) = Some (t, d))"
  show ?thesis by (rule exI[of _ n], rule exI[of _ r]) (use x(1-3) x(4)[OF refl assms(2)] in blast)
qed

text \<open>A failure with a provenance verdict is recorded before the lease is released.\<close>

lemma write_lease_keeps:
  assumes "node_reach db" "write_lease db i plan pre follow = (lease, db')" "dated db" "recorded db"
    and follow: "\<And>l x. calm True x (follow l x)"
    and fails: "\<And>d. sp_lease plan = LeaseRelease UFailed d \<Longrightarrow> \<not> not_verdict d \<Longrightarrow>
       \<forall>r \<in> set (nb_nodes db). dw_nodeId r = i \<and> busy r \<longrightarrow> (\<exists>t. dw_updateTarget r = Some t \<and> refused_at db i t)"
    and to: "\<And>to d. sp_lease plan = LeaseRelease to d \<Longrightarrow> isSettled to"
  shows "node_reach db' \<and> evolves True (\<lambda>_. True) db db' \<and> recorded db'"
proof (cases "sp_lease plan")
  case (LeaseNone w)
  then show ?thesis using assms(1,2,4) by (simp add: write_lease_def)
next
  case (LeaseSettle d)
  let ?e = "Option.bind pre dw_updateStartedAt"
  obtain x db1 where s: "settleNode db i d ?e = (x, db1)" by fastforce
  have c1: "calm True db db1" using calm_ops(2)[of db i d ?e] s by simp
  have "db' = (case x of Inl _ \<Rightarrow> db1 | Inr _ \<Rightarrow> (case landedMoveOf pre of None \<Rightarrow> db1 | Some l \<Rightarrow> follow l db1))"
    using assms(2) by (auto simp: write_lease_def LeaseSettle s split: sum.splits option.splits)
  then have "calm True db db'" using c1 calm_trans[OF c1 follow] by (auto split: sum.split option.split)
  then show ?thesis by (rule calm_keeps[OF _ assms(1,4)])
next
  case (LeaseRelease to d)
  let ?e = "Option.bind pre dw_updateStartedAt"
  have d': "db' = snd (releaseLease db i to d ?e)"
    using assms(2) by (auto simp: write_lease_def LeaseRelease split: sum.splits prod.splits)
  have reach: "node_reach db'" unfolding d' by (rule node_reach.step[OF assms(1) node_step.released[OF to[OF LeaseRelease]]])
  have ev: "evolves True (\<lambda>_. True) db db'" unfolding d' by (rule evolves_releaseLease[OF to[OF LeaseRelease]]) simp
  have "recorded db'"
  proof (cases "to = UFailed \<and> \<not> not_verdict d")
    case False
    then have "calm True db db'" unfolding d' by (intro calm_ops(1)[OF to[OF LeaseRelease]]) auto
    then show ?thesis using recorded_evolves assms(4) unfolding calm_def by blast
  next
    case True
    let ?p = "\<lambda>r. dw_nodeId r = i \<and> live r \<and> busy r \<and> lease_is ?e r"
    let ?f = "\<lambda>r :: node_row. r\<lparr>dw_updateState := to, dw_updateDetail := Some d\<rparr>"
    obtain rows n where u: "sql_update ?p ?f (nb_nodes db) = (rows, n)" by fastforce
    have rows: "nb_nodes db' = map (\<lambda>r. if ?p r then ?f r else r) (nb_nodes db)" "nb_refusals db' = nb_refusals db"
      unfolding d' releaseLease_def u using sql_updateD[OF u] by (auto simp: Let_def)
    show ?thesis
      unfolding recorded_def
    proof (intro ballI allI impI, elim conjE)
      fix r' w
      assume r': "r' \<in> set (nb_nodes db')" "dw_updateState r' = UFailed" "dw_updateDetail r' = Some w" "\<not> not_verdict w"
      then obtain r where r: "r \<in> set (nb_nodes db)" "r' = (if ?p r then ?f r else r)" unfolding rows by auto
      show "\<exists>t. dw_updateTarget r' = Some t \<and> refused_at db' (dw_nodeId r') t"
      proof (cases "?p r")
        case p: True
        then have "\<exists>t. dw_updateTarget r = Some t \<and> refused_at db i t" using fails[of d] True LeaseRelease r(1) by auto
        then show ?thesis using p by (simp add: r(2) refused_at_def rows(2))
      next
        case False
        then show ?thesis using assms(4) r r'(2-4) unfolding recorded_def refused_at_def rows(2) by auto
      qed
    qed
  qed
  then show ?thesis using reach ev by blast
qed

lemma write_verdict_records:
  assumes "write_verdict db i plan now = (refused, db')" "sp_refuse plan = Some (t, d)" "isReleaseTag t" "node_at db i \<noteq> None"
  shows "refused_at db' i t"
proof (cases "find (\<lambda>f. rf_nodeId f = i \<and> rf_tag f = t) (nb_refusals db)")
  case None
  then show ?thesis using assms by (auto simp: write_verdict_def refuseRelease_def refused_at_def)
next
  case (Some f)
  then have "refused_at db i t" unfolding refused_at_def using find_Some_set by fastforce
  then show ?thesis using assms Some by (auto simp: write_verdict_def refuseRelease_def)
qed

text \<open>One measurement, whole: a run of steps in which leases evolve, and every failure keeps its verdict.\<close>

lemma apply_keeps:
  assumes "node_reach db" "connection_label (nm_label m)" "dated db" "recorded db" "\<And>l x. calm True x (follow l x)"
    "applyMeasurement db m u now follow = (out, db')"
  shows "node_reach db' \<and> evolves False (\<lambda>_. True) db db' \<and> recorded db'"
proof -
  define col where "col = (nm_nodeId m \<noteq> nm_label m \<and> nodeIdCollides db (nm_nodeId m) (nm_label m))"
  define m0 where "m0 = (if col then m\<lparr>nm_nodeId := nm_label m\<rparr> else m)"
  have keyed: "calm False db db1" if "key_measurement db m0 = (k, db1)" for k db1
    using key_measurement_reach(1)[of db m0] key_measurement_reach(2)[of db m0 not_verdict] that assms(1,2) by (simp add: m0_def calm_def)
  have weaken: "calm False x y \<Longrightarrow> node_reach x \<Longrightarrow> recorded x \<Longrightarrow> node_reach y \<and> evolves False (\<lambda>_. True) x y \<and> recorded y" for x y
    by (rule calm_keeps)
  from assms(6) col_def m0_def show ?thesis
  proof (cases rule: applyMeasurement_cases)
    case (unkeyed w)
    show ?thesis by (rule weaken[OF keyed[OF unkeyed(2)] assms(1,4)])
  next
    case (dropped w mk db1 m2)
    have "calm False db1 db'" using calm_ops(8)[of db1 m2] dropped(3) by simp
    then show ?thesis using weaken[OF calm_trans[OF keyed[OF dropped(2)]] assms(1,4)] by blast
  next
    case (applied mk db1 pre m1 plan c db2 refused db3 lease)
    let ?i = "nm_nodeId mk" and ?m2 = "withhold_report pre plan m1"
    have i: "nm_nodeId ?m2 = ?i" by (simp add: applied(3))
    have c12: "calm False db1 db2" using calm_ops(8)[of db1 ?m2] applied(5) by simp
    note v = write_verdict_calm[OF applied(6)]
    have c3: "calm False db db3" using calm_trans[OF calm_trans[OF keyed[OF applied(1)] c12] calm_weaken] v by blast
    note k3 = weaken[OF c3 assms(1,4)]
    have d1: "dated db1" using keyed[OF applied(1)] dated_evolves assms(3) unfolding calm_def by blast
    have d3: "dated db3" using c3 dated_evolves assms(3) unfolding calm_def by blast
    have r2: "node_reach db1" "node_reach db2" using keyed[OF applied(1)] c12 assms(1) unfolding calm_def by blast+
    have u2: "keys_unique db1" "keys_unique db2" using node_reach_inv[OF r2(1)] node_reach_inv[OF r2(2)] by (simp_all add: node_inv_def)
    have "node_reach db' \<and> evolves True (\<lambda>_. True) db3 db' \<and> recorded db'"
    proof (rule write_lease_keeps[OF _ applied(7) d3 _ assms(5)])
      show "node_reach db3" "recorded db3" using k3 by blast+
      show "isSettled to" if "sp_lease plan = LeaseRelease to d" for to d
        using that unfolding applied(4) by (rule sweepPlan_release) blast
      fix d
      assume rel: "sp_lease plan = LeaseRelease UFailed d" and nv: "\<not> not_verdict d"
      obtain n and r :: node_report where n: "pre = Some n" "busy n" "dw_updateTarget n = None \<or> np_target r = dw_updateTarget n"
        "\<forall>t. np_target r = Some t \<longrightarrow> sp_refuse plan = Some (t, d)"
        using sweepPlan_verdict[OF rel[unfolded applied(4)] nv] unfolding applied(4) by blast
      have n1: "n \<in> set (nb_nodes db1)" using node_at_in[of db1 ?i n] n(1) applied(2) by simp
      obtain t where t: "dw_updateTarget n = Some t" "isReleaseTag t" using d1 n1 n(2) unfolding dated_def by blast
      have at: "node_at db2 ?i = Some (write_measurement ?m2 n)" using upserted_row(1)[OF applied(5) u2(1), unfolded i] n(1) applied(2) by simp
      have "sp_refuse plan = Some (t, d)" using n(3,4) t(1) by simp
      then have ref: "refused_at db3 ?i t" using write_verdict_records[OF applied(6) _ t(2)] at by simp
      show "\<forall>r \<in> set (nb_nodes db3). dw_nodeId r = ?i \<and> busy r \<longrightarrow> (\<exists>t. dw_updateTarget r = Some t \<and> refused_at db3 ?i t)"
      proof (intro ballI impI, elim conjE)
        fix r
        assume "r \<in> set (nb_nodes db3)" "dw_nodeId r = ?i"
        then have "r = write_measurement ?m2 n" using v node_at_same[OF u2(2) at] by simp
        then show "\<exists>t. dw_updateTarget r = Some t \<and> refused_at db3 ?i t" using t(1) ref by simp
      qed
    qed
    then show ?thesis using k3 evolves_trans[OF _ evolves_weaken] by blast
  qed
qed

end
