(* ===== verification/FleetPlaces.thy ===== *)
theory FleetPlaces
  imports FleetSweep
begin

text \<open>
  The connections: the table has at most one live row for the server and one for the fleet box, keyed by a node id or, until one
  is measured, by the label. A measurement finds that row, takes over its key or starts it.
\<close>

definition places_ok :: "node_db \<Rightarrow> bool" where
  "places_ok db \<longleftrightarrow>
     (\<forall>r \<in> set (nb_nodes db). live r \<longrightarrow> connection_label (dw_label r) \<and> (dw_nodeId r = dw_label r \<or> isNodeId (dw_nodeId r))) \<and>
     (\<forall>r \<in> set (nb_nodes db). \<forall>s \<in> set (nb_nodes db). live r \<and> live s \<and> dw_label r = dw_label s \<longrightarrow> dw_nodeId r = dw_nodeId s)"

lemma places_okD:
  assumes "places_ok db" "r \<in> set (nb_nodes db)" "live r"
  shows "connection_label (dw_label r)" "dw_nodeId r = dw_label r \<or> isNodeId (dw_nodeId r)"
    "\<And>s. s \<in> set (nb_nodes db) \<Longrightarrow> live s \<Longrightarrow> dw_label s = dw_label r \<Longrightarrow> dw_nodeId s = dw_nodeId r"
  using assms unfolding places_ok_def by blast+

lemma places_okI:
  assumes "\<And>r. r \<in> set (nb_nodes db) \<Longrightarrow> live r \<Longrightarrow> connection_label (dw_label r) \<and> (dw_nodeId r = dw_label r \<or> isNodeId (dw_nodeId r))"
    "\<And>r s. r \<in> set (nb_nodes db) \<Longrightarrow> s \<in> set (nb_nodes db) \<Longrightarrow> live r \<Longrightarrow> live s \<Longrightarrow> dw_label r = dw_label s \<Longrightarrow> dw_nodeId r = dw_nodeId s"
  shows "places_ok db"
  unfolding places_ok_def using assms by blast

lemma places_cong: "nb_nodes db' = nb_nodes db \<Longrightarrow> places_ok db' = places_ok db"
  by (simp only: places_ok_def)

lemma places_map:
  assumes "places_ok db" "nb_nodes db' = map g (nb_nodes db)" "\<And>r. r \<in> set (nb_nodes db) \<Longrightarrow> same_place r (g r)"
  shows "places_ok db'"
proof -
  have s: "live (g r) = live r" "dw_nodeId (g r) = dw_nodeId r" "dw_label (g r) = dw_label r" if "r \<in> set (nb_nodes db)" for r
    using assms(3)[OF that] by (simp_all add: same_place_def live_def)
  show ?thesis
  proof (rule places_okI)
    show "connection_label (dw_label x) \<and> (dw_nodeId x = dw_label x \<or> isNodeId (dw_nodeId x))" if x: "x \<in> set (nb_nodes db')" "live x" for x
    proof -
      obtain r where r: "r \<in> set (nb_nodes db)" "x = g r" using x(1) by (auto simp: assms(2))
      then show ?thesis using places_okD(1,2)[OF assms(1) r(1)] s[OF r(1)] x(2) by simp
    qed
    fix x y
    assume xy: "x \<in> set (nb_nodes db')" "y \<in> set (nb_nodes db')" "live x" "live y" "dw_label x = dw_label y"
    obtain r t where r: "r \<in> set (nb_nodes db)" "x = g r" "t \<in> set (nb_nodes db)" "y = g t" using xy(1,2) by (auto simp: assms(2))
    have "dw_nodeId r = dw_nodeId t"
      using places_okD(3)[OF assms(1) r(3) _ r(1)] s[OF r(1)] s[OF r(3)] xy r by simp
    then show "dw_nodeId x = dw_nodeId y" using s[OF r(1)] s[OF r(3)] r by simp
  qed
qed

lemma places_stay: "evolves True Q db db' \<Longrightarrow> places_ok db \<Longrightarrow> places_ok db'"
  by (erule evolvesE) (rule places_map, auto)

lemma places_update:
  assumes "places_ok db" "sql_update p f (nb_nodes db) = (rows, n)" "\<And>r. r \<in> set (nb_nodes db) \<Longrightarrow> p r \<Longrightarrow> same_place r (f r)"
  shows "places_ok (db\<lparr>nb_nodes := rows\<rparr>)"
  by (rule places_map[OF assms(1), where g = "\<lambda>r. if p r then f r else r"])
    (use assms(3) in \<open>auto simp: sql_updateD(1)[OF assms(2)] same_place_def\<close>)

lemma places_append:
  assumes "places_ok db" "connection_label (dw_label x)" "dw_nodeId x = dw_label x \<or> isNodeId (dw_nodeId x)"
    "\<And>r. r \<in> set (nb_nodes db) \<Longrightarrow> live r \<Longrightarrow> dw_label r \<noteq> dw_label x"
  shows "places_ok (db\<lparr>nb_nodes := nb_nodes db @ [x]\<rparr>)"
proof (rule places_okI)
  show "connection_label (dw_label r) \<and> (dw_nodeId r = dw_label r \<or> isNodeId (dw_nodeId r))"
    if "r \<in> set (nb_nodes (db\<lparr>nb_nodes := nb_nodes db @ [x]\<rparr>))" "live r" for r
    using that assms(2,3) places_okD(1,2)[OF assms(1), of r] by auto
  show "dw_nodeId r = dw_nodeId s"
    if "r \<in> set (nb_nodes (db\<lparr>nb_nodes := nb_nodes db @ [x]\<rparr>))" "s \<in> set (nb_nodes (db\<lparr>nb_nodes := nb_nodes db @ [x]\<rparr>))"
      "live r" "live s" "dw_label r = dw_label s" for r s
  proof (cases "r \<in> set (nb_nodes db) \<and> s \<in> set (nb_nodes db)")
    case True
    then show ?thesis using places_okD(3)[OF assms(1), of s r] that(3-5) by blast
  next
    case False
    then show ?thesis using that assms(4)[of r] assms(4)[of s] by fastforce
  qed
qed

lemma nodeByLabel_None: "nodeByLabel db label = None \<longleftrightarrow> (\<forall>r \<in> set (nb_nodes db). \<not> (dw_label r = label \<and> live r))"
proof -
  let ?l = "filter (\<lambda>r. dw_label r = label \<and> live r) (nb_nodes db)"
  have "nodeByLabel db label = None \<longleftrightarrow> sort_key (\<lambda>r. recency_key (nd_measuredAt r) (dw_nodeId r)) ?l = []"
    by (auto simp: nodeByLabel_def split: list.split)
  also have "\<dots> \<longleftrightarrow> ?l = []" by (simp add: set_sort flip: set_empty)
  finally show ?thesis by (auto simp: filter_empty_conv)
qed

lemma nodeByLabel_Some: "nodeByLabel db label = Some r \<Longrightarrow> r \<in> set (nb_nodes db) \<and> dw_label r = label \<and> live r"
proof -
  let ?l = "filter (\<lambda>r. dw_label r = label \<and> live r) (nb_nodes db)"
  let ?s = "sort_key (\<lambda>r. recency_key (nd_measuredAt r) (dw_nodeId r)) ?l"
  assume "nodeByLabel db label = Some r"
  then have h: "(case ?s of [] \<Rightarrow> None | r # _ \<Rightarrow> Some r) = Some r" by (simp only: nodeByLabel_def)
  have "r \<in> set ?s"
  proof (cases ?s)
    case (Cons y ys)
    then show ?thesis using h by (simp only: list.case option.inject list.set_intros)
  qed (use h in \<open>simp only: list.case option.distinct\<close>)
  then show ?thesis by simp
qed

section \<open>Operations that move no row\<close>

lemma places_unreachable:
  assumes "places_ok db" "connection_label label"
  shows "places_ok (snd (markUnreachable db label role at))"
proof -
  let ?p = "\<lambda>r. dw_label r = label \<and> live r"
  let ?f = "\<lambda>r :: node_row. r\<lparr>dw_reachable := False, nd_unreachableSince := (case nd_unreachableSince r of None \<Rightarrow> Some at | Some s \<Rightarrow> Some s)\<rparr>"
  obtain rows n where u: "sql_update ?p ?f (nb_nodes db) = (rows, n)" by fastforce
  have a: "places_ok (db\<lparr>nb_nodes := rows\<rparr>)" by (rule places_update[OF assms(1) u]) (simp add: same_place_def)
  have "places_ok (db\<lparr>nb_nodes := nb_nodes db @ [placeholder label role at]\<rparr>)" if "n = 0"
  proof (rule places_append[OF assms(1)])
    show "dw_label r \<noteq> dw_label (placeholder label role at)" if "r \<in> set (nb_nodes db)" "live r" for r
      using \<open>n = 0\<close> that sql_updateD(2)[OF u] by (auto simp: placeholder_def filter_empty_conv)
  qed (use assms(2) in \<open>simp_all add: placeholder_def blank_row_def\<close>)
  then show ?thesis using a assms(1) unfolding markUnreachable_def u by (auto simp: Let_def split: option.split)
qed

lemma places_acquire:
  assumes "keys_unique db" "dispatchNode db i t k at d = (Inr u, db')" "places_ok db"
  shows "places_ok db'"
proof -
  obtain r where "nb_nodes db' = map (\<lambda>s. if dw_nodeId s = i then s\<lparr>dw_updateState := UPending, dw_updateTarget := Some t,
       dw_updateStartedAt := Some at, dw_updateDetail := Some d\<rparr> else s) (nb_nodes db)"
    by (rule dispatchNode_acquires[OF assms(1,2)])
  from places_map[OF assms(3) this] show ?thesis by (simp add: same_place_def)
qed

lemma places_ack: "places_ok db \<Longrightarrow> places_ok (snd (ackNode db i))"
proof -
  assume p: "places_ok db"
  let ?p = "\<lambda>r. dw_nodeId r = i \<and> live r \<and> isSettled (dw_updateState r)"
  obtain rows n where u: "sql_update ?p (settle_row False ACK_DETAIL) (nb_nodes db) = (rows, n)" by fastforce
  have "places_ok (db\<lparr>nb_nodes := rows\<rparr>)"
    by (rule places_update[OF p u]) (simp add: same_place_def settle_row_def)
  then have "places_ok (db\<lparr>nb_nodes := rows, nb_refusals := fs\<rparr>)" for fs by (subst places_cong[of _ "db\<lparr>nb_nodes := rows\<rparr>"]) simp_all
  then show ?thesis using p unfolding ackNode_def u by (simp add: Let_def)
qed

section \<open>A measurement\<close>

text \<open>The rows of a rekey: every live row but the new identity was live under the same key and label, and carries
  another label now.\<close>

lemma rekey_rows:
  assumes inv: "node_inv db" and label: "\<not> isNodeId label" and nid: "isNodeId nid" and x: "x \<in> set (nb_nodes (snd (rekeyNode db label nid)))"
  shows "dw_nodeId x = nid \<Longrightarrow> live x"
    "live x \<Longrightarrow> dw_nodeId x \<noteq> nid \<Longrightarrow>
       dw_label x \<noteq> label \<and> (\<exists>r \<in> set (nb_nodes db). live r \<and> dw_nodeId r = dw_nodeId x \<and> dw_label r = dw_label x)"
proof -
  obtain a db' db4 where sh: "rekeyNode db label nid = (Inr a, db')" "only_row nid db4 db'"
    "db' = db4 \<or> (\<exists>donor. db' = leaseFollowsLabel db4 label nid donor)"
    "((\<exists>r \<in> set (nb_nodes db). at_label label r) \<and> node_at db nid = None \<and> db' = db4 \<and>
        nb_nodes db4 = map (moved_row label nid) (nb_nodes db) \<and>
        nb_refusals db4 = map (\<lambda>f. if rf_nodeId f = label then f\<lparr>rf_nodeId := nid\<rparr> else f) (nb_refusals db)) \<or>
     (\<not> ((\<exists>r \<in> set (nb_nodes db). at_label label r) \<and> node_at db nid = None) \<and>
        nb_nodes db4 = map (kept_row label nid (node_at db nid \<noteq> None)) (nb_nodes db) \<and> nb_refusals db4 = nb_refusals db)"
    by (rule rekeyNode_shape[OF inv label nid])
  obtain g where g: "nb_nodes db' = map g (nb_nodes db4)" "\<And>r. dw_nodeId (g r) = dw_nodeId r"
    "\<And>r. nd_supersededBy (g r) = nd_supersededBy r" "\<And>r. dw_label (g r) = dw_label r"
    using sh(2) by (auto simp: only_row_def)
  obtain s where s: "s \<in> set (nb_nodes db4)" "x = g s" using x sh(1) g(1) by auto
  have gs: "live x = live s" "dw_nodeId x = dw_nodeId s" "dw_label x = dw_label s" using g s(2) by (simp_all add: live_def)
  have rows: "(dw_nodeId s = nid \<longrightarrow> live s) \<and> (live s \<and> dw_nodeId s \<noteq> nid \<longrightarrow>
      (\<exists>r \<in> set (nb_nodes db). live r \<and> dw_nodeId r = dw_nodeId s \<and> dw_label r = dw_label s))"
    using sh(4)
  proof (elim disjE conjE)
    assume m: "nb_nodes db4 = map (moved_row label nid) (nb_nodes db)" and none: "node_at db nid = None"
    then obtain t where t: "t \<in> set (nb_nodes db)" "s = moved_row label nid t" using s(1) by auto
    have "dw_nodeId t \<noteq> nid" using t(1) none by (auto simp: node_at_None)
    then show ?thesis using t by (auto simp: moved_row_def at_label_def retire_def live_def split: if_splits)
  next
    assume "nb_nodes db4 = map (kept_row label nid (node_at db nid \<noteq> None)) (nb_nodes db)"
    then obtain t where t: "t \<in> set (nb_nodes db)" "s = kept_row label nid (node_at db nid \<noteq> None) t" using s(1) by auto
    then show ?thesis by (auto simp: live_kept_row)
  qed
  show "dw_nodeId x = nid \<Longrightarrow> live x" using rows gs by simp
  show "dw_label x \<noteq> label \<and> (\<exists>r \<in> set (nb_nodes db). live r \<and> dw_nodeId r = dw_nodeId x \<and> dw_label r = dw_label x)"
    if l: "live x" "dw_nodeId x \<noteq> nid"
    using rekey_single[OF inv label nid x l(1)] l rows gs by auto
qed

text \<open>The table but for the row a measurement is written into.\<close>

definition others_placed :: "string \<Rightarrow> string \<Rightarrow> node_db \<Rightarrow> bool" where
  "others_placed i label db \<longleftrightarrow>
     (\<forall>r \<in> set (nb_nodes db). live r \<and> dw_nodeId r \<noteq> i \<longrightarrow>
        dw_label r \<noteq> label \<and> connection_label (dw_label r) \<and> (dw_nodeId r = dw_label r \<or> isNodeId (dw_nodeId r))) \<and>
     (\<forall>r \<in> set (nb_nodes db). \<forall>s \<in> set (nb_nodes db).
        live r \<and> live s \<and> dw_nodeId r \<noteq> i \<and> dw_nodeId s \<noteq> i \<and> dw_label r = dw_label s \<longrightarrow> dw_nodeId r = dw_nodeId s)"

lemma others_placedI:
  assumes "places_ok db" "\<And>r. r \<in> set (nb_nodes db') \<Longrightarrow> live r \<Longrightarrow> dw_nodeId r \<noteq> i \<Longrightarrow>
     dw_label r \<noteq> label \<and> (\<exists>q \<in> set (nb_nodes db). live q \<and> dw_nodeId q = dw_nodeId r \<and> dw_label q = dw_label r)"
  shows "others_placed i label db'"
proof -
  have q: "dw_label r \<noteq> label \<and> connection_label (dw_label r) \<and> (dw_nodeId r = dw_label r \<or> isNodeId (dw_nodeId r))"
    if r: "r \<in> set (nb_nodes db')" "live r" "dw_nodeId r \<noteq> i" for r
  proof -
    obtain q where "q \<in> set (nb_nodes db)" "live q" "dw_nodeId q = dw_nodeId r" "dw_label q = dw_label r" "dw_label r \<noteq> label"
      using assms(2)[OF r] by blast
    then show ?thesis using places_okD(1,2)[OF assms(1), of q] by simp
  qed
  have u: "dw_nodeId r = dw_nodeId s"
    if r: "r \<in> set (nb_nodes db')" "live r" "dw_nodeId r \<noteq> i" and s: "s \<in> set (nb_nodes db')" "live s" "dw_nodeId s \<noteq> i"
      and l: "dw_label r = dw_label s" for r s
  proof -
    obtain p where p: "p \<in> set (nb_nodes db)" "live p" "dw_nodeId p = dw_nodeId r" "dw_label p = dw_label r" using assms(2)[OF r] by blast
    obtain q where q: "q \<in> set (nb_nodes db)" "live q" "dw_nodeId q = dw_nodeId s" "dw_label q = dw_label s" using assms(2)[OF s] by blast
    show ?thesis using places_okD(3)[OF assms(1) q(1,2) p(1,2)] p(3,4) q(3,4) l by simp
  qed
  show ?thesis unfolding others_placed_def using q u by blast
qed

lemma upsert_rows:
  assumes "upsertNodeMeasurement db m = (Inr c, db')" "x \<in> set (nb_nodes db')"
  shows "x = write_measurement m (blank_row (nm_nodeId m)) \<or>
    (x \<in> set (nb_nodes db) \<and> \<not> (dw_nodeId x = nm_nodeId m \<and> live x)) \<or>
    (\<exists>r \<in> set (nb_nodes db). dw_nodeId r = nm_nodeId m \<and> live r \<and> x = write_measurement m r)"
proof (cases "node_at db (nm_nodeId m) = None")
  case True
  then have "db' = db\<lparr>nb_nodes := nb_nodes db @ [write_measurement m (blank_row (nm_nodeId m))]\<rparr>"
    using assms(1) by (simp add: upsertNodeMeasurement_def)
  then have "x = write_measurement m (blank_row (nm_nodeId m)) \<or> x \<in> set (nb_nodes db)" using assms(2) by auto
  moreover have "dw_nodeId x \<noteq> nm_nodeId m" if "x \<in> set (nb_nodes db)"
    using imageI[OF that, of dw_nodeId] True by (auto simp: node_at_None)
  ultimately show ?thesis by blast
next
  case False
  let ?p = "\<lambda>r. dw_nodeId r = nm_nodeId m \<and> live r"
  obtain rows n where u: "sql_update ?p (write_measurement m) (nb_nodes db) = (rows, n)" by fastforce
  have "db' = db\<lparr>nb_nodes := rows\<rparr>"
    using assms(1) False unfolding upsertNodeMeasurement_def u by (auto simp: Let_def split: if_splits)
  then show ?thesis using assms(2) sql_updateD(1)[OF u] by auto
qed

lemma others_placedD:
  assumes "others_placed i label db" "r \<in> set (nb_nodes db)" "live r" "dw_nodeId r \<noteq> i"
  shows "dw_label r \<noteq> label" "connection_label (dw_label r)" "dw_nodeId r = dw_label r \<or> isNodeId (dw_nodeId r)"
    "\<And>s. s \<in> set (nb_nodes db) \<Longrightarrow> live s \<Longrightarrow> dw_nodeId s \<noteq> i \<Longrightarrow> dw_label r = dw_label s \<Longrightarrow> dw_nodeId r = dw_nodeId s"
  using assms unfolding others_placed_def by blast+

lemma upsert_places:
  assumes "others_placed i label db" "connection_label label" "i = label \<or> isNodeId i"
    "upsertNodeMeasurement db m = (Inr c, db')" "nm_nodeId m = i" "nm_label m = label"
  shows "places_ok db'"
proof (rule places_okI)
  have row: "dw_nodeId x = i \<and> dw_label x = label \<or> x \<in> set (nb_nodes db) \<and> dw_nodeId x \<noteq> i"
    if "x \<in> set (nb_nodes db')" "live x" for x
    using upsert_rows[OF assms(4) that(1)] that(2) assms(5,6) by (auto simp: blank_row_def)
  note other = others_placedD[OF assms(1)]
  show "connection_label (dw_label x) \<and> (dw_nodeId x = dw_label x \<or> isNodeId (dw_nodeId x))" if x: "x \<in> set (nb_nodes db')" "live x" for x
    using row[OF x]
  proof (elim disjE conjE)
    assume "dw_nodeId x = i" "dw_label x = label"
    then show ?thesis using assms(2,3) by simp
  next
    assume "x \<in> set (nb_nodes db)" "dw_nodeId x \<noteq> i"
    then show ?thesis using other(2,3)[OF _ x(2)] by blast
  qed
  show "dw_nodeId x = dw_nodeId y"
    if x: "x \<in> set (nb_nodes db')" and y: "y \<in> set (nb_nodes db')" and l: "live x" "live y" "dw_label x = dw_label y" for x y
    using row[OF x l(1)] row[OF y l(2)]
  proof (elim disjE conjE)
    assume "x \<in> set (nb_nodes db)" "dw_nodeId x \<noteq> i" "dw_label y = label"
    then show ?thesis using other(1)[OF _ l(1)] l(3) by blast
  next
    assume "y \<in> set (nb_nodes db)" "dw_nodeId y \<noteq> i" "dw_label x = label"
    then show ?thesis using other(1)[OF _ l(2)] l(3) by simp
  next
    assume "x \<in> set (nb_nodes db)" "dw_nodeId x \<noteq> i" "y \<in> set (nb_nodes db)" "dw_nodeId y \<noteq> i"
    then show ?thesis using other(4)[of x y] l by blast
  qed simp
qed

text \<open>Whatever key the measurement takes, its connection ends with one row, the one it was written into.\<close>

lemma measured_places:
  assumes reach: "node_reach db" and ok: "places_ok db" and label: "connection_label (nm_label m)"
    and id: "nm_nodeId m = nm_label m \<or> isNodeId (nm_nodeId m)" and key: "key_measurement db m = (k, db1)"
  obtains mk where "k = Inr mk"
    "\<And>m2 r db2. nm_nodeId m2 = nm_nodeId mk \<Longrightarrow> nm_label m2 = nm_label m \<Longrightarrow> upsertNodeMeasurement db1 m2 = (r, db2) \<Longrightarrow> places_ok db2"
proof -
  let ?l = "nm_label m" and ?n = "nm_nodeId m"
  have same: "places_ok db2" if "others_placed i ?l db1" "i = ?l \<or> isNodeId i" "places_ok db1 \<or> (\<exists>c. r = Inr c)"
      "nm_nodeId m2 = i" "nm_label m2 = ?l" "upsertNodeMeasurement db1 m2 = (r, db2)" for i m2 r db2
  proof (cases r)
    case (Inl w)
    then have "places_ok db1" using that(3) by simp
    moreover have "db2 = db1" using that(6) Inl by (auto simp: upsertNodeMeasurement_def Let_def split: if_splits prod.splits)
    ultimately show ?thesis by simp
  next
    case (Inr c)
    then show ?thesis using upsert_places[OF that(1) label that(2) _ that(4,5)] that(6) by simp
  qed
  show thesis
  proof (cases "?n = ?l")
    case False
    then have nid: "isNodeId ?n" using id by simp
    note inv = node_reach_inv[OF reach] and l = label_not_id[OF label]
    obtain a where a: "fst (rekeyNode db ?l ?n) = Inr a" by (rule rekeyNode_shape[OF inv l nid]) (metis fst_conv)
    then have k: "k = Inr m" "db1 = snd (rekeyNode db ?l ?n)"
      using key False by (auto simp: key_measurement_def split: sum.splits prod.splits)
    note rows = rekey_rows[OF inv l nid, folded k(2)]
    have o: "others_placed ?n ?l db1" by (rule others_placedI[OF ok]) (use rows(2) in blast)
    have "\<exists>c. r = Inr c" if u: "upsertNodeMeasurement db1 m2 = (r, db2)" "nm_nodeId m2 = ?n" for m2 r db2
    proof (cases "node_at db1 ?n")
      case None
      then show ?thesis using u by (auto simp: upsertNodeMeasurement_def)
    next
      case (Some x)
      then have "x \<in> set (nb_nodes db1)" "dw_nodeId x = ?n" "live x" using node_at_in[OF Some] rows(1) by auto
      then have "0 < snd (sql_update (\<lambda>r. dw_nodeId r = ?n \<and> live r) (write_measurement m2) (nb_nodes db1))"
        by (subst sql_update_pos) blast
      then show ?thesis using u Some by (auto simp: upsertNodeMeasurement_def Let_def split: prod.splits if_splits)
    qed
    then show thesis using that[OF k(1)] same[OF o] nid by blast
  next
    case True
    let ?i = "case nodeByLabel db ?l of None \<Rightarrow> ?l | Some r \<Rightarrow> dw_nodeId r"
    let ?mk = "case nodeByLabel db ?l of None \<Rightarrow> m | Some r \<Rightarrow> if dw_nodeId r \<noteq> ?l then m\<lparr>nm_nodeId := dw_nodeId r\<rparr> else m"
    have k: "k = Inr ?mk" "db1 = db" using key True by (auto simp: key_measurement_def)
    have mi: "nm_nodeId ?mk = ?i" using True by (auto split: option.split)
    have o: "others_placed ?i ?l db1"
    proof (rule others_placedI[OF ok])
      fix r
      assume r: "r \<in> set (nb_nodes db1)" "live r" "dw_nodeId r \<noteq> ?i"
      have "dw_label r \<noteq> ?l"
      proof (cases "nodeByLabel db ?l")
        case None
        then show ?thesis using r k(2) by (auto simp: nodeByLabel_None)
      next
        case (Some x)
        note x = nodeByLabel_Some[OF Some]
        then show ?thesis using places_okD(3)[OF ok, of x r] r k(2) Some by auto
      qed
      then show "dw_label r \<noteq> ?l \<and> (\<exists>q \<in> set (nb_nodes db). live q \<and> dw_nodeId q = dw_nodeId r \<and> dw_label q = dw_label r)"
        using r k(2) by blast
    qed
    have i: "?i = ?l \<or> isNodeId ?i"
    proof (cases "nodeByLabel db ?l")
      case (Some x)
      then show ?thesis using places_okD(2)[OF ok, of x] nodeByLabel_Some[OF Some] by auto
    qed simp
    show thesis
      by (rule that[OF k(1)]) (rule same[OF o i]; use ok k(2) mi in simp)
  qed
qed

lemma write_lease_stays:
  assumes "write_lease db i plan pre follow = (lease, db')" "\<And>l x. calm True x (follow l x)"
    "\<And>to d. sp_lease plan = LeaseRelease to d \<Longrightarrow> isSettled to"
  shows "evolves True (\<lambda>_. True) db db'"
proof (cases "sp_lease plan")
  case (LeaseNone w)
  then show ?thesis using assms(1) by (simp add: write_lease_def)
next
  case (LeaseSettle d)
  let ?e = "Option.bind pre dw_updateStartedAt"
  obtain x db1 where s: "settleNode db i d ?e = (x, db1)" by fastforce
  have c1: "calm True db db1" using calm_ops(2)[of db i d ?e] s by simp
  have "db' = (case x of Inl _ \<Rightarrow> db1 | Inr _ \<Rightarrow> (case landedMoveOf pre of None \<Rightarrow> db1 | Some l \<Rightarrow> follow l db1))"
    using assms(1) by (auto simp: write_lease_def LeaseSettle s split: sum.splits option.splits)
  then have "calm True db db'" using c1 calm_trans[OF c1 assms(2)] by (auto split: sum.split option.split)
  then show ?thesis using evolves_words[of True not_verdict db db' "\<lambda>_. True"] by (simp add: calm_def)
next
  case (LeaseRelease to d)
  have "db' = snd (releaseLease db i to d (Option.bind pre dw_updateStartedAt))"
    using assms(1) by (auto simp: write_lease_def LeaseRelease split: sum.splits prod.splits)
  then show ?thesis using evolves_releaseLease[OF assms(3)[OF LeaseRelease]] by simp
qed

lemma apply_places:
  assumes "node_reach db" "places_ok db" "connection_label (nm_label m)" "nm_nodeId m = nm_label m \<or> isNodeId (nm_nodeId m)"
    "\<And>l x. calm True x (follow l x)" "applyMeasurement db m u now follow = (out, db')"
  shows "places_ok db'"
proof -
  define col where "col = (nm_nodeId m \<noteq> nm_label m \<and> nodeIdCollides db (nm_nodeId m) (nm_label m))"
  define m0 where "m0 = (if col then m\<lparr>nm_nodeId := nm_label m\<rparr> else m)"
  have l: "connection_label (nm_label m0)" "nm_nodeId m0 = nm_label m0 \<or> isNodeId (nm_nodeId m0)"
    using assms(3,4) by (auto simp: m0_def)
  have same: "nm_label mk = nm_label m0" if "key_measurement db m0 = (Inr mk, db1)" for mk db1
    using arg_cong[OF key_measurement_sel[OF that], of nm_label] by simp
  from assms(6) col_def m0_def show ?thesis
  proof (cases rule: applyMeasurement_cases)
    case (unkeyed w)
    then show ?thesis using measured_places[OF assms(1,2) l, of "Inl w" db'] by blast
  next
    case (dropped w mk db1 m2)
    show ?thesis by (rule measured_places[OF assms(1,2) l dropped(2)]) (use dropped(3-5) same[OF dropped(2)] in auto)
  next
    case (applied mk db1 pre m1 plan c db2 refused db3 lease)
    have p2: "places_ok db2"
    proof (rule measured_places[OF assms(1,2) l applied(1)])
      fix mk'
      assume k: "Inr mk = (Inr mk' :: node_why + node_measurement)"
        and a: "\<And>m2 r x. nm_nodeId m2 = nm_nodeId mk' \<Longrightarrow> nm_label m2 = nm_label m0 \<Longrightarrow> upsertNodeMeasurement db1 m2 = (r, x) \<Longrightarrow> places_ok x"
      show ?thesis by (rule a[OF _ _ applied(5)]) (use k same[OF applied(1)] applied(3) in simp_all)
    qed
    have p3: "places_ok db3" using write_verdict_calm[OF applied(6)] places_cong p2 by blast
    have "evolves True (\<lambda>_. True) db3 db'"
    proof (rule write_lease_stays[OF applied(7) assms(5)])
      show "isSettled to" if "sp_lease plan = LeaseRelease to d" for to d
        using that unfolding applied(4) by (rule sweepPlan_release) blast
    qed
    then show ?thesis using places_stay p3 by blast
  qed
qed

lemma measured_sel [simp]:
  "nm_label (measurementFrom parse reads conn now) = nc_label conn"
  "nm_nodeId (measurementFrom parse reads conn now) = or_word (nc_label conn) (nodeIdFrom (rd_nodeId reads))"
  by (simp_all add: measurementFrom_def Let_def split: prod.split)

lemma measured_id:
  "nm_nodeId (measurementFrom parse reads conn now) = nm_label (measurementFrom parse reads conn now) \<or>
   isNodeId (nm_nodeId (measurementFrom parse reads conn now))"
  by (auto simp: or_word_def nodeIdFrom_def split: option.split)

end
