(* ===== verification/FleetInv.thy ===== *)
theory FleetInv
  imports FleetPlaces
begin

text \<open>
  The invariant of the fleet machine: every event keeps it, whatever was sent before and in whatever order the answers come.
\<close>

section \<open>The invariant of the fleet\<close>

text \<open>Reachable, dated and recorded leases, one row per connection; no lease is dated after the last run, and a lease that
  carries the date of an operation still out there carries its target.\<close>

definition fleet_ok :: "fleet \<Rightarrow> bool" where
  "fleet_ok fl \<longleftrightarrow>
     node_reach (fl_nodes fl) \<and> dated (fl_nodes fl) \<and> recorded (fl_nodes fl) \<and> places_ok (fl_nodes fl) \<and>
     (\<forall>r \<in> set (nb_nodes (fl_nodes fl)). busy r \<longrightarrow> (\<forall>t. dw_updateStartedAt r = Some t \<longrightarrow> t \<le> fl_clock fl)) \<and>
     (\<forall>(m, l, t) \<in> set (fl_sent fl). t \<le> fl_clock fl \<and>
        (\<forall>r \<in> set (nb_nodes (fl_nodes fl)). busy r \<and> dw_updateStartedAt r = Some t \<longrightarrow> dw_updateTarget r = Some (dm_target m)))"

lemma fleet_okI:
  assumes "node_reach (fl_nodes fl)" "dated (fl_nodes fl)" "recorded (fl_nodes fl)" "places_ok (fl_nodes fl)"
    "\<And>r t. r \<in> set (nb_nodes (fl_nodes fl)) \<Longrightarrow> busy r \<Longrightarrow> dw_updateStartedAt r = Some t \<Longrightarrow> t \<le> fl_clock fl"
    "\<And>m l t. (m, l, t) \<in> set (fl_sent fl) \<Longrightarrow> t \<le> fl_clock fl"
    "\<And>m l t r. (m, l, t) \<in> set (fl_sent fl) \<Longrightarrow> r \<in> set (nb_nodes (fl_nodes fl)) \<Longrightarrow> busy r \<Longrightarrow> dw_updateStartedAt r = Some t \<Longrightarrow>
       dw_updateTarget r = Some (dm_target m)"
  shows "fleet_ok fl"
  unfolding fleet_ok_def using assms by blast

lemma fleet_okD:
  assumes "fleet_ok fl"
  shows "node_reach (fl_nodes fl)" "dated (fl_nodes fl)" "recorded (fl_nodes fl)" "places_ok (fl_nodes fl)"
    "\<And>r t. r \<in> set (nb_nodes (fl_nodes fl)) \<Longrightarrow> busy r \<Longrightarrow> dw_updateStartedAt r = Some t \<Longrightarrow> t \<le> fl_clock fl"
    "\<And>m l t. (m, l, t) \<in> set (fl_sent fl) \<Longrightarrow> t \<le> fl_clock fl"
    "\<And>m l t r. (m, l, t) \<in> set (fl_sent fl) \<Longrightarrow> r \<in> set (nb_nodes (fl_nodes fl)) \<Longrightarrow> busy r \<Longrightarrow> dw_updateStartedAt r = Some t \<Longrightarrow>
       dw_updateTarget r = Some (dm_target m)"
  using assms unfolding fleet_ok_def by blast+

text \<open>An event in which no lease is taken.\<close>

lemma fleet_ok_keeps:
  assumes "fleet_ok fl" "node_reach (fl_nodes fl')" "recorded (fl_nodes fl')" "places_ok (fl_nodes fl')"
    "evolves stay Q (fl_nodes fl) (fl_nodes fl')" "fl_clock fl \<le> fl_clock fl'" "set (fl_sent fl') \<subseteq> set (fl_sent fl)"
  shows "fleet_ok fl'"
proof (rule fleet_okI[OF assms(2) _ assms(3,4)])
  note ok = fleet_okD[OF assms(1)]
  show "dated (fl_nodes fl')" by (rule dated_evolves[OF assms(5) ok(2)])
  have from_busy: "\<exists>q. q \<in> set (nb_nodes (fl_nodes fl)) \<and> busy q \<and> dw_updateStartedAt q = dw_updateStartedAt r \<and> dw_updateTarget q = dw_updateTarget r"
    if "r \<in> set (nb_nodes (fl_nodes fl'))" "busy r" for r
    by (rule evolves_busy[OF assms(5) that]) (auto simp: lease_move_def)
  show "t \<le> fl_clock fl'" if "r \<in> set (nb_nodes (fl_nodes fl'))" "busy r" "dw_updateStartedAt r = Some t" for r t
    using from_busy[OF that(1,2)] ok(5) that(3) assms(6) by fastforce
  show "t \<le> fl_clock fl'" if "(m, l, t) \<in> set (fl_sent fl')" for m l t using ok(6)[of m l t] that assms(6,7) by fastforce
  show "dw_updateTarget r = Some (dm_target m)"
    if "(m, l, t) \<in> set (fl_sent fl')" "r \<in> set (nb_nodes (fl_nodes fl'))" "busy r" "dw_updateStartedAt r = Some t" for m l t r
    using from_busy[OF that(2,3)] ok(7)[of m l t] that(1,4) assms(7) by fastforce
qed

lemma fleet_ok_calm:
  assumes "fleet_ok fl" "calm True (fl_nodes fl) (fl_nodes fl')" "fl_clock fl \<le> fl_clock fl'" "set (fl_sent fl') \<subseteq> set (fl_sent fl)"
  shows "fleet_ok fl'"
proof -
  note ok = fleet_okD[OF assms(1)]
  note k = calm_keeps[OF assms(2) ok(1,3)]
  show ?thesis
    by (rule fleet_ok_keeps[OF assms(1) _ _ _ _ assms(3,4)]) (use k places_stay[OF _ ok(4)] in blast)+
qed

section \<open>Events\<close>

lemma stretch_tables:
  assumes "dispatch_stretch deps own now st = ((run, out), st')"
  obtains (quiet) "\<And>m l. out \<noteq> SendMove m l" "calm True (fs_nodes st) (fs_nodes st')"
  | (sent) m v db3 where "out = SendMove m (dw_label (nv_row v))" "calm True (fs_nodes st) db3"
      "dispatchNode db3 (dm_nodeId m) (dm_target m) (Some (dm_kind m)) now (moveText (dm_detail m)) = (Inr (), fs_nodes st')"
      "dp_move (planned_on (expired_db deps own now st) st) = Some m" "db3 = noted_db (expired_db deps own now st) st"
      "view_of (dispatchViewsFor (st\<lparr>fs_nodes := expired_db deps own now st\<rparr>)) (dm_nodeId m) = Some v"
proof -
  let ?db1 = "expired_db deps own now st"
  let ?db3 = "noted_db ?db1 st"
  note c = stretch_cases[OF assms]
  note calm = calm_stretch[of st deps own now]
  show thesis
  proof (cases "dp_move (planned_on ?db1 st)")
    case None
    then show thesis using c calm by (intro quiet) auto
  next
    case (Some m)
    show thesis
    proof (cases "view_of (dispatchViewsFor (st\<lparr>fs_nodes := ?db1\<rparr>)) (dm_nodeId m)")
      case None
      then show thesis using c calm Some by (intro quiet) auto
    next
      case v: (Some v)
      show thesis
      proof (cases "unsendableDetail deps v m")
        case d: (Some d)
        obtain k where k: "out = StretchDone (Some (MoveNotSent (dm_nodeId m) d))" "fs_nodes st' = snd (note_one (dm_nodeId m, d) (k, ?db3))"
          using c[unfolded Some option.case v d] by blast
        have "calm True (fs_nodes st) (fs_nodes st')" unfolding k(2) using calm_trans[OF calm] calm_note_one[of "(k, ?db3)"] by simp
        then show thesis using k(1) by (intro quiet) auto
      next
        case None
        obtain r db4 where q: "dispatchNode ?db3 (dm_nodeId m) (dm_target m) (Some (dm_kind m)) now (moveText (dm_detail m)) = (r, db4)"
          by (cases "dispatchNode ?db3 (dm_nodeId m) (dm_target m) (Some (dm_kind m)) now (moveText (dm_detail m))")
        note u = c[unfolded Some option.case v None q prod.case]
        show thesis
        proof (cases r)
          case (Inl w)
          then have "db4 = ?db3" using q by (auto simp: dispatchNode_def Let_def split: if_splits prod.splits)
          then show thesis using u Inl calm by (intro quiet) auto
        next
          case (Inr x)
          then have "out = SendMove m (dw_label (nv_row v))" "fs_nodes st' = db4" using u by (simp_all split: unit.splits)
          then show thesis using sent[OF _ calm _ Some refl v] q Inr by simp
        qed
      qed
    qed
  qed
qed

lemma runDispatch_cases:
  assumes "runDispatch parse deps report now st = (res, st')"
  obtains (off) "res = None" "st' = st"
  | (ran) own run out where "res = Some (run, out)" "dispatch_stretch deps own now st = ((run, out), st')"
  using assms by (auto simp: runDispatch_def Let_def split: if_splits prod.splits)

lemma sweep_keeps:
  assumes "node_reach db" "dated db" "recorded db" "places_ok db" "connection_label (nc_label conn)"
  shows "node_reach (snd (applyMeasurement db (measurementFrom parse reads conn now) u now (follow_of st at))) \<and>
    evolves False (\<lambda>_. True) db (snd (applyMeasurement db (measurementFrom parse reads conn now) u now (follow_of st at))) \<and>
    recorded (snd (applyMeasurement db (measurementFrom parse reads conn now) u now (follow_of st at))) \<and>
    places_ok (snd (applyMeasurement db (measurementFrom parse reads conn now) u now (follow_of st at)))"
proof -
  let ?m = "measurementFrom parse reads conn now"
  obtain out db' where a: "applyMeasurement db ?m u now (follow_of st at) = (out, db')" by fastforce
  have l: "connection_label (nm_label ?m)" using assms(5) by simp
  show ?thesis
    using apply_keeps[OF assms(1) l assms(2,3) calm_follow a] apply_places[OF assms(1,4) l measured_id calm_follow a] a by simp
qed

lemma fleet_ok_nodes:
  assumes "fleet_ok fl" "node_reach db' \<and> evolves stay Q (fl_nodes fl) db' \<and> recorded db' \<and> places_ok db'"
  shows "fleet_ok (with_nodes fl db')"
  by (rule fleet_ok_keeps[OF assms(1)]) (use assms(2) in auto)

lemma dispatch_ok:
  assumes "fleet_ok fl" "good_clock now" "fl_clock fl < now" "runDispatch parse deps report now (fl_store fl) = (res, st')"
  shows "fleet_ok (fl\<lparr>fl_store := st', fl_sent := fl_sent fl @ run_sent res now, fl_clock := now\<rparr>)"
  using assms(4)
proof (cases rule: runDispatch_cases)
  case off
  then show ?thesis using assms(1,3) by (intro fleet_ok_calm[OF assms(1)]) (auto simp: run_sent_def fl_nodes_def)
next
  case (ran own run out)
  show ?thesis
    using ran(2)
  proof (cases rule: stretch_tables)
    case quiet
    then have "run_sent res now = []" by (auto simp: ran(1) run_sent_def split: stretch.split)
    then show ?thesis using quiet(2) assms(3) by (intro fleet_ok_calm[OF assms(1)]) (auto simp: fl_nodes_def)
  next
    case (sent m v db3)
    let ?fl = "fl\<lparr>fl_store := st', fl_sent := fl_sent fl @ run_sent res now, fl_clock := now\<rparr>"
    note ok = fleet_okD[OF assms(1), unfolded fl_nodes_def]
    note k3 = calm_keeps[OF sent(2) ok(1,3)]
    have u: "keys_unique db3" using node_reach_inv k3 by (simp add: node_inv_def)
    obtain r where r: "node_at db3 (dm_nodeId m) = Some r" "live r" "\<not> busy r" "\<forall>b \<in> set (nb_nodes db3). \<not> (live b \<and> busy b)"
      "good_clock now" "isReleaseTag (dm_target m)" "Some (dm_kind m) \<noteq> None"
      "Some (dm_kind m) = Some RollbackKind \<longrightarrow> dw_requestedKind r = Some RollbackKind \<and> dw_requestedTag r = Some (dm_target m)"
      "nb_refusals (fs_nodes st') = nb_refusals db3"
      "nb_nodes (fs_nodes st') = map (\<lambda>s. if dw_nodeId s = dm_nodeId m then s\<lparr>dw_updateState := UPending, dw_updateTarget := Some (dm_target m),
         dw_updateStartedAt := Some now, dw_updateDetail := Some (moveText (dm_detail m))\<rparr> else s) (nb_nodes db3)"
      by (rule dispatchNode_acquires[OF u sent(3)])
    have dat: "(dw_updateStartedAt x = Some now \<and> dw_updateTarget x = Some (dm_target m)) \<or>
        (\<exists>q \<in> set (nb_nodes (fs_nodes (fl_store fl))). busy q \<and> dw_updateStartedAt q = dw_updateStartedAt x \<and> dw_updateTarget q = dw_updateTarget x)"
      if x: "x \<in> set (nb_nodes (fs_nodes st'))" "busy x" for x
    proof (cases "dw_nodeId x = dm_nodeId m")
      case True
      then show ?thesis using x(1) by (auto simp: r(10))
    next
      case False
      then have "x \<in> set (nb_nodes db3)" using x(1) by (auto simp: r(10) split: if_splits)
      with k3 obtain q where "q \<in> set (nb_nodes (fs_nodes (fl_store fl)))" "busy q" "lease_move (\<lambda>_. True) q x"
        using evolves_busy[OF _ _ x(2)] by metis
      then show ?thesis by (auto simp: lease_move_def)
    qed
    have date: "t \<le> now \<and> (t \<noteq> now \<longrightarrow> t \<le> fl_clock fl)" if "x \<in> set (nb_nodes (fs_nodes st'))" "busy x" "dw_updateStartedAt x = Some t" for x t
      using dat[OF that(1,2)] that(3) ok(5) assms(3) by fastforce
    have s: "run_sent res now = [(m, dw_label (nv_row v), now)]" by (simp add: ran(1) sent(1) run_sent_def)
    have sel: "fl_nodes ?fl = fs_nodes st'" "fl_sent ?fl = fl_sent fl @ run_sent res now" "fl_clock ?fl = now"
      by (simp_all add: fl_nodes_def)
    have new: "(m', l, t) \<in> set (fl_sent fl) \<or> m' = m \<and> t = now" if "(m', l, t) \<in> set (fl_sent fl @ run_sent res now)" for m' l t
      using that by (auto simp: s)
    show ?thesis
    proof (rule fleet_okI; unfold sel)
      show "node_reach (fs_nodes st')" using node_reach.step[OF _ node_step.dispatched] k3 sent(3) by (metis snd_conv)
      show "dated (fs_nodes st')" using acquire_keeps(1)[OF u sent(3)] dated_evolves k3 ok(2) by blast
      show "recorded (fs_nodes st')" using acquire_keeps(2)[OF u sent(3)] k3 by blast
      show "places_ok (fs_nodes st')" using places_acquire[OF u sent(3)] places_stay k3 ok(4) by blast
    next
      fix x t
      assume "x \<in> set (nb_nodes (fs_nodes st'))" "busy x" "dw_updateStartedAt x = Some t"
      then show "t \<le> now" using date by blast
    next
      fix m' l t
      assume "(m', l, t) \<in> set (fl_sent fl @ run_sent res now)"
      then show "t \<le> now" using new ok(6) assms(3) by fastforce
    next
      fix m' l t x
      assume t: "(m', l, t) \<in> set (fl_sent fl @ run_sent res now)"
        and x: "x \<in> set (nb_nodes (fs_nodes st'))" "busy x" "dw_updateStartedAt x = Some t"
      show "dw_updateTarget x = Some (dm_target m')"
      proof (cases "t = now")
        case True
        then have "m' = m" using new[OF t] ok(6)[of m' l t] assms(3) by auto
        moreover have "dw_updateTarget x = Some (dm_target m)" using dat[OF x(1,2)] x(3) True ok(5) assms(3) by fastforce
        ultimately show ?thesis by simp
      next
        case False
        then have "(m', l, t) \<in> set (fl_sent fl)" using new[OF t] by auto
        then show ?thesis using dat[OF x(1,2)] x(3) False ok(7) by fastforce
      qed
    qed
  qed
qed

lemma connection_labels [simp]: "connection_label SERVER_LABEL" "connection_label FLEET_LABEL"
  by (simp_all add: connection_label_def)

lemma snd_unreachable: "snd (unreachable db now) = snd (markUnreachable db FLEET_LABEL RFleet now)"
  by (simp add: unreachable_def split: prod.split sum.split)

text \<open>What a sweep of either connection does.\<close>

lemma sweep_event_keeps:
  assumes "fleet_ok fl" "is_sweep e" "fl' = fleet_do parse e fl"
  shows "node_reach (fl_nodes fl') \<and> evolves False (\<lambda>_. True) (fl_nodes fl) (fl_nodes fl') \<and> recorded (fl_nodes fl') \<and>
    places_ok (fl_nodes fl') \<and> fl_sent fl' = fl_sent fl \<and> fl_clock fl' = fl_clock fl"
proof -
  note ok = fleet_okD[OF assms(1), unfolded fl_nodes_def]
  show ?thesis
  proof (cases e)
    case (OwnSweep role reads now)
    then show ?thesis
      using sweep_keeps[OF ok(1-4)] assms(3) by (simp add: fleet_do_def Let_def sweepOwn_def fl_nodes_def)
  next
    case (FleetSweep up1 up2 ops reads now)
    let ?db = "fs_nodes (fl_store fl)"
    have c: "calm False ?db (snd (markUnreachable ?db FLEET_LABEL RFleet now))" by (rule calm_ops)
    have "node_reach (snd (unreachable ?db now)) \<and> evolves False (\<lambda>_. True) ?db (snd (unreachable ?db now)) \<and>
        recorded (snd (unreachable ?db now)) \<and> places_ok (snd (unreachable ?db now))"
      unfolding snd_unreachable using calm_keeps[OF c ok(1,3)] places_unreachable[OF ok(4)] by simp
    then show ?thesis
      using sweep_keeps[OF ok(1-4)] assms(3) FleetSweep by (simp add: fleet_do_def Let_def sweepFleet_def fl_nodes_def)
  qed (use assms(2) in \<open>simp_all add: is_sweep_def\<close>)
qed

text \<open>What an event does that neither sweeps, acknowledges nor takes a lease.\<close>

lemma drop_at_subset: "set (drop_at i xs) \<subseteq> set xs"
  by (auto simp: drop_at_def dest: in_set_takeD in_set_dropD)

lemma still_event_calm:
  assumes "fl' = fleet_do parse e fl" "\<not> is_sweep e" "\<And>i. e \<noteq> NodeAcked i" "\<And>d r n. e \<noteq> DispatchRun d r n"
  shows "calm True (fl_nodes fl) (fl_nodes fl') \<and> set (fl_sent fl') \<subseteq> set (fl_sent fl) \<and> fl_clock fl' = fl_clock fl"
proof (cases e)
  case (OpAnswered i a advertised)
  obtain m l t where s: "fl_sent fl ! i = (m, l, t)" by (metis prod_cases3)
  show ?thesis
    using assms(1) calm_answer drop_at_subset[of i "fl_sent fl"]
    by (simp add: OpAnswered fleet_do_def Let_def s fl_nodes_def)
next
  case (ResolveRun role now)
  then show ?thesis using assms(1) calm_resolve[of "fl_store fl"] by (simp add: fleet_do_def Let_def fl_nodes_def)
next
  case (MoveRequested i tag kind at)
  then show ?thesis using assms(1) calm_ops(4) by (simp add: fleet_do_def Let_def fl_nodes_def)
next
  case (ListingPolled listing now coverage keep withdraw)
  then show ?thesis using assms(1) by (simp add: fleet_do_def Let_def fl_nodes_def)
next
  case (IntentPatched scope p now readable outcome committed)
  then show ?thesis using assms(1) by (simp add: fleet_do_def Let_def fl_nodes_def split: prod.splits)
qed (use assms(2-4) in \<open>simp_all add: is_sweep_def\<close>)

lemma ack_busy:
  "r \<in> set (nb_nodes (snd (ackNode db i))) \<Longrightarrow> busy r \<Longrightarrow> r \<in> set (nb_nodes db)"
proof -
  let ?p = "\<lambda>r. dw_nodeId r = i \<and> live r \<and> isSettled (dw_updateState r)"
  obtain rows n where u: "sql_update ?p (settle_row False ACK_DETAIL) (nb_nodes db) = (rows, n)" by fastforce
  assume "r \<in> set (nb_nodes (snd (ackNode db i)))" "busy r"
  then show ?thesis unfolding ackNode_def u by (auto simp: Let_def sql_updateD(1)[OF u] busy_def split: if_splits)
qed

lemma ack_other:
  "r \<in> set (nb_nodes db) \<Longrightarrow> dw_nodeId r \<noteq> i \<Longrightarrow> r \<in> set (nb_nodes (snd (ackNode db i)))"
proof -
  let ?p = "\<lambda>r. dw_nodeId r = i \<and> live r \<and> isSettled (dw_updateState r)"
  obtain rows n where u: "sql_update ?p (settle_row False ACK_DETAIL) (nb_nodes db) = (rows, n)" by fastforce
  assume "r \<in> set (nb_nodes db)" "dw_nodeId r \<noteq> i"
  then show ?thesis unfolding ackNode_def u by (force simp: Let_def sql_updateD(1)[OF u])
qed

lemma fleet_step_ok:
  assumes "fleet_ok fl" "timely e fl"
  shows "fleet_ok (fleet_do parse e fl)"
proof (cases "is_sweep e")
  case True
  show ?thesis by (rule fleet_ok_keeps[OF assms(1)]) (use sweep_event_keeps[OF assms(1) True refl, of parse] in auto)
next
  case ns: False
  show ?thesis
  proof (cases e)
    case (DispatchRun deps report now)
    obtain res st' where r: "runDispatch parse deps report now (fl_store fl) = (res, st')" by fastforce
    show ?thesis
      using dispatch_ok[OF assms(1) _ _ r] assms(2) by (simp add: DispatchRun fleet_do_def Let_def r timely_def)
  next
    case (NodeAcked i)
    let ?db = "fl_nodes fl" and ?fl = "with_nodes fl (snd (ackNode (fl_nodes fl) i))"
    note ok = fleet_okD[OF assms(1)]
    have u: "keys_unique ?db" using node_reach_inv[OF ok(1)] by (simp add: node_inv_def)
    have "fleet_ok ?fl"
    proof (rule fleet_okI; unfold with_nodes_sel)
      show "node_reach (snd (ackNode ?db i))" by (rule node_reach.step[OF ok(1) node_step.acked])
      show "dated (snd (ackNode ?db i))" "recorded (snd (ackNode ?db i))" "places_ok (snd (ackNode ?db i))"
        using ack_keeps[of ?db i] u ok places_ack by blast+
    qed (use ack_busy ok in blast)+
    then show ?thesis by (simp add: NodeAcked fleet_do_def Let_def fl_nodes_def)
  qed (rule fleet_ok_calm[OF assms(1)]; use still_event_calm[OF refl ns, where parse = parse and fl = fl] in simp)+
qed

lemma fleet_reach_ok: "fleet_reach parse fl \<Longrightarrow> fleet_ok fl"
proof (induction rule: fleet_reach.induct)
  case start
  show ?case
    by (rule fleet_okI) (simp_all add: new_fleet_def fl_nodes_def node_reach.start, simp_all add: empty_nodes_def dated_def recorded_def places_ok_def)
qed (rule fleet_step_ok)

end
