(* ===== verification/FleetDemo.thy ===== *)
theory FleetDemo
  imports FleetInv
begin

text \<open>
  One fleet, for the witnesses: a fleet box on v0.0.1, first swept before it has a node id, is asked for the listed v0.0.2 and
  sent there; a second sweep finds its node id, so its row changes key while the operation is out.
\<close>

definition demo_parse :: "string \<Rightarrow> json option" where
  "demo_parse text =
     (if text = ''stamp'' then Some (JObj [(''sha'', JStr ''a''), (''ref'', JStr ''main''), (''builtAt'', JStr ''now''), (''dirty'', JBool False),
        (''version'', JStr ''v0.0.1'')])
      else if text = ''bad'' then Some (JObj [(''phase'', JStr ''failed''), (''target'', JStr ''v0.0.2''), (''startedAt'', JNum (Some 1)),
        (''updatedAt'', JNum (Some 2)), (''detail'', JStr (PROVENANCE_DETAIL_PREFIX @ ''no bundle''))])
      else None)"

definition demo_reads :: "node_file_read \<Rightarrow> node_file_read \<Rightarrow> node_file_reads" where
  "demo_reads nid report =
     \<lparr>rd_stamp = FileOk ''stamp'', rd_installed = FileOk ''a'', rd_caps = FileOk (''os linux'' @ [CHR 0x0A] @ ''detach''),
      rd_floor = FileAbsent, rd_previous = FileAbsent, rd_nodeId = nid, rd_report = report\<rparr>"

definition demo_sweep :: "node_file_read \<Rightarrow> node_file_read \<Rightarrow> fleet_event" where
  "demo_sweep nid report = FleetSweep True True (Some [''update'']) (demo_reads nid report) 1"

definition demo_swept :: node_measurement where
  "demo_swept = (demo_measurement FLEET_LABEL)\<lparr>nm_installState := InstallUnknown, nm_provenance := ProvenanceUnknown, nm_measuredAt := 1\<rparr>"

definition demo_conn :: node_connection where
  "demo_conn = \<lparr>nc_label = FLEET_LABEL, nc_role = RFleet, nc_agentOps = Some [''update'']\<rparr>"

lemma demo_swept: "measurementFrom demo_parse (demo_reads FileAbsent FileAbsent) demo_conn 1 = demo_swept"
  by code_simp

text \<open>Its tables after the sweep, the request and the dispatch, by the operations that made them.\<close>

definition demo_nodes1 :: node_db where "demo_nodes1 = snd (upsertNodeMeasurement empty_nodes demo_swept)"

definition demo_nodes2 :: node_db where "demo_nodes2 = snd (requestNode demo_nodes1 FLEET_LABEL ''v0.0.2'' (Some UpdateKind) 3)"

definition demo_sent_nodes :: node_db where
  "demo_sent_nodes = snd (dispatchNode demo_nodes2 FLEET_LABEL ''v0.0.2'' (Some UpdateKind) 5 ''requested update from v0.0.1 to v0.0.2'')"

definition demo_listed :: listing_row where
  "demo_listed = \<lparr>li_tag = ''v0.0.2'', li_channel = Some Stable, li_publishedAt = Some 1, li_commitSha = None, li_tarballUrl = None,
     li_bundleListed = True, li_notes = None, li_draft = False\<rparr>"

definition demo_base :: fleet_store where
  "demo_base = \<lparr>fs_nodes = demo_nodes2, fs_releases = [listed_row 1 demo_listed], fs_intents = seeded_intents\<rparr>"

definition demo_move :: dispatch_move where
  "demo_move = \<lparr>dm_nodeId = FLEET_LABEL, dm_kind = UpdateKind, dm_target = ''v0.0.2'', dm_source = RequestSource, dm_viaLink = True,
     dm_detail = FromWords RequestSource UpdateKind (Versioned ''v0.0.1'') ''v0.0.2''\<rparr>"

definition demo_asked :: fleet where
  "demo_asked = fold (fleet_do demo_parse)
     [demo_sweep FileAbsent FileAbsent, ListingPolled [demo_listed] 1 CompleteListing [] None,
      MoveRequested FLEET_LABEL ''v0.0.2'' UpdateKind 3] new_fleet"

definition demo_dispatched :: fleet where
  "demo_dispatched = fleet_do demo_parse (DispatchRun demo_deps FileAbsent 5) demo_asked"

definition demo_rekeyed :: fleet where
  "demo_rekeyed = fleet_do demo_parse (demo_sweep (FileOk demo_id) FileAbsent) demo_dispatched"

definition demo_failed :: fleet where
  "demo_failed = fleet_do demo_parse (OpAnswered 0 (op_reply.Refused ''spawn-failed'' None) True) demo_dispatched"

definition demo_refused :: fleet where
  "demo_refused = fleet_do demo_parse (demo_sweep FileAbsent (FileOk ''bad'')) demo_dispatched"

lemma demo_sweep_do:
  "fleet_do demo_parse (demo_sweep nid report) fl =
     with_nodes fl (snd (applyMeasurement (fl_nodes fl) (measurementFrom demo_parse (demo_reads nid report) demo_conn 1)
       (reportUnmeasured report) 1 (follow_of (fl_store fl) 1)))"
  by (simp add: fleet_do_def Let_def demo_sweep_def sweepFleet_def demo_conn_def demo_reads_def fl_nodes_def)

lemma demo_asked: "demo_asked = new_fleet\<lparr>fl_store := demo_base\<rparr>"
proof -
  have a: "snd (applyMeasurement empty_nodes demo_swept (reportUnmeasured FileAbsent) 1 follow) = demo_nodes1" for follow by code_simp
  have b: "snd (applyReleaseListing [] [demo_listed] 1 CompleteListing [] None) = [listed_row 1 demo_listed]" by code_simp
  show ?thesis
    by (simp add: demo_asked_def demo_sweep_do demo_swept, simp add: new_fleet_def fl_nodes_def a with_nodes_def fleet_do_def Let_def b
        demo_base_def demo_nodes2_def)
qed

lemma demo_dispatched:
  "demo_dispatched = new_fleet\<lparr>fl_store := demo_base\<lparr>fs_nodes := demo_sent_nodes\<rparr>, fl_sent := [(demo_move, FLEET_LABEL, 5)], fl_clock := 5\<rparr>"
proof -
  have "(case runDispatch demo_parse demo_deps FileAbsent 5 demo_base of
      (res, st') \<Rightarrow> run_sent res 5 = [(demo_move, FLEET_LABEL, 5)] \<and> st' = demo_base\<lparr>fs_nodes := demo_sent_nodes\<rparr>)" by code_simp
  then show ?thesis by (simp add: demo_dispatched_def demo_asked fleet_do_def Let_def new_fleet_def split: prod.splits)
qed

lemma demo_fleet_reach:
  "fleet_reach demo_parse demo_dispatched" "fleet_reach demo_parse demo_rekeyed" "fleet_reach demo_parse demo_failed"
  "fleet_reach demo_parse demo_refused"
proof -
  have asked: "fleet_reach demo_parse demo_asked"
    by (simp add: demo_asked_def) (intro fleet_reach.intros; simp add: timely_def demo_sweep_def)
  have t: "timely (DispatchRun demo_deps FileAbsent 5) demo_asked"
    by (simp add: timely_def demo_asked new_fleet_def good_clock_def MAX_SAFE_INTEGER_def)
  show d: "fleet_reach demo_parse demo_dispatched" unfolding demo_dispatched_def by (rule fleet_reach.step[OF asked t])
  show "fleet_reach demo_parse demo_rekeyed" "fleet_reach demo_parse demo_failed" "fleet_reach demo_parse demo_refused"
    unfolding demo_rekeyed_def demo_failed_def demo_refused_def
    by (rule fleet_reach.step[OF d]; simp add: timely_def demo_sweep_def)+
qed

text \<open>The rows the witnesses are about.\<close>

lemma demo_lease:
  "list_ex (\<lambda>r. dw_label r = FLEET_LABEL \<and> live r \<and> busy r \<and> dw_updateStartedAt r = Some 5 \<and> 
     deadlineExpired (dispatch_row.truncate r) 100000 (cd_deadlineMs demo_deps)) (nb_nodes (fl_nodes demo_dispatched))"
proof -
  have "list_ex (\<lambda>r. dw_label r = FLEET_LABEL \<and> live r \<and> busy r \<and> dw_updateStartedAt r = Some 5 \<and> 
     deadlineExpired (dispatch_row.truncate r) 100000 (cd_deadlineMs demo_deps)) (nb_nodes demo_sent_nodes)" by code_simp
  then show ?thesis by (simp add: demo_dispatched fl_nodes_def)
qed

lemma demo_rekeyed_lease:
  "list_ex (\<lambda>r. dw_nodeId r = demo_id \<and> dw_label r = FLEET_LABEL \<and> live r \<and> busy r \<and> dw_updateStartedAt r = Some 5)
     (nb_nodes (fl_nodes demo_rekeyed))"
proof -
  have "list_ex (\<lambda>r. dw_nodeId r = demo_id \<and> dw_label r = FLEET_LABEL \<and> live r \<and> busy r \<and> dw_updateStartedAt r = Some 5)
     (nb_nodes (snd (applyMeasurement demo_sent_nodes (measurementFrom demo_parse (demo_reads (FileOk demo_id) FileAbsent) demo_conn 1)
       (reportUnmeasured FileAbsent) 1 follow)))" for follow by code_simp
  then show ?thesis by (simp add: demo_rekeyed_def demo_sweep_do) (simp add: demo_dispatched fl_nodes_def)
qed

lemma demo_failed_row:
  "list_ex (\<lambda>r. live r \<and> isHaltingUpdate (dw_updateState r) (dw_updateDetail r)) (nb_nodes (fl_nodes demo_failed))"
proof -
  have "list_ex (\<lambda>r. live r \<and> isHaltingUpdate (dw_updateState r) (dw_updateDetail r))
     (nb_nodes (snd (snd (answer_stretch demo_move FLEET_LABEL 5 (op_reply.Refused ''spawn-failed'' None) True demo_sent_nodes))))" by code_simp
  then show ?thesis by (simp add: demo_failed_def fleet_do_def Let_def demo_dispatched)
qed

lemma demo_refused_row:
  "list_ex (\<lambda>r. dw_updateState r = UFailed \<and> \<not> isHaltingUpdate UFailed (dw_updateDetail r)) (nb_nodes (fl_nodes demo_refused))"
proof -
  have "list_ex (\<lambda>r. dw_updateState r = UFailed \<and> \<not> isHaltingUpdate UFailed (dw_updateDetail r))
     (nb_nodes (snd (applyMeasurement demo_sent_nodes (measurementFrom demo_parse (demo_reads FileAbsent (FileOk ''bad'')) demo_conn 1)
       (reportUnmeasured (FileOk ''bad'')) 1 follow)))" for follow by code_simp
  then show ?thesis by (simp add: demo_refused_def demo_sweep_do) (simp add: demo_dispatched fl_nodes_def)
qed

end
