(* ===== verification/FleetSafety.thy ===== *)
theory FleetSafety
  imports FleetDemo UpdateFlow
begin

text \<open>
  What the fleet machine promises: an answer ends its own lease only, a lease ends at its deadline, a halt stands until it is
  acknowledged, a failure is never lost, and a connection has one row.
\<close>

section \<open>Rows\<close>

lemma one_busy:
  assumes "node_inv db" "r \<in> set (nb_nodes db)" "live r" "busy r" "s \<in> set (nb_nodes db)" "live s" "busy s"
  shows "s = r"
proof -
  have "dw_nodeId r \<in> holders db" "dw_nodeId s \<in> holders db" unfolding holders_rows using assms by blast+
  then have "dw_nodeId s = dw_nodeId r" using assms(1) by (simp add: node_inv_def one_lease_def)
  then show ?thesis using assms(1,2,5) by (auto simp: node_inv_def keys_unique_def distinct_map inj_on_def)
qed

lemma same_key:
  assumes "node_inv db" "r \<in> set (nb_nodes db)" "s \<in> set (nb_nodes db)" "dw_nodeId s = dw_nodeId r"
  shows "s = r"
  using assms by (auto simp: node_inv_def keys_unique_def distinct_map inj_on_def)

section \<open>The answer of an operation\<close>

text \<open>What an answer writes into the row it reaches.\<close>

definition answered_row :: "op_reply \<Rightarrow> bool \<Rightarrow> node_row \<Rightarrow> node_row" where
  "answered_row a advertised r =
     (case classifyOpReply a advertised of
        (HoldLease, d) \<Rightarrow> if has_words a then r\<lparr>dw_updateDetail := Some d\<rparr> else r
      | (ReleaseFailed, d) \<Rightarrow> r\<lparr>dw_updateState := UFailed, dw_updateDetail := Some d\<rparr>
      | (ReleaseIdle, d) \<Rightarrow> r\<lparr>dw_updateState := UIdle, dw_updateDetail := Some d\<rparr>)"

lemma answer_holder_at:
  assumes "node_inv db" "r \<in> set (nb_nodes db)" "live r" "busy r" "dw_label r = label" "dw_updateStartedAt r = Some t"
  shows "answer_holder db m label t = dw_nodeId r"
proof -
  let ?q = "\<lambda>s. dw_label s = label \<and> dw_updateStartedAt s = Some t \<and> \<not> isSettled (dw_updateState s)"
  have r: "r \<in> set (nodes db)" using assms(2,3) by (simp add: nodes_set)
  have "distinct (nodes db)" using assms(1) by (simp add: nodes_def node_inv_def keys_unique_def distinct_map)
  moreover have "filter ?q (nodes db) = filter (\<lambda>s. s = r) (nodes db)"
  proof (rule filter_cong[OF refl])
    fix s
    assume "s \<in> set (nodes db)"
    then have s: "s \<in> set (nb_nodes db)" "live s" by (simp_all add: nodes_set)
    show "?q s = (s = r)"
    proof
      assume "?q s"
      then show "s = r" using one_busy[OF assms(1-4) s] by (simp add: busy_def)
    qed (use assms(4-6) in \<open>simp add: busy_def\<close>)
  qed
  ultimately have "filter ?q (nodes db) = [r]" using filter_key_single[of "\<lambda>s. s" "nodes db" r r] r by simp
  then have "filter ?q (map dispatch_row.truncate (nodes db)) = [dispatch_row.truncate r]" by (simp add: filter_map comp_def)
  then show ?thesis by (simp add: answer_holder_def leaseHolder_def)
qed

text \<open>The update behind every answer: the live busy row of that key and date, or nothing.\<close>

lemma keyed_update:
  assumes inv: "node_inv db" and u: "sql_update p f (nb_nodes db) = (rows, n)"
    and p: "\<And>r. r \<in> set (nb_nodes db) \<Longrightarrow> p r \<longleftrightarrow> dw_nodeId r = h \<and> q r"
  shows "(\<exists>r \<in> set (nb_nodes db). dw_nodeId r = h \<and> q r \<and> rows = map (\<lambda>x. if x = r then f r else x) (nb_nodes db)) \<or>
    rows = nb_nodes db \<and> n = 0 \<and> (\<forall>r \<in> set (nb_nodes db). \<not> (dw_nodeId r = h \<and> q r))"
proof (cases "\<exists>r \<in> set (nb_nodes db). dw_nodeId r = h \<and> q r")
  case True
  then obtain r where r: "r \<in> set (nb_nodes db)" "dw_nodeId r = h" "q r" by blast
  have "rows = map (\<lambda>x. if x = r then f r else x) (nb_nodes db)"
    unfolding sql_updateD(1)[OF u]
  proof (rule map_cong[OF refl])
    show "(if p x then f x else x) = (if x = r then f r else x)" if x: "x \<in> set (nb_nodes db)" for x
    proof (cases "x = r")
      case False
      then have "dw_nodeId x \<noteq> h" using same_key[OF inv r(1) x] r(2) by auto
      then show ?thesis using False p[OF x] by simp
    qed (use p[OF r(1)] r(2,3) in simp)
  qed
  then show ?thesis using r by blast
next
  case False
  then have "n = 0" using p sql_updateD(2)[OF u] by (auto simp: filter_empty_conv)
  then show ?thesis using False sql_updateD(3)[OF u] by blast
qed

lemma answer_writes:
  assumes inv: "node_inv db" and dated: "dated db" and h: "answer_holder db m label t = h"
    and s: "answer_stretch m label t a advertised db = (out, feed, db')"
  shows "nb_refusals db' = nb_refusals db \<and>
    ((\<exists>r \<in> set (nb_nodes db). dw_nodeId r = h \<and> live r \<and> busy r \<and> dw_updateStartedAt r = Some t \<and>
        nb_nodes db' = map (\<lambda>x. if x = r then answered_row a advertised r else x) (nb_nodes db)) \<or>
     nb_nodes db' = nb_nodes db \<and>
       (\<forall>r \<in> set (nb_nodes db). \<not> (dw_nodeId r = h \<and> live r \<and> busy r \<and> dw_updateStartedAt r = Some t)))"
proof -
  obtain action d where c: "classifyOpReply a advertised = (action, d)" by fastforce
  let ?q = "\<lambda>r. live r \<and> busy r \<and> dw_updateStartedAt r = Some t"
  note u = s[unfolded answer_stretch_def Let_def c prod.case h]
  show ?thesis
  proof (cases "action = HoldLease")
    case True
    let ?f = "\<lambda>r :: node_row. r\<lparr>dw_updateDetail := Some d\<rparr>"
    obtain rows n where w: "sql_update (\<lambda>r. dw_nodeId r = h \<and> live r \<and> busy r \<and> dw_updateStartedAt r = Some t) ?f (nb_nodes db) = (rows, n)" by fastforce
    have ar: "answered_row a advertised r = (if has_words a then ?f r else r)" for r by (simp add: answered_row_def c True)
    note k = keyed_update[OF inv w, of h ?q]
    show ?thesis
    proof (cases "has_words a")
      case False
      then have "db' = db" using u True by simp
      moreover have "map (\<lambda>x. if x = r then answered_row a advertised r else x) (nb_nodes db) = nb_nodes db" for r
        using False by (intro map_idI) (simp add: ar)
      ultimately show ?thesis by auto
    next
      case words: True
      have "db' = snd (noteLeaseDetail db h d t)" using u True words by simp
      also have "\<dots> = (if n > 0 then db\<lparr>nb_nodes := rows\<rparr> else db)" unfolding noteLeaseDetail_def w by (simp add: Let_def)
      finally have db': "nb_refusals db' = nb_refusals db" "nb_nodes db' = rows" using sql_updateD(3)[OF w] by auto
      show ?thesis unfolding db' ar eqTrueI[OF words] if_True using k by blast
    qed
  next
    case False
    let ?f = "\<lambda>r :: node_row. r\<lparr>dw_updateState := (if action = ReleaseFailed then UFailed else UIdle), dw_updateDetail := Some d\<rparr>"
    obtain rows n where w: "sql_update (\<lambda>r. dw_nodeId r = h \<and> live r \<and> busy r \<and> lease_is (Some t) r) ?f (nb_nodes db) = (rows, n)" by fastforce
    have ar: "answered_row a advertised r = ?f r" for r
      using False by (cases action) (auto simp: answered_row_def c)
    have "db' = snd (releaseLease db h (if action = ReleaseFailed then UFailed else UIdle) d (Some t))"
      using u False by (auto split: prod.splits sum.splits)
    also have "\<dots> = (if n > 0 then db\<lparr>nb_nodes := rows\<rparr> else db)" unfolding releaseLease_def w by (simp add: Let_def)
    finally have db': "nb_refusals db' = nb_refusals db" "nb_nodes db' = rows" using sql_updateD(3)[OF w] by auto
    have q: "(dw_nodeId r = h \<and> live r \<and> busy r \<and> lease_is (Some t) r) = (dw_nodeId r = h \<and> ?q r)" if "r \<in> set (nb_nodes db)" for r
      using that dated by (auto simp: lease_is_def dated_def)
    show ?thesis unfolding db' ar using keyed_update[OF inv w q] by blast
  qed
qed

text \<open>C6: an answer ends its own lease. Whatever happened since the operation was sent - sweeps that moved its row to
  another key, the lease expired or settled, another move dispatched, answers in any order - an answer that arrives
  changes no verdict and at most one row: the live row that holds the lease of that very date, whose target is the target of the
  operation, and only its state and words. If the connection still holds that lease the answer reaches it.\<close>

theorem answer_ends_own_lease:
  fixes a :: op_reply and advertised :: bool
  assumes "fleet_reach parse fl" "i < length (fl_sent fl)" "fl_sent fl ! i = (m, label, t)"
  defines "rows \<equiv> nb_nodes (fl_nodes fl)"
  defines "after \<equiv> fleet_do parse (OpAnswered i a advertised) fl"
  shows "nb_refusals (fl_nodes after) = nb_refusals (fl_nodes fl) \<and> fl_sent after = drop_at i (fl_sent fl) \<and>
    ((\<exists>r \<in> set rows. live r \<and> busy r \<and> dw_updateStartedAt r = Some t \<and> dw_updateTarget r = Some (dm_target m) \<and>
        nb_nodes (fl_nodes after) = map (\<lambda>x. if x = r then answered_row a advertised r else x) rows) \<or>
     nb_nodes (fl_nodes after) = rows \<and>
       (\<forall>r \<in> set rows. \<not> (dw_label r = label \<and> live r \<and> busy r \<and> dw_updateStartedAt r = Some t)))"
proof -
  note ok = fleet_okD[OF fleet_reach_ok[OF assms(1)]]
  note inv = node_reach_inv[OF ok(1)]
  let ?db = "fl_nodes fl"
  obtain out feed db' where s: "answer_stretch m label t a advertised ?db = (out, feed, db')" by (metis prod_cases3)
  have after: "fl_nodes after = db'" "fl_sent after = drop_at i (fl_sent fl)"
    using assms(2,3) s by (simp_all add: after_def fleet_do_def Let_def fl_nodes_def)
  have sent: "(m, label, t) \<in> set (fl_sent fl)" using assms(2,3) nth_mem by metis
  note w = answer_writes[OF inv ok(2) refl s]
  have "dw_updateTarget r = Some (dm_target m)" if "r \<in> set (nb_nodes ?db)" "busy r" "dw_updateStartedAt r = Some t" for r
    by (rule ok(7)[OF sent that])
  moreover have "dw_nodeId r = answer_holder ?db m label t"
    if "r \<in> set (nb_nodes ?db)" "dw_label r = label" "live r" "busy r" "dw_updateStartedAt r = Some t" for r
    using answer_holder_at[OF inv that(1,3,4,2,5)] by simp
  ultimately show ?thesis using w unfolding after rows_def by blast
qed

text \<open>Its row changed key while the operation was out.\<close>

theorem answer_ends_own_lease_witness:
  "\<exists>r \<in> set (nb_nodes (fl_nodes demo_rekeyed)). dw_updateTarget r = Some ''v0.0.2'' \<and>
     nb_nodes (fl_nodes (fleet_do demo_parse (OpAnswered 0 (op_reply.Refused ''spawn-failed'' None) True) demo_rekeyed)) =
       map (\<lambda>x. if x = r then answered_row (op_reply.Refused ''spawn-failed'' None) True r else x) (nb_nodes (fl_nodes demo_rekeyed))"
proof -
  have i: "0 < length (fl_sent demo_rekeyed)" "fl_sent demo_rekeyed ! 0 = (demo_move, FLEET_LABEL, 5)"
    by (simp_all add: demo_rekeyed_def demo_sweep_do demo_dispatched)
  have t: "dm_target demo_move = ''v0.0.2''" by (simp add: demo_move_def)
  show ?thesis
    using answer_ends_own_lease[OF demo_fleet_reach(2) i, of "op_reply.Refused ''spawn-failed'' None" True] demo_rekeyed_lease
    unfolding t list_ex_iff by blast
qed

section \<open>Halts and failures\<close>

text \<open>A dispatch run over a halted fleet sends nothing.\<close>

lemma halted_run:
  assumes "fleet_ok fl" "r \<in> set (nb_nodes (fl_nodes fl))" "live r" "halts r"
    "runDispatch parse deps report now (fl_store fl) = (res, st')"
  shows "run_sent res now = [] \<and> evolves True not_verdict (fl_nodes fl) (fs_nodes st')"
  using assms(5)
proof (cases rule: runDispatch_cases)
  case off
  then show ?thesis by (simp add: run_sent_def fl_nodes_def)
next
  case (ran own run out)
  note ok = fleet_okD[OF assms(1)]
  show ?thesis
    using ran(2)
  proof (cases rule: stretch_tables)
    case quiet
    then show ?thesis by (auto simp: ran(1) run_sent_def calm_def fl_nodes_def split: stretch.split)
  next
    case (sent m v db3)
    let ?db1 = "expired_db deps own now (fl_store fl)"
    have u1: "keys_unique ?db1"
      using node_reach_inv[OF expired_db_keeps(2)] ok(1) by (simp add: node_inv_def fl_nodes_def)
    have none: "\<forall>s \<in> set (nodes ?db1). \<not> isHaltingUpdate (dw_updateState s) (dw_updateDetail s)"
      by (rule planned_row[OF u1 _ planned_on_def sent(4)]) simp_all
    have ev: "evolves True not_verdict (fl_nodes fl) ?db1" using calm_expired by (simp add: calm_def fl_nodes_def)
    obtain r1 where "r1 \<in> set (nb_nodes ?db1)" "halts r1" "same_place r r1"
      using evolves_halts[OF ev assms(2,4)] by blast
    then have False using none assms(3) by (auto simp: nodes_set same_place_def live_def halts_def)
    then show ?thesis ..
  qed
qed



section \<open>The deadline\<close>

lemma expire_node_at:
  "node_at (snd (expire_one own now d s acc)) i =
     (if i = dw_nodeId s \<and> deadlineExpired (dispatch_row.truncate s) now d
      then map_option (\<lambda>r. if live r \<and> busy r then r\<lparr>dw_updateState := UFailed, dw_updateDetail := Some (expiry_detail own s)\<rparr> else r)
             (node_at (snd acc) i)
      else node_at (snd acc) i)"
proof (cases "deadlineExpired (dispatch_row.truncate s) now d")
  case False
  then show ?thesis by (simp add: expire_one_def)
next
  case True
  let ?p = "\<lambda>r. dw_nodeId r = dw_nodeId s \<and> live r \<and> busy r \<and> lease_is None r"
  let ?f = "\<lambda>r :: node_row. r\<lparr>dw_updateState := UFailed, dw_updateDetail := Some (expiry_detail own s)\<rparr>"
  obtain rows n where u: "sql_update ?p ?f (nb_nodes (snd acc)) = (rows, n)" by fastforce
  have "snd (expire_one own now d s acc) = snd (releaseLease (snd acc) (dw_nodeId s) UFailed (expiry_detail own s) None)"
    using True by (auto simp: expire_one_def split: prod.split sum.split)
  also have "\<dots> = (if n > 0 then (snd acc)\<lparr>nb_nodes := rows\<rparr> else snd acc)" unfolding releaseLease_def u by (simp add: Let_def)
  also have "\<dots> = (snd acc)\<lparr>nb_nodes := rows\<rparr>" using sql_updateD(3)[OF u] by auto
  finally have "node_at (snd (expire_one own now d s acc)) i = map_option (\<lambda>r. if ?p r then ?f r else r) (node_at (snd acc) i)"
    using node_at_update[OF u, of i] by simp
  then show ?thesis using node_at_in[of "snd acc" i] True by (cases "node_at (snd acc) i") (auto simp: lease_is_def)
qed

lemma expire_others:
  "i \<notin> dw_nodeId ` set rs \<Longrightarrow> node_at (snd (fold (expire_one own now d) rs acc)) i = node_at (snd acc) i"
  by (induction rs arbitrary: acc) (auto simp: expire_node_at)

lemma expired_row:
  assumes "keys_unique (fs_nodes st)" "r \<in> set (nodes (fs_nodes st))" "busy r"
    "deadlineExpired (dispatch_row.truncate r) now (cd_deadlineMs deps)"
  shows "r\<lparr>dw_updateState := UFailed, dw_updateDetail := Some (expiry_detail own r)\<rparr> \<in> set (nb_nodes (expired_db deps own now st))"
proof -
  let ?db = "fs_nodes st" and ?e = "expire_one own now (cd_deadlineMs deps)"
  obtain xs ys where n: "nodes ?db = xs @ r # ys" using assms(2) by (metis split_list)
  have "distinct (map dw_nodeId (nodes ?db))"
    using assms(1) by (simp add: nodes_def keys_unique_def distinct_map inj_on_def)
  then have d: "dw_nodeId r \<notin> dw_nodeId ` set xs" "dw_nodeId r \<notin> dw_nodeId ` set ys" by (auto simp: n)
  have r: "r \<in> set (nb_nodes ?db)" "live r" using assms(2) by (simp_all add: nodes_set)
  have "node_at (snd (fold ?e xs ([], ?db))) (dw_nodeId r) = Some r"
    using expire_others[OF d(1), of own now _ "([], ?db)"] node_at_unique[OF assms(1) r(1)] by simp
  then have "node_at (snd (?e r (fold ?e xs ([], ?db)))) (dw_nodeId r) =
      Some (r\<lparr>dw_updateState := UFailed, dw_updateDetail := Some (expiry_detail own r)\<rparr>)"
    using assms(3,4) r(2) by (simp add: expire_node_at)
  then have "node_at (expired_db deps own now st) (dw_nodeId r) =
      Some (r\<lparr>dw_updateState := UFailed, dw_updateDetail := Some (expiry_detail own r)\<rparr>)"
    unfolding expired_db_def n using expire_others[OF d(2)] by simp
  then show ?thesis using node_at_in by blast
qed

lemma expiry_halts: "isHaltingUpdate UFailed (Some (expiry_detail own r))"
  using deadline_halts link_deadline_halts by (auto simp: expiry_detail_def split: option.split)

text \<open>C9: a lease ends at its deadline. The first dispatch run that finds a lease past its deadline, or past its hard cap
  whatever the node reports, ends it: the row is failed with words that halt the fleet, its target and date kept, and the
  same run sends nothing.\<close>

theorem lease_ends_at_deadline:
  fixes report :: node_file_read
  assumes "fleet_reach parse fl" "r \<in> set (nb_nodes (fl_nodes fl))" "live r" "busy r"
    "deadlineExpired (dispatch_row.truncate r) now (cd_deadlineMs deps)" "cd_role deps = RServer \<or> cd_role deps = RBoth"
  defines "after \<equiv> fleet_do parse (DispatchRun deps report now) fl"
  shows "fl_sent after = fl_sent fl \<and>
    (\<exists>r' \<in> set (nb_nodes (fl_nodes after)).
       dw_nodeId r' = dw_nodeId r \<and> dw_label r' = dw_label r \<and> live r' \<and> dw_updateState r' = UFailed \<and>
       isHaltingUpdate UFailed (dw_updateDetail r') \<and> dw_updateTarget r' = dw_updateTarget r)"
proof -
  note ok = fleet_okD[OF fleet_reach_ok[OF assms(1)]]
  obtain res st' where run: "runDispatch parse deps report now (fl_store fl) = (res, st')" by fastforce
  have after: "fl_nodes after = fs_nodes st'" "fl_sent after = fl_sent fl @ run_sent res now"
    by (simp_all add: after_def fleet_do_def Let_def run fl_nodes_def)
  show ?thesis
    using run
  proof (cases rule: runDispatch_cases)
    case off
    then show ?thesis using run assms(6) by (auto simp: runDispatch_def Let_def split: prod.splits)
  next
    case (ran own run out)
    let ?st = "fl_store fl"
    let ?db1 = "expired_db deps own now ?st"
    let ?r = "r\<lparr>dw_updateState := UFailed, dw_updateDetail := Some (expiry_detail own r)\<rparr>"
    have u: "keys_unique (fs_nodes ?st)" using node_reach_inv[OF ok(1)] by (simp add: node_inv_def fl_nodes_def)
    have r1: "?r \<in> set (nb_nodes ?db1)"
      by (rule expired_row[OF u _ assms(4,5)]) (use assms(2,3) in \<open>simp add: nodes_set fl_nodes_def\<close>)
    have h: "halts ?r" using expiry_halts by (simp add: halts_def)
    have u1: "keys_unique ?db1"
      using node_reach_inv[OF expired_db_keeps(2)] ok(1) by (simp add: node_inv_def fl_nodes_def)
    have none: "dp_move (planned_on ?db1 ?st) = None"
    proof (rule ccontr)
      assume "dp_move (planned_on ?db1 ?st) \<noteq> None"
      then obtain m where m: "dp_move (planned_on ?db1 ?st) = Some m" by blast
      have "\<forall>s \<in> set (nodes ?db1). \<not> isHaltingUpdate (dw_updateState s) (dw_updateDetail s)"
        by (rule planned_row[OF u1 _ planned_on_def m]) simp_all
      then show False using r1 h assms(3) by (auto simp: nodes_set halts_def live_def)
    qed
    then have end_: "out = StretchDone None" "fs_nodes st' = noted_db ?db1 ?st" using stretch_cases[OF ran(2)] by simp_all
    have "evolves True not_verdict ?db1 (fs_nodes st')"
      unfolding end_(2) using calm_noted by (simp add: calm_def)
    then obtain r' where r': "r' \<in> set (nb_nodes (fs_nodes st'))" "halts r'" "dw_updateState r' = UFailed" "dw_updateTarget r' = dw_updateTarget r"
      "same_place ?r r'" by (rule evolves_halts[OF _ r1 h]) auto
    have "run_sent res now = []" by (simp add: ran(1) end_(1) run_sent_def)
    then show ?thesis using r' assms(3) by (intro conjI bexI[of _ r']) (auto simp: after same_place_def halts_def live_def)
  qed
qed

theorem lease_ends_at_deadline_witness:
  "fl_sent (fleet_do demo_parse (DispatchRun demo_deps FileAbsent 100000) demo_dispatched) = fl_sent demo_dispatched \<and>
   (\<exists>r \<in> set (nb_nodes (fl_nodes (fleet_do demo_parse (DispatchRun demo_deps FileAbsent 100000) demo_dispatched))).
      dw_label r = FLEET_LABEL \<and> dw_updateState r = UFailed)"
proof -
  obtain r where r: "r \<in> set (nb_nodes (fl_nodes demo_dispatched))" "live r" "busy r"
    "deadlineExpired (dispatch_row.truncate r) 100000 (cd_deadlineMs demo_deps)" "dw_label r = FLEET_LABEL"
    using demo_lease unfolding list_ex_iff by blast
  have role: "cd_role demo_deps = RServer \<or> cd_role demo_deps = RBoth" by (simp add: demo_deps_def)
  show ?thesis using lease_ends_at_deadline[OF demo_fleet_reach(1) r(1-4) role, of FileAbsent] r(5) by auto
qed

section \<open>Failures\<close>

lemma refused_tags_iff: "t \<in> refused_tags db i \<longleftrightarrow> refused_at db i t"
  by (force simp: refused_tags_def refusalsFor_def refused_at_def)

lemma desired_not_refused:
  assumes "rs_desiredTag (resolveNodeIntent inp) = Some t"
  shows "t \<notin> ri_refused inp"
proof -
  from desired_on_channel[OF assms] obtain c pin where c: "fst (resolveOnChannel c pin inp) = Some t" by metis
  from resolved_facts[OF c] show ?thesis by (auto simp: eligible_def)
qed

text \<open>C8: no failure goes unheeded. Every failed row of the fleet, however it failed, either halts the fleet, or its target is
  recorded as refused for that node: then the resolver never resolves that tag for the node and the dispatcher never plans it a
  move to it.\<close>

theorem failure_halts_or_refused:
  assumes "fleet_reach parse fl" "r \<in> set (nb_nodes (fl_nodes fl))" "dw_updateState r = UFailed"
  shows "isHaltingUpdate UFailed (dw_updateDetail r) \<or>
    (\<exists>t. dw_updateTarget r = Some t \<and> t \<in> refused_tags (fl_nodes fl) (dw_nodeId r) \<and>
       rs_desiredTag (resolveNodeIntent (resolveInputFor (fl_store fl) r)) \<noteq> Some t \<and>
       (\<forall>m. dp_move (planDispatch (dispatchViewsFor (fl_store fl)) (catalogue (fl_store fl))) = Some m \<longrightarrow>
          \<not> (dm_nodeId m = dw_nodeId r \<and> dm_target m = t)))"
proof (rule disjCI)
  note ok = fleet_okD[OF fleet_reach_ok[OF assms(1)]]
  let ?st = "fl_store fl"
  assume nh: "\<not> (\<exists>t. dw_updateTarget r = Some t \<and> t \<in> refused_tags (fl_nodes fl) (dw_nodeId r) \<and>
       rs_desiredTag (resolveNodeIntent (resolveInputFor ?st r)) \<noteq> Some t \<and>
       (\<forall>m. dp_move (planDispatch (dispatchViewsFor ?st) (catalogue ?st)) = Some m \<longrightarrow> \<not> (dm_nodeId m = dw_nodeId r \<and> dm_target m = t)))"
  show "isHaltingUpdate UFailed (dw_updateDetail r)"
  proof (rule ccontr)
    assume v: "\<not> isHaltingUpdate UFailed (dw_updateDetail r)"
    then obtain d where d: "dw_updateDetail r = Some d" "\<not> not_verdict d"
      by (cases "dw_updateDetail r") (simp_all add: isHaltingUpdate_def not_verdict_def)
    then obtain t where t: "dw_updateTarget r = Some t" "refused_at (fl_nodes fl) (dw_nodeId r) t"
      using ok(3) assms(2,3) unfolding recorded_def by blast
    have u: "keys_unique (fs_nodes ?st)" using node_reach_inv[OF ok(1)] by (simp add: node_inv_def fl_nodes_def)
    have "rs_desiredTag (resolveNodeIntent (resolveInputFor ?st r)) \<noteq> Some t"
      using desired_not_refused[of "resolveInputFor ?st r" t] t(2) by (auto simp: resolveInputFor_def refused_tags_iff fl_nodes_def)
    moreover have "dm_target m \<noteq> t"
      if m: "dp_move (planDispatch (dispatchViewsFor ?st) (catalogue ?st)) = Some m" "dm_nodeId m = dw_nodeId r" for m
    proof -
      have "dm_target m \<notin> refused_tags (fs_nodes ?st) (dm_nodeId m)" by (rule planned_row[OF u refl refl m(1)]) blast
      then show ?thesis using t(2) m(2) by (auto simp: refused_tags_iff fl_nodes_def)
    qed
    ultimately show False using nh t by (auto simp: refused_tags_iff)
  qed
qed

theorem failure_halts_or_refused_witness:
  "\<exists>r \<in> set (nb_nodes (fl_nodes demo_refused)). \<exists>t. dw_updateTarget r = Some t \<and>
     t \<in> refused_tags (fl_nodes demo_refused) (dw_nodeId r)"
proof -
  obtain r where r: "r \<in> set (nb_nodes (fl_nodes demo_refused))" "dw_updateState r = UFailed" "\<not> isHaltingUpdate UFailed (dw_updateDetail r)"
    using demo_refused_row unfolding list_ex_iff by blast
  then show ?thesis using failure_halts_or_refused[OF demo_fleet_reach(4) r(1,2)] by blast
qed

section \<open>Connections\<close>

text \<open>C10: one row per connection. In every fleet the store has at most one live row for the server and one for the fleet box,
  whatever node ids their files held and however often these changed; each is keyed by a node id or by its label, and the
  lookup by label, which takes the latest measurement of several, answers exactly that row.\<close>

theorem one_row_per_connection:
  assumes "fleet_reach parse fl"
  shows "(\<forall>r \<in> set (nb_nodes (fl_nodes fl)). live r \<longrightarrow>
       (dw_label r = SERVER_LABEL \<or> dw_label r = FLEET_LABEL) \<and> (dw_nodeId r = dw_label r \<or> isNodeId (dw_nodeId r)) \<and>
       (\<forall>s \<in> set (nb_nodes (fl_nodes fl)). live s \<and> dw_label s = dw_label r \<longrightarrow> s = r)) \<and>
    (\<forall>r. nodeByLabel (fl_nodes fl) label = Some r \<longleftrightarrow> r \<in> set (nb_nodes (fl_nodes fl)) \<and> live r \<and> dw_label r = label)"
proof -
  note ok = fleet_okD[OF fleet_reach_ok[OF assms]]
  note inv = node_reach_inv[OF ok(1)]
  have one: "s = r" if "r \<in> set (nb_nodes (fl_nodes fl))" "live r" "s \<in> set (nb_nodes (fl_nodes fl))" "live s" "dw_label s = dw_label r" for r s
    using same_key[OF inv that(1,3)] places_okD(3)[OF ok(4) that(1,2) that(3-5)] by blast
  have "nodeByLabel (fl_nodes fl) label = Some r" if r: "r \<in> set (nb_nodes (fl_nodes fl))" "live r" "dw_label r = label" for r
  proof (cases "nodeByLabel (fl_nodes fl) label")
    case None
    then show ?thesis using r nodeByLabel_None by blast
  next
    case (Some s)
    then show ?thesis using nodeByLabel_Some[OF Some] one[OF r(1,2)] r(3) by simp
  qed
  then have "\<forall>r. nodeByLabel (fl_nodes fl) label = Some r \<longleftrightarrow> r \<in> set (nb_nodes (fl_nodes fl)) \<and> live r \<and> dw_label r = label"
    using nodeByLabel_Some by blast
  moreover have "\<forall>r \<in> set (nb_nodes (fl_nodes fl)). live r \<longrightarrow>
       (dw_label r = SERVER_LABEL \<or> dw_label r = FLEET_LABEL) \<and> (dw_nodeId r = dw_label r \<or> isNodeId (dw_nodeId r)) \<and>
       (\<forall>s \<in> set (nb_nodes (fl_nodes fl)). live s \<and> dw_label s = dw_label r \<longrightarrow> s = r)"
    using places_okD(1,2)[OF ok(4)] one unfolding connection_label_def by blast
  ultimately show ?thesis by blast
qed

theorem one_row_per_connection_witness:
  "\<exists>r. nodeByLabel (fl_nodes demo_rekeyed) FLEET_LABEL = Some r \<and> dw_nodeId r = demo_id \<and> busy r"
  using one_row_per_connection[OF demo_fleet_reach(2), of FLEET_LABEL] demo_rekeyed_lease unfolding list_ex_iff by blast

end
