(* ===== verification/Workflows.thy ===== *)
theory Workflows
  imports Prelude "HOL-Library.Word"
begin

text \<open>
  The dynamic workflows of a session (\<open>server/src/workflows/model.ts\<close>, with the journal loop and
  the start loop of \<open>read.ts\<close>): the framing of the journal's bytes, the fold of its lines, the
  decision on a run and the rows shown. The decoder of bytes, the test of a blank text and the
  parse of a line (a UTF-8 decoder, \<open>trim\<close> and a JSON parser) are parameters. Instants are whole
  milliseconds. Not modelled: the readers of JSON and script sources, and the agent tails.
\<close>

section \<open>Framing\<close>

type_synonym byte = "8 word"

definition NEWLINE :: byte where "NEWLINE = 10"

definition LINE_KEEP_BYTES :: nat where "LINE_KEEP_BYTES = 65536"

record carry =
  ca_bytes :: "byte list"
  ca_cut :: bool

definition emptyCarry :: carry where "emptyCarry = \<lparr>ca_bytes = [], ca_cut = False\<rparr>"

text \<open>The loop of \<open>splitLines\<close> at a byte of the chunk: \<open>head\<close> and \<open>cut\<close> as in the code, \<open>piece\<close> the
  bytes of the chunk since \<open>start\<close>.\<close>

definition push_line :: "(byte list \<Rightarrow> 't) \<Rightarrow> ('t \<Rightarrow> bool) \<Rightarrow> byte list \<Rightarrow> bool \<Rightarrow> byte list \<Rightarrow> 't list" where
  "push_line decode blank head was_cut piece =
     (let whole = if was_cut then head else head @ piece;
          text = decode (if was_cut \<or> length whole \<le> LINE_KEEP_BYTES then whole else take LINE_KEEP_BYTES whole) in
      if blank text then [] else [text])"

definition end_carry :: "byte list \<Rightarrow> bool \<Rightarrow> byte list \<Rightarrow> carry" where
  "end_carry head was_cut rest =
     (if \<not> was_cut then
        (let joined = head @ rest in
         if length joined > LINE_KEEP_BYTES then \<lparr>ca_bytes = take LINE_KEEP_BYTES joined, ca_cut = True\<rparr>
         else \<lparr>ca_bytes = joined, ca_cut = False\<rparr>)
      else \<lparr>ca_bytes = head, ca_cut = True\<rparr>)"

fun split_loop :: "(byte list \<Rightarrow> 't) \<Rightarrow> ('t \<Rightarrow> bool) \<Rightarrow> byte list \<Rightarrow> bool \<Rightarrow> byte list \<Rightarrow> byte list \<Rightarrow> 't list \<times> carry" where
  "split_loop decode blank head was_cut piece [] = ([], end_carry head was_cut piece)"
| "split_loop decode blank head was_cut piece (b # bs) =
     (if b \<noteq> NEWLINE then split_loop decode blank head was_cut (piece @ [b]) bs
      else (case split_loop decode blank [] False [] bs of
         (lines, c) \<Rightarrow> (push_line decode blank head was_cut piece @ lines, c)))"

definition splitLines :: "(byte list \<Rightarrow> 't) \<Rightarrow> ('t \<Rightarrow> bool) \<Rightarrow> carry \<Rightarrow> byte list \<Rightarrow> 't list \<times> carry" where
  "splitLines decode blank c chunk = split_loop decode blank (ca_bytes c) (ca_cut c) [] chunk"

section \<open>The fold of the journal\<close>

datatype line_type = LineStarted | LineResult | LineFailed | LineOther string
datatype key_last = KStarted | KResult | KFailed

record journal_line =
  jl_type :: line_type
  jl_key :: string
  jl_agentId :: string
  jl_label :: "string option"
  jl_phase :: "string option"

record key_state =
  ks_agentId :: string
  ks_last :: key_last
  ks_label :: "string option"
  ks_phase :: "string option"
  ks_seq :: nat

text \<open>The map of keys in insertion order; setting a key it has keeps its place.\<close>

record journal_fold =
  jf_keys :: "(string \<times> key_state) list"
  jf_starts :: "string list"

definition emptyFold :: journal_fold where "emptyFold = \<lparr>jf_keys = [], jf_starts = []\<rparr>"

fun set_key :: "string \<Rightarrow> key_state \<Rightarrow> (string \<times> key_state) list \<Rightarrow> (string \<times> key_state) list" where
  "set_key k v [] = [(k, v)]"
| "set_key k v ((k', v') # kv) = (if k = k' then (k, v) # kv else (k', v') # set_key k v kv)"

definition or_else :: "'a option \<Rightarrow> 'a option \<Rightarrow> 'a option" where
  "or_else a b = (case a of None \<Rightarrow> b | Some _ \<Rightarrow> a)"

definition fold_line :: "journal_fold \<Rightarrow> journal_line option \<Rightarrow> journal_fold" where
  "fold_line fld line =
     (case line of
        None \<Rightarrow> fld
      | Some l \<Rightarrow>
          (let prev = map_of (jf_keys fld) (jl_key l);
               seq = (case prev of None \<Rightarrow> length (jf_keys fld) | Some p \<Rightarrow> ks_seq p) in
           case jl_type l of
             LineStarted \<Rightarrow>
               \<lparr>jf_keys = set_key (jl_key l)
                  \<lparr>ks_agentId = jl_agentId l, ks_last = KStarted,
                   ks_label = or_else (jl_label l) (Option.bind prev ks_label),
                   ks_phase = or_else (jl_phase l) (Option.bind prev ks_phase), ks_seq = seq\<rparr> (jf_keys fld),
                jf_starts = jf_starts fld @ [jl_agentId l]\<rparr>
           | LineOther _ \<Rightarrow> fld
           | t \<Rightarrow>
               fld\<lparr>jf_keys := set_key (jl_key l)
                  \<lparr>ks_agentId = (case prev of None \<Rightarrow> jl_agentId l | Some p \<Rightarrow> ks_agentId p),
                   ks_last = (if t = LineResult then KResult else KFailed),
                   ks_label = Option.bind prev ks_label, ks_phase = Option.bind prev ks_phase, ks_seq = seq\<rparr> (jf_keys fld)\<rparr>))"

definition foldJournal :: "('t \<Rightarrow> journal_line option) \<Rightarrow> journal_fold \<Rightarrow> 't list \<Rightarrow> journal_fold" where
  "foldJournal parse fld lines = foldl (\<lambda>f text. fold_line f (parse text)) fld lines"

section \<open>Running or not\<close>

datatype proc = ProcLive "int option" | ProcGone | ProcUnmeasured
datatype run_decision = RunFinished | RunRunning | RunInterrupted | RunUndecided

definition decideRun :: "int option \<Rightarrow> int \<Rightarrow> int \<Rightarrow> proc \<Rightarrow> run_decision" where
  "decideRun summaryMtime journalMtime activityMtime p =
     (if (case summaryMtime of None \<Rightarrow> False | Some s \<Rightarrow> journalMtime \<le> s) then RunFinished
      else case p of
        ProcGone \<Rightarrow> RunInterrupted
      | ProcUnmeasured \<Rightarrow> RunUndecided
      | ProcLive startedAt \<Rightarrow>
          if (case startedAt of None \<Rightarrow> False | Some s \<Rightarrow> activityMtime < s) then RunInterrupted else RunRunning)"

section \<open>Rows\<close>

datatype agent_state = AgentRunning | AgentDone | AgentFailed
datatype workflow_state = WfRunning | WfCompleted | WfFailed | WfKilled

definition WORKFLOW_AGENTS_MAX :: nat where "WORKFLOW_AGENTS_MAX = 120"
definition WORKFLOW_EVICT_MS :: int where "WORKFLOW_EVICT_MS = 30000"

record agent_view =
  av_label :: "string option"
  av_phase :: "string option"
  av_state :: agent_state

record workflow_view =
  wv_id :: string
  wv_name :: "string option"
  wv_state :: workflow_state
  wv_done :: "nat option"
  wv_failed :: "nat option"
  wv_total :: "nat option"
  wv_phase :: "string option"
  wv_phases :: "string list option"
  wv_startedAt :: "int option"
  wv_endedAt :: "int option"
  wv_tokens :: "int option"
  wv_tokensUnmeasured :: nat
  wv_agents :: "agent_view list"
  wv_agentsOmitted :: nat

fun AGENT_STATE :: "key_last \<Rightarrow> agent_state" where
  "AGENT_STATE KStarted = AgentRunning"
| "AGENT_STATE KResult = AgentDone"
| "AGENT_STATE KFailed = AgentFailed"

text \<open>The set of kept entries, by their place in schedule order; \<open>ds\<close> are the done ones, newest first.\<close>

fun keep_done :: "nat list \<Rightarrow> nat list \<Rightarrow> nat list" where
  "keep_done keep [] = keep"
| "keep_done keep (d # ds) = (if length keep < WORKFLOW_AGENTS_MAX then keep_done (d # keep) ds else keep)"

definition last_n :: "nat \<Rightarrow> 'a list \<Rightarrow> 'a list" where
  "last_n n xs = drop (length xs - n) xs"

definition cutAgents :: "(int \<times> agent_view) list \<Rightarrow> agent_view list \<times> nat" where
  "cutAgents rows =
     (let ordered = map snd (sort_key fst rows) in
      if length ordered \<le> WORKFLOW_AGENTS_MAX then (ordered, 0)
      else
        (let places = [0..<length ordered];
             urgent = filter (\<lambda>i. av_state (ordered ! i) \<noteq> AgentDone) places;
             finished = filter (\<lambda>i. av_state (ordered ! i) = AgentDone) places;
             keep = keep_done (last_n WORKFLOW_AGENTS_MAX urgent) (rev finished);
             agents = map ((!) ordered) (filter (\<lambda>i. i \<in> set keep) places) in
         (agents, length ordered - length agents)))"

record running_input =
  ri_id :: string
  ri_name :: "string option"
  ri_fold :: journal_fold
  ri_tokens :: "string \<rightharpoonup> int option"
  ri_meta :: "string \<rightharpoonup> string option \<times> string option"
  ri_phases :: "string list option"
  ri_startedAt :: "int option"
  ri_unread :: bool

definition key_row :: "running_input \<Rightarrow> key_state \<Rightarrow> int \<times> agent_view" where
  "key_row r k =
     (int (ks_seq k),
      \<lparr>av_label = or_else (ks_label k) (Option.bind (ri_meta r (ks_agentId k)) fst),
       av_phase = or_else (ks_phase k) (Option.bind (ri_meta r (ks_agentId k)) snd),
       av_state = AGENT_STATE (ks_last k)\<rparr>)"

definition measured_tokens :: "running_input \<Rightarrow> key_state list \<Rightarrow> int list" where
  "measured_tokens r keys = List.map_filter (\<lambda>k. Option.bind (ri_tokens r (ks_agentId k)) id) keys"

definition newest_phase :: "(int \<times> agent_view) list \<Rightarrow> string option" where
  "newest_phase rows =
     (let bySeq = sort_key fst rows in
      case find (\<lambda>a. av_state (snd a) = AgentRunning) (rev bySeq) of
        Some a \<Rightarrow> av_phase (snd a)
      | None \<Rightarrow> (if bySeq = [] then None else av_phase (snd (last bySeq))))"

definition runningView :: "running_input \<Rightarrow> workflow_view" where
  "runningView r =
     (let keys = map snd (jf_keys (ri_fold r));
          ts = measured_tokens r keys;
          rows = map (key_row r) keys;
          (agents, omitted) = cutAgents rows;
          counted = (\<lambda>n. if ri_unread r then None else Some n) in
      \<lparr>wv_id = ri_id r, wv_name = ri_name r, wv_state = WfRunning,
       wv_done = counted (length (filter (\<lambda>k. ks_last k = KResult) keys)),
       wv_failed = counted (length (filter (\<lambda>k. ks_last k = KFailed) keys)),
       wv_total = counted (length keys),
       wv_phase = newest_phase rows, wv_phases = ri_phases r, wv_startedAt = ri_startedAt r, wv_endedAt = None,
       wv_tokens = (if length ts > 0 then Some (sum_list ts) else None),
       wv_tokensUnmeasured = length keys - length ts,
       wv_agents = (if ri_unread r then [] else agents), wv_agentsOmitted = (if ri_unread r then 0 else omitted)\<rparr>)"

text \<open>The facts of a summary in a final status.\<close>

record summary_facts =
  sf_status :: workflow_state
  sf_workflowName :: "string option"
  sf_startTime :: "int option"
  sf_durationMs :: "int option"
  sf_totalTokens :: "int option"
  sf_agentCount :: "nat option"
  sf_phases :: "string list option"
  sf_agents :: "(int \<times> agent_view) list"

definition summaryView :: "string \<Rightarrow> summary_facts \<Rightarrow> int \<Rightarrow> string option \<Rightarrow> workflow_view" where
  "summaryView wid f summaryMtime nameFallback =
     (let (agents, omitted) = cutAgents (sf_agents f);
          endedAt = (case (sf_startTime f, sf_durationMs f) of (Some s, Some d) \<Rightarrow> s + d | _ \<Rightarrow> summaryMtime);
          views = map snd (sf_agents f) in
      \<lparr>wv_id = wid, wv_name = or_else (sf_workflowName f) nameFallback, wv_state = sf_status f,
       wv_done = Some (length (filter (\<lambda>a. av_state a = AgentDone) views)),
       wv_failed = Some (length (filter (\<lambda>a. av_state a = AgentFailed) views)),
       wv_total = Some (max (case sf_agentCount f of None \<Rightarrow> 0 | Some n \<Rightarrow> n) (length views)),
       wv_phase = (if views = [] then None else av_phase (last views)), wv_phases = sf_phases f,
       wv_startedAt = sf_startTime f, wv_endedAt = Some endedAt, wv_tokens = sf_totalTokens f,
       wv_tokensUnmeasured = 0, wv_agents = agents, wv_agentsOmitted = omitted\<rparr>)"

text \<open>Oldest start first, unknown starts last, then by id.\<close>

definition row_key :: "workflow_view \<Rightarrow> (nat \<times> int) \<times> string" where
  "row_key v = ((case wv_startedAt v of None \<Rightarrow> (1, 0) | Some t \<Rightarrow> (0, t)), wv_id v)"

definition shown :: "int \<Rightarrow> workflow_view \<Rightarrow> bool" where
  "shown now v \<longleftrightarrow> wv_state v = WfRunning \<or> (case wv_endedAt v of None \<Rightarrow> False | Some e \<Rightarrow> now - e < WORKFLOW_EVICT_MS)"

definition selectRows :: "workflow_view list \<Rightarrow> int \<Rightarrow> workflow_view list" where
  "selectRows views now = sort_key row_key (filter (shown now) views)"

datatype workflows_read = WfAbsent | WfUnreadable | WfRead "workflow_view list"

definition workflowsFrame :: "workflows_read \<Rightarrow> bool \<Rightarrow> workflow_view list \<Rightarrow> workflow_view list \<times> bool" where
  "workflowsFrame rd hookSaysWorkflow lastRead =
     (case rd of
        WfRead ws \<Rightarrow> (ws, False)
      | WfAbsent \<Rightarrow> if \<not> hookSaysWorkflow then ([], False) else (lastRead, True)
      | WfUnreadable \<Rightarrow> (lastRead, True))"

section \<open>The reader of the journal and of the start\<close>

definition JOURNAL_CHUNKS_PER_TICK :: nat where "JOURNAL_CHUNKS_PER_TICK = 16"

text \<open>What is kept of a run between passes; \<open>None\<close> of a doubled option is not read yet, and \<open>None\<close> as
  the tick of the last stat is before every tick.\<close>

record run_cache =
  rc_offset :: nat
  rc_carry :: carry
  rc_fold :: journal_fold
  rc_journalMtime :: "int option"
  rc_summaryMtime :: "int option"
  rc_summary :: "summary_facts option option"
  rc_summaryReadAt :: "int option"
  rc_tokens :: "string \<rightharpoonup> nat \<times> int option \<times> bool"
  rc_activity :: "string \<rightharpoonup> int"
  rc_starts :: "string \<rightharpoonup> int option"
  rc_meta :: "string \<rightharpoonup> string option \<times> string option"
  rc_metaTried :: "string list"
  rc_phases :: "string list option option"
  rc_decision :: "run_decision option"
  rc_statTick :: "int option"
  rc_stagger :: nat
  rc_cursor :: nat
  rc_view :: "workflow_view option"

definition newRun :: run_cache where
  "newRun = \<lparr>rc_offset = 0, rc_carry = emptyCarry, rc_fold = emptyFold, rc_journalMtime = None, rc_summaryMtime = None,
     rc_summary = None, rc_summaryReadAt = None, rc_tokens = Map.empty, rc_activity = Map.empty, rc_starts = Map.empty,
     rc_meta = Map.empty, rc_metaTried = [], rc_phases = None, rc_decision = None, rc_statTick = None, rc_stagger = 0,
     rc_cursor = 0, rc_view = None\<rparr>"

text \<open>\<open>rd i o\<close> is what the read number \<open>i\<close> of the pass answers at offset \<open>o\<close>: nothing, or the bytes.\<close>

fun journal_loop ::
  "(byte list \<Rightarrow> 't) \<Rightarrow> ('t \<Rightarrow> bool) \<Rightarrow> ('t \<Rightarrow> journal_line option) \<Rightarrow> (nat \<Rightarrow> nat \<Rightarrow> byte list option) \<Rightarrow>
   nat \<Rightarrow> nat \<Rightarrow> run_cache \<Rightarrow> bool \<times> run_cache" where
  "journal_loop decode blank parse rd 0 fsize run = (True, run)"
| "journal_loop decode blank parse rd (Suc n) fsize run =
     (if \<not> rc_offset run < fsize then (True, run)
      else case rd (JOURNAL_CHUNKS_PER_TICK - Suc n) (rc_offset run) of
        None \<Rightarrow> (False, run)
      | Some bytes \<Rightarrow>
          if bytes = [] then (True, run)
          else (case splitLines decode blank (rc_carry run) bytes of
             (lines, c) \<Rightarrow>
               journal_loop decode blank parse rd n fsize
                 (run\<lparr>rc_carry := c, rc_fold := foldJournal parse (rc_fold run) lines,
                      rc_offset := rc_offset run + length bytes\<rparr>)))"

definition reset_run :: "run_cache \<Rightarrow> run_cache" where
  "reset_run run = run\<lparr>rc_offset := 0, rc_carry := emptyCarry, rc_fold := emptyFold, rc_tokens := Map.empty\<rparr>"

definition readJournal ::
  "(byte list \<Rightarrow> 't) \<Rightarrow> ('t \<Rightarrow> bool) \<Rightarrow> ('t \<Rightarrow> journal_line option) \<Rightarrow> (nat \<Rightarrow> nat \<Rightarrow> byte list option) \<Rightarrow>
   nat \<Rightarrow> run_cache \<Rightarrow> bool \<times> run_cache" where
  "readJournal decode blank parse rd fsize run =
     journal_loop decode blank parse rd JOURNAL_CHUNKS_PER_TICK fsize
       (if fsize < rc_offset run then reset_run run else run)"

datatype first_start = StartAt "int option" | StartNeed string

fun first_after :: "string list \<Rightarrow> (string \<rightharpoonup> int option) \<Rightarrow> int option \<Rightarrow> first_start" where
  "first_after [] starts floor = StartAt None"
| "first_after (a # as) starts floor =
     (case starts a of
        None \<Rightarrow> StartNeed a
      | Some None \<Rightarrow> first_after as starts floor
      | Some (Some at) \<Rightarrow>
          if (case floor of None \<Rightarrow> True | Some f \<Rightarrow> at > f) then StartAt (Some at) else first_after as starts floor)"

definition firstAgentAfter :: "journal_fold \<Rightarrow> (string \<rightharpoonup> int option) \<Rightarrow> int option \<Rightarrow> first_start" where
  "firstAgentAfter fld starts floor = first_after (jf_starts fld) starts floor"

text \<open>The loop of \<open>startOf\<close>: \<open>stat\<close> is the measured time of an agent's meta file, \<open>None\<close> when it cannot be
  read; the answer is the start, the starts known after it and the budget left.\<close>

function start_loop ::
  "(string \<Rightarrow> int option) \<Rightarrow> journal_fold \<Rightarrow> int option \<Rightarrow> (string \<rightharpoonup> int option) \<Rightarrow> int \<Rightarrow>
   int option \<times> (string \<rightharpoonup> int option) \<times> int" where
  "start_loop stat fld floor starts budget =
     (case firstAgentAfter fld starts floor of
        StartAt at \<Rightarrow> (at, starts, budget)
      | StartNeed a \<Rightarrow>
          if budget \<le> 0 then (None, starts, budget)
          else start_loop stat fld floor (starts(a \<mapsto> stat a)) (budget - 1))"
  by pat_completeness auto

termination start_loop
  by (relation "measure (\<lambda>(stat, fld, floor, starts, budget). nat budget)") auto

declare start_loop.simps [simp del]

definition startOf :: "(string \<Rightarrow> int option) \<Rightarrow> run_cache \<Rightarrow> int \<Rightarrow> int option \<times> run_cache \<times> int" where
  "startOf stat run budget =
     (case start_loop stat (rc_fold run) (rc_summaryMtime run) (rc_starts run) budget of
        (at, starts, left) \<Rightarrow> (at, run\<lparr>rc_starts := starts\<rparr>, left))"

section \<open>Names\<close>

definition run_id :: "string \<Rightarrow> bool" where
  "run_id s \<longleftrightarrow> starts_with s ''wf_'' \<and> length s = 15 \<and> list_all hex_char (take 8 (drop 3 s)) \<and>
     s ! 11 = CHR ''-'' \<and> list_all hex_char (drop 12 s)"

definition script_char :: "char \<Rightarrow> bool" where
  "script_char c \<longleftrightarrow> (CHR ''a'' \<le> c \<and> c \<le> CHR ''z'') \<or> digit_char c \<or> c = CHR ''_'' \<or> c = CHR ''-''"

definition script_file :: "string \<Rightarrow> bool" where
  "script_file e \<longleftrightarrow> ends_with e ''.js'' \<and> length e > 3 \<and> list_all script_char (take (length e - 3) e)"

fun scriptNameFor :: "string list \<Rightarrow> string \<Rightarrow> string option" where
  "scriptNameFor [] runId = None"
| "scriptNameFor (e # es) runId =
     (let suf = ''-'' @ runId @ ''.js'' in
      if \<not> script_file e \<or> \<not> ends_with e suf then scriptNameFor es runId
      else (let name = take (length e - length suf) e in
            if name \<noteq> [] then Some name else scriptNameFor es runId))"

definition sessionDirOf :: "string \<Rightarrow> string" where
  "sessionDirOf transcript =
     (if ends_with transcript ''.jsonl'' then take (length transcript - length ''.jsonl'') transcript else transcript)"

end
