(* ===== verification/WorkflowProps.thy ===== *)
theory WorkflowProps
  imports Workflows
begin

text \<open>
  The readers of the workflows: the journal read in pieces is the journal read whole, the search
  for the start ends, and the rows shown are well-formed.
\<close>

section \<open>The journal read in pieces\<close>

text \<open>The reference: a line is what lies between two newlines, its head only when it is long; a blank
  one is dropped; what follows the last newline is carried.\<close>

definition carry_of :: "byte list \<Rightarrow> carry" where
  "carry_of p = (if length p > LINE_KEEP_BYTES then \<lparr>ca_bytes = take LINE_KEEP_BYTES p, ca_cut = True\<rparr>
     else \<lparr>ca_bytes = p, ca_cut = False\<rparr>)"

definition kept_line :: "(byte list \<Rightarrow> 't) \<Rightarrow> ('t \<Rightarrow> bool) \<Rightarrow> byte list \<Rightarrow> 't list" where
  "kept_line decode blank p = (let text = decode (take LINE_KEEP_BYTES p) in if blank text then [] else [text])"

definition frame_lines :: "(byte list \<Rightarrow> 't) \<Rightarrow> ('t \<Rightarrow> bool) \<Rightarrow> byte list \<Rightarrow> 't list" where
  "frame_lines decode blank bytes = concat (map (kept_line decode blank) (butlast (split_on NEWLINE bytes)))"

definition frame_carry :: "byte list \<Rightarrow> carry" where
  "frame_carry bytes = carry_of (last (split_on NEWLINE bytes))"

lemma carry_of_Nil: "carry_of [] = emptyCarry"
  by (simp add: carry_of_def emptyCarry_def)

lemma push_line_carry:
  "carry_of p = \<lparr>ca_bytes = head, ca_cut = k\<rparr> \<Longrightarrow> push_line decode blank head k piece = kept_line decode blank (p @ piece)"
  by (auto simp: carry_of_def push_line_def kept_line_def Let_def split: if_splits)

lemma end_carry_carry:
  "carry_of p = \<lparr>ca_bytes = head, ca_cut = k\<rparr> \<Longrightarrow> end_carry head k piece = carry_of (p @ piece)"
  by (auto simp: carry_of_def end_carry_def Let_def split: if_splits)

lemma split_on_first: "c \<notin> set xs \<Longrightarrow> split_on c (xs @ c # ys) = xs # split_on c ys"
  by (simp add: split_on_append_sep split_on_no_sep)

lemma split_loop_spec:
  assumes "carry_of p = \<lparr>ca_bytes = head, ca_cut = k\<rparr>" "NEWLINE \<notin> set (p @ piece)"
  shows "split_loop decode blank head k piece bs =
    (frame_lines decode blank (p @ piece @ bs), frame_carry (p @ piece @ bs))"
  using assms
proof (induction bs arbitrary: p head k piece)
  case Nil
  then show ?case
    by (simp add: frame_lines_def frame_carry_def split_on_no_sep end_carry_carry)
next
  case (Cons b bs)
  show ?case
  proof (cases "b = NEWLINE")
    case False
    with Cons.IH[OF Cons.prems(1), of "piece @ [b]"] Cons.prems(2) show ?thesis by simp
  next
    case True
    have "carry_of [] = \<lparr>ca_bytes = [], ca_cut = False\<rparr>" by (simp add: carry_of_Nil emptyCarry_def)
    from Cons.IH[OF this, of "[]"] have t: "split_loop decode blank [] False [] bs = (frame_lines decode blank bs, frame_carry bs)" by simp
    have "split_on NEWLINE (p @ piece @ b # bs) = (p @ piece) # split_on NEWLINE bs"
      using split_on_first[of NEWLINE "p @ piece" bs] Cons.prems(2) True by simp
    with t True push_line_carry[OF Cons.prems(1), of decode blank piece] show ?thesis
      by (simp add: frame_lines_def frame_carry_def split_on_not_Nil)
  qed
qed

lemma split_on_join: "split_on c (xs @ ys) = butlast (split_on c xs) @ split_on c (last (split_on c xs) @ ys)"
proof (induction xs arbitrary: ys)
  case (Cons x xs)
  show ?case
  proof (cases "x = c")
    case True
    then show ?thesis using Cons.IH[of ys] by (simp add: split_on_not_Nil)
  next
    case False
    obtain p ps where s: "split_on c xs = p # ps" using split_on_not_Nil by (metis list.exhaust)
    from Cons.IH[of ys] s False show ?thesis by (cases ps) (simp_all split: list.split)
  qed
qed simp

lemma splitLines_next:
  "splitLines decode blank (frame_carry a) b =
     (concat (map (kept_line decode blank) (butlast (split_on NEWLINE (last (split_on NEWLINE a) @ b)))), frame_carry (a @ b)) \<and>
   frame_lines decode blank (a @ b) =
     frame_lines decode blank a @ concat (map (kept_line decode blank) (butlast (split_on NEWLINE (last (split_on NEWLINE a) @ b))))"
proof -
  let ?p = "last (split_on NEWLINE a)"
  have "NEWLINE \<notin> set ?p" using set_split_on[of ?p NEWLINE a] split_on_not_Nil[of NEWLINE a] by (metis last_in_set)
  then have "splitLines decode blank (frame_carry a) b = (frame_lines decode blank (?p @ b), frame_carry (?p @ b))"
    using split_loop_spec[of ?p "ca_bytes (carry_of ?p)" "ca_cut (carry_of ?p)" "[]" decode blank b]
    by (simp add: splitLines_def frame_carry_def)
  then show ?thesis
    by (simp add: frame_lines_def frame_carry_def split_on_join[of NEWLINE a b] split_on_not_Nil butlast_append)
qed

text \<open>What the reader relies on: a framer that carries the state of the bytes it has seen. Folding the
  lines of a further piece is then folding the lines of the whole.\<close>

locale framer =
  fixes split :: "'c \<Rightarrow> 'b list \<Rightarrow> 'l list \<times> 'c"
    and carried :: "'b list \<Rightarrow> 'c"
    and framed :: "'b list \<Rightarrow> 'l list"
  assumes split_next: "split (carried a) b = (ls, c) \<Longrightarrow> framed (a @ b) = framed a @ ls \<and> c = carried (a @ b)"
begin

lemma carry_next: "split (carried a) b = (ls, c) \<Longrightarrow> c = carried (a @ b)"
  by (simp add: split_next)

lemma fold_next: "split (carried a) b = (ls, c) \<Longrightarrow> foldl g (foldl g s (framed a)) ls = foldl g s (framed (a @ b))"
  by (simp add: split_next)

end

interpretation journal: framer "splitLines decode blank" frame_carry "frame_lines decode blank" for decode blank
  by unfold_locales (simp add: splitLines_next)

text \<open>The state of a run that has read the first bytes of a journal, as if read in one go.\<close>

definition journal_ok ::
  "(byte list \<Rightarrow> 't) \<Rightarrow> ('t \<Rightarrow> bool) \<Rightarrow> ('t \<Rightarrow> journal_line option) \<Rightarrow> byte list \<Rightarrow> run_cache \<Rightarrow> bool" where
  "journal_ok decode blank parse content run \<longleftrightarrow>
     rc_offset run \<le> length content \<and> rc_carry run = frame_carry (take (rc_offset run) content) \<and>
     rc_fold run = foldJournal parse emptyFold (frame_lines decode blank (take (rc_offset run) content))"

text \<open>Reads of a journal that is only appended to: what a read answers is a piece of the final content.\<close>

definition honest :: "(nat \<Rightarrow> nat \<Rightarrow> byte list option) \<Rightarrow> byte list \<Rightarrow> bool" where
  "honest rd content \<longleftrightarrow> (\<forall>i k bytes. rd i k = Some bytes \<longrightarrow> prefix bytes (drop k content))"

lemma journal_ok_reset: "journal_ok decode blank parse content (reset_run run)"
  by (simp add: journal_ok_def reset_run_def frame_carry_def carry_of_Nil frame_lines_def foldJournal_def)

lemma journal_ok_step:
  assumes "journal_ok decode blank parse content run" "prefix bytes (drop (rc_offset run) content)"
    "splitLines decode blank (rc_carry run) bytes = (lines, c)"
  shows "journal_ok decode blank parse content
    (run\<lparr>rc_carry := c, rc_fold := foldJournal parse (rc_fold run) lines, rc_offset := rc_offset run + length bytes\<rparr>)"
proof -
  let ?a = "take (rc_offset run) content"
  from assms(1) have r: "rc_offset run \<le> length content" "rc_carry run = frame_carry ?a"
    "rc_fold run = foldJournal parse emptyFold (frame_lines decode blank ?a)" by (auto simp: journal_ok_def)
  from assms(2) have b: "?a @ bytes = take (rc_offset run + length bytes) content"
    by (auto simp: prefix_def take_add)
  from assms(2) have l: "rc_offset run + length bytes \<le> length content" using r(1) by (auto dest!: prefix_length_le)
  note s = assms(3)[unfolded r(2)]
  from l r journal.carry_next[OF s] journal.fold_next[OF s] b show ?thesis
    by (simp add: journal_ok_def foldJournal_def)
qed

lemma journal_loop_ok:
  assumes "honest rd content" "journal_ok decode blank parse content run"
  shows "journal_ok decode blank parse content (snd (journal_loop decode blank parse rd n len run)) \<and>
    rc_offset run \<le> rc_offset (snd (journal_loop decode blank parse rd n len run)) \<and>
    rc_starts (snd (journal_loop decode blank parse rd n len run)) = rc_starts run"
  using assms(2)
proof (induction n arbitrary: run)
  case (Suc n)
  let ?i = "JOURNAL_CHUNKS_PER_TICK - Suc n"
  show ?case
  proof (cases "rd ?i (rc_offset run)")
    case None
    with Suc.prems show ?thesis by simp
  next
    case (Some bytes)
    obtain ls c where s: "splitLines decode blank (rc_carry run) bytes = (ls, c)" by force
    let ?r = "run\<lparr>rc_carry := c, rc_fold := foldJournal parse (rc_fold run) ls, rc_offset := rc_offset run + length bytes\<rparr>"
    have "journal_ok decode blank parse content ?r"
      by (rule journal_ok_step[OF Suc.prems _ s]) (use assms(1) Some in \<open>auto simp: honest_def\<close>)
    from Suc.IH[OF this] Suc.prems Some s show ?thesis by auto
  qed
qed simp

lemma readJournal_ok:
  assumes "honest rd content" "len < rc_offset run \<or> journal_ok decode blank parse content run"
  shows "journal_ok decode blank parse content (snd (readJournal decode blank parse rd len run))"
  using assms journal_loop_ok[OF assms(1) journal_ok_reset[of decode blank parse content run]]
    journal_loop_ok[OF assms(1), of decode blank parse run]
  unfolding readJournal_def by (cases "len < rc_offset run") auto

text \<open>When every read answers in full, the loop reaches the end of the journal or spends its chunks.\<close>

lemma journal_loop_full:
  assumes "\<And>i k. rd i k = Some (take m (drop k content))" "0 < m" "rc_offset run \<le> length content"
  shows "fst (journal_loop decode blank parse rd n (length content) run) \<and>
    rc_offset (snd (journal_loop decode blank parse rd n (length content) run)) = min (length content) (rc_offset run + n * m)"
  using assms(3)
proof (induction n arbitrary: run)
  case (Suc n)
  show ?case
  proof (cases "rc_offset run < length content")
    case True
    obtain ls c where s: "splitLines decode blank (rc_carry run) (take m (drop (rc_offset run) content)) = (ls, c)" by force
    with Suc True assms(1,2) show ?thesis by (simp add: algebra_simps min_def, linarith?)
  qed (use Suc.prems in simp)
qed simp

section \<open>The fold of the journal\<close>

text \<open>Each key once, in the order it was first seen.\<close>

definition fold_ok :: "journal_fold \<Rightarrow> bool" where
  "fold_ok fld \<longleftrightarrow> distinct (map fst (jf_keys fld)) \<and> map (ks_seq \<circ> snd) (jf_keys fld) = [0..<length (jf_keys fld)]"

lemma set_key_new: "map_of kv k = None \<Longrightarrow> set_key k v kv = kv @ [(k, v)]"
  by (induction kv rule: induct_list012) (auto simp: map_of_eq_None_iff split: if_splits)

lemma set_key_old:
  "map_of kv k = Some u \<Longrightarrow> map fst (set_key k v kv) = map fst kv \<and>
     (f v = f u \<longrightarrow> map (f \<circ> snd) (set_key k v kv) = map (f \<circ> snd) kv)"
  by (induction kv) (auto split: if_splits)

lemma set_key_ok:
  assumes "fold_ok fld" "ks_seq v = (case map_of (jf_keys fld) k of None \<Rightarrow> length (jf_keys fld) | Some p \<Rightarrow> ks_seq p)"
  shows "fold_ok \<lparr>jf_keys = set_key k v (jf_keys fld), jf_starts = ss\<rparr>"
proof (cases "map_of (jf_keys fld) k")
  case None
  then have "k \<notin> fst ` set (jf_keys fld)" by (simp add: map_of_eq_None_iff)
  with None assms show ?thesis by (simp add: fold_ok_def set_key_new)
next
  case (Some u)
  from set_key_old[OF Some, of v ks_seq] have "map fst (set_key k v (jf_keys fld)) = map fst (jf_keys fld)"
    "map (ks_seq \<circ> snd) (set_key k v (jf_keys fld)) = map (ks_seq \<circ> snd) (jf_keys fld)" using assms(2) Some by auto
  moreover from this(1) have "length (set_key k v (jf_keys fld)) = length (jf_keys fld)" by (metis length_map)
  ultimately show ?thesis using assms(1) by (simp add: fold_ok_def)
qed

lemma fold_line_ok: "fold_ok fld \<Longrightarrow> fold_ok (fold_line fld line)"
proof (cases line)
  case (Some l)
  assume f: "fold_ok fld"
  have u: "fld\<lparr>jf_keys := kv\<rparr> = \<lparr>jf_keys = kv, jf_starts = jf_starts fld\<rparr>" for kv by (cases fld) simp
  show ?thesis
    unfolding fold_line_def Some option.case Let_def u
    by (cases "jl_type l") (use f in \<open>auto intro!: set_key_ok\<close>)
qed (simp add: fold_line_def)

lemma foldJournal_ok: "fold_ok (foldJournal parse emptyFold lines)"
proof -
  have "fold_ok fld \<Longrightarrow> fold_ok (foldl (\<lambda>f text. fold_line f (parse text)) fld lines)" for fld
    by (induction lines arbitrary: fld) (simp_all add: fold_line_ok)
  then show ?thesis by (simp add: foldJournal_def) (simp add: fold_ok_def emptyFold_def)
qed

section \<open>The passes of the reader\<close>

text \<open>The passes of the reader over one run, each with the size it was told and the answers it got.\<close>

definition passes ::
  "(byte list \<Rightarrow> 't) \<Rightarrow> ('t \<Rightarrow> bool) \<Rightarrow> ('t \<Rightarrow> journal_line option) \<Rightarrow>
   (nat \<times> (nat \<Rightarrow> nat \<Rightarrow> byte list option)) list \<Rightarrow> run_cache \<Rightarrow> run_cache" where
  "passes decode blank parse ts run =
     foldl (\<lambda>run (len, rd). snd (readJournal decode blank parse rd len run)) run ts"

lemma passes_ok:
  "\<forall>t \<in> set ts. honest (snd t) content \<Longrightarrow> journal_ok decode blank parse content run \<Longrightarrow>
   journal_ok decode blank parse content (passes decode blank parse ts run)"
  by (induction ts arbitrary: run) (auto simp: passes_def readJournal_ok)

lemma newRun_ok: "journal_ok decode blank parse content newRun"
  by (simp add: journal_ok_def newRun_def frame_carry_def carry_of_Nil frame_lines_def foldJournal_def)

text \<open>C38: reading the journal in pieces is reading it whole. However many passes there were, in
  whatever pieces the bytes came, wherever a line or a character was cut and whichever reads
  failed, the run holds the counts and the carry of the bytes before its offset framed in one
  go, each key once and numbered in the order it was first seen. A journal that shrank is read
  again from its start. A pass whose reads all answer m bytes or what is left reaches
  the end, or is sixteen reads further.\<close>

theorem journal_pieces_whole:
  assumes "\<forall>t \<in> set ts. honest (snd t) content"
  shows "journal_ok decode blank parse content (passes decode blank parse ts newRun) \<and>
    fold_ok (rc_fold (passes decode blank parse ts newRun)) \<and>
    (\<forall>rd len other. honest rd other \<and> len < rc_offset (passes decode blank parse ts newRun) \<longrightarrow>
       journal_ok decode blank parse other (snd (readJournal decode blank parse rd len (passes decode blank parse ts newRun)))) \<and>
    (\<forall>rd m. (\<forall>i k. rd i k = Some (take m (drop k content))) \<and> 0 < m \<longrightarrow>
       fst (readJournal decode blank parse rd (length content) (passes decode blank parse ts newRun)) \<and>
       rc_offset (snd (readJournal decode blank parse rd (length content) (passes decode blank parse ts newRun))) =
         min (length content) (rc_offset (passes decode blank parse ts newRun) + JOURNAL_CHUNKS_PER_TICK * m))"
proof -
  let ?r = "passes decode blank parse ts newRun"
  have ok: "journal_ok decode blank parse content ?r" by (rule passes_ok[OF assms newRun_ok])
  then have k: "fold_ok (rc_fold ?r)" "rc_offset ?r \<le> length content" by (simp_all add: journal_ok_def foldJournal_ok)
  then have e: "(if length content < rc_offset ?r then reset_run ?r else ?r) = ?r" by simp
  have "fst (readJournal decode blank parse rd (length content) ?r) \<and>
       rc_offset (snd (readJournal decode blank parse rd (length content) ?r)) =
         min (length content) (rc_offset ?r + JOURNAL_CHUNKS_PER_TICK * m)"
    if "\<forall>i k. rd i k = Some (take m (drop k content))" "0 < m" for rd m
    unfolding readJournal_def e by (rule journal_loop_full) (use that k(2) in auto)
  with ok k(1) readJournal_ok show ?thesis by blast
qed

lemma demo_honest: "honest (\<lambda>i k. Some (take 2 (drop k content))) content"
  by (simp add: honest_def take_is_prefix)

theorem journal_pieces_whole_witness:
  "rc_offset (snd (readJournal id ((=) []) (\<lambda>_. None) (\<lambda>i k. Some (take 2 (drop k [65, 10, 66]))) 3
     (passes id ((=) []) (\<lambda>_. None) [(2, \<lambda>i k. Some (take 2 (drop k [65, 10, 66])))] newRun))) = 3"
proof -
  let ?rd = "\<lambda>i k. Some (take 2 (drop k [65, 10, 66 :: byte]))"
  have "\<forall>t \<in> set [(2 :: nat, ?rd)]. honest (snd t) [65, 10, 66]" using demo_honest by auto
  from journal_pieces_whole[OF this, of id "(=) []" "\<lambda>_. None"] have
    "\<And>rd m. (\<forall>i k. rd i k = Some (take m (drop k [65, 10, 66 :: byte]))) \<and> 0 < m \<Longrightarrow>
       rc_offset (snd (readJournal id ((=) []) (\<lambda>_. None) rd (length [65, 10, 66 :: byte]) (passes id ((=) []) (\<lambda>_. None) [(2, ?rd)] newRun))) =
         min (length [65, 10, 66 :: byte]) (rc_offset (passes id ((=) []) (\<lambda>_. None) [(2, ?rd)] newRun) + JOURNAL_CHUNKS_PER_TICK * m)"
    by blast
  from this[of ?rd 2] show ?thesis by (simp add: JOURNAL_CHUNKS_PER_TICK_def numeral_3_eq_3)
qed

section \<open>The search for the start\<close>

definition after_floor :: "int option \<Rightarrow> int option \<Rightarrow> bool" where
  "after_floor floor at = (case at of None \<Rightarrow> False | Some t \<Rightarrow> (case floor of None \<Rightarrow> True | Some f \<Rightarrow> f < t))"

text \<open>The start of the first agent, in journal order, that began after the floor.\<close>

definition true_start :: "(string \<Rightarrow> int option) \<Rightarrow> int option \<Rightarrow> string list \<Rightarrow> int option" where
  "true_start started floor as = Option.bind (find (\<lambda>a. after_floor floor (started a)) as) started"

definition known_or :: "(string \<rightharpoonup> int option) \<Rightarrow> (string \<Rightarrow> int option) \<Rightarrow> string \<Rightarrow> int option" where
  "known_or starts stat a = (case starts a of None \<Rightarrow> stat a | Some v \<Rightarrow> v)"

lemma true_start_Cons:
  "true_start started floor (a # as) = (if after_floor floor (started a) then started a else true_start started floor as)"
  by (simp add: true_start_def)

lemma known_or_Some: "starts a = Some v \<Longrightarrow> known_or starts stat a = v"
  by (simp add: known_or_def)

lemma first_after_StartAt: "first_after as starts floor = StartAt at \<Longrightarrow> at = true_start (known_or starts stat) floor as"
proof (induction as)
  case (Cons a as)
  then show ?case
    by (cases "starts a"; cases "the (starts a)")
      (auto simp: true_start_Cons known_or_Some after_floor_def split: if_splits option.splits)
qed (simp add: true_start_def)

lemma first_after_StartNeed: "first_after as starts floor = StartNeed a \<Longrightarrow> a \<in> set as \<and> starts a = None"
  by (induction as) (auto split: option.splits if_splits)

lemma known_or_upd: "starts a = None \<Longrightarrow> known_or (starts(a \<mapsto> stat a)) stat = known_or starts stat"
  by (auto simp: known_or_def fun_eq_iff)

definition unknown_starts :: "journal_fold \<Rightarrow> (string \<rightharpoonup> int option) \<Rightarrow> nat" where
  "unknown_starts fld starts = card (set (jf_starts fld) - dom starts)"

lemma unknown_starts_need:
  assumes "firstAgentAfter fld starts floor = StartNeed a"
  shows "a \<in> set (jf_starts fld) \<and> starts a = None \<and>
    unknown_starts fld starts = Suc (unknown_starts fld (starts(a \<mapsto> v)))"
proof -
  from first_after_StartNeed assms
  have a: "a \<in> set (jf_starts fld)" "starts a = None" by (auto simp: firstAgentAfter_def)
  then have "set (jf_starts fld) - dom starts = insert a (set (jf_starts fld) - dom (starts(a \<mapsto> v)))" by auto
  moreover have "a \<notin> set (jf_starts fld) - dom (starts(a \<mapsto> v))" by simp
  ultimately have "unknown_starts fld starts = Suc (unknown_starts fld (starts(a \<mapsto> v)))"
    unfolding unknown_starts_def by (simp only: card_insert_disjoint finite_Diff List.finite_set not_False_eq_True)
  with a show ?thesis by blast
qed

lemma start_loop_learns:
  assumes "start_loop stat fld floor starts budget = (at, known, left)"
  shows "starts \<subseteq>\<^sub>m known \<and>
    (\<forall>a \<in> dom known - dom starts. a \<in> set (jf_starts fld) \<and> known a = Some (stat a)) \<and>
    finite (dom known - dom starts) \<and> budget - left = int (card (dom known - dom starts)) \<and> budget - left \<le> max 0 budget"
  using assms
proof (induction stat fld floor starts budget rule: start_loop.induct)
  case (1 stat fld floor starts budget)
  show ?case
  proof (cases "firstAgentAfter fld starts floor")
    case (StartAt t)
    with "1.prems" show ?thesis by (simp add: start_loop.simps[of _ _ _ starts])
  next
    case (StartNeed a)
    note a = unknown_starts_need[OF StartNeed]
    show ?thesis
    proof (cases "budget \<le> 0")
      case True
      with StartNeed "1.prems" show ?thesis by (simp add: start_loop.simps[of _ _ _ starts])
    next
      case False
      let ?s = "starts(a \<mapsto> stat a)"
      from StartNeed False "1.prems" have "start_loop stat fld floor ?s (budget - 1) = (at, known, left)"
        by (simp add: start_loop.simps[of _ _ _ starts])
      note ih = "1.IH"[OF StartNeed False this, folded fun_upd_def]
      then have k: "known a = Some (stat a)" by (metis domI fun_upd_same map_le_def)
      have d: "dom known - dom starts = insert a (dom known - dom ?s)" using k a by auto
      have c: "int (card (insert a (dom known - dom ?s))) = 1 + int (card (dom known - dom ?s))"
      proof -
        have "finite (dom known - dom ?s)" using ih by blast
        moreover have "a \<notin> dom known - dom ?s" by simp
        ultimately show ?thesis by (metis card_insert_disjoint of_nat_Suc)
      qed
      have "starts \<subseteq>\<^sub>m ?s" using conjunct1[OF conjunct2[OF a]] by (auto simp: map_le_def)
      then have le: "starts \<subseteq>\<^sub>m known" using ih map_le_trans by blast
      have l: "\<forall>b \<in> insert a (dom known - dom ?s). b \<in> set (jf_starts fld) \<and> known b = Some (stat b)"
        using ih a k by blast
      have "budget - left = 1 + int (card (dom known - dom ?s))" "budget - left \<le> max 0 budget"
        using conjunct1[OF conjunct2[OF conjunct2[OF conjunct2[OF ih]]]] conjunct2[OF conjunct2[OF conjunct2[OF conjunct2[OF ih]]]] False
        by linarith+
      moreover have "finite (insert a (dom known - dom ?s))" using ih by blast
      ultimately show ?thesis unfolding d c using le l by blast
    qed
  qed
qed

lemma start_loop_finds:
  assumes "start_loop stat fld floor starts budget = (at, known, left)"
  shows "(at = true_start (known_or starts stat) floor (jf_starts fld) \<or> (at = None \<and> left \<le> 0)) \<and>
    (int (unknown_starts fld starts) \<le> budget \<longrightarrow> at = true_start (known_or starts stat) floor (jf_starts fld))"
  using assms
proof (induction stat fld floor starts budget rule: start_loop.induct)
  case (1 stat fld floor starts budget)
  show ?case
  proof (cases "firstAgentAfter fld starts floor")
    case (StartAt t)
    with "1.prems" have "first_after (jf_starts fld) starts floor = StartAt at"
      by (simp add: start_loop.simps[of _ _ _ starts] firstAgentAfter_def)
    from first_after_StartAt[OF this] show ?thesis by blast
  next
    case (StartNeed a)
    note a = unknown_starts_need[OF StartNeed, of "stat a"]
    show ?thesis
    proof (cases "budget \<le> 0")
      case True
      with StartNeed "1.prems" a show ?thesis by (simp add: start_loop.simps[of _ _ _ starts])
    next
      case False
      from StartNeed False "1.prems" have "start_loop stat fld floor (starts(a \<mapsto> stat a)) (budget - 1) = (at, known, left)"
        by (simp add: start_loop.simps[of _ _ _ starts])
      note ih = "1.IH"[OF StartNeed False this, folded fun_upd_def]
      from a have "int (unknown_starts fld starts) \<le> budget \<Longrightarrow> int (unknown_starts fld (starts(a \<mapsto> stat a))) \<le> budget - 1"
        by simp
      with ih a show ?thesis unfolding known_or_upd[where starts = starts and a = a and stat = stat, OF conjunct1[OF conjunct2[OF a]]] by blast
    qed
  qed
qed

text \<open>C39: the search for the start ends. It asks for the time of an agent at most once, only of
  agents the journal started and it does not know, never beyond the budget, and keeps what it
  knew; with budget for the agents it does not know it answers the start of the first agent
  after the floor, in journal order, and otherwise either that or nothing with the budget spent.\<close>

theorem start_search_ends:
  "case start_loop stat fld floor starts budget of (at, known, left) \<Rightarrow>
    starts \<subseteq>\<^sub>m known \<and>
    (\<forall>a \<in> dom known - dom starts. a \<in> set (jf_starts fld) \<and> known a = Some (stat a)) \<and>
    budget - left = int (card (dom known - dom starts)) \<and> budget - left \<le> max 0 budget \<and>
    (at = true_start (known_or starts stat) floor (jf_starts fld) \<or> (at = None \<and> left \<le> 0)) \<and>
    (int (unknown_starts fld starts) \<le> budget \<longrightarrow> at = true_start (known_or starts stat) floor (jf_starts fld))"
proof -
  obtain at known left where r: "start_loop stat fld floor starts budget = (at, known, left)" by (metis prod_cases3)
  show ?thesis using start_loop_learns[OF r] start_loop_finds[OF r] by (simp add: r)
qed

theorem start_search_ends_witness:
  "fst (start_loop (\<lambda>a. if a = ''y'' then Some 7 else None) \<lparr>jf_keys = [], jf_starts = [''x'', ''y'', ''z'']\<rparr> (Some 5) Map.empty 3) = Some 7"
proof -
  let ?stat = "\<lambda>a. if a = ''y'' then Some 7 else (None :: int option)" and ?f = "\<lparr>jf_keys = [], jf_starts = [''x'', ''y'', ''z'']\<rparr>"
  have u: "unknown_starts ?f Map.empty = 3" by (simp add: unknown_starts_def)
  have t: "true_start (known_or Map.empty ?stat) (Some 5) (jf_starts ?f) = Some 7"
    by (simp add: true_start_def known_or_def after_floor_def)
  show ?thesis using start_search_ends[where stat = ?stat and fld = ?f and floor = "Some 5" and starts = Map.empty and budget = 3] unfolding u t by (simp split: prod.splits)
qed

end
