(* ===== verification/WorkflowRows.thy ===== *)
theory WorkflowRows
  imports Workflows "HOL-Library.Multiset"
begin

text \<open>
  The rows of the workflows are well-formed: the cut of the agents, the counts, the choice of
  the rows to show.
\<close>

section \<open>The cut\<close>

lemma keep_done_eq: "keep_done keep ds = rev (take (WORKFLOW_AGENTS_MAX - length keep) ds) @ keep"
proof (induction ds arbitrary: keep)
  case (Cons d ds)
  show ?case
  proof (cases "length keep < WORKFLOW_AGENTS_MAX")
    case True
    then obtain n where "WORKFLOW_AGENTS_MAX - length keep = Suc n" by (metis Suc_diff_Suc)
    moreover from this have "WORKFLOW_AGENTS_MAX - length (d # keep) = n" by simp
    ultimately show ?thesis using True Cons.IH[of "d # keep"] by simp
  qed simp
qed simp

lemma length_filters: "length (filter P xs) + length (filter (\<lambda>x. \<not> P x) xs) = length xs"
  by (rule sum_length_filter_compl)

lemma length_last_n [simp]: "length (last_n n xs) = min n (length xs)"
  by (simp add: last_n_def)

lemma set_last_n: "set (last_n n xs) \<subseteq> set xs"
  by (simp add: last_n_def set_drop_subset)

lemma last_n_all: "length xs \<le> n \<Longrightarrow> last_n n xs = xs"
  by (simp add: last_n_def)

text \<open>The places kept: all the room there is, and a done agent only when every other one is kept.\<close>

definition kept_places :: "agent_view list \<Rightarrow> nat list" where
  "kept_places ordered =
     keep_done (last_n WORKFLOW_AGENTS_MAX (filter (\<lambda>i. av_state (ordered ! i) \<noteq> AgentDone) [0..<length ordered]))
       (rev (filter (\<lambda>i. av_state (ordered ! i) = AgentDone) [0..<length ordered]))"

lemma cutAgents_cases:
  "cutAgents rows =
     (let ordered = map snd (sort_key fst rows);
          agents = map ((!) ordered) (filter (\<lambda>i. i \<in> set (kept_places ordered)) [0..<length ordered]) in
      if length ordered \<le> WORKFLOW_AGENTS_MAX then (ordered, 0) else (agents, length ordered - length agents))"
  by (simp add: cutAgents_def kept_places_def Let_def)

lemma kept_places_props:
  fixes ordered :: "agent_view list"
  assumes "length ordered > WORKFLOW_AGENTS_MAX"
  shows "distinct (kept_places ordered) \<and> set (kept_places ordered) \<subseteq> {0..<length ordered} \<and>
    length (kept_places ordered) = WORKFLOW_AGENTS_MAX \<and>
    (\<forall>i \<in> set (kept_places ordered). av_state (ordered ! i) = AgentDone \<longrightarrow>
       (\<forall>j < length ordered. av_state (ordered ! j) \<noteq> AgentDone \<longrightarrow> j \<in> set (kept_places ordered)))"
proof -
  let ?u = "filter (\<lambda>i. av_state (ordered ! i) \<noteq> AgentDone) [0..<length ordered]"
  let ?d = "filter (\<lambda>i. av_state (ordered ! i) = AgentDone) [0..<length ordered]"
  let ?k = "last_n WORKFLOW_AGENTS_MAX ?u"
  let ?t = "take (WORKFLOW_AGENTS_MAX - length ?k) (rev ?d)"
  have e: "kept_places ordered = rev ?t @ ?k" by (simp add: kept_places_def keep_done_eq)
  have l: "length ?u + length ?d = length ordered"
    using length_filters[of "\<lambda>i. av_state (ordered ! i) = AgentDone" "[0..<length ordered]"] by simp
  have t: "set ?t \<subseteq> set ?d" by (metis set_rev set_take_subset)
  have k: "set ?k \<subseteq> set ?u" by (rule set_last_n)
  have dist: "distinct (kept_places ordered)"
    unfolding e distinct_append using t k by (fastforce simp: last_n_def intro: distinct_drop distinct_take)
  have len: "length (kept_places ordered) = WORKFLOW_AGENTS_MAX"
    unfolding e using l assms by (simp only: length_append length_rev length_take length_last_n)
  have sub: "set (kept_places ordered) \<subseteq> {0..<length ordered}" unfolding e using t k by auto
  have urg: "j \<in> set (kept_places ordered)"
    if i: "i \<in> set (kept_places ordered)" "av_state (ordered ! i) = AgentDone"
      and j: "j < length ordered" "av_state (ordered ! j) \<noteq> AgentDone" for i j
  proof -
    from i k have "i \<in> set ?t" unfolding e by auto
    then have "WORKFLOW_AGENTS_MAX - length ?k > 0" by (cases "WORKFLOW_AGENTS_MAX - length ?k") auto
    then have "length ?u < WORKFLOW_AGENTS_MAX" by (simp only: length_last_n)
    then have "?k = ?u" by (intro last_n_all less_imp_le)
    with j show ?thesis unfolding e by auto
  qed
  show ?thesis using dist len sub urg by blast
qed

text \<open>What a cut keeps of the rows in schedule order.\<close>

definition cut_ok :: "agent_view list \<Rightarrow> agent_view list \<Rightarrow> nat \<Rightarrow> bool" where
  "cut_ok ordered agents omitted \<longleftrightarrow>
     length agents = min WORKFLOW_AGENTS_MAX (length ordered) \<and> length agents + omitted = length ordered \<and>
     subseq agents ordered \<and>
     ((\<exists>a \<in> set agents. av_state a = AgentDone) \<longrightarrow>
        filter (\<lambda>a. av_state a \<noteq> AgentDone) agents = filter (\<lambda>a. av_state a \<noteq> AgentDone) ordered)"

lemma cutAgents_ok: "case cutAgents rows of (agents, omitted) \<Rightarrow> cut_ok (map snd (sort_key fst rows)) agents omitted"
proof (cases "length (map snd (sort_key fst rows)) \<le> WORKFLOW_AGENTS_MAX")
  case True
  then show ?thesis by (simp add: cutAgents_cases Let_def cut_ok_def)
next
  case False
  define ordered where "ordered = map snd (sort_key fst rows)"
  define P where "P = (\<lambda>i. i \<in> set (kept_places ordered))"
  let ?a = "map ((!) ordered) (filter P [0..<length ordered])"
  from False have lt: "length ordered > WORKFLOW_AGENTS_MAX" by (simp add: ordered_def)
  note k = kept_places_props[OF lt]
  have "length (filter P [0..<length ordered]) = card ({i. i < length ordered \<and> P i})"
    by (subst length_filter_conv_card) (rule arg_cong[where f = card], auto)
  also have "{i. i < length ordered \<and> P i} = set (kept_places ordered)" using k by (auto simp: P_def)
  also have "card \<dots> = WORKFLOW_AGENTS_MAX" using k by (simp add: distinct_card)
  finally have len: "length ?a = WORKFLOW_AGENTS_MAX" by simp
  have "subseq ?a (map ((!) ordered) [0..<length ordered])" by (intro subseq_map subseq_filter_left)
  then have sub: "subseq ?a ordered" by (simp add: map_nth)
  have fil: "filter (\<lambda>a. av_state a \<noteq> AgentDone) ?a = filter (\<lambda>a. av_state a \<noteq> AgentDone) ordered"
    if "\<exists>a \<in> set ?a. av_state a = AgentDone"
  proof -
    from that obtain i where i: "P i" "av_state (ordered ! i) = AgentDone" by auto
    have all: "P j" if "j < length ordered" "av_state (ordered ! j) \<noteq> AgentDone" for j
      using k i that by (auto simp: P_def)
    have "filter (\<lambda>a. av_state a \<noteq> AgentDone) (map ((!) ordered) [0..<length ordered]) =
        filter (\<lambda>a. av_state a \<noteq> AgentDone) ?a"
      using all by (auto simp: filter_map o_def intro!: arg_cong[where f = "map ((!) ordered)"] filter_cong)
    then show ?thesis by (simp add: map_nth)
  qed
  have c: "cutAgents rows = (?a, length ordered - length ?a)"
    using lt by (simp add: cutAgents_cases Let_def P_def flip: ordered_def)
  show ?thesis unfolding c ordered_def[symmetric] cut_ok_def prod.case using len lt sub fil by auto
qed

section \<open>The rows\<close>

text \<open>The type of a row: the counts are known together and add up, nothing is listed without them, the
  list is bounded, and exactly a running row has no end.\<close>

definition row_ok :: "workflow_view \<Rightarrow> bool" where
  "row_ok v \<longleftrightarrow>
     (case (wv_done v, wv_failed v, wv_total v) of
        (Some d, Some f, Some t) \<Rightarrow> d + f \<le> t \<and> length (wv_agents v) + wv_agentsOmitted v \<le> t
      | (None, None, None) \<Rightarrow> wv_agents v = [] \<and> wv_agentsOmitted v = 0
      | _ \<Rightarrow> False) \<and>
     length (wv_agents v) \<le> WORKFLOW_AGENTS_MAX \<and> (wv_state v = WfRunning \<longleftrightarrow> wv_endedAt v = None)"

lemma two_filters: "(\<And>x. \<not> (P x \<and> Q x)) \<Longrightarrow> length (filter P xs) + length (filter Q xs) \<le> length xs"
  by (induction xs) auto

lemma runningView_ok: "row_ok (runningView r)"
proof -
  obtain ag om where c: "cutAgents (map (key_row r) (map snd (jf_keys (ri_fold r)))) = (ag, om)" by force
  with cutAgents_ok[of "map (key_row r) (map snd (jf_keys (ri_fold r)))"]
  have l: "length ag \<le> WORKFLOW_AGENTS_MAX" "length ag + om = length (jf_keys (ri_fold r))" by (auto simp: cut_ok_def)
  have two: "length (filter (\<lambda>k. ks_last k = KResult) ks) + length (filter (\<lambda>k. ks_last k = KFailed) ks) \<le> length ks" for ks :: "key_state list"
    by (rule two_filters) auto
  show ?thesis using l two[of "map snd (jf_keys (ri_fold r))"] by (simp add: row_ok_def runningView_def Let_def c del: map_map filter_map)
qed

lemma summaryView_ok:
  assumes "sf_status f \<noteq> WfRunning"
  shows "row_ok (summaryView wid f mtime name)"
proof -
  obtain ag om where c: "cutAgents (sf_agents f) = (ag, om)" by force
  with cutAgents_ok[of "sf_agents f"]
  have l: "length ag \<le> WORKFLOW_AGENTS_MAX" "length ag + om = length (sf_agents f)" by (auto simp: cut_ok_def)
  have two: "length (filter (\<lambda>a. av_state a = AgentDone) vs) + length (filter (\<lambda>a. av_state a = AgentFailed) vs) \<le> length vs" for vs :: "agent_view list"
    by (rule two_filters) auto
  have m: "length (sf_agents f) \<le> max (case sf_agentCount f of None \<Rightarrow> 0 | Some n \<Rightarrow> n) (length (sf_agents f))" by simp
  have e: "row_ok (summaryView wid f mtime name) \<longleftrightarrow>
      length (filter (\<lambda>a. av_state a = AgentDone) (map snd (sf_agents f))) +
        length (filter (\<lambda>a. av_state a = AgentFailed) (map snd (sf_agents f)))
        \<le> max (case sf_agentCount f of None \<Rightarrow> 0 | Some n \<Rightarrow> n) (length (sf_agents f)) \<and>
      length ag + om \<le> max (case sf_agentCount f of None \<Rightarrow> 0 | Some n \<Rightarrow> n) (length (sf_agents f)) \<and>
      length ag \<le> WORKFLOW_AGENTS_MAX"
    using assms by (simp add: row_ok_def summaryView_def Let_def c)
  show ?thesis unfolding e using l m two[of "map snd (sf_agents f)"] by simp
qed

lemma row_ok_shown: "row_ok v \<Longrightarrow> shown now v \<longleftrightarrow> (\<forall>e. wv_endedAt v = Some e \<longrightarrow> now - e < WORKFLOW_EVICT_MS)"
  by (auto simp: shown_def row_ok_def split: option.splits)


definition demo_facts :: summary_facts where
  "demo_facts = \<lparr>sf_status = WfCompleted, sf_workflowName = None, sf_startTime = Some 0, sf_durationMs = Some 5,
     sf_totalTokens = None, sf_agentCount = None, sf_phases = None, sf_agents = []\<rparr>"

definition demo_running :: running_input where
  "demo_running = \<lparr>ri_id = ''w'', ri_name = None, ri_fold = emptyFold, ri_tokens = Map.empty, ri_meta = Map.empty,
     ri_phases = None, ri_startedAt = None, ri_unread = False\<rparr>"


end
