(* ===== verification/Spec2Isabelle.thy ===== *)
theory Spec2Isabelle
  imports ClaimSafety LeasePlan RateProps LaneProps TokenDoorProps TokenSafety LandingProps LandingEdges UpdateFlow UpdateProjection NodeSafety DispatchWords ReleaseProps IntentProps FleetSafety WorkflowProps WorkflowRows
begin

text \<open>
  A verification library for the coordination server of this repository: TypeScript under
  \<open>server/src\<close> with the rules it shares with its clients under \<open>shared\<close>. The server watches the
  sessions of a fleet of boxes; its decisions are pure functions over rows of a database, over
  measurements and over small states that the watcher keeps between ticks. Those functions,
  the states and the loops that drive them are modelled here.

  \<^bold>\<open>Parts, and the theories that model them.\<close>

  \<^item> Path claims. \<open>coord/claims.ts\<close> decides (\<open>normalizeClaimPath\<close>, \<open>pathsOverlap\<close>, \<open>decideClaim\<close>,
    \<open>claimExpiry\<close>): theory Claims. The claim tables of \<open>coord/store.ts\<close> and the renew and lapse
    sweeps of \<open>watch.ts\<close> apply the decisions: ClaimStore (the database as a record of two lists of
    rows, one operation per method), ClaimInv (the invariant and its preservation),
    ClaimSafety (reachable databases: exclusiveness, all or nothing, history).
  \<^item> Delegation leases. The transition table of \<open>coord/delegation-lease-state.ts\<close> over the rows of
    \<open>coord/delegation-model.ts\<close>: LeaseState (fold of the entries, decisions), LeaseProps (replay
    refines the live table, generations, final states), LeasePlan (the plan for native rows).
  \<^item> Sign-in brakes. \<open>auth/ratelimit.ts\<close>: RateLimit and RateProps (the login window with its slots,
    the step-up budgets as a refinement of a map of counters).
  \<^item> Watcher lanes. \<open>laneRunner.ts\<close> and \<open>laneSchedule.ts\<close>: LaneRunner and LaneProps (an interleaving
    of starts, runs and settles as a step relation; single flight; the cadence of a beat).
  \<^item> Box token. \<open>token/policy.ts\<close> and \<open>shared/box-token.ts\<close>: TokenPolicy (gate, schedule, fold of an
    answer, recovery plan); \<open>token/door.ts\<close> and \<open>token/digestSlots.ts\<close>: TokenDoor and TokenDoorProps
    (single use of a code, the branch-free matcher on 32-bit words); \<open>token/driver.ts\<close>: TokenDriver, with
    TokenProps and TokenSafety (the invariant of the driver over every run of its events).
  \<^item> Landing lane. \<open>shared/landing.ts\<close>: LandingWords (the details and their readers);
    \<open>coord/landing.ts\<close> and the sweep of one line in \<open>watch.ts\<close>: Landing, LandingProps (the notice, the
    required checks) and LandingEdges (generations, mails, the bound).
  \<^item> Fleet update, the decisions. \<open>shared/semver.ts\<close>: UpdateTags (digit strings compared as the code does,
    and their order); \<open>update/resolve.ts\<close>: UpdateResolve (the tag a node should run) and
    UpdateProjection (the guard of the tags that enter, the rendered document); \<open>update/dispatch.ts\<close>
    with \<open>shared/update-move.ts\<close>: UpdateDispatch and UpdateProps (gate, refusals, plan,
    deadline, follow-through) and DispatchWords (every sentence the dispatcher writes, and the answer of
    an operation in words); UpdateFlow composes resolver and dispatcher. FleetTypes holds the
    words of \<open>shared/api.ts\<close> that the token policy and the update share.
  \<^item> Fleet update, the tables of \<open>coord/store.ts\<close>. \<open>nodes\<close> and \<open>node_release_refusals\<close>: NodeStore (one
    operation per method, each UPDATE as its WHERE and SET), NodeInv, NodeRekey and NodeSafety (keys, one
    lease, identities, over every run of them). \<open>releases\<close>: ReleaseStore and ReleaseProps.
    \<open>update_intent\<close> and \<open>update_epoch\<close> with the journal of \<open>updateintentlog.ts\<close> and the kernel
    \<open>journalKernel.ts\<close>: IntentStore and IntentProps.
  \<^item> Fleet update, the acts. \<open>update/inventory.ts\<close> with \<open>fleetidentity.ts\<close>: Inventory (the files of a node, their
    validators, the phase table, one measurement into the store, the sweep of both connections). \<open>update/project.ts\<close>
    and \<open>update/converge.ts\<close>: Converge (the resolver over every node, the dispatch run up to its await, its
    answer, the follow-through) and ConvergeProps (plan and acquire agree).
  \<^item> The fleet machine, which has no file of its own: the store, the operations sent and not answered, and every event of the parts
    above in any order. FleetMachine (the events), NodeEvolve (how a lease may change), FleetSweep (one measurement, stage by
    stage), FleetPlaces (one row per connection), FleetInv (the invariant), FleetDemo (a run, for the witnesses),
    FleetSafety (what the machine promises).
  \<^item> Session workflows. \<open>workflows/model.ts\<close> and the journal and start loops of \<open>workflows/read.ts\<close>:
    Workflows, WorkflowProps (framing, incremental reading, search for the start),
    WorkflowRows (the rows shown).

  Prelude holds the model of strings, shared list facts and the hint collections.

  \<^bold>\<open>How the code is rendered.\<close> An interface is a record with a prefix per record, a union of words a
  datatype, a throwing path an option, a table of rows a list in row order, a JavaScript
  Map read by key a partial map, one whose order is read an association list. A number that
  is a count is a natural number, one that may be negative or is an instant an integer; where the
  code works on 32 bits the model does (TokenDoor). The answers of the database, of the forge, of
  a disk read and of another box are arguments: a function of what is asked, or a value. What is
  assumed of them stands in the statement that needs it (\<open>honest\<close> in WorkflowProps: reads of an
  append-only file answer pieces of it) and has a witness.

  \<^bold>\<open>What the lemma groups show.\<close> Each operation has its behaviour on every branch (the lemmas named
  after it with \<open>_cases\<close>, \<open>_None\<close>, \<open>_Some\<close>, \<open>_sel\<close>), each component its invariant with one
  preservation lemma per operation and one for the step (\<open>claims_inv\<close>, \<open>limiter_inv\<close>, \<open>su_inv\<close>,
  \<open>flight_inv\<close>, \<open>door_inv\<close>, \<open>driver_inv\<close>, \<open>rows_ok\<close>, \<open>journal_ok\<close>, \<open>node_inv\<close>, \<open>fleet_ok\<close>), and the properties rest on
  them. An operation of the nodes table that takes no lease is \<open>quiet\<close> (NodeInv) and lets the leases \<open>evolves\<close>
  (NodeEvolve), a transitive relation, so what holds of one operation holds of a sweep, a stretch or a run. The
  properties are the numbered blocks C1, C2 and so on of the theories: claims in Claims and
  ClaimSafety, leases in LeaseProps, brakes in RateProps, lanes in LaneProps, the token in TokenDoorProps and
  TokenSafety, landing in LandingWords, LandingProps and LandingEdges, the update in the theories named above, workflows in
  WorkflowProps and WorkflowRows.

  \<^bold>\<open>Loops and bounds.\<close> No function here uses fuel that the code does not have. The loop of the landing
  sweep and the search for the start (\<open>landing_loop\<close>, \<open>start_loop\<close>) are general recursions with a
  termination proof: the first by the facts not read yet, the second by the budget of reads.
  The journal loop ends at the sixteen chunks the code allows. Lists are unbounded; the
  matcher alone is stated for fewer than 2^31 slots, the width of its counter.

  \<^bold>\<open>Not modelled.\<close> Characters above code 255 in a string (their order and case are not those of
  this model). The prose of the messages of claims, leases, landing and the token, kept as the case it
  names with its arguments; the prose of the update is modelled. The text of JSON and of script sources, and the decoding of
  UTF-8: their parsers are arguments of the definitions that call them, and what the code reads of a parsed value is modelled. Of the
  update: the poll of the release listing, the routes, the box settings, the notices and the bounded child process. Of the
  workflows: the tail reads of the agents and the pass over all runs. Of the token: files, link, boot and routes. Of the
  store: the tables of runs, messages, questions and ledgers. The HTTP routes,
  the transcript readers, the agent process, the shell and Python tools under \<open>ccd\<close> and
  \<open>deploy\<close> and the web client decide little of their own over state that is not I/O, or are in another
  language. A violated constraint inside a store method throws in the code and ends a sweep with its error; here it is the
  refusal \<open>UniqueViolation\<close>, and the invariants show where it cannot happen.
\<close>

end
